(* ===== verification/Prelude.thy ===== *)
theory Prelude
  imports Main "HOL-Library.Word"
begin

text \<open>
  The names every component shares: Go's machine integers, the SDK's error values, the
  result of a fallible call, and the generic lemmas on lists and results that the
  component theories use.

  Conventions. A Go \<open>int\<close> or \<open>int64\<close> is an \<^typ>\<open>int\<close>; the places where the code's
  arithmetic can leave the 64-bit range apply \<open>wrap64\<close>, two's complement wrap-around.
  Identifiers that are only compared, counted or shifted (\<open>uint32\<close>, \<open>uint64\<close>) are words
  of that width. A Go \<open>string\<close> or \<open>[]byte\<close> is a list of bytes. A call that returns
  \<open>(value, error)\<close> is a value of \<open>error + value\<close>, \<open>Inl\<close> being the error.
\<close>

named_theorems go_simps \<open>unfolding the small helpers of the Go library model\<close>
named_theorems res_dests \<open>inversion of results of fallible calls\<close>

type_synonym u32 = "32 word"
type_synonym u64 = "64 word"
type_synonym byte = "8 word"

section \<open>64-bit signed integers\<close>

definition int64Max :: int where
  "int64Max = 9223372036854775807"

definition int64Min :: int where
  "int64Min = -9223372036854775808"

definition Uint64Max :: int where
  "Uint64Max = 18446744073709551615"

text \<open>\<open>big.Int.IsInt64\<close> and \<open>big.Int.IsUint64\<close>, and the range of a Go \<open>int64\<close>.\<close>

definition is_int64 :: "int \<Rightarrow> bool" where
  "is_int64 n \<longleftrightarrow> int64Min \<le> n \<and> n \<le> int64Max"

definition is_uint64 :: "int \<Rightarrow> bool" where
  "is_uint64 n \<longleftrightarrow> 0 \<le> n \<and> n \<le> Uint64Max"

text \<open>What a 64-bit signed operation or conversion leaves of an exact value.\<close>

definition wrap64 :: "int \<Rightarrow> int" where
  "wrap64 n = (n + 9223372036854775808) mod 18446744073709551616 - 9223372036854775808"

lemmas int64_defs = int64Max_def int64Min_def Uint64Max_def is_int64_def is_uint64_def

lemma wrap64_id [simp]: "is_int64 n \<Longrightarrow> wrap64 n = n"
  by (simp add: wrap64_def int64_defs)

lemma wrap64_range: "is_int64 (wrap64 n)"
proof -
  let ?r = "(n + 9223372036854775808) mod 18446744073709551616"
  have "0 \<le> ?r" and "?r < 18446744073709551616" by simp_all
  then show ?thesis unfolding wrap64_def int64_defs by linarith
qed

lemma wrap64_idem [simp]: "wrap64 (wrap64 n) = wrap64 n"
  by (simp add: wrap64_range)

lemma wrap64_id_iff: "wrap64 n = n \<longleftrightarrow> is_int64 n"
  using wrap64_range [of n] by auto

text \<open>One addition of two 64-bit values is off by at most one turn of the ring.\<close>

lemma wrap64_above:
  assumes "int64Max < n" and "n \<le> 2 * int64Max + 2"
  shows "wrap64 n = n - 18446744073709551616"
proof -
  let ?m = "n + 9223372036854775808 - 18446744073709551616 :: int"
  have "(n + 9223372036854775808) mod 18446744073709551616 = (?m + 18446744073709551616) mod 18446744073709551616"
    by (simp add: add.commute)
  also have "\<dots> = ?m mod 18446744073709551616" by (rule mod_add_self2)
  also have "\<dots> = ?m"
    by (rule mod_pos_pos_trivial) (use assms in \<open>simp_all add: int64_defs\<close>)
  finally show ?thesis by (simp add: wrap64_def)
qed

section \<open>Words\<close>

lemma unat_byte_less [simp]: "unat (b :: byte) < 256"
  using unsigned_less [of b] by simp

lemma unat_u64_less: "unat (w :: u64) < 18446744073709551616"
  using unsigned_less [of w] by simp

section \<open>Errors\<close>

text \<open>
  The SDK's error types (package \<open>errors\<close>) and the unexported ones of package \<open>realtime\<close> that the
  modelled code builds. Most carry the message of their \<open>Msg\<close> field; the modelled code sets no
  other field, except the code of a realtime error. \<open>ViolationError\<close> is a \<open>ValidationError\<close> that also
  has a code and one violation, with its field path and rule. \<open>TerminalError\<close> wraps an error that ends a
  subscription, \<open>WrappedError\<close> is \<open>fmt.Errorf\<close> of a text before \<open>%w\<close>, and an ended subscription names its channel, the server's code and reason, why it
  did not resume, and the cause.
\<close>

datatype end_reason =
    SubscriptionEndNotResubscribable
  | SubscriptionEndAccessRemoved
  | SubscriptionEndNotListed
  | SubscriptionEndListRefused
  | SubscriptionEndTokenRefused
  | SubscriptionEndRetriesExhausted

datatype sdk_error =
    ValidationError string
  | ViolationError string string string string
  | AuthError string
  | TransportError string
  | RateLimitError string
  | QueueOverflowError string
  | RealtimeError string
  | PlainError string
  | TerminalError sdk_error
  | WrappedError string sdk_error
  | ServerUnsubscribedError u32 string
  | SubscriptionEndedError string u32 string end_reason "sdk_error option"

text \<open>\<open>errors.As\<close> for an \<open>AuthError\<close>, which follows the wrapped error and the cause.\<close>

primrec as_auth :: "sdk_error \<Rightarrow> bool" where
  "as_auth (ValidationError m) = False"
| "as_auth (ViolationError m code path rule) = False"
| "as_auth (AuthError m) = True"
| "as_auth (TransportError m) = False"
| "as_auth (RateLimitError m) = False"
| "as_auth (QueueOverflowError m) = False"
| "as_auth (RealtimeError m) = False"
| "as_auth (PlainError m) = False"
| "as_auth (TerminalError e) = as_auth e"
| "as_auth (WrappedError m e) = as_auth e"
| "as_auth (ServerUnsubscribedError c r) = False"
| "as_auth (SubscriptionEndedError ch c r reason cause) = (case map_option as_auth cause of None \<Rightarrow> False | Some b \<Rightarrow> b)"

type_synonym 'a res = "sdk_error + 'a"

text \<open>Sequencing of fallible calls: the first error is returned.\<close>

definition bind_res :: "'e + 'a \<Rightarrow> ('a \<Rightarrow> 'e + 'b) \<Rightarrow> 'e + 'b" where
  "bind_res r f = (case r of Inl e \<Rightarrow> Inl e | Inr a \<Rightarrow> f a)"

lemma bind_res_simps [simp]:
  "bind_res (Inl e) f = Inl e"
  "bind_res (Inr a) f = f a"
  by (simp_all add: bind_res_def)

lemma bind_res_cong [fundef_cong]:
  "r = r' \<Longrightarrow> (\<And>a. r' = Inr a \<Longrightarrow> f a = g a) \<Longrightarrow> bind_res r f = bind_res r' g"
  by (cases r') simp_all

lemma bind_res_Inr_iff: "bind_res r f = Inr b \<longleftrightarrow> (\<exists>a. r = Inr a \<and> f a = Inr b)"
  by (cases r) simp_all

lemma bind_res_Inl_iff:
  "bind_res r f = Inl e \<longleftrightarrow> r = Inl e \<or> (\<exists>a. r = Inr a \<and> f a = Inl e)"
  by (cases r) auto

lemma bind_res_InrE [res_dests]:
  assumes "bind_res r f = Inr b"
  obtains a where "r = Inr a" and "f a = Inr b"
  using assms by (auto simp: bind_res_Inr_iff)

lemma refuse_InrE [res_dests]:
  assumes "(if c then Inl e else r) = Inr b"
  obtains "\<not> c" and "r = Inr b"
  using assms by (auto split: if_splits)

lemma lookup_InrE [res_dests]:
  assumes "(case x of None \<Rightarrow> Inl e | Some y \<Rightarrow> f y) = Inr b"
  obtains y where "x = Some y" and "f y = Inr b"
  using assms by (auto split: option.splits)

section \<open>Lists\<close>

text \<open>The first element that a reader accepts, as a loop that returns from within.\<close>

primrec find_map :: "('a \<Rightarrow> 'b option) \<Rightarrow> 'a list \<Rightarrow> 'b option" where
  "find_map f [] = None"
| "find_map f (x # xs) = (case f x of Some y \<Rightarrow> Some y | None \<Rightarrow> find_map f xs)"

lemma find_map_Some: "find_map f xs = Some y \<Longrightarrow> \<exists>x\<in>set xs. f x = Some y"
  by (induction xs) (auto split: option.splits)

lemma find_map_None: "find_map f xs = None \<longleftrightarrow> (\<forall>x\<in>set xs. f x = None)"
  by (induction xs) (auto split: option.splits)

lemma dropWhile_replicate_append:
  "dropWhile (\<lambda>c. c = x) (replicate k x @ xs) = dropWhile (\<lambda>c. c = x) xs"
  by (induction k) auto

lemma takeWhile_eq_replicate:
  "takeWhile (\<lambda>c. c = x) xs = replicate (length (takeWhile (\<lambda>c. c = x) xs)) x"
  by (induction xs) auto

lemma distinct_fst_map_of: "distinct (map fst al) \<Longrightarrow> (k, v) \<in> set al \<longleftrightarrow> map_of al k = Some v"
  by (rule map_of_eq_Some_iff [symmetric])

section \<open>Transition systems\<close>

text \<open>
  A component that reacts to events is a step relation; its reachable states are the least
  set holding the start states and closed under steps. The interface says what a component
  must show of an invariant, and gives it on every reachable state.
\<close>

inductive reachable :: "('s \<Rightarrow> bool) \<Rightarrow> ('s \<Rightarrow> 's \<Rightarrow> bool) \<Rightarrow> 's \<Rightarrow> bool"
  for init :: "'s \<Rightarrow> bool" and step :: "'s \<Rightarrow> 's \<Rightarrow> bool" where
  reach_init: "init s \<Longrightarrow> reachable init step s"
| reach_step: "reachable init step s \<Longrightarrow> step s t \<Longrightarrow> reachable init step t"

locale invariant_system =
  fixes init :: "'s \<Rightarrow> bool"
    and step :: "'s \<Rightarrow> 's \<Rightarrow> bool"
    and inv :: "'s \<Rightarrow> bool"
  assumes inv_init: "init s \<Longrightarrow> inv s"
    and inv_step: "inv s \<Longrightarrow> step s t \<Longrightarrow> inv t"
begin

lemma inv_reachable: "reachable init step s \<Longrightarrow> inv s"
  by (induction rule: reachable.induct) (auto intro: inv_init inv_step)

lemma inv_steps: "step\<^sup>*\<^sup>* s t \<Longrightarrow> inv s \<Longrightarrow> inv t"
  by (induction rule: rtranclp_induct) (auto intro: inv_step)

end

end
