(* ===== verification/GoText.thy ===== *)
theory GoText
  imports Prelude
begin

text \<open>
  The parts of Go's \<open>strings\<close>, \<open>strconv\<close> and \<open>math/big\<close> text handling that the SDK uses,
  on strings as byte lists: trimming, cutting at a separator, decimal rendering of integers
  and decimal parsing, with the facts that rendering and parsing undo each other.
\<close>

section \<open>Characters\<close>

definition is_digit :: "char \<Rightarrow> bool" where
  "is_digit c \<longleftrightarrow> 48 \<le> (of_char c :: nat) \<and> (of_char c :: nat) \<le> 57"

definition digit_val :: "char \<Rightarrow> nat" where
  "digit_val c = of_char c - 48"

definition digit_char :: "nat \<Rightarrow> char" where
  "digit_char d = char_of (48 + d)"

text \<open>\<open>strings.ToLower\<close> as far as its ASCII bytes: the ASCII letters, and the two other code
  points whose lower case is ASCII, U+0130 and U+212A. The bytes of other code points stay outside
  ASCII and are kept here; every text the code compares the result with is ASCII.\<close>

definition lower_char :: "char \<Rightarrow> char" where
  "lower_char c = (if 65 \<le> (of_char c :: nat) \<and> (of_char c :: nat) \<le> 90
     then char_of ((of_char c :: nat) + 32) else c)"

fun to_lower :: "string \<Rightarrow> string" where
  "to_lower [] = []"
| "to_lower (c # s) =
     (if c = CHR 0xC4 \<and> take 1 s = [CHR 0xB0] then CHR ''i'' # to_lower (drop 1 s)
      else if c = CHR 0xE2 \<and> take 2 s = [CHR 0x84, CHR 0xAA] then CHR ''k'' # to_lower (drop 2 s)
      else lower_char c # to_lower s)"

lemma digit_char_props [simp]:
  assumes "d < 10"
  shows "is_digit (digit_char d)" and "digit_val (digit_char d) = d"
    and "digit_char d = CHR ''0'' \<longleftrightarrow> d = 0"
proof -
  have oc: "of_char (digit_char d) = (48 + d :: nat)"
    using assms by (simp add: digit_char_def)
  then show "is_digit (digit_char d)" and "digit_val (digit_char d) = d"
    using assms by (simp_all add: is_digit_def digit_val_def)
  have "of_char (CHR ''0'') = (48 :: nat)" by simp
  then show "digit_char d = CHR ''0'' \<longleftrightarrow> d = 0"
    using oc by (metis add_cancel_left_right of_char_eq_iff)
qed

lemma is_digit_zero [simp]: "is_digit CHR ''0''"
  by (simp add: is_digit_def)

lemma not_is_digit [simp]: "\<not> is_digit CHR ''.''" "\<not> is_digit CHR ''-''" "\<not> is_digit CHR ''+''"
  by (simp_all add: is_digit_def)

lemma digit_val_zero [simp]: "digit_val CHR ''0'' = 0"
  by (simp add: digit_val_def)

lemma digit_val_less: "is_digit c \<Longrightarrow> digit_val c < 10"
  by (auto simp: is_digit_def digit_val_def)

lemma digit_val_eq_0: "is_digit c \<Longrightarrow> digit_val c = 0 \<Longrightarrow> c = CHR ''0''"
proof -
  assume "is_digit c" "digit_val c = 0"
  then have "of_char c = (48 :: nat)" by (simp add: is_digit_def digit_val_def)
  also have "48 = (of_char (CHR ''0'') :: nat)" by simp
  finally show "c = CHR ''0''" by (simp only: of_char_eq_iff)
qed

section \<open>Trimming and cutting\<close>

text \<open>\<open>strings.TrimLeft(s, "0")\<close>, \<open>strings.TrimRight(s, "0")\<close> and
  \<open>strings.Repeat("0", k)\<close>.\<close>

definition trim_left_zeros :: "string \<Rightarrow> string" where
  "trim_left_zeros = dropWhile (\<lambda>c. c = CHR ''0'')"

definition trim_right_zeros :: "string \<Rightarrow> string" where
  "trim_right_zeros s = rev (dropWhile (\<lambda>c. c = CHR ''0'') (rev s))"

definition zeros :: "nat \<Rightarrow> string" where
  "zeros k = replicate k CHR ''0''"

text \<open>\<open>strings.Cut(s, sep)\<close> for a one-byte separator: before, after, found.\<close>

definition cut :: "char \<Rightarrow> string \<Rightarrow> string \<times> string \<times> bool" where
  "cut sep s = (let a = takeWhile (\<lambda>c. c \<noteq> sep) s
     in if length a < length s then (a, drop (Suc (length a)) s, True) else (s, [], False))"

text \<open>
  \<open>strings.TrimSpace\<close> removes the code points with the Unicode property White\_Space,
  here as their UTF-8 encodings.
\<close>

definition space_runes :: "string list" where
  "space_runes =
    [[CHR 0x09], [CHR 0x0A], [CHR 0x0B], [CHR 0x0C], [CHR 0x0D], [CHR 0x20],
     [CHR 0xC2, CHR 0x85], [CHR 0xC2, CHR 0xA0], [CHR 0xE1, CHR 0x9A, CHR 0x80],
     [CHR 0xE2, CHR 0x80, CHR 0x80], [CHR 0xE2, CHR 0x80, CHR 0x81],
     [CHR 0xE2, CHR 0x80, CHR 0x82], [CHR 0xE2, CHR 0x80, CHR 0x83],
     [CHR 0xE2, CHR 0x80, CHR 0x84], [CHR 0xE2, CHR 0x80, CHR 0x85],
     [CHR 0xE2, CHR 0x80, CHR 0x86], [CHR 0xE2, CHR 0x80, CHR 0x87],
     [CHR 0xE2, CHR 0x80, CHR 0x88], [CHR 0xE2, CHR 0x80, CHR 0x89],
     [CHR 0xE2, CHR 0x80, CHR 0x8A], [CHR 0xE2, CHR 0x80, CHR 0xA8],
     [CHR 0xE2, CHR 0x80, CHR 0xA9], [CHR 0xE2, CHR 0x80, CHR 0xAF],
     [CHR 0xE2, CHR 0x81, CHR 0x9F], [CHR 0xE3, CHR 0x80, CHR 0x80]]"

function strip_runes :: "string list \<Rightarrow> string \<Rightarrow> string" where
  "strip_runes rs s = (case find (\<lambda>e. e \<noteq> [] \<and> take (length e) s = e) rs of
     None \<Rightarrow> s | Some e \<Rightarrow> strip_runes rs (drop (length e) s))"
  by pat_completeness auto
termination
proof (relation "measure (\<lambda>(rs, s). length s)")
  fix rs s e
  assume "find (\<lambda>e. e \<noteq> [] \<and> take (length e) s = e) rs = Some e"
  then have "e \<noteq> []" and "take (length e) s = e" by (auto simp: find_Some_iff)
  then have "s \<noteq> []" and "0 < length e" by auto
  then show "((rs, drop (length e) s), rs, s) \<in> measure (\<lambda>(rs, s). length s)" by simp
qed simp

declare strip_runes.simps [simp del]

definition trim_space :: "string \<Rightarrow> string" where
  "trim_space s = rev (strip_runes (map rev space_runes) (rev (strip_runes space_runes s)))"

text \<open>A text whose ends are no space code point is left alone.\<close>

definition no_space_end :: "char \<Rightarrow> bool" where
  "no_space_end c \<longleftrightarrow> c \<notin> hd ` set space_runes \<and> c \<notin> last ` set space_runes"

lemma strip_runes_idle:
  assumes "\<And>e. e \<in> set rs \<Longrightarrow> e \<noteq> [] \<Longrightarrow> s \<noteq> [] \<Longrightarrow> hd e \<noteq> hd s"
  shows "strip_runes rs s = s"
proof -
  have "\<not> (e \<noteq> [] \<and> take (length e) s = e)" if "e \<in> set rs" for e
  proof
    assume "e \<noteq> [] \<and> take (length e) s = e"
    then have "e \<noteq> []" and eq: "take (length e) s = e" by auto
    then have "s \<noteq> []" by auto
    have "hd e = hd s"
      using \<open>e \<noteq> []\<close> by (metis eq hd_take length_greater_0_conv)
    with assms [OF that \<open>e \<noteq> []\<close> \<open>s \<noteq> []\<close>] show False by simp
  qed
  then have "find (\<lambda>e. e \<noteq> [] \<and> take (length e) s = e) rs = None"
    by (auto simp: find_None_iff)
  then show ?thesis by (simp add: strip_runes.simps)
qed

lemma trim_space_id:
  assumes "s = [] \<or> no_space_end (hd s) \<and> no_space_end (last s)"
  shows "trim_space s = s"
proof -
  have l: "strip_runes space_runes s = s"
    using assms by (intro strip_runes_idle) (auto simp: no_space_end_def image_iff)
  have "hd (rev e) = last e" if "e \<noteq> []" for e :: string
    using that by (simp add: hd_rev)
  then have "strip_runes (map rev space_runes) (rev s) = rev s"
    using assms by (intro strip_runes_idle) (auto simp: no_space_end_def image_iff hd_rev)
  with l show ?thesis by (simp add: trim_space_def)
qed

text \<open>Characters of the printable ASCII range above the space never start or end a space
  code point.\<close>

lemma no_space_end_ascii:
  assumes "32 < (of_char c :: nat)" and "(of_char c :: nat) < 128"
  shows "no_space_end c"
proof -
  have "\<forall>e \<in> set space_runes. (of_char (hd e) :: nat) \<le> 32 \<or> 128 \<le> (of_char (hd e) :: nat)"
    and "\<forall>e \<in> set space_runes. (of_char (last e) :: nat) \<le> 32 \<or> 128 \<le> (of_char (last e) :: nat)"
    by (simp_all add: space_runes_def)
  with assms show ?thesis unfolding no_space_end_def by force
qed

lemma no_space_end_digit: "is_digit c \<Longrightarrow> no_space_end c"
  by (rule no_space_end_ascii) (simp_all add: is_digit_def)

lemma trim_space_digits:
  assumes "\<forall>c \<in> set s. is_digit c"
  shows "trim_space s = s"
  using assms by (intro trim_space_id) (auto simp: no_space_end_digit)

section \<open>Decimal text of integers\<close>

text \<open>\<open>fmt.Sprintf("%d", n)\<close>, \<open>strconv.Itoa\<close> and \<open>big.Int.String\<close>.\<close>

fun dec_nat :: "nat \<Rightarrow> string" where
  "dec_nat n = (if n < 10 then [digit_char n] else dec_nat (n div 10) @ [digit_char (n mod 10)])"

declare dec_nat.simps [simp del]

definition itoa :: "int \<Rightarrow> string" where
  "itoa n = (if n < 0 then CHR ''-'' # dec_nat (nat (- n)) else dec_nat (nat n))"

definition digits_val :: "string \<Rightarrow> nat" where
  "digits_val s = foldl (\<lambda>a c. 10 * a + digit_val c) 0 s"

text \<open>\<open>big.Int.SetString(s, 10)\<close>: an optional sign, then one or more digits, nothing else.\<close>

definition all_digits :: "string \<Rightarrow> bool" where
  "all_digits s \<longleftrightarrow> s \<noteq> [] \<and> list_all is_digit s"

fun big_set_string :: "string \<Rightarrow> int option" where
  "big_set_string [] = None"
| "big_set_string (c # s) =
     (if c = CHR ''-'' then (if all_digits s then Some (- int (digits_val s)) else None)
      else if c = CHR ''+'' then (if all_digits s then Some (int (digits_val s)) else None)
      else if all_digits (c # s) then Some (int (digits_val (c # s))) else None)"

text \<open>\<open>strconv.Atoi\<close>: the same syntax within the 64-bit range.\<close>

definition atoi :: "string \<Rightarrow> int option" where
  "atoi s = (case big_set_string s of None \<Rightarrow> None
     | Some n \<Rightarrow> if is_int64 n then Some n else None)"

lemma digits_val_Nil [simp]: "digits_val [] = 0"
  by (simp add: digits_val_def)

lemma digits_val_snoc [simp]: "digits_val (s @ [c]) = 10 * digits_val s + digit_val c"
  by (simp add: digits_val_def)

lemma digits_val_append: "digits_val (s @ t) = digits_val s * 10 ^ length t + digits_val t"
proof (induction t rule: rev_induct)
  case (snoc c t)
  have "digits_val (s @ t @ [c]) = 10 * digits_val (s @ t) + digit_val c"
    by (simp only: append_assoc [symmetric] digits_val_snoc)
  with snoc show ?case by (simp add: algebra_simps)
qed simp

lemma digits_val_Cons: "digits_val (c # s) = digit_val c * 10 ^ length s + digits_val s"
  using digits_val_append [of "[c]" s] by (simp add: digits_val_def)

lemma digits_val_zeros [simp]: "digits_val (zeros k) = 0"
  by (induction k) (simp_all add: zeros_def digits_val_Cons)

lemma length_zeros [simp]: "length (zeros k) = k"
  by (simp add: zeros_def)

lemma list_all_zeros [simp]: "list_all is_digit (zeros k)"
  by (simp add: zeros_def list_all_iff)

lemma digits_val_less: "list_all is_digit s \<Longrightarrow> digits_val s < 10 ^ length s"
proof (induction s rule: rev_induct)
  case (snoc c s)
  then have "digits_val s < 10 ^ length s" and "digit_val c < 10"
    by (simp_all add: digit_val_less)
  then show ?case by simp
qed simp

lemma dec_nat_digits [simp]: "list_all is_digit (dec_nat n)"
proof (induction n rule: dec_nat.induct)
  case (1 n)
  then show ?case by (subst dec_nat.simps) auto
qed

lemma dec_nat_nonempty [simp]: "dec_nat n \<noteq> []"
  by (subst dec_nat.simps) simp

lemma digits_val_dec_nat [simp]: "digits_val (dec_nat n) = n"
proof (induction n rule: dec_nat.induct)
  case (1 n)
  then show ?case
    by (subst dec_nat.simps) (auto simp: digits_val_def [of "[_]"])
qed

lemma all_digits_dec_nat [simp]: "all_digits (dec_nat n)"
  by (simp add: all_digits_def)

lemma hd_dec_nat_zero: "hd (dec_nat n) = CHR ''0'' \<longleftrightarrow> n = 0"
proof (induction n rule: dec_nat.induct)
  case (1 n)
  then show ?case by (subst dec_nat.simps) auto
qed

lemma length_dec_nat_le: "n < 10 ^ k \<Longrightarrow> 0 < k \<Longrightarrow> length (dec_nat n) \<le> k"
proof (induction n arbitrary: k rule: dec_nat.induct)
  case (1 n)
  show ?case
  proof (cases "n < 10")
    case True
    with 1 show ?thesis by (subst dec_nat.simps) simp
  next
    case False
    with "1.prems" have "k \<noteq> 1" by auto
    with "1.prems" obtain j where k: "k = Suc j" and "0 < j"
      by (cases k) auto
    with "1.prems" have "n div 10 < 10 ^ j" by simp
    with "1.IH" [OF False this \<open>0 < j\<close>] False k show ?thesis
      by (subst dec_nat.simps) simp
  qed
qed

lemma big_set_string_digits:
  assumes "all_digits s"
  shows "big_set_string s = Some (int (digits_val s))"
  using assms by (cases s) (auto simp: all_digits_def)

lemma big_set_string_itoa [simp]: "big_set_string (itoa n) = Some n"
  by (simp add: itoa_def big_set_string_digits)

lemma atoi_itoa: "is_int64 n \<Longrightarrow> atoi (itoa n) = Some n"
  by (simp add: atoi_def)

lemma digits_val_trim_left: "digits_val (trim_left_zeros s) = digits_val s"
  by (induction s) (auto simp: trim_left_zeros_def digits_val_Cons)

text \<open>What \<open>TrimRight\<close> removed was zeros, so appending as many gives the text back.\<close>

lemma trim_right_zeros_split:
  "s = trim_right_zeros s @ zeros (length s - length (trim_right_zeros s))"
proof -
  let ?z = "takeWhile (\<lambda>c. c = CHR ''0'') (rev s)"
  have "s = trim_right_zeros s @ rev ?z"
    unfolding trim_right_zeros_def by (metis rev_append rev_rev_ident takeWhile_dropWhile_id)
  moreover have "rev ?z = zeros (length ?z)"
    using takeWhile_eq_replicate [of "CHR ''0''" "rev s"] by (metis rev_replicate zeros_def)
  moreover have "length ?z = length s - length (trim_right_zeros s)"
    using calculation(1) by (metis add_diff_cancel_left' length_append length_rev)
  ultimately show ?thesis by metis
qed

lemma length_trim_right_zeros: "length (trim_right_zeros s) \<le> length s"
  unfolding trim_right_zeros_def by (metis length_dropWhile_le length_rev)

lemma set_trim_zeros:
  "set (trim_right_zeros s) \<subseteq> set s" "set (trim_left_zeros s) \<subseteq> set s"
  by (auto simp: trim_right_zeros_def trim_left_zeros_def dest: set_dropWhileD)

lemma digits_val_trim_right:
  "digits_val (trim_right_zeros s) * 10 ^ (length s - length (trim_right_zeros s)) = digits_val s"
  using arg_cong [OF trim_right_zeros_split [of s], of digits_val]
  by (simp add: digits_val_append)

lemma trim_right_zeros_last: "trim_right_zeros s \<noteq> [] \<Longrightarrow> last (trim_right_zeros s) \<noteq> CHR ''0''"
  using hd_dropWhile [of "\<lambda>c. c = CHR ''0''" "rev s"]
  by (auto simp: trim_right_zeros_def last_rev)

lemma trim_right_zeros_id: "s = [] \<or> last s \<noteq> CHR ''0'' \<Longrightarrow> trim_right_zeros s = s"
  unfolding trim_right_zeros_def by (cases s rule: rev_cases) auto

section \<open>Cutting\<close>

lemma cut_found:
  assumes "c \<notin> set a"
  shows "cut c (a @ c # b) = (a, b, True)"
proof -
  have "takeWhile (\<lambda>x. x \<noteq> c) (a @ c # b) = a"
    using assms by (subst takeWhile_append2) auto
  then show ?thesis by (simp add: cut_def)
qed

lemma cut_absent: "c \<notin> set s \<Longrightarrow> cut c s = (s, [], False)"
proof -
  assume "c \<notin> set s"
  then have "takeWhile (\<lambda>x. x \<noteq> c) s = s" by (auto simp: takeWhile_eq_all_conv)
  then show ?thesis unfolding cut_def Let_def by (simp only: less_irrefl if_False)
qed

lemma cut_True_iff: "cut c s = (a, b, True) \<longleftrightarrow> s = a @ c # b \<and> c \<notin> set a"
proof
  assume l: "cut c s = (a, b, True)"
  let ?a = "takeWhile (\<lambda>x. x \<noteq> c) s"
  from l have len: "length ?a < length s" and a: "a = ?a" and b: "b = drop (Suc (length ?a)) s"
    by (auto simp: cut_def Let_def split: if_splits)
  from nth_length_takeWhile [OF len] have "s ! length ?a = c" by simp
  with len have "s = ?a @ c # drop (Suc (length ?a)) s"
    by (metis id_take_nth_drop takeWhile_eq_take)
  moreover have "c \<notin> set ?a" by (auto dest: set_takeWhileD)
  ultimately show "s = a @ c # b \<and> c \<notin> set a" using a b by simp
qed (auto simp: cut_found)

section \<open>Texts of errors\<close>

text \<open>The format \<open>%q\<close> and \<open>strconv.Quote\<close> of printable ASCII text.\<close>

definition has_prefix :: "string \<Rightarrow> string \<Rightarrow> bool" where
  "has_prefix s p \<longleftrightarrow> take (length p) s = p"

definition has_suffix :: "string \<Rightarrow> string \<Rightarrow> bool" where
  "has_suffix s p \<longleftrightarrow> has_prefix (rev s) (rev p)"

definition trim_prefix :: "string \<Rightarrow> string \<Rightarrow> string" where
  "trim_prefix s p = (if has_prefix s p then drop (length p) s else s)"

primrec contains :: "string \<Rightarrow> string \<Rightarrow> bool" where
  "contains [] p \<longleftrightarrow> p = []"
| "contains (c # cs) p \<longleftrightarrow> has_prefix (c # cs) p \<or> contains cs p"

lemma has_prefix_append [simp]: "has_prefix (p @ s) p"
  by (simp add: has_prefix_def)

lemma has_prefix_iff: "has_prefix s p \<longleftrightarrow> (\<exists>t. s = p @ t)"
  by (metis append_eq_conv_conj append_take_drop_id has_prefix_def)

lemma has_suffix_iff: "has_suffix s p \<longleftrightarrow> (\<exists>t. s = t @ p)"
  unfolding has_suffix_def has_prefix_iff by (metis rev_append rev_rev_ident)

lemma has_suffix_append: "has_suffix s p \<Longrightarrow> has_suffix (t @ s) p"
  by (auto simp: has_suffix_iff)

text \<open>\<open>strconv.ParseUint\<close> of a decimal.\<close>

definition parse_uint :: "string \<Rightarrow> u64 option" where
  "parse_uint s = (if all_digits s \<and> int (digits_val s) \<le> Uint64Max then Some (word_of_nat (digits_val s)) else None)"

definition quoted :: "string \<Rightarrow> string" where
  "quoted s = [CHR 0x22] @ concat (map (\<lambda>c. if c = CHR 0x22 \<or> c = CHR 0x5C then [CHR 0x5C, c] else [c]) s) @ [CHR 0x22]"

text \<open>A word in single quotes.\<close>

definition squoted :: "string \<Rightarrow> string" where
  "squoted s = [CHR 0x27] @ s @ [CHR 0x27]"

text \<open>The \<open>Error\<close> methods: most return the message.\<close>

fun end_reason_text :: "end_reason \<Rightarrow> string" where
  "end_reason_text SubscriptionEndNotResubscribable = ''not_resubscribable''"
| "end_reason_text SubscriptionEndAccessRemoved = ''access_removed''"
| "end_reason_text SubscriptionEndNotListed = ''not_listed''"
| "end_reason_text SubscriptionEndListRefused = ''list_refused''"
| "end_reason_text SubscriptionEndTokenRefused = ''token_refused''"
| "end_reason_text SubscriptionEndRetriesExhausted = ''retries_exhausted''"

primrec error_text :: "sdk_error \<Rightarrow> string" where
  "error_text (ValidationError m) = m"
| "error_text (ViolationError m code path rule) = m"
| "error_text (AuthError m) = m"
| "error_text (TransportError m) = m"
| "error_text (RateLimitError m) = m"
| "error_text (QueueOverflowError m) = m"
| "error_text (RealtimeError m) = m"
| "error_text (PlainError m) = m"
| "error_text (TerminalError e) = error_text e"
| "error_text (WrappedError m e) = m @ error_text e"
| "error_text (ServerUnsubscribedError code reason) =
     ''server ended realtime subscription (code '' @ itoa (uint code) @ '': '' @ reason @ '')''"
| "error_text (SubscriptionEndedError channel code serverReason reason cause) =
     ''server ended realtime subscription to '' @ quoted channel @ '' (code '' @ itoa (uint code) @ '': ''
     @ serverReason @ ''): '' @ end_reason_text reason
     @ (case map_option error_text cause of None \<Rightarrow> [] | Some t \<Rightarrow> '': '' @ t)"

end
