(* ===== verification/Money.thy ===== *)
theory Money
  imports GoText
begin

text \<open>
  \<open>models/money.go\<close>: the typed prices, quantities and asset amounts, their compatibility
  checks, the write-side inputs (a decimal text or a typed value), and the fixed-point
  formatters. A nil pointer field is \<open>None\<close>; the \<open>*big.Int\<close> of an asset amount is an
  \<open>int option\<close>. The copying the code does to keep these values immutable (\<open>clone\<close>,
  \<open>cloneInt\<close>) is invisible on values.
\<close>

section \<open>Domains, scales and formatters\<close>

type_synonym quantity_domain = string

definition QuantityDomainOrderBase :: quantity_domain where
  "QuantityDomainOrderBase = ''order_base''"

definition QuantityDomainOrderQuote :: quantity_domain where
  "QuantityDomainOrderQuote = ''order_quote''"

definition QuantityDomainAsset :: quantity_domain where
  "QuantityDomainAsset = ''asset''"

definition QuantityDomainLedgerE18 :: quantity_domain where
  "QuantityDomainLedgerE18 = ''ledger_e18''"

lemmas domain_defs = QuantityDomainOrderBase_def QuantityDomainOrderQuote_def
  QuantityDomainAsset_def QuantityDomainLedgerE18_def

definition PriceTickScale :: int where
  "PriceTickScale = 9"

definition MaxProtocolScale :: int where
  "MaxProtocolScale = 36"

lemmas scale_defs [simp] = PriceTickScale_def MaxProtocolScale_def

definition scale_too_large :: "int \<Rightarrow> sdk_error" where
  "scale_too_large scale = ValidationError (''scale '' @ itoa scale
     @ '' exceeds maximum protocol scale '' @ itoa MaxProtocolScale)"

text \<open>
  Left padding to a width, and the decimal point at \<open>scale\<close> digits from the right with
  leading zeros of the whole part and trailing zeros of the fraction removed. The code
  repeats this block in four functions.
\<close>

definition pad_left :: "nat \<Rightarrow> string \<Rightarrow> string" where
  "pad_left width s = (if length s < width then zeros (width - length s) @ s else s)"

definition point_text :: "string \<Rightarrow> nat \<Rightarrow> string" where
  "point_text digits scale =
     (let ds = pad_left (Suc scale) digits;
          h = trim_left_zeros (take (length ds - scale) ds);
          head = (if h = [] then ''0'' else h);
          tail = trim_right_zeros (drop (length ds - scale) ds)
      in if tail = [] then head else head @ ''.'' @ tail)"

definition formatFixed :: "int \<Rightarrow> int \<Rightarrow> string res" where
  "formatFixed n scale =
     (if scale < 0 then Inl (ValidationError ''scale must be non-negative'')
      else if scale > MaxProtocolScale then Inl (scale_too_large scale)
      else if scale = 0 then Inr (itoa n)
      else let neg = n < 0;
               m = (if neg then wrap64 (- n) else n);
               out = point_text (itoa m) (nat scale)
           in if neg then Inr (''-'' @ out) else Inr out)"

definition formatFixedBig :: "int \<Rightarrow> int \<Rightarrow> string res" where
  "formatFixedBig n scale =
     (if scale < 0 then Inl (ValidationError ''scale must be non-negative'')
      else if scale > MaxProtocolScale then Inl (scale_too_large scale)
      else if scale = 0 then Inr (itoa n)
      else let neg = n < 0;
               out = point_text (itoa \<bar>n\<bar>) (nat scale)
           in if neg then Inr (''-'' @ out) else Inr out)"

section \<open>Prices\<close>

record price_ticks =
  pt_ticks :: int
  pt_symbol :: string

definition NewPriceTicks :: "int \<Rightarrow> price_ticks res" where
  "NewPriceTicks ticks =
     (if ticks < 0 then Inl (ValidationError ''ticks must be non-negative'')
      else Inr \<lparr>pt_ticks = ticks, pt_symbol = []\<rparr>)"

definition price_Format :: "price_ticks \<Rightarrow> string" where
  "price_Format p = (case formatFixed (pt_ticks p) PriceTickScale of Inl _ \<Rightarrow> ''0'' | Inr out \<Rightarrow> out)"

definition price_CompatibleWith :: "price_ticks \<Rightarrow> string \<Rightarrow> unit res" where
  "price_CompatibleWith p symbol =
     (if pt_symbol p \<noteq> [] \<and> symbol \<noteq> [] \<and> pt_symbol p \<noteq> symbol
      then Inl (ValidationError (''price symbol mismatch: value is for '' @ pt_symbol p
             @ '', destination is '' @ symbol))
      else Inr ())"

definition price_WithSymbol :: "price_ticks \<Rightarrow> string \<Rightarrow> price_ticks" where
  "price_WithSymbol p symbol = p\<lparr>pt_symbol := symbol\<rparr>"

section \<open>Order quantities\<close>

record qty_scaled =
  qs_scaled :: int
  qs_scale :: "int option"
  qs_domain :: quantity_domain
  qs_symbol :: string
  qs_symbolID :: "u32 option"

definition zeroQtyScaled :: qty_scaled where
  "zeroQtyScaled = \<lparr>qs_scaled = 0, qs_scale = None, qs_domain = [], qs_symbol = [], qs_symbolID = None\<rparr>"

definition NewQtyScaled :: "int \<Rightarrow> qty_scaled res" where
  "NewQtyScaled scaled =
     (if scaled < 0 then Inl (ValidationError ''scaled must be non-negative'')
      else Inr (zeroQtyScaled\<lparr>qs_scaled := scaled, qs_domain := QuantityDomainOrderBase\<rparr>))"

definition NewQtyQuoteScaled :: "int \<Rightarrow> int \<Rightarrow> qty_scaled res" where
  "NewQtyQuoteScaled scaled scale =
     (if scaled < 0 then Inl (ValidationError ''scaled must be non-negative'')
      else if scale < 0 then Inl (ValidationError ''scale must be non-negative'')
      else if scale > MaxProtocolScale then Inl (scale_too_large scale)
      else Inr (zeroQtyScaled\<lparr>qs_scaled := scaled, qs_scale := Some scale,
                  qs_domain := QuantityDomainOrderQuote\<rparr>))"

definition qty_WithScale :: "qty_scaled \<Rightarrow> int \<Rightarrow> qty_scaled" where
  "qty_WithScale q scale = q\<lparr>qs_scale := Some scale\<rparr>"

definition qty_WithSymbol :: "qty_scaled \<Rightarrow> string \<Rightarrow> qty_scaled" where
  "qty_WithSymbol q symbol = q\<lparr>qs_symbol := symbol\<rparr>"

definition qty_WithSymbolID :: "qty_scaled \<Rightarrow> u32 \<Rightarrow> qty_scaled" where
  "qty_WithSymbolID q symbolID = q\<lparr>qs_symbolID := Some symbolID\<rparr>"

definition qty_WithDomain :: "qty_scaled \<Rightarrow> quantity_domain \<Rightarrow> qty_scaled" where
  "qty_WithDomain q domain = q\<lparr>qs_domain := domain\<rparr>"

definition qty_Format :: "qty_scaled \<Rightarrow> string res" where
  "qty_Format q = (case qs_scale q of
       None \<Rightarrow> Inl (ValidationError ''format requires a known scale'')
     | Some scale \<Rightarrow> formatFixed (qs_scaled q) scale)"

text \<open>Two optional values that are both present and differ.\<close>

definition known_mismatch :: "'a option \<Rightarrow> 'a option \<Rightarrow> bool" where
  "known_mismatch a b \<longleftrightarrow> (case (a, b) of (Some x, Some y) \<Rightarrow> x \<noteq> y | _ \<Rightarrow> False)"

definition default_domain :: "quantity_domain \<Rightarrow> quantity_domain \<Rightarrow> quantity_domain" where
  "default_domain d x = (if x = [] then d else x)"

definition u32_text :: "u32 \<Rightarrow> string" where
  "u32_text w = dec_nat (unat w)"

definition qty_CompatibleWith ::
  "qty_scaled \<Rightarrow> quantity_domain \<Rightarrow> int option \<Rightarrow> string \<Rightarrow> u32 option \<Rightarrow> unit res" where
  "qty_CompatibleWith q domain scale symbol symbolID =
     (let qdom = default_domain QuantityDomainOrderBase (qs_domain q);
          dom = default_domain QuantityDomainOrderBase domain
      in if qdom \<noteq> dom
         then Inl (ValidationError (''quantity domain mismatch: value is '' @ qdom
                @ '', destination is '' @ dom))
         else if known_mismatch (qs_scale q) scale
         then Inl (ValidationError (''quantity scale mismatch: value scale is '' @ itoa (the (qs_scale q))
                @ '', destination is '' @ itoa (the scale)))
         else if qs_symbol q \<noteq> [] \<and> symbol \<noteq> [] \<and> qs_symbol q \<noteq> symbol
         then Inl (ValidationError (''quantity symbol mismatch: value is for '' @ qs_symbol q
                @ '', destination is '' @ symbol))
         else if known_mismatch (qs_symbolID q) symbolID
         then Inl (ValidationError (''quantity symbol_id mismatch: value is for ''
                @ u32_text (the (qs_symbolID q)) @ '', destination is '' @ u32_text (the symbolID)))
         else Inr ())"

section \<open>Asset amounts\<close>

record asset_amount =
  aa_scaled :: "int option"
  aa_scale :: "int option"
  aa_domain :: quantity_domain
  aa_assetID :: "u32 option"

definition NewAssetAmountScaled :: "int \<Rightarrow> asset_amount res" where
  "NewAssetAmountScaled scaled =
     (if scaled < 0 then Inl (ValidationError ''scaled must be non-negative'')
      else Inr \<lparr>aa_scaled = Some scaled, aa_scale = None,
                 aa_domain = QuantityDomainAsset, aa_assetID = None\<rparr>)"

definition NewAssetAmountFromBig :: "int option \<Rightarrow> asset_amount res" where
  "NewAssetAmountFromBig scaled = (case scaled of
       None \<Rightarrow> Inl (ValidationError ''scaled must be non-negative'')
     | Some n \<Rightarrow> if n < 0 then Inl (ValidationError ''scaled must be non-negative'')
         else Inr \<lparr>aa_scaled = Some n, aa_scale = None,
                    aa_domain = QuantityDomainLedgerE18, aa_assetID = None\<rparr>)"

definition amount_WithScale :: "asset_amount \<Rightarrow> int \<Rightarrow> asset_amount" where
  "amount_WithScale a scale = a\<lparr>aa_scale := Some scale\<rparr>"

definition amount_WithDomain :: "asset_amount \<Rightarrow> quantity_domain \<Rightarrow> asset_amount" where
  "amount_WithDomain a domain = a\<lparr>aa_domain := domain\<rparr>"

definition amount_WithAssetID :: "asset_amount \<Rightarrow> u32 \<Rightarrow> asset_amount" where
  "amount_WithAssetID a assetID = a\<lparr>aa_assetID := Some assetID\<rparr>"

definition amount_Int64 :: "asset_amount \<Rightarrow> int res" where
  "amount_Int64 a = (case aa_scaled a of
       None \<Rightarrow> Inl (ValidationError ''scaled is nil'')
     | Some n \<Rightarrow> if \<not> is_int64 n then Inl (ValidationError ''scaled exceeds int64 range'') else Inr n)"

definition amount_Format :: "asset_amount \<Rightarrow> string res" where
  "amount_Format a = (case aa_scale a of
       None \<Rightarrow> Inl (ValidationError ''format requires a known scale'')
     | Some scale \<Rightarrow> (case aa_scaled a of None \<Rightarrow> Inr ''0'' | Some n \<Rightarrow> formatFixedBig n scale))"

definition amount_CompatibleWith ::
  "asset_amount \<Rightarrow> quantity_domain \<Rightarrow> int option \<Rightarrow> u32 option \<Rightarrow> unit res" where
  "amount_CompatibleWith a domain scale assetID =
     (let adom = default_domain QuantityDomainAsset (aa_domain a);
          dom = default_domain QuantityDomainAsset domain
      in if adom \<noteq> dom
         then Inl (ValidationError (''amount domain mismatch: value is '' @ adom
                @ '', destination is '' @ dom))
         else if known_mismatch (aa_scale a) scale
         then Inl (ValidationError (''amount scale mismatch: value scale is '' @ itoa (the (aa_scale a))
                @ '', destination is '' @ itoa (the scale)))
         else if known_mismatch (aa_assetID a) assetID
         then Inl (ValidationError (''amount asset_id mismatch: value is for ''
                @ u32_text (the (aa_assetID a)) @ '', destination is '' @ u32_text (the assetID)))
         else Inr ())"

section \<open>Write-side inputs\<close>

text \<open>The zero value of an input is unset; the accessors return the value and its flag.\<close>

record price_input =
  pi_decimal :: string
  pi_hasDec :: bool
  pi_ticks :: price_ticks
  pi_hasTicks :: bool

record qty_input =
  qi_decimal :: string
  qi_hasDec :: bool
  qi_scaled :: qty_scaled
  qi_hasScaled :: bool

record amount_input =
  ai_decimal :: string
  ai_hasDec :: bool
  ai_scaled :: asset_amount
  ai_hasScaled :: bool

definition PriceFromDecimal :: "string \<Rightarrow> price_input" where
  "PriceFromDecimal s = \<lparr>pi_decimal = s, pi_hasDec = True,
     pi_ticks = \<lparr>pt_ticks = 0, pt_symbol = []\<rparr>, pi_hasTicks = False\<rparr>"

definition PriceFromTicks :: "price_ticks \<Rightarrow> price_input" where
  "PriceFromTicks p = \<lparr>pi_decimal = [], pi_hasDec = False, pi_ticks = p, pi_hasTicks = True\<rparr>"

definition price_IsSet :: "price_input \<Rightarrow> bool" where
  "price_IsSet p \<longleftrightarrow> pi_hasDec p \<or> pi_hasTicks p"

definition QtyFromDecimal :: "string \<Rightarrow> qty_input" where
  "QtyFromDecimal s = \<lparr>qi_decimal = s, qi_hasDec = True, qi_scaled = zeroQtyScaled, qi_hasScaled = False\<rparr>"

definition QtyFromScaled :: "qty_scaled \<Rightarrow> qty_input" where
  "QtyFromScaled q = \<lparr>qi_decimal = [], qi_hasDec = False, qi_scaled = q, qi_hasScaled = True\<rparr>"

definition QtyFromQuoteDecimal :: "string \<Rightarrow> qty_input" where
  "QtyFromQuoteDecimal s = QtyFromDecimal s"

definition qty_IsSet :: "qty_input \<Rightarrow> bool" where
  "qty_IsSet q \<longleftrightarrow> qi_hasDec q \<or> qi_hasScaled q"

definition zeroAssetAmount :: asset_amount where
  "zeroAssetAmount = \<lparr>aa_scaled = None, aa_scale = None, aa_domain = [], aa_assetID = None\<rparr>"

definition AssetAmountFromDecimal :: "string \<Rightarrow> amount_input" where
  "AssetAmountFromDecimal s = \<lparr>ai_decimal = s, ai_hasDec = True,
     ai_scaled = zeroAssetAmount, ai_hasScaled = False\<rparr>"

definition AssetAmountFromScaled :: "asset_amount \<Rightarrow> amount_input" where
  "AssetAmountFromScaled a = \<lparr>ai_decimal = [], ai_hasDec = False, ai_scaled = a, ai_hasScaled = True\<rparr>"

definition amount_IsSet :: "amount_input \<Rightarrow> bool" where
  "amount_IsSet a \<longleftrightarrow> ai_hasDec a \<or> ai_hasScaled a"

text \<open>The \<open>Must...\<close> constructors panic on error; a panic is \<open>None\<close>.\<close>

definition must :: "'a res \<Rightarrow> 'a option" where
  "must r = (case r of Inl _ \<Rightarrow> None | Inr a \<Rightarrow> Some a)"

definition MustPriceTicks :: "int \<Rightarrow> price_ticks option" where
  "MustPriceTicks ticks = must (NewPriceTicks ticks)"

definition MustQtyScaled :: "int \<Rightarrow> qty_scaled option" where
  "MustQtyScaled scaled = must (NewQtyScaled scaled)"

definition MustQtyQuoteScaled :: "int \<Rightarrow> int \<Rightarrow> qty_scaled option" where
  "MustQtyQuoteScaled scaled scale = must (NewQtyQuoteScaled scaled scale)"

definition MustAssetAmountScaled :: "int \<Rightarrow> asset_amount option" where
  "MustAssetAmountScaled scaled = must (NewAssetAmountScaled scaled)"

definition PriceFromTicksInt :: "int \<Rightarrow> price_input option" where
  "PriceFromTicksInt ticks = map_option PriceFromTicks (MustPriceTicks ticks)"

definition QtyFromScaledInt :: "int \<Rightarrow> qty_input option" where
  "QtyFromScaledInt scaled = map_option QtyFromScaled (MustQtyScaled scaled)"

definition QtyFromQuoteScaled :: "int \<Rightarrow> int \<Rightarrow> qty_input option" where
  "QtyFromQuoteScaled scaled scale = map_option QtyFromScaled (MustQtyQuoteScaled scaled scale)"

section \<open>What the fixed-point text denotes\<close>

text \<open>The value of a whole part and a fraction read at a scale.\<close>

definition point_value :: "string \<Rightarrow> string \<Rightarrow> nat \<Rightarrow> nat" where
  "point_value head tail scale =
     digits_val head * 10 ^ scale + digits_val tail * 10 ^ (scale - length tail)"

lemma pad_left_props:
  assumes "all_digits s"
  shows "all_digits (pad_left w s)" and "w \<le> length (pad_left w s)"
    and "digits_val (pad_left w s) = digits_val s"
  using assms by (auto simp: pad_left_def all_digits_def digits_val_append)

lemma trim_left_zeros_hd: "trim_left_zeros s \<noteq> [] \<Longrightarrow> hd (trim_left_zeros s) \<noteq> CHR ''0''"
  using hd_dropWhile [of "\<lambda>c. c = CHR ''0''" s] by (auto simp: trim_left_zeros_def)

text \<open>The shape and the value of the text the formatters build from a digit string.\<close>

lemma point_text_split:
  assumes ds: "all_digits digits"
  obtains head tail where
    "point_text digits scale = (if tail = [] then head else head @ CHR ''.'' # tail)"
    and "all_digits head" and "list_all is_digit tail" and "length tail \<le> scale"
    and "tail = [] \<or> last tail \<noteq> CHR ''0''" and "head = ''0'' \<or> hd head \<noteq> CHR ''0''"
    and "point_value head tail scale = digits_val digits"
proof -
  let ?ds = "pad_left (Suc scale) digits"
  let ?k = "length ?ds - scale"
  let ?h = "trim_left_zeros (take ?k ?ds)"
  let ?head = "if ?h = [] then ''0'' else ?h"
  let ?f = "drop ?k ?ds"
  let ?tail = "trim_right_zeros ?f"
  have pd: "all_digits ?ds" "Suc scale \<le> length ?ds" "digits_val ?ds = digits_val digits"
    using pad_left_props [OF ds] by blast+
  have lf: "length ?f = scale" using pd(2) by simp
  have dig: "list_all is_digit (take ?k ?ds)" "list_all is_digit ?f"
    using pd(1) by (auto simp: all_digits_def list_all_iff dest: in_set_takeD in_set_dropD)
  have hv: "digits_val ?head = digits_val (take ?k ?ds)"
    using digits_val_trim_left [of "take ?k ?ds"] by (auto simp: digits_val_Cons)
  have tv: "digits_val ?tail * 10 ^ (scale - length ?tail) = digits_val ?f"
    using digits_val_trim_right [of ?f] by (simp only: lf)
  have "digits_val ?ds = digits_val (take ?k ?ds) * 10 ^ scale + digits_val ?f"
    using digits_val_append [of "take ?k ?ds" ?f] by (simp only: append_take_drop_id lf)
  then have val: "point_value ?head ?tail scale = digits_val digits"
    by (simp only: point_value_def hv tv pd(3))
  have out: "point_text digits scale = (if ?tail = [] then ?head else ?head @ CHR ''.'' # ?tail)"
    by (simp add: point_text_def Let_def)
  have hd_digits: "all_digits ?head"
    using dig(1) set_trim_zeros(2) [of "take ?k ?ds"] by (auto simp: all_digits_def list_all_iff)
  have tl_digits: "list_all is_digit ?tail"
    using dig(2) set_trim_zeros(1) [of ?f] by (auto simp: list_all_iff)
  have tl_len: "length ?tail \<le> scale" using length_trim_right_zeros [of ?f] by (simp only: lf)
  have tl_last: "?tail = [] \<or> last ?tail \<noteq> CHR ''0''" using trim_right_zeros_last by blast
  have hd_hd: "?head = ''0'' \<or> hd ?head \<noteq> CHR ''0''"
    using trim_left_zeros_hd by (cases "?h = []") auto
  show thesis by (rule that [OF out hd_digits tl_digits tl_len tl_last hd_hd val])
qed

lemma itoa_nonneg: "0 \<le> n \<Longrightarrow> itoa n = dec_nat (nat n)"
  by (simp add: itoa_def)

lemma all_digits_itoa: "0 \<le> n \<Longrightarrow> all_digits (itoa n)"
  by (simp add: itoa_nonneg)

lemma digits_val_itoa: "0 \<le> n \<Longrightarrow> digits_val (itoa n) = nat n"
  by (simp add: itoa_nonneg)

text \<open>On 64-bit values the two formatters agree, except that the 64-bit one cannot negate
  the least value.\<close>

lemma formatFixed_Big:
  assumes "is_int64 n" and "n \<noteq> int64Min"
  shows "formatFixed n scale = formatFixedBig n scale"
proof -
  have "wrap64 (- n) = - n" if "n < 0"
    using assms that by (intro wrap64_id) (simp add: int64_defs)
  then show ?thesis by (simp add: formatFixed_def formatFixedBig_def Let_def)
qed

end
