(* ===== verification/Scalars.thy ===== *)
theory Scalars
  imports Money
begin

text \<open>
  \<open>codecs/scalars.go\<close> and \<open>codecs/money.go\<close>: strict decimal parsing at a scale, the
  formatters of the read side, public identifiers, and the resolution of write-side inputs
  to wire integers. Parsing never rounds; a text with more decimal places than the scale
  is refused.

  \<open>base58.Encode\<close> and \<open>base58.Decode\<close> are a third-party package: they are the arguments
  \<open>enc\<close> and \<open>dec\<close> of the identifier functions.
\<close>

section \<open>Decimal texts\<close>

definition ValidateProtocolScale :: "int \<Rightarrow> unit res" where
  "ValidateProtocolScale scale =
     (if scale < 0 then Inl (ValidationError ''scale must be non-negative'')
      else if scale > MaxProtocolScale then Inl (scale_too_large scale)
      else Inr ())"

text \<open>The regular expression \<open>^\d+(?:\.\d+)?$\<close>.\<close>

definition strictDecimal :: "string \<Rightarrow> bool" where
  "strictDecimal s = (case cut CHR ''.'' s of (a, b, found) \<Rightarrow>
     all_digits a \<and> (found \<longrightarrow> all_digits b))"

definition normalizeStrictDecimal :: "string \<Rightarrow> string \<Rightarrow> string res" where
  "normalizeStrictDecimal raw fieldName =
     (let text = trim_space raw
      in if text = [] \<or> \<not> strictDecimal text
         then Inl (ValidationError (fieldName @ '' must be a valid decimal string''))
         else Inr text)"

definition trimTrailingFracZeros :: "string \<Rightarrow> string" where
  "trimTrailingFracZeros raw = (case cut CHR ''.'' raw of (intPart, fracPart, ok) \<Rightarrow>
     if \<not> ok then raw
     else let frac = trim_right_zeros fracPart
          in if frac = [] then (if intPart = [] then ''0'' else intPart)
             else intPart @ ''.'' @ frac)"

definition decimalToScaledBig :: "string \<Rightarrow> int \<Rightarrow> string \<Rightarrow> int res" where
  "decimalToScaledBig raw scale fieldName =
     bind_res (ValidateProtocolScale scale) (\<lambda>_.
     bind_res (normalizeStrictDecimal raw fieldName) (\<lambda>text0.
       let text = trimTrailingFracZeros text0 in
       case cut CHR ''.'' text of (intPart, fracPart, _) \<Rightarrow>
         if scale < int (length fracPart)
         then Inl (ValidationError (fieldName @ '' supports at most '' @ itoa scale
                @ '' decimal places: '' @ text))
         else let ds = intPart @ fracPart @ zeros (nat scale - length fracPart);
                  ds = (if ds = [] then ''0'' else ds)
              in case big_set_string ds of
                   None \<Rightarrow> Inl (ValidationError (fieldName @ '' must be a valid decimal string''))
                 | Some n \<Rightarrow> Inr n))"

section \<open>Prices and quantities as text\<close>

text \<open>\<open>ParsePriceTicks\<close> and \<open>ParseQtyScaled\<close> return a \<open>uint64\<close>.\<close>

definition ParsePriceTicks :: "string \<Rightarrow> string \<Rightarrow> int res" where
  "ParsePriceTicks raw fieldName =
     bind_res (decimalToScaledBig raw PriceTickScale fieldName) (\<lambda>scaled.
       if scaled < 0 then Inl (ValidationError (fieldName @ '' must be non-negative''))
       else if \<not> is_uint64 scaled then Inl (ValidationError (fieldName @ '' out of range''))
       else if scaled > int64Max then Inl (ValidationError (fieldName @ '' exceeds int64 range''))
       else Inr scaled)"

definition formatPadded :: "int \<Rightarrow> nat \<Rightarrow> string" where
  "formatPadded n width = pad_left width (itoa n)"

text \<open>The block of \<open>FormatPriceTicks\<close> and \<open>FormatQtyScaled\<close> after the padding.\<close>

definition split_padded :: "string \<Rightarrow> nat \<Rightarrow> string" where
  "split_padded ds scale =
     (let h = trim_left_zeros (take (length ds - scale) ds);
          head = (if h = [] then ''0'' else h);
          tail = trim_right_zeros (drop (length ds - scale) ds)
      in if tail = [] then head else head @ ''.'' @ tail)"

definition FormatPriceTicks :: "int \<Rightarrow> string" where
  "FormatPriceTicks ticks =
     (let neg = ticks < 0;
          m = (if neg then wrap64 (- ticks) else ticks);
          out = split_padded (formatPadded m (Suc (nat PriceTickScale))) (nat PriceTickScale)
      in if neg then ''-'' @ out else out)"

definition ParseQtyScaled :: "string \<Rightarrow> int \<Rightarrow> string \<Rightarrow> int res" where
  "ParseQtyScaled raw scale fieldName =
     bind_res (ValidateProtocolScale scale) (\<lambda>_.
     bind_res (decimalToScaledBig raw scale fieldName) (\<lambda>scaled.
       if scaled \<le> 0 then Inl (ValidationError (fieldName @ '' must be positive''))
       else if scale \<noteq> 18 \<and> \<not> is_int64 scaled
       then Inl (ValidationError (fieldName @ '' exceeds int64 range''))
       else if \<not> is_uint64 scaled then Inl (ValidationError (fieldName @ '' out of range''))
       else Inr scaled))"

definition FormatQtyScaled :: "int \<Rightarrow> int \<Rightarrow> string res" where
  "FormatQtyScaled qtyScaled scale =
     bind_res (ValidateProtocolScale scale) (\<lambda>_.
       if scale = 0 then Inr (itoa qtyScaled)
       else let neg = qtyScaled < 0;
                m = (if neg then wrap64 (- qtyScaled) else qtyScaled);
                out = split_padded (formatPadded m (Suc (nat scale))) (nat scale)
            in if neg then Inr (''-'' @ out) else Inr out)"

section \<open>Public identifiers\<close>

text \<open>\<open>big.Int.SetBytes\<close> and \<open>big.Int.Bytes\<close>: big-endian, no leading zero byte.\<close>

definition bytes_val :: "byte list \<Rightarrow> nat" where
  "bytes_val bs = foldl (\<lambda>a b. 256 * a + unat b) 0 bs"

fun be_bytes :: "nat \<Rightarrow> byte list" where
  "be_bytes n = (if n = 0 then [] else be_bytes (n div 256) @ [word_of_nat (n mod 256)])"

declare be_bytes.simps [simp del]

definition FormatID :: "(byte list \<Rightarrow> string) \<Rightarrow> u64 \<Rightarrow> string" where
  "FormatID enc value = (if value = 0 then enc [0] else enc (be_bytes (unat value)))"

definition isDecimal :: "string \<Rightarrow> bool" where
  "isDecimal s \<longleftrightarrow> list_all is_digit s \<and> 0 < length s"

definition IDToInt ::
  "(byte list \<Rightarrow> string) \<Rightarrow> (string \<Rightarrow> byte list option) \<Rightarrow> string \<Rightarrow> string \<Rightarrow> u64 res" where
  "IDToInt enc dec value0 label =
     (let value = trim_space value0 in
      if value = [] then Inl (ValidationError (label @ '' is required''))
      else if isDecimal value
      then (case big_set_string value of
          None \<Rightarrow> Inl (ValidationError (label @ '' must be base58 or decimal uint64''))
        | Some n \<Rightarrow>
            if n < 0 \<or> n > Uint64Max
            then Inl (ValidationError (label @ '' exceeds uint64 range''))
            else (case dec value of
                None \<Rightarrow> Inr (word_of_int n)
              | Some decoded \<Rightarrow>
                  let b = int (bytes_val decoded) in
                  if 0 \<le> b \<and> b \<le> Uint64Max \<and> FormatID enc (word_of_int b) = value
                  then Inr (word_of_int b) else Inr (word_of_int n)))
      else (case dec value of
          None \<Rightarrow> Inl (ValidationError (label @ '' must be base58 or decimal uint64''))
        | Some decoded \<Rightarrow>
            let n = int (bytes_val decoded) in
            if n < 0 \<or> n > Uint64Max
            then Inl (ValidationError (label @ '' exceeds uint64 range''))
            else Inr (word_of_int n)))"

text \<open>\<open>FormatUint64ID\<close> (\<open>codecs/proto_helpers.go\<close>) and the 128-bit halves.\<close>

definition FormatUint64ID :: "(byte list \<Rightarrow> string) \<Rightarrow> u64 \<Rightarrow> string" where
  "FormatUint64ID enc value = (if value = 0 then ''0'' else FormatID enc value)"

definition U128ToBig :: "u64 \<Rightarrow> u64 \<Rightarrow> int" where
  "U128ToBig hi lo = push_bit 64 (uint hi) + uint lo"

definition U128ToStr :: "u64 \<Rightarrow> u64 \<Rightarrow> string" where
  "U128ToStr hi lo = itoa (U128ToBig hi lo)"

section \<open>Resolving write-side inputs\<close>

definition ResolvePriceTicks :: "price_input \<Rightarrow> string \<Rightarrow> string \<Rightarrow> int res" where
  "ResolvePriceTicks p fieldName symbol =
     (if pi_hasTicks p
      then bind_res (price_CompatibleWith (pi_ticks p) symbol) (\<lambda>_. Inr (pt_ticks (pi_ticks p)))
      else if pi_hasDec p
      then bind_res (ParsePriceTicks (pi_decimal p) fieldName) (\<lambda>u. Inr (wrap64 u))
      else Inl (ValidationError (fieldName @ '' is required'')))"

definition ResolveOptionalPriceTicks ::
  "price_input option \<Rightarrow> string \<Rightarrow> string \<Rightarrow> int option res" where
  "ResolveOptionalPriceTicks p fieldName symbol = (case p of None \<Rightarrow> Inr None
     | Some i \<Rightarrow> if \<not> price_IsSet i then Inr None
         else bind_res (ResolvePriceTicks i fieldName symbol) (\<lambda>ticks. Inr (Some ticks)))"

definition ResolveQtyScaled ::
  "qty_input \<Rightarrow> int \<Rightarrow> string \<Rightarrow> string \<Rightarrow> u32 option \<Rightarrow> int res" where
  "ResolveQtyScaled q scale fieldName symbol symbolID =
     (if qi_hasScaled q
      then bind_res (qty_CompatibleWith (qi_scaled q) QuantityDomainOrderBase (Some scale) symbol symbolID)
        (\<lambda>_. if qs_scaled (qi_scaled q) \<le> 0
             then Inl (ValidationError (fieldName @ '' must be positive''))
             else Inr (qs_scaled (qi_scaled q)))
      else if qi_hasDec q
      then (if scale \<le> 0
            then Inl (ValidationError (fieldName
                   @ '' requires known quantity scale (catalogs + symbol)''))
            else bind_res (ParseQtyScaled (qi_decimal q) scale fieldName) (\<lambda>u. Inr (wrap64 u)))
      else Inl (ValidationError (fieldName @ '' is required'')))"

definition ResolveOptionalQtyScaled ::
  "qty_input option \<Rightarrow> int \<Rightarrow> string \<Rightarrow> string \<Rightarrow> u32 option \<Rightarrow> int option res" where
  "ResolveOptionalQtyScaled q scale fieldName symbol symbolID = (case q of None \<Rightarrow> Inr None
     | Some i \<Rightarrow> if \<not> qty_IsSet i then Inr None
         else bind_res (ResolveQtyScaled i scale fieldName symbol symbolID) (\<lambda>qty. Inr (Some qty)))"

definition ResolveQuoteQtyScaled ::
  "qty_input \<Rightarrow> int \<Rightarrow> string \<Rightarrow> string \<Rightarrow> u32 option \<Rightarrow> int res" where
  "ResolveQuoteQtyScaled q scale fieldName symbol symbolID =
     (if qi_hasScaled q
      then (if qs_scale (qi_scaled q) = None
            then Inl (ValidationError (fieldName
                   @ '' scale is required; use QtyFromQuoteScaled/QtyFromQuoteDecimal''))
            else bind_res (qty_CompatibleWith (qi_scaled q) QuantityDomainOrderQuote (Some scale) symbol symbolID)
              (\<lambda>_. if qs_scaled (qi_scaled q) \<le> 0
                   then Inl (ValidationError (fieldName @ '' must be positive''))
                   else Inr (qs_scaled (qi_scaled q))))
      else if qi_hasDec q
      then (if scale < 0
            then Inl (ValidationError (fieldName
                   @ '' requires known quote quantity scale (catalogs + symbol)''))
            else bind_res (ParseQtyScaled (qi_decimal q) scale fieldName) (\<lambda>u.
              if wrap64 u \<le> 0 then Inl (ValidationError (fieldName @ '' must be positive''))
              else Inr (wrap64 u)))
      else Inl (ValidationError (fieldName @ '' is required'')))"

text \<open>\<open>big.Int.BitLen\<close> of the value, compared with 128.\<close>

definition fits_u128 :: "int \<Rightarrow> bool" where
  "fits_u128 n \<longleftrightarrow> \<bar>n\<bar> < 2 ^ 128"

text \<open>\<open>QuoRem\<close> truncates towards zero.\<close>

definition quo :: "int \<Rightarrow> int \<Rightarrow> int" where
  "quo a b = sgn a * sgn b * (\<bar>a\<bar> div \<bar>b\<bar>)"

definition rescaleExact :: "int \<Rightarrow> int \<Rightarrow> int \<Rightarrow> string \<Rightarrow> int res" where
  "rescaleExact value sourceScale targetScale fieldName =
     bind_res (ValidateProtocolScale sourceScale) (\<lambda>_.
       if sourceScale = targetScale
       then (if \<not> fits_u128 value
             then Inl (ValidationError (fieldName @ '' exceeds uint128 range''))
             else Inr value)
       else let diff = sourceScale - targetScale in
         if diff < 0
         then (let out = value * 10 ^ nat (- diff) in
               if \<not> fits_u128 out
               then Inl (ValidationError (fieldName @ '' scale conversion exceeds uint128 range''))
               else Inr out)
         else let divisor = 10 ^ nat diff; quotient = quo value divisor;
                  remainder = value - divisor * quotient in
              if remainder \<noteq> 0
              then Inl (ValidationError (fieldName @ '' cannot be represented exactly at target scale''))
              else if \<not> fits_u128 quotient
              then Inl (ValidationError (fieldName @ '' exceeds uint128 range''))
              else Inr quotient)"

definition ResolveAssetAmountScaledToScale ::
  "amount_input \<Rightarrow> int option \<Rightarrow> int \<Rightarrow> string \<Rightarrow> quantity_domain \<Rightarrow> u32 option \<Rightarrow> int res" where
  "ResolveAssetAmountScaledToScale a inputScale targetScale fieldName domain0 assetID =
     (let domain = default_domain QuantityDomainAsset domain0;
          finish = (\<lambda>rescaled. if domain \<noteq> QuantityDomainLedgerE18 \<and> \<not> is_int64 rescaled
                      then Inl (ValidationError (fieldName @ '' exceeds int64 range''))
                      else Inr rescaled)
      in bind_res (ValidateProtocolScale targetScale) (\<lambda>_.
        if ai_hasScaled a
        then bind_res (amount_CompatibleWith (ai_scaled a) domain None assetID) (\<lambda>_.
          case aa_scaled (ai_scaled a) of
            None \<Rightarrow> Inl (ValidationError (fieldName @ '' must be positive''))
          | Some value \<Rightarrow>
              if value \<le> 0 then Inl (ValidationError (fieldName @ '' must be positive''))
              else bind_res
                (case aa_scale (ai_scaled a) of
                   Some declared \<Rightarrow>
                     if inputScale \<noteq> None \<and> the inputScale \<noteq> declared
                     then Inl (ValidationError (fieldName
                            @ '' scale metadata does not match input scale''))
                     else Inr declared
                 | None \<Rightarrow> (case inputScale of Some s \<Rightarrow> Inr s
                     | None \<Rightarrow> Inl (ValidationError (fieldName
                         @ '' scale is required; construct AssetAmount with an explicit scale or pass amount_scale/quantity_scale''))))
                (\<lambda>sourceScale. bind_res (rescaleExact value sourceScale targetScale fieldName) finish))
        else if ai_hasDec a
        then (let sourceScale = (case inputScale of Some s \<Rightarrow> s | None \<Rightarrow> targetScale) in
          bind_res (decimalToScaledBig (ai_decimal a) sourceScale fieldName) (\<lambda>scaled.
            if scaled \<le> 0 then Inl (ValidationError (fieldName @ '' must be positive''))
            else bind_res (rescaleExact scaled sourceScale targetScale fieldName) finish))
        else Inl (ValidationError (fieldName @ '' is required''))))"

definition ResolveAssetAmountScaled ::
  "amount_input \<Rightarrow> int \<Rightarrow> string \<Rightarrow> quantity_domain \<Rightarrow> u32 option \<Rightarrow> int res" where
  "ResolveAssetAmountScaled a scale fieldName domain assetID =
     ResolveAssetAmountScaledToScale a (Some scale) scale fieldName domain assetID"

section \<open>Read-side values\<close>

definition DecodePriceTicks :: "int \<Rightarrow> string \<Rightarrow> price_ticks" where
  "DecodePriceTicks ticks symbol = (case NewPriceTicks ticks of
       Inl _ \<Rightarrow> \<lparr>pt_ticks = 0, pt_symbol = []\<rparr>
     | Inr value \<Rightarrow> price_WithSymbol value symbol)"

definition DecodeQtyScaled :: "int \<Rightarrow> int \<Rightarrow> string \<Rightarrow> u32 option \<Rightarrow> qty_scaled" where
  "DecodeQtyScaled scaled scale symbol symbolID =
     (let q = (case NewQtyScaled scaled of Inl _ \<Rightarrow> zeroQtyScaled | Inr q \<Rightarrow> q);
          q = (if scale \<ge> 0 then qty_WithScale q scale else q);
          q = qty_WithSymbol q symbol
      in case symbolID of None \<Rightarrow> q | Some i \<Rightarrow> qty_WithSymbolID q i)"

definition DecodeAssetAmountBig ::
  "int option \<Rightarrow> int \<Rightarrow> quantity_domain \<Rightarrow> u32 option \<Rightarrow> asset_amount" where
  "DecodeAssetAmountBig scaled scale domain assetID =
     (let value = (case scaled of Some n \<Rightarrow> n | None \<Rightarrow> 0);
          a = (case NewAssetAmountFromBig (Some value) of Inl _ \<Rightarrow> zeroAssetAmount | Inr a \<Rightarrow> a);
          a = amount_WithDomain a domain;
          a = (if scale \<ge> 0 then amount_WithScale a scale else a)
      in case assetID of None \<Rightarrow> a | Some i \<Rightarrow> amount_WithAssetID a i)"

definition DecodeAssetAmount ::
  "int \<Rightarrow> int \<Rightarrow> quantity_domain \<Rightarrow> u32 option \<Rightarrow> asset_amount" where
  "DecodeAssetAmount scaled scale domain assetID = DecodeAssetAmountBig (Some scaled) scale domain assetID"

section \<open>Decimal parsing is exact\<close>

text \<open>\<open>n\<close> at \<open>scale\<close> decimal places is the number a decimal text denotes.\<close>

definition decimal_is :: "string \<Rightarrow> int \<Rightarrow> int \<Rightarrow> bool" where
  "decimal_is text n scale = (case cut CHR ''.'' text of (a, b, _) \<Rightarrow>
     n * 10 ^ length b = int (digits_val (a @ b)) * 10 ^ nat scale)"

lemma digits_not_dot: "list_all is_digit s \<Longrightarrow> CHR ''.'' \<notin> set s"
  by (auto simp: list_all_iff)

lemma ValidateProtocolScale_Inr: "ValidateProtocolScale scale = Inr () \<longleftrightarrow> 0 \<le> scale \<and> scale \<le> 36"
  by (simp add: ValidateProtocolScale_def)

lemma bind_scale_Inr [simp]:
  "bind_res (ValidateProtocolScale scale) f = Inr b \<longleftrightarrow> 0 \<le> scale \<and> scale \<le> 36 \<and> f () = Inr b"
  by (auto simp: ValidateProtocolScale_def)

text \<open>A strict text, and its whole and fractional parts after the trailing zeros are dropped.\<close>

lemma strict_parts:
  assumes "strictDecimal text"
  obtains a b where "cut CHR ''.'' text = (a, b, b \<noteq> [])" and "all_digits a"
    and "list_all is_digit b"
proof -
  obtain a b found where c: "cut CHR ''.'' text = (a, b, found)" by (cases "cut CHR ''.'' text")
  with assms have a: "all_digits a" and b: "found \<Longrightarrow> all_digits b"
    by (auto simp: strictDecimal_def)
  have "\<not> found \<Longrightarrow> b = []" using c by (auto simp: cut_def Let_def split: if_splits)
  with b have "found \<longleftrightarrow> b \<noteq> []" and "list_all is_digit b"
    by (cases found; auto simp: all_digits_def)+
  with that c a show thesis by simp
qed

lemma cut_trimTrailingFracZeros:
  assumes "cut CHR ''.'' text = (a, b, b \<noteq> [])" and "all_digits a" and "list_all is_digit b"
  shows "cut CHR ''.'' (trimTrailingFracZeros text)
    = (a, trim_right_zeros b, trim_right_zeros b \<noteq> [])"
proof (cases "trim_right_zeros b = []")
  case True
  have "text = a" if "b = []"
    using assms(1) that by (auto simp: cut_def Let_def split: if_splits)
  with True assms show ?thesis
    by (auto simp: trimTrailingFracZeros_def all_digits_def cut_absent digits_not_dot)
next
  case False
  then have "b \<noteq> []" by (auto simp: trim_right_zeros_def)
  with False assms show ?thesis
    by (auto simp: trimTrailingFracZeros_def cut_found all_digits_def digits_not_dot)
qed

lemma power_split_cancel:
  fixes n v :: int
  assumes "lf \<le> lb" and "lf \<le> sc"
  shows "n * 10 ^ lb = v * 10 ^ (lb - lf) * 10 ^ sc \<longleftrightarrow> n = v * 10 ^ (sc - lf)"
proof -
  have "(10::int) ^ lb = 10 ^ (lb - lf) * 10 ^ lf" and "(10::int) ^ sc = 10 ^ (sc - lf) * 10 ^ lf"
    using assms by (simp_all flip: power_add)
  then show ?thesis by simp
qed

lemma last_digit_not_multiple:
  assumes "list_all is_digit b" and "b \<noteq> []" and "last b \<noteq> CHR ''0''"
  shows "\<not> 10 dvd int (digits_val (a @ b))"
proof -
  obtain b' c where b: "b = b' @ [c]" using assms(2) by (cases b rule: rev_cases) auto
  then have c: "is_digit c" "c \<noteq> CHR ''0''" using assms by auto
  then have "digit_val c \<noteq> 0" "digit_val c < 10" using digit_val_eq_0 digit_val_less by blast+
  moreover have "digits_val (a @ b) = 10 * digits_val (a @ b') + digit_val c"
    unfolding b append_assoc [symmetric] by (rule digits_val_snoc)
  ultimately show ?thesis by presburger
qed

lemma too_many_places:
  assumes b: "list_all is_digit f" "last f \<noteq> CHR ''0''" and "sc < length f" and "length f \<le> lb"
  shows "n * 10 ^ lb \<noteq> int (digits_val (a @ f)) * 10 ^ (lb - length f) * 10 ^ sc"
proof
  assume eq: "n * 10 ^ lb = int (digits_val (a @ f)) * 10 ^ (lb - length f) * 10 ^ sc"
  have "(10::int) ^ lb = 10 ^ (length f - sc) * 10 ^ (lb - length f) * 10 ^ sc"
    using assms by (simp flip: power_add)
  with eq have "n * 10 ^ (length f - sc) = int (digits_val (a @ f))" by simp
  moreover have "(10::int) dvd 10 ^ (length f - sc)" using assms by simp
  ultimately have "10 dvd int (digits_val (a @ f))" by (metis dvd_mult)
  moreover have "f \<noteq> []" using assms(3) by auto
  ultimately show False using last_digit_not_multiple [OF b(1) _ b(2)] by blast
qed

lemma decimal_text:
  assumes c: "cut CHR ''.'' text = (a, b, b \<noteq> [])" and a: "all_digits a" and b: "list_all is_digit b"
    and sc: "0 \<le> scale"
  shows "(length (trim_right_zeros b) \<le> nat scale
          \<and> n = int (digits_val (a @ trim_right_zeros b)) * 10 ^ (nat scale - length (trim_right_zeros b)))
     \<longleftrightarrow> decimal_is text n scale"
proof -
  let ?f = "trim_right_zeros b"
  have lf: "length ?f \<le> length b" by (rule length_trim_right_zeros)
  have fd: "list_all is_digit ?f" using b set_trim_zeros(1) [of b] by (auto simp: list_all_iff)
  have "digits_val (a @ b) = digits_val (a @ ?f) * 10 ^ (length b - length ?f)"
    using arg_cong [OF trim_right_zeros_split [of b], of "\<lambda>x. digits_val (a @ x)"]
    by (simp add: digits_val_append algebra_simps flip: power_add)
  then have d: "decimal_is text n scale \<longleftrightarrow>
      n * 10 ^ length b = int (digits_val (a @ ?f)) * 10 ^ (length b - length ?f) * 10 ^ nat scale"
    by (simp add: decimal_is_def c)
  show ?thesis
  proof (cases "length ?f \<le> nat scale")
    case True
    then show ?thesis unfolding d power_split_cancel [OF lf True] by simp
  next
    case False
    then have "?f \<noteq> []" by auto
    with False fd lf trim_right_zeros_last [of b] have "\<not> decimal_is text n scale"
      unfolding d by (intro too_many_places) auto
    with False show ?thesis by simp
  qed
qed

lemma big_set_string_padded:
  assumes "all_digits a" and "list_all is_digit f"
  shows "big_set_string (a @ f @ zeros k) = Some (int (digits_val (a @ f)) * 10 ^ k)"
proof -
  have "all_digits (a @ f @ zeros k)" using assms by (auto simp: all_digits_def)
  then have "big_set_string (a @ f @ zeros k) = Some (int (digits_val ((a @ f) @ zeros k)))"
    by (simp add: big_set_string_digits)
  then show ?thesis by (simp only: digits_val_append [of "a @ f"]) simp
qed

lemma decimalToScaledBig_iff:
  "decimalToScaledBig raw scale f = Inr n \<longleftrightarrow>
     0 \<le> scale \<and> scale \<le> 36 \<and> strictDecimal (trim_space raw) \<and> decimal_is (trim_space raw) n scale"
proof (cases "0 \<le> scale \<and> scale \<le> 36 \<and> strictDecimal (trim_space raw)")
  case True
  let ?t = "trim_space raw"
  from True obtain a b where c: "cut CHR ''.'' ?t = (a, b, b \<noteq> [])" and a: "all_digits a"
    and b: "list_all is_digit b" by (blast elim: strict_parts)
  let ?f = "trim_right_zeros b"
  have fd: "list_all is_digit ?f" using b set_trim_zeros(1) [of b] by (auto simp: list_all_iff)
  have "?t \<noteq> []" using True by (auto simp: strictDecimal_def all_digits_def cut_def)
  then have norm: "normalizeStrictDecimal raw f = Inr ?t"
    using True by (simp add: normalizeStrictDecimal_def Let_def)
  have "a \<noteq> []" using a by (simp add: all_digits_def)
  then have "decimalToScaledBig raw scale f = Inr n \<longleftrightarrow>
      length ?f \<le> nat scale \<and> n = int (digits_val (a @ ?f)) * 10 ^ (nat scale - length ?f)"
    using True by (auto simp: decimalToScaledBig_def norm cut_trimTrailingFracZeros [OF c a b]
        big_set_string_padded [OF a fd] Let_def)
  with True decimal_text [OF c a b] show ?thesis by simp
next
  case False
  then show ?thesis
    by (auto simp: decimalToScaledBig_def normalizeStrictDecimal_def Let_def)
qed

lemma ParsePriceTicks_iff:
  "ParsePriceTicks raw f = Inr n \<longleftrightarrow>
     strictDecimal (trim_space raw) \<and> decimal_is (trim_space raw) n 9 \<and> 0 \<le> n \<and> n \<le> int64Max"
proof -
  have "ParsePriceTicks raw f = Inr n \<longleftrightarrow>
      decimalToScaledBig raw 9 f = Inr n \<and> 0 \<le> n \<and> n \<le> int64Max"
    by (cases "decimalToScaledBig raw 9 f") (auto simp: ParsePriceTicks_def int64_defs)
  then show ?thesis by (simp add: decimalToScaledBig_iff)
qed

definition qty_limit :: "int \<Rightarrow> int" where
  "qty_limit scale = (if scale = 18 then Uint64Max else int64Max)"

lemma ParseQtyScaled_iff:
  "ParseQtyScaled raw scale f = Inr n \<longleftrightarrow>
     0 \<le> scale \<and> scale \<le> 36 \<and> strictDecimal (trim_space raw) \<and> decimal_is (trim_space raw) n scale
     \<and> 0 < n \<and> n \<le> qty_limit scale"
proof -
  have "ParseQtyScaled raw scale f = Inr n \<longleftrightarrow>
      decimalToScaledBig raw scale f = Inr n \<and> 0 < n \<and> n \<le> qty_limit scale"
  proof (cases "decimalToScaledBig raw scale f")
    case (Inr m)
    then have "0 \<le> scale" "scale \<le> 36" by (simp_all add: decimalToScaledBig_iff)
    with Inr show ?thesis by (auto simp: ParseQtyScaled_def qty_limit_def int64_defs)
  qed (simp add: ParseQtyScaled_def)
  then show ?thesis by (simp add: decimalToScaledBig_iff)
qed

section \<open>Formatting\<close>

lemma split_padded_point_text:
  "split_padded (formatPadded m (Suc k)) k = point_text (itoa m) k"
  by (simp add: split_padded_def formatPadded_def point_text_def Let_def)

lemma FormatQtyScaled_formatFixed: "FormatQtyScaled n scale = formatFixed n scale"
  by (simp add: FormatQtyScaled_def formatFixed_def ValidateProtocolScale_def
      split_padded_point_text Let_def)

lemma FormatPriceTicks_formatFixed: "formatFixed n PriceTickScale = Inr (FormatPriceTicks n)"
  by (simp add: FormatPriceTicks_def formatFixed_def split_padded_point_text Let_def numeral_eq_Suc
      del: One_nat_def)

lemma no_space_end_dot: "no_space_end CHR ''.''"
  by (rule no_space_end_ascii) simp_all

text \<open>A text made of digits and at most one point in the middle is read as it was written.\<close>

lemma decimal_text_read:
  assumes "all_digits head" and "list_all is_digit tail" and "length tail \<le> nat scale"
    and "s = (if tail = [] then head else head @ CHR ''.'' # tail)"
  shows "trim_space s = s" and "strictDecimal s"
    and "decimal_is s (int (point_value head tail (nat scale))) scale"
proof -
  have sd: "\<forall>c \<in> set s. is_digit c \<or> c = CHR ''.''"
    using assms(1,2,4) by (auto simp: all_digits_def list_all_iff)
  then have "no_space_end c" if "c \<in> set s" for c
    using that no_space_end_digit no_space_end_dot by auto
  then show "trim_space s = s" by (intro trim_space_id) auto
  have c: "cut CHR ''.'' s = (head, tail, tail \<noteq> [])"
    using assms by (auto simp: all_digits_def cut_found cut_absent digits_not_dot)
  then show "strictDecimal s"
    using assms by (auto simp: strictDecimal_def all_digits_def)
  show "decimal_is s (int (point_value head tail (nat scale))) scale"
    using assms(3) by (simp add: decimal_is_def c point_value_def digits_val_append algebra_simps
        flip: power_add)
qed

lemma formatFixed_text:
  assumes "0 \<le> n" and "0 \<le> scale" and "scale \<le> 36"
  obtains head tail where
    "formatFixed n scale = Inr (if tail = [] then head else head @ CHR ''.'' # tail)"
    and "all_digits head" and "list_all is_digit tail" and "length tail \<le> nat scale"
    and "tail = [] \<or> last tail \<noteq> CHR ''0''" and "head = ''0'' \<or> hd head \<noteq> CHR ''0''"
    and "point_value head tail (nat scale) = nat n"
proof (cases "scale = 0")
  case True
  have "dec_nat (nat n) = ''0'' \<or> hd (dec_nat (nat n)) \<noteq> CHR ''0''"
    by (cases "nat n = 0") (simp_all add: hd_dec_nat_zero dec_nat.simps [of 0] digit_char_def)
  with True assms show thesis
    by (intro that [of "[]" "dec_nat (nat n)"]) (auto simp: formatFixed_def itoa_nonneg point_value_def)
next
  case False
  have "formatFixed n scale = Inr (point_text (itoa n) (nat scale))"
    using assms False by (simp add: formatFixed_def Let_def)
  moreover obtain head tail where
    "point_text (itoa n) (nat scale) = (if tail = [] then head else head @ CHR ''.'' # tail)"
    "all_digits head" "list_all is_digit tail" "length tail \<le> nat scale"
    "tail = [] \<or> last tail \<noteq> CHR ''0''" "head = ''0'' \<or> hd head \<noteq> CHR ''0''"
    "point_value head tail (nat scale) = nat n"
    using point_text_split [OF all_digits_itoa [OF assms(1)], of "nat scale"] assms(1)
    by (metis digits_val_itoa)
  ultimately show thesis by (intro that [of tail head]) auto
qed

lemma formatFixed_read:
  assumes "0 \<le> n" and "0 \<le> scale" and "scale \<le> 36" and "formatFixed n scale = Inr s"
  shows "trim_space s = s" and "strictDecimal s" and "decimal_is s n scale"
proof -
  obtain head tail where
    ft: "formatFixed n scale = Inr (if tail = [] then head else head @ CHR ''.'' # tail)"
    and *: "all_digits head" "list_all is_digit tail" "length tail \<le> nat scale"
    and pv: "point_value head tail (nat scale) = nat n"
    using formatFixed_text [OF assms(1-3)] by metis
  then have s: "s = (if tail = [] then head else head @ CHR ''.'' # tail)" using assms(4) by simp
  from decimal_text_read [OF * s] pv assms(1)
  show "trim_space s = s" and "strictDecimal s" and "decimal_is s n scale" by simp_all
qed

text \<open>The contract of a formatter and a parser of the same fixed-point text: what is written
  is read back, and so distinct values are written differently.\<close>

locale fixed_point_codec =
  fixes fmt :: "int \<Rightarrow> int \<Rightarrow> string res"
    and parse :: "string \<Rightarrow> int \<Rightarrow> string \<Rightarrow> int res"
    and good :: "int \<Rightarrow> int \<Rightarrow> bool"
  assumes fmt_total: "good n scale \<Longrightarrow> \<exists>s. fmt n scale = Inr s"
    and parse_fmt: "good n scale \<Longrightarrow> fmt n scale = Inr s \<Longrightarrow> parse s scale f = Inr n"
begin

lemma roundtrip: "good n scale \<Longrightarrow> bind_res (fmt n scale) (\<lambda>s. parse s scale f) = Inr n"
  using fmt_total parse_fmt by fastforce

lemma fmt_inj: "good n scale \<Longrightarrow> good m scale \<Longrightarrow> fmt n scale = fmt m scale \<Longrightarrow> n = m"
  using fmt_total parse_fmt by (metis Inr_inject)

end

definition good_price :: "int \<Rightarrow> int \<Rightarrow> bool" where
  "good_price n scale \<longleftrightarrow> 0 \<le> n \<and> n \<le> int64Max \<and> scale = PriceTickScale"

definition good_qty :: "int \<Rightarrow> int \<Rightarrow> bool" where
  "good_qty n scale \<longleftrightarrow> 0 < n \<and> n \<le> int64Max \<and> 0 \<le> scale \<and> scale \<le> 36"

definition good_big :: "int \<Rightarrow> int \<Rightarrow> bool" where
  "good_big n scale \<longleftrightarrow> 0 \<le> n \<and> 0 \<le> scale \<and> scale \<le> 36"

lemma formatFixed_total: "0 \<le> scale \<Longrightarrow> scale \<le> 36 \<Longrightarrow> \<exists>s. formatFixed n scale = Inr s"
  by (simp add: formatFixed_def Let_def)

lemma formatFixedBig_nonneg: "0 \<le> n \<Longrightarrow> formatFixedBig n scale = formatFixed n scale"
  by (simp add: formatFixed_def formatFixedBig_def Let_def)

interpretation price_codec: fixed_point_codec
  "\<lambda>n _. Inr (FormatPriceTicks n)" "\<lambda>s _. ParsePriceTicks s" good_price
proof
  fix n scale s f
  assume g: "good_price n scale" and "Inr (FormatPriceTicks n) = (Inr s :: string res)"
  then have "formatFixed n 9 = Inr s" using FormatPriceTicks_formatFixed [of n] by simp
  with formatFixed_read [of n 9 s] g show "ParsePriceTicks s f = Inr n"
    by (simp add: ParsePriceTicks_iff good_price_def)
qed simp

interpretation qty_codec: fixed_point_codec FormatQtyScaled ParseQtyScaled good_qty
proof
  fix n scale s f
  assume g: "good_qty n scale" and "FormatQtyScaled n scale = Inr s"
  then have "formatFixed n scale = Inr s" by (simp add: FormatQtyScaled_formatFixed)
  with formatFixed_read [of n scale s] g show "ParseQtyScaled s scale f = Inr n"
    by (auto simp: ParseQtyScaled_iff good_qty_def qty_limit_def int64_defs)
qed (auto simp: FormatQtyScaled_formatFixed good_qty_def formatFixed_total)

interpretation big_codec: fixed_point_codec formatFixedBig decimalToScaledBig good_big
proof
  fix n scale s f
  assume g: "good_big n scale" and "formatFixedBig n scale = Inr s"
  then have "formatFixed n scale = Inr s" by (simp add: formatFixedBig_nonneg good_big_def)
  with formatFixed_read [of n scale s] g show "decimalToScaledBig s scale f = Inr n"
    by (simp add: decimalToScaledBig_iff good_big_def)
qed (auto simp: formatFixedBig_nonneg good_big_def formatFixed_total)

section \<open>Rescaling and amounts\<close>

lemma quo_exact_iff:
  assumes "0 < d"
  shows "v - d * quo v d = 0 \<longleftrightarrow> d dvd v" and "quo (n * d) d = n"
proof -
  show q: "quo (n * d) d = n" for n
    using assms by (simp add: quo_def abs_mult sgn_mult mult_sgn_abs)
  show "v - d * quo v d = 0 \<longleftrightarrow> d dvd v"
  proof
    assume "v - d * quo v d = 0"
    then have "v = d * quo v d" by simp
    then show "d dvd v" by (rule dvdI)
  next
    assume "d dvd v"
    then obtain k where "v = k * d" by (metis dvdE mult.commute)
    then show "v - d * quo v d = 0" using q [of k] by simp
  qed
qed

lemma rescaleExact_iff:
  assumes "0 \<le> t"
  shows "rescaleExact v s t f = Inr n \<longleftrightarrow>
    0 \<le> s \<and> s \<le> 36 \<and> n * 10 ^ nat s = v * 10 ^ nat t \<and> fits_u128 n"
proof (cases "0 \<le> s \<and> s \<le> 36")
  case sc: True
  consider "s = t" | "s < t" | "t < s" by linarith
  then show ?thesis
  proof cases
    case 1
    with sc show ?thesis by (auto simp: rescaleExact_def)
  next
    case 2
    have "(10::int) ^ nat t = 10 ^ nat (t - s) * 10 ^ nat s"
      using 2 sc by (simp flip: power_add nat_add_distrib)
    then have "n * 10 ^ nat s = v * 10 ^ nat t \<longleftrightarrow> n = v * 10 ^ nat (t - s)" by simp
    with 2 sc show ?thesis by (auto simp: rescaleExact_def Let_def)
  next
    case 3
    let ?d = "10 ^ nat (s - t) :: int"
    have "(10::int) ^ nat s = ?d * 10 ^ nat t"
      using 3 assms by (simp flip: power_add nat_add_distrib)
    then have eq: "n * 10 ^ nat s = v * 10 ^ nat t \<longleftrightarrow> n * ?d = v" by simp
    have d: "0 < ?d" by simp
    have "(if v - ?d * quo v ?d \<noteq> 0 then Inl e1 else if \<not> fits_u128 (quo v ?d) then Inl e2
         else Inr (quo v ?d)) = (Inr n :: int res) \<longleftrightarrow> n * ?d = v \<and> fits_u128 n" for e1 e2
      using quo_exact_iff [OF d] by (auto simp: dvd_def mult.commute)
    with 3 sc eq show ?thesis by (auto simp: rescaleExact_def Let_def)
  qed
qed (auto simp: rescaleExact_def)

lemma decimal_is_rescale:
  assumes "decimal_is text m s" and "n * 10 ^ nat s = m * 10 ^ nat t"
  shows "decimal_is text n t"
proof -
  obtain a b found where c: "cut CHR ''.'' text = (a, b, found)" by (cases "cut CHR ''.'' text")
  let ?v = "int (digits_val (a @ b))"
  have "m * 10 ^ length b = ?v * 10 ^ nat s" using assms(1) c by (simp add: decimal_is_def)
  then have "(n * 10 ^ length b) * 10 ^ nat s = (?v * 10 ^ nat t) * 10 ^ nat s"
    using assms(2) by (metis mult.assoc mult.commute)
  then show ?thesis by (simp add: decimal_is_def c)
qed

text \<open>What a resolved amount is: exact at the target scale, positive, and within the range
  of its domain.\<close>

definition amount_range :: "quantity_domain \<Rightarrow> int \<Rightarrow> bool" where
  "amount_range domain n \<longleftrightarrow> 0 < n \<and> fits_u128 n
     \<and> (default_domain QuantityDomainAsset domain = QuantityDomainLedgerE18 \<or> is_int64 n)"

lemma rescaleExact_pos:
  assumes "0 \<le> t" and "0 < v" and "rescaleExact v s t f = Inr n"
  shows "0 < n"
proof -
  have "n * 10 ^ nat s = v * 10 ^ nat t" using assms by (simp add: rescaleExact_iff)
  moreover have "0 < v * 10 ^ nat t" using assms by simp
  ultimately show ?thesis by (metis zero_less_mult_pos2 zero_less_power zero_less_numeral)
qed

lemma resolve_amount_decimal:
  assumes "\<not> ai_hasScaled a"
    and "ResolveAssetAmountScaledToScale a inputScale targetScale f domain assetID = Inr n"
  shows "decimal_is (trim_space (ai_decimal a)) n targetScale \<and> amount_range domain n"
proof -
  let ?s = "case inputScale of Some s \<Rightarrow> s | None \<Rightarrow> targetScale"
  from assms have t: "0 \<le> targetScale"
    by (auto simp: ResolveAssetAmountScaledToScale_def Let_def)
  from assms obtain m where m: "decimalToScaledBig (ai_decimal a) ?s f = Inr m" "0 < m"
    and r: "rescaleExact m ?s targetScale f = Inr n"
    and d: "default_domain QuantityDomainAsset domain = QuantityDomainLedgerE18 \<or> is_int64 n"
    by (auto simp: ResolveAssetAmountScaledToScale_def Let_def bind_res_Inr_iff split: if_splits)
  from r t have "n * 10 ^ nat ?s = m * 10 ^ nat targetScale" "fits_u128 n"
    by (simp_all add: rescaleExact_iff)
  moreover have "decimal_is (trim_space (ai_decimal a)) m ?s" using m by (simp add: decimalToScaledBig_iff)
  moreover have "0 < n" using rescaleExact_pos [OF t m(2) r] .
  ultimately show ?thesis using d decimal_is_rescale by (auto simp: amount_range_def)
qed

lemma resolve_amount_scaled:
  assumes "ai_hasScaled a"
    and "ResolveAssetAmountScaledToScale a inputScale targetScale f domain assetID = Inr n"
  shows "\<exists>v s. aa_scaled (ai_scaled a) = Some v \<and> (aa_scale (ai_scaled a) = Some s \<or> inputScale = Some s)
      \<and> n * 10 ^ nat s = v * 10 ^ nat targetScale \<and> amount_range domain n"
proof -
  from assms have t: "0 \<le> targetScale"
    by (auto simp: ResolveAssetAmountScaledToScale_def Let_def)
  from assms obtain v s where v: "aa_scaled (ai_scaled a) = Some v" "0 < v"
    and s: "aa_scale (ai_scaled a) = Some s \<or> inputScale = Some s"
    and r: "rescaleExact v s targetScale f = Inr n"
    and d: "default_domain QuantityDomainAsset domain = QuantityDomainLedgerE18 \<or> is_int64 n"
    by (auto simp: ResolveAssetAmountScaledToScale_def Let_def bind_res_Inr_iff
        split: if_splits option.splits)
  from r t have "n * 10 ^ nat s = v * 10 ^ nat targetScale" "fits_u128 n"
    by (simp_all add: rescaleExact_iff)
  with v s d rescaleExact_pos [OF t v(2) r] show ?thesis by (auto simp: amount_range_def)
qed

section \<open>Identifiers\<close>

lemma bytes_val_snoc [simp]: "bytes_val (bs @ [b]) = 256 * bytes_val bs + unat b"
  by (simp add: bytes_val_def)

lemma bytes_val_Nil [simp]: "bytes_val [] = 0"
  by (simp add: bytes_val_def)

lemma bytes_val_be_bytes [simp]: "bytes_val (be_bytes n) = n"
proof (induction n rule: be_bytes.induct)
  case (1 n)
  then show ?case
    by (subst be_bytes.simps) (auto simp: unat_of_nat)
qed

lemma be_bytes_nonempty: "n \<noteq> 0 \<Longrightarrow> be_bytes n \<noteq> []"
  by (subst be_bytes.simps) simp

text \<open>
  The bytes a public identifier encodes, and what the SDK relies on of base58 for them:
  encoding gives a non-empty text of at most eleven printable characters (the alphabet is
  letters and digits, and 58 to the 11 exceeds 2 to the 64), which decodes to the bytes.
\<close>

definition id_bytes :: "u64 \<Rightarrow> byte list" where
  "id_bytes v = (if v = 0 then [0] else be_bytes (unat v))"

definition base58_law :: "(byte list \<Rightarrow> string) \<Rightarrow> (string \<Rightarrow> byte list option) \<Rightarrow> byte list \<Rightarrow> bool" where
  "base58_law enc dec bs \<longleftrightarrow> dec (enc bs) = Some bs \<and> enc bs \<noteq> [] \<and> length (enc bs) \<le> 11
     \<and> list_all (\<lambda>c. 32 < (of_char c :: nat) \<and> (of_char c :: nat) < 128) (enc bs)"

lemma FormatID_id_bytes: "FormatID enc v = enc (id_bytes v)"
  by (simp add: FormatID_def id_bytes_def)

lemma bytes_val_id_bytes: "bytes_val (id_bytes v) = unat v"
  by (simp add: id_bytes_def bytes_val_def [of "[0]"])

lemma unat_u64_max: "int (unat (v :: u64)) \<le> Uint64Max"
proof -
  have "uint v < 2 ^ 64" using uint_bounded [of v] by simp
  then show ?thesis by (simp add: Uint64Max_def)
qed

lemma digits_val_le_u64: "list_all is_digit s \<Longrightarrow> length s \<le> 11 \<Longrightarrow> int (digits_val s) \<le> Uint64Max"
proof -
  assume s: "list_all is_digit s" "length s \<le> 11"
  have "digits_val s < 10 ^ length s" using s(1) by (rule digits_val_less)
  also have "\<dots> \<le> 10 ^ 11" using s(2) by (intro power_increasing) auto
  finally show ?thesis by (simp add: Uint64Max_def)
qed

lemma IDToInt_FormatID:
  assumes law: "base58_law enc dec (id_bytes v)"
  shows "IDToInt enc dec (FormatID enc v) label = Inr v"
proof -
  let ?s = "enc (id_bytes v)"
  from law have d: "dec ?s = Some (id_bytes v)" and ne: "?s \<noteq> []" and len: "length ?s \<le> 11"
    and pr: "\<forall>c \<in> set ?s. 32 < (of_char c :: nat) \<and> (of_char c :: nat) < 128"
    by (auto simp: base58_law_def list_all_iff)
  have ts: "trim_space ?s = ?s" using pr by (intro trim_space_id) (auto intro: no_space_end_ascii)
  note v = bytes_val_id_bytes [of v] unat_u64_max [of v] FormatID_id_bytes [of enc v]
  show ?thesis
  proof (cases "isDecimal ?s")
    case True
    then have "big_set_string ?s = Some (int (digits_val ?s))"
      by (intro big_set_string_digits) (auto simp: isDecimal_def all_digits_def)
    moreover have "int (digits_val ?s) \<le> Uint64Max"
      using True len by (intro digits_val_le_u64) (auto simp: isDecimal_def)
    ultimately show ?thesis using True d ne ts v by (simp add: IDToInt_def Let_def)
  next
    case False
    with d ne ts v show ?thesis by (simp add: IDToInt_def Let_def)
  qed
qed

lemma digit_chars:
  "digit_char 0 = CHR ''0''" "digit_char (Suc 0) = CHR ''1''" "digit_char 2 = CHR ''2''" "digit_char 3 = CHR ''3''"
  "digit_char 4 = CHR ''4''" "digit_char 5 = CHR ''5''" "digit_char 6 = CHR ''6''" "digit_char 7 = CHR ''7''"
  "digit_char 8 = CHR ''8''" "digit_char 9 = CHR ''9''"
  by code_simp+

section \<open>Properties\<close>

text \<open>C14. A decimal is scaled to \<open>n\<close> exactly when the scale is one of the protocol's, the trimmed
  text is an unsigned decimal, and \<open>n\<close> is the number it writes times the power of ten: nothing
  is rounded, and nothing else is accepted.\<close>

theorem decimal_scaling_exact:
  "decimalToScaledBig raw scale fieldName = Inr n \<longleftrightarrow>
     0 \<le> scale \<and> scale \<le> 36 \<and> strictDecimal (trim_space raw) \<and> decimal_is (trim_space raw) n scale"
  by (rule decimalToScaledBig_iff)

text \<open>A price is parsed to the ticks it writes with nine decimals, for exactly the unsigned
  decimals whose ticks fit in an int64.\<close>

theorem price_parse_exact:
  "ParsePriceTicks raw fieldName = Inr n \<longleftrightarrow>
     strictDecimal (trim_space raw) \<and> decimal_is (trim_space raw) n 9 \<and> 0 \<le> n \<and> n \<le> int64Max"
  by (rule ParsePriceTicks_iff)

text \<open>A quantity is parsed to the units it writes at the scale, for exactly the positive
  unsigned decimals in range; the range is that of an int64, and of a uint64 at scale 18.\<close>

theorem qty_parse_exact:
  "ParseQtyScaled raw scale fieldName = Inr n \<longleftrightarrow>
     0 \<le> scale \<and> scale \<le> 36 \<and> strictDecimal (trim_space raw) \<and> decimal_is (trim_space raw) n scale
     \<and> 0 < n \<and> n \<le> qty_limit scale"
  by (rule ParseQtyScaled_iff)

text \<open>C15. A price printed and parsed again is the same price, and different prices print
  differently.\<close>

theorem price_roundtrip:
  assumes "0 \<le> n" and "n \<le> int64Max"
  shows "ParsePriceTicks (FormatPriceTicks n) fieldName = Inr n
    \<and> (\<forall>m. 0 \<le> m \<and> m \<le> int64Max \<and> FormatPriceTicks m = FormatPriceTicks n \<longrightarrow> m = n)"
proof -
  have g: "good_price m PriceTickScale" if "0 \<le> m \<and> m \<le> int64Max" for m
    using that by (simp add: good_price_def)
  have "ParsePriceTicks (FormatPriceTicks n) fieldName = Inr n"
    using price_codec.roundtrip [OF g, of n fieldName] assms unfolding bind_res_def by simp
  moreover have "m = n" if "0 \<le> m \<and> m \<le> int64Max \<and> FormatPriceTicks m = FormatPriceTicks n" for m
    using price_codec.fmt_inj [OF g g, of m n] that assms by simp
  ultimately show ?thesis by blast
qed

theorem price_roundtrip_witness:
  "ParsePriceTicks (FormatPriceTicks 1500000000) ''price'' = Inr 1500000000"
  by (rule price_roundtrip [THEN conjunct1]) (simp_all add: int64Max_def)

text \<open>A quantity printed at any scale and parsed again is the same quantity.\<close>

theorem qty_roundtrip:
  assumes "0 < n" and "n \<le> int64Max" and "0 \<le> scale" and "scale \<le> 36"
  shows "bind_res (FormatQtyScaled n scale) (\<lambda>s. ParseQtyScaled s scale fieldName) = Inr n"
  using assms by (intro qty_codec.roundtrip) (simp add: good_qty_def)

theorem qty_roundtrip_witness:
  "bind_res (FormatQtyScaled 1230 8) (\<lambda>s. ParseQtyScaled s 8 ''qty'') = Inr 1230"
  by (rule qty_roundtrip) (simp_all add: int64Max_def)

text \<open>An asset amount of any size printed and read again is the same amount.\<close>

theorem amount_roundtrip:
  assumes "0 \<le> n" and "0 \<le> scale" and "scale \<le> 36"
  shows "bind_res (formatFixedBig n scale) (\<lambda>s. decimalToScaledBig s scale fieldName) = Inr n"
  using assms by (intro big_codec.roundtrip) (simp add: good_big_def)

theorem amount_roundtrip_witness:
  "bind_res (formatFixedBig (10 ^ 20) 18) (\<lambda>s. decimalToScaledBig s 18 ''amount'') = Inr (10 ^ 20)"
  by (rule amount_roundtrip) simp_all

text \<open>A printed quantity is canonical: digits without a superfluous leading zero and, after a
  point, decimals that do not end in zero, which together write the quantity at its scale.\<close>

theorem format_canonical:
  assumes "0 \<le> n" and "0 \<le> scale" and "scale \<le> 36"
  shows "\<exists>head tail. FormatQtyScaled n scale = Inr (if tail = [] then head else head @ CHR ''.'' # tail)
    \<and> all_digits head \<and> list_all is_digit tail \<and> length tail \<le> nat scale
    \<and> (tail = [] \<or> last tail \<noteq> CHR ''0'') \<and> (head = ''0'' \<or> hd head \<noteq> CHR ''0'')
    \<and> point_value head tail (nat scale) = nat n"
  unfolding FormatQtyScaled_formatFixed by (rule formatFixed_text [OF assms]) blast

theorem format_canonical_witness:
  "\<exists>head tail. FormatQtyScaled 1500 3 = Inr (if tail = [] then head else head @ CHR ''.'' # tail)
    \<and> all_digits head \<and> list_all is_digit tail \<and> length tail \<le> nat 3
    \<and> (tail = [] \<or> last tail \<noteq> CHR ''0'') \<and> (head = ''0'' \<or> hd head \<noteq> CHR ''0'')
    \<and> point_value head tail (nat 3) = nat 1500"
  by (rule format_canonical) simp_all

text \<open>Rescaling between two scales gives a result exactly when one exists without rounding
  and it fits in 128 bits, and the result denotes the same amount.\<close>

theorem rescale_no_rounding:
  assumes "0 \<le> target"
  shows "rescaleExact v source target fieldName = Inr n \<longleftrightarrow>
    0 \<le> source \<and> source \<le> 36 \<and> n * 10 ^ nat source = v * 10 ^ nat target \<and> fits_u128 n"
  by (rule rescaleExact_iff [OF assms])

theorem rescale_no_rounding_witness:
  "rescaleExact 1500 3 1 ''amount'' = Inr 15 \<longleftrightarrow>
    0 \<le> (3::int) \<and> (3::int) \<le> 36 \<and> (15::int) * 10 ^ nat 3 = 1500 * 10 ^ nat 1 \<and> fits_u128 15"
  by (rule rescale_no_rounding) simp

text \<open>C35. An amount given as a decimal resolves, at the target scale, to the amount it writes:
  positive, within 128 bits, and within an int64 except for the 18-decimal ledger.\<close>

theorem amount_decimal_exact:
  assumes "\<not> ai_hasScaled a"
    and "ResolveAssetAmountScaledToScale a inputScale targetScale fieldName domain assetID = Inr n"
  shows "decimal_is (trim_space (ai_decimal a)) n targetScale \<and> amount_range domain n"
  by (rule resolve_amount_decimal [OF assms])

theorem amount_decimal_exact_witness:
  "decimal_is (trim_space ''1.50'') 150 2 \<and> amount_range QuantityDomainAsset 150"
proof -
  have "ResolveAssetAmountScaledToScale (AssetAmountFromDecimal ''1.50'') None 2 ''amount''
      QuantityDomainAsset None = Inr 150"
    by code_simp
  moreover have "\<not> ai_hasScaled (AssetAmountFromDecimal ''1.50'')"
    by (simp add: AssetAmountFromDecimal_def)
  ultimately show ?thesis
    using amount_decimal_exact [of "AssetAmountFromDecimal ''1.50''"] by (fastforce simp: AssetAmountFromDecimal_def)
qed

text \<open>An amount given with its own scale resolves to the same amount at the target scale.\<close>

theorem amount_scaled_exact:
  assumes "ai_hasScaled a"
    and "ResolveAssetAmountScaledToScale a inputScale targetScale fieldName domain assetID = Inr n"
  shows "\<exists>v s. aa_scaled (ai_scaled a) = Some v \<and> (aa_scale (ai_scaled a) = Some s \<or> inputScale = Some s)
    \<and> n * 10 ^ nat s = v * 10 ^ nat targetScale \<and> amount_range domain n"
  by (rule resolve_amount_scaled [OF assms])

theorem amount_scaled_exact_witness:
  "\<exists>v s. aa_scaled (ai_scaled (AssetAmountFromScaled (amount_WithScale (zeroAssetAmount\<lparr>aa_scaled := Some 15\<rparr>) 6))) = Some v
    \<and> 150 * 10 ^ nat s = v * 10 ^ nat 7"
proof -
  let ?a = "AssetAmountFromScaled (amount_WithScale (zeroAssetAmount\<lparr>aa_scaled := Some 15\<rparr>) 6)"
  have r: "ResolveAssetAmountScaledToScale ?a None 7 ''amount'' QuantityDomainAsset None = Inr 150" by code_simp
  have s: "ai_hasScaled ?a" by (simp add: AssetAmountFromScaled_def)
  from amount_scaled_exact [OF s r] show ?thesis by blast
qed

text \<open>An identifier is read back from its public text: the shortest big-endian bytes of a
  uint64 in base58. Of base58 this uses that decoding inverts encoding and that the text of up
  to eight bytes is at most eleven printable characters.\<close>

theorem public_id_roundtrip:
  assumes "base58_law enc dec (id_bytes v)"
  shows "IDToInt enc dec (FormatID enc v) label = Inr v"
  by (rule IDToInt_FormatID [OF assms])

theorem public_id_roundtrip_witness:
  "IDToInt (\<lambda>_. ''5'') (\<lambda>_. Some [4]) (FormatID (\<lambda>_. ''5'') 4) ''id'' = Inr 4"
proof (rule public_id_roundtrip)
  have "id_bytes 4 = [4]" by (simp add: id_bytes_def be_bytes.simps)
  then show "base58_law (\<lambda>_. ''5'') (\<lambda>_. Some [4]) (id_bytes 4)" by (simp add: base58_law_def)
qed

text \<open>At a scale other than 18, a quantity given as a decimal resolves to the positive int64 it
  writes.\<close>

theorem qty_decimal_exact:
  assumes "\<not> qi_hasScaled q" and "scale \<noteq> 18" and "ResolveQtyScaled q scale fieldName symbol symbolID = Inr n"
  shows "decimal_is (trim_space (qi_decimal q)) n scale \<and> 0 < n \<and> n \<le> int64Max"
proof -
  obtain u where u: "ParseQtyScaled (qi_decimal q) scale fieldName = Inr u" and n: "n = wrap64 u"
    using assms(1,3) by (auto simp: ResolveQtyScaled_def bind_res_def split: if_splits sum.splits)
  from u assms(2) have "decimal_is (trim_space (qi_decimal q)) u scale" "0 < u" "u \<le> int64Max"
    by (simp_all add: ParseQtyScaled_iff qty_limit_def)
  with n show ?thesis by (simp add: wrap64_id is_int64_def int64Min_def)
qed

theorem qty_decimal_exact_witness:
  "decimal_is (trim_space ''0.25'') 25 2 \<and> 0 < (25::int) \<and> 25 \<le> int64Max"
proof -
  have "ResolveQtyScaled (QtyFromDecimal ''0.25'') 2 ''qty'' ''BTC-USDT'' None = Inr 25" by code_simp
  moreover have "\<not> qi_hasScaled (QtyFromDecimal ''0.25'')" by (simp add: QtyFromDecimal_def)
  ultimately show ?thesis
    using qty_decimal_exact [of "QtyFromDecimal ''0.25''" 2] by (fastforce simp: QtyFromDecimal_def)
qed

text \<open>At scale 18, where a parsed quantity may exceed an int64, an order of 10 units resolves to
  a negative number of units.\<close>

theorem qty_decimal_wraps:
  "ResolveQtyScaled (QtyFromDecimal ''10'') 18 ''qty'' ''ETH-USDT'' None = Inr (-8446744073709551616)"
proof -
  have "decimal_is (trim_space ''10'') 10000000000000000000 18"
  proof -
    have "trim_space ''10'' = ''10''" "cut CHR ''.'' ''10'' = (''10'', [], False)" "digits_val ''10'' = 10"
      by code_simp+
    then show ?thesis by (simp add: decimal_is_def)
  qed
  moreover have "strictDecimal (trim_space ''10'')" by code_simp
  ultimately have "ParseQtyScaled ''10'' 18 ''qty'' = Inr 10000000000000000000"
    by (simp add: ParseQtyScaled_iff qty_limit_def Uint64Max_def)
  then show ?thesis by (simp add: ResolveQtyScaled_def QtyFromDecimal_def bind_res_def wrap64_def)
qed

text \<open>The printed form of the smallest int64 has two minus signs, because its negation is
  itself.\<close>

theorem format_smallest_price:
  "FormatPriceTicks int64Min = ''--9223372036.854775808''"
proof -
  have digits: "itoa (- 9223372036854775808) = ''-9223372036854775808''"
    by (simp add: itoa_def dec_nat.simps digit_chars)
  have neg: "wrap64 9223372036854775808 = - 9223372036854775808" by (simp add: wrap64_def)
  show ?thesis
    unfolding FormatPriceTicks_def int64Min_def Let_def formatPadded_def by (simp add: digits neg) code_simp
qed

end
