(* ===== verification/OrderTotals.thy ===== *)
theory OrderTotals
  imports Scalars
begin

text \<open>
  \<open>models/order_totals.go\<close>: an order's average price, filled quote, quote used and quote
  unspent, as exact decimal texts from the wire's decimal integers. The record holds the
  fields of \<open>models.Order\<close> these methods read.
\<close>

record fee_total =
  ft_amountE18 :: string
  ft_isRebate :: bool
  ft_qty :: qty_scaled

record order =
  o_avgPriceE18 :: string
  o_cumNotional :: string
  o_cumQty :: qty_scaled
  o_feeAsset :: string
  o_feeTotal :: "fee_total option"
  o_submittedMaxQuoteDebitScaled :: string

definition feeAmountScale :: int where
  "feeAmountScale = 18"

definition parseUnsigned :: "string \<Rightarrow> int option" where
  "parseUnsigned raw0 = (let raw = trim_space raw0 in
     if raw = [] then None
     else case big_set_string raw of None \<Rightarrow> None
       | Some value \<Rightarrow> if value < 0 then None else Some value)"

definition rescale :: "int \<Rightarrow> int \<Rightarrow> int \<Rightarrow> int" where
  "rescale value from to = value * 10 ^ nat (to - from)"

definition AvgPrice :: "order \<Rightarrow> string" where
  "AvgPrice ord = (case parseUnsigned (o_avgPriceE18 ord) of None \<Rightarrow> ''0''
     | Some value \<Rightarrow> (case formatFixedBig value feeAmountScale of Inl _ \<Rightarrow> ''0'' | Inr out \<Rightarrow> out))"

definition CumQuote :: "order \<Rightarrow> int \<Rightarrow> string res" where
  "CumQuote ord baseQuantityScale =
     (let value = (case parseUnsigned (o_cumNotional ord) of Some v \<Rightarrow> v | None \<Rightarrow> 0)
      in formatFixedBig value (PriceTickScale + baseQuantityScale))"

definition quoteUsed :: "order \<Rightarrow> int \<Rightarrow> (int \<times> int) option" where
  "quoteUsed ord baseQuantityScale = (case o_feeTotal ord of
       None \<Rightarrow> None
     | Some feeTotal \<Rightarrow>
         if baseQuantityScale < 0 \<or> qs_scaled (ft_qty feeTotal) \<noteq> qs_scaled (o_cumQty ord) then None
         else let notional = (case parseUnsigned (o_cumNotional ord) of Some v \<Rightarrow> v | None \<Rightarrow> 0);
                  fee = (case parseUnsigned (ft_amountE18 feeTotal) of Some v \<Rightarrow> v | None \<Rightarrow> 0);
                  notionalScale = PriceTickScale + baseQuantityScale;
                  scale = max notionalScale feeAmountScale;
                  used = rescale notional notionalScale scale;
                  asset = to_lower (o_feeAsset ord)
              in if asset = ''quote''
                 then let fee = rescale fee feeAmountScale scale
                      in Some (if ft_isRebate feeTotal then used - fee else used + fee, scale)
                 else if asset = ''base'' then Some (used, scale)
                 else if fee \<noteq> 0 then None else Some (used, scale))"

definition QuoteUsed :: "order \<Rightarrow> int \<Rightarrow> string option" where
  "QuoteUsed ord baseQuantityScale = (case quoteUsed ord baseQuantityScale of
       None \<Rightarrow> None
     | Some (used, scale) \<Rightarrow> (case formatFixedBig used scale of Inl _ \<Rightarrow> None | Inr out \<Rightarrow> Some out))"

definition QuoteUnspent :: "order \<Rightarrow> int \<Rightarrow> int \<Rightarrow> string option" where
  "QuoteUnspent ord baseQuantityScale quoteQuantityScale =
     (case parseUnsigned (o_submittedMaxQuoteDebitScaled ord) of
       None \<Rightarrow> None
     | Some budget \<Rightarrow>
         if quoteQuantityScale < 0 then None
         else (case quoteUsed ord baseQuantityScale of
             None \<Rightarrow> None
           | Some (used0, scale0) \<Rightarrow>
               let used = (if quoteQuantityScale > scale0 then rescale used0 scale0 quoteQuantityScale else used0);
                   scale = (if quoteQuantityScale > scale0 then quoteQuantityScale else scale0);
                   unspent = rescale budget quoteQuantityScale scale - used
               in (case formatFixedBig unspent scale of Inl _ \<Rightarrow> None | Inr out \<Rightarrow> Some out)))"

section \<open>Exactness\<close>

lemma rescale_exact: "from \<le> to \<Longrightarrow> 0 \<le> from \<Longrightarrow> rescale v from to * 10 ^ nat from = v * 10 ^ nat to"
  by (simp add: rescale_def flip: power_add nat_add_distrib)

lemma formatFixedBig_read:
  assumes "0 \<le> n" and "formatFixedBig n scale = Inr s"
  shows "decimal_is s n scale"
proof -
  from assms have "formatFixed n scale = Inr s" by (simp add: formatFixedBig_nonneg)
  moreover from assms have "0 \<le> scale" "scale \<le> 36"
    by (auto simp: formatFixedBig_def split: if_splits)
  ultimately show ?thesis using assms(1) formatFixed_read(3) by blast
qed

lemma decimal_is_rescaled:
  assumes "decimal_is s n from" and "from \<le> to" and "0 \<le> from"
  shows "decimal_is s (rescale n from to) to"
  using decimal_is_rescale [OF assms(1)] rescale_exact [OF assms(2,3)] by blast

lemma quoteUsed_scale:
  assumes "quoteUsed ord b = Some (used, sc)"
  shows "0 \<le> b" and "sc = max (9 + b) 18"
  using assms by (auto simp: quoteUsed_def feeAmountScale_def Let_def split: option.splits if_splits)

lemma cross_multiplied_le:
  fixes u r used budget s q m :: int
  assumes "u * s = used * m" and "r * q = budget * m" and "used * q \<le> budget * s"
    and "0 < s" and "0 < q" and "0 < m"
  shows "u \<le> r"
proof -
  have "u * (s * q) = used * q * m" using assms(1) by (metis mult.assoc mult.commute)
  also have "\<dots> \<le> budget * s * m" using assms(3,6) by (simp add: mult_right_mono)
  also have "\<dots> = r * (s * q)" using assms(2) by (metis mult.assoc mult.commute)
  finally show ?thesis using assms(4,5) by (simp add: mult_le_cancel_right)
qed

text \<open>The used and the unspent texts are numbers of one scale that add up to the budget.\<close>

lemma budget_conserved:
  assumes q: "quoteUsed ord b = Some (used, sc)" and "0 \<le> used"
    and budget: "parseUnsigned (o_submittedMaxQuoteDebitScaled ord) = Some budget"
    and covered: "used * 10 ^ nat qs \<le> budget * 10 ^ nat sc"
    and ut: "QuoteUsed ord b = Some ut" and rt: "QuoteUnspent ord b qs = Some rt"
  shows "\<exists>u r. decimal_is ut u (max sc qs) \<and> decimal_is rt r (max sc qs)
      \<and> u + r = budget * 10 ^ nat (max sc qs - qs)"
proof -
  let ?s = "max sc qs"
  let ?u = "rescale used sc ?s"
  let ?r = "rescale budget qs ?s - ?u"
  have sc: "0 \<le> sc" using quoteUsed_scale [OF q] by simp
  from rt q budget have qs: "0 \<le> qs"
    by (auto simp: QuoteUnspent_def split: if_splits)
  from ut q have "formatFixedBig used sc = Inr ut"
    by (auto simp: QuoteUsed_def split: sum.splits)
  then have "decimal_is ut used sc" using \<open>0 \<le> used\<close> by (rule formatFixedBig_read [rotated])
  then have 1: "decimal_is ut ?u ?s" by (rule decimal_is_rescaled) (use sc in auto)
  have "(if qs > sc then rescale used sc qs else used) = ?u" and "(if qs > sc then qs else sc) = ?s"
    by (auto simp: rescale_def)
  then have f: "formatFixedBig ?r ?s = Inr rt"
    using rt q budget qs by (auto simp: QuoteUnspent_def Let_def split: sum.splits if_splits)
  have "?u * 10 ^ nat sc = used * 10 ^ nat ?s" by (rule rescale_exact) (use sc in auto)
  moreover have "rescale budget qs ?s * 10 ^ nat qs = budget * 10 ^ nat ?s"
    by (rule rescale_exact) (use qs in auto)
  ultimately have "?u \<le> rescale budget qs ?s"
    by (rule cross_multiplied_le [OF _ _ covered]) simp_all
  then have "0 \<le> ?r" by simp
  with f have 2: "decimal_is rt ?r ?s" by (intro formatFixedBig_read)
  have "?u + ?r = budget * 10 ^ nat (?s - qs)" by (simp add: rescale_def)
  with 1 2 show ?thesis by blast
qed

section \<open>Properties\<close>

definition sample_order :: order where
  "sample_order = \<lparr>o_avgPriceE18 = ''2'', o_cumNotional = ''1'', o_cumQty = zeroQtyScaled, o_feeAsset = ''base'',
     o_feeTotal = Some \<lparr>ft_amountE18 = ''0'', ft_isRebate = False, ft_qty = zeroQtyScaled\<rparr>,
     o_submittedMaxQuoteDebitScaled = ''3''\<rparr>"

text \<open>Whenever an order's used and unspent quote are both shown and the budget covers the use,
  the two texts are exact numbers of one scale whose sum is the submitted budget.\<close>

theorem quote_budget_conserved:
  assumes "quoteUsed ord b = Some (used, sc)" and "0 \<le> used"
    and "parseUnsigned (o_submittedMaxQuoteDebitScaled ord) = Some budget"
    and "used * 10 ^ nat qs \<le> budget * 10 ^ nat sc"
    and "QuoteUsed ord b = Some ut" and "QuoteUnspent ord b qs = Some rt"
  shows "\<exists>u r. decimal_is ut u (max sc qs) \<and> decimal_is rt r (max sc qs)
      \<and> u + r = budget * 10 ^ nat (max sc qs - qs)"
  by (rule budget_conserved [OF assms])

theorem quote_budget_conserved_witness:
  "\<exists>u r. decimal_is ''0.000000001'' u 18 \<and> decimal_is ''0.000000002'' r 18 \<and> u + r = 3 * 10 ^ 9"
proof -
  have q: "quoteUsed sample_order 0 = Some (1000000000, 18)" by code_simp
  have p: "parseUnsigned (o_submittedMaxQuoteDebitScaled sample_order) = Some 3" by code_simp
  have i: "itoa 1000000000 = ''1000000000''" "itoa 2000000000 = ''2000000000''"
    by (simp_all add: itoa_def dec_nat.simps digit_chars)
  have f: "formatFixedBig 1000000000 18 = Inr ''0.000000001''" "formatFixedBig 2000000000 18 = Inr ''0.000000002''"
    unfolding formatFixedBig_def MaxProtocolScale_def Let_def by (simp add: i, code_simp)+
  have u: "QuoteUsed sample_order 0 = Some ''0.000000001''" by (simp add: QuoteUsed_def q f)
  have r: "QuoteUnspent sample_order 0 9 = Some ''0.000000002''"
    using p f q by (simp add: QuoteUnspent_def rescale_def)
  from quote_budget_conserved [OF q _ p _ u r] show ?thesis by simp
qed

end
