(* ===== verification/OrderKeys.thy ===== *)
theory OrderKeys
  imports Scalars
begin

text \<open>
  \<open>models/order_key.go\<close>, \<open>codecs/order_key.go\<close> and \<open>codecs/correlation_id.go\<close>: the key
  that names an order, the identifiers a client may choose, and the encoding of a key onto
  the get, cancel and modify requests. A request's \<open>oneof key\<close> is a datatype; the requests
  differ only in that field here. The random bytes of a generated request id are an argument.
\<close>

section \<open>Client-chosen identifiers\<close>

definition clientIDMaxLen :: nat where
  "clientIDMaxLen = 36"

definition requestIDMaxLen :: nat where
  "requestIDMaxLen = 64"

definition allowed_id_char :: "char \<Rightarrow> bool" where
  "allowed_id_char c \<longleftrightarrow> (let n = (of_char c :: nat) in
     97 \<le> n \<and> n \<le> 122 \<or> 65 \<le> n \<and> n \<le> 90 \<or> 48 \<le> n \<and> n \<le> 57 \<or> c \<in> set ''._:/-'')"

definition validateCorrelationID :: "string \<Rightarrow> string \<Rightarrow> nat \<Rightarrow> string res" where
  "validateCorrelationID value field maxLen =
     (let trimmed = trim_space value in
      if length trimmed = 0 \<or> length trimmed > maxLen
      then Inl (ValidationError (field @ '' must be 1 to '' @ dec_nat maxLen @ '' characters''))
      else if \<not> list_all allowed_id_char trimmed
      then Inl (ValidationError (field @ '' contains invalid characters; allowed: A-Z a-z 0-9 . _ : / -''))
      else Inr trimmed)"

definition optionalClientID :: "string option \<Rightarrow> string \<Rightarrow> string option res" where
  "optionalClientID value field = (case value of None \<Rightarrow> Inr None
     | Some v \<Rightarrow> if trim_space v = [] then Inr None
         else bind_res (validateCorrelationID v field clientIDMaxLen) (\<lambda>validated. Inr (Some validated)))"

definition requiredClientID :: "string \<Rightarrow> string \<Rightarrow> string res" where
  "requiredClientID value field = validateCorrelationID value field clientIDMaxLen"

definition ValidateClientOrderID :: "string \<Rightarrow> string res" where
  "ValidateClientOrderID value = requiredClientID value ''client_order_id''"

definition hex_digit :: "nat \<Rightarrow> char" where
  "hex_digit d = (if d < 10 then char_of (48 + d) else char_of (87 + d))"

definition hex_encode :: "byte list \<Rightarrow> string" where
  "hex_encode bs = concat (map (\<lambda>b. [hex_digit (unat b div 16), hex_digit (unat b mod 16)]) bs)"

definition coalesceRequestID :: "string option \<Rightarrow> string \<Rightarrow> byte list \<Rightarrow> string res" where
  "coalesceRequestID requestID prefix rnd = (case requestID of
       Some r \<Rightarrow> if trim_space r \<noteq> [] then validateCorrelationID r ''request_id'' requestIDMaxLen
         else Inr (prefix @ ''-'' @ hex_encode rnd)
     | None \<Rightarrow> Inr (prefix @ ''-'' @ hex_encode rnd))"

section \<open>Order keys\<close>

record order_key =
  k_orderID :: string
  k_clientOrderID :: string
  k_byClient :: bool
  k_set :: bool

definition zeroOrderKey :: order_key where
  "zeroOrderKey = \<lparr>k_orderID = [], k_clientOrderID = [], k_byClient = False, k_set = False\<rparr>"

definition OrderKeyByID :: "string \<Rightarrow> order_key" where
  "OrderKeyByID orderID = zeroOrderKey\<lparr>k_orderID := orderID, k_set := True\<rparr>"

definition OrderKeyByClientID :: "string \<Rightarrow> order_key" where
  "OrderKeyByClientID clientOrderID =
     zeroOrderKey\<lparr>k_clientOrderID := clientOrderID, k_byClient := True, k_set := True\<rparr>"

definition key_OrderID :: "order_key \<Rightarrow> string option" where
  "key_OrderID k = (if \<not> k_set k \<or> k_byClient k \<or> k_orderID k = [] then None else Some (k_orderID k))"

definition key_ClientOrderID :: "order_key \<Rightarrow> string option" where
  "key_ClientOrderID k =
     (if \<not> k_set k \<or> \<not> k_byClient k \<or> k_clientOrderID k = [] then None else Some (k_clientOrderID k))"

definition key_IsSet :: "order_key \<Rightarrow> bool" where
  "key_IsSet k = (if \<not> k_set k then False
     else if k_byClient k then k_clientOrderID k \<noteq> [] else k_orderID k \<noteq> [])"

datatype wire_key = WireOrderId u64 | WireClientOrderId string

definition requireOrderKey :: "order_key \<Rightarrow> string \<Rightarrow> unit res" where
  "requireOrderKey key op = (if \<not> key_IsSet key
     then Inl (ValidationError (op @ '' requires an OrderKey (OrderKeyByID or OrderKeyByClientID)''))
     else Inr ())"

definition ApplyOrderKeyToGet ::
  "(byte list \<Rightarrow> string) \<Rightarrow> (string \<Rightarrow> byte list option) \<Rightarrow> order_key \<Rightarrow> wire_key res" where
  "ApplyOrderKeyToGet enc dec key =
     bind_res (requireOrderKey key ''get'') (\<lambda>_. case key_OrderID key of
       Some orderID \<Rightarrow> bind_res (IDToInt enc dec orderID ''order_id'') (\<lambda>id. Inr (WireOrderId id))
     | None \<Rightarrow> let clientOrderID = (case key_ClientOrderID key of Some c \<Rightarrow> c | None \<Rightarrow> []) in
         bind_res (ValidateClientOrderID clientOrderID) (\<lambda>v. Inr (WireClientOrderId v)))"

definition ApplyOrderKeyToCancel ::
  "(byte list \<Rightarrow> string) \<Rightarrow> (string \<Rightarrow> byte list option) \<Rightarrow> order_key \<Rightarrow> wire_key res" where
  "ApplyOrderKeyToCancel enc dec key =
     bind_res (requireOrderKey key ''cancel'') (\<lambda>_. case key_OrderID key of
       Some orderID \<Rightarrow> bind_res (IDToInt enc dec orderID ''order_id'') (\<lambda>id. Inr (WireOrderId id))
     | None \<Rightarrow> let clientOrderID = (case key_ClientOrderID key of Some c \<Rightarrow> c | None \<Rightarrow> []) in
         bind_res (ValidateClientOrderID clientOrderID) (\<lambda>v. Inr (WireClientOrderId v)))"

definition ApplyOrderKeyToModify ::
  "(byte list \<Rightarrow> string) \<Rightarrow> (string \<Rightarrow> byte list option) \<Rightarrow> order_key \<Rightarrow> wire_key res" where
  "ApplyOrderKeyToModify enc dec key =
     bind_res (requireOrderKey key ''modify'') (\<lambda>_. case key_OrderID key of
       Some orderID \<Rightarrow> bind_res (IDToInt enc dec orderID ''order_id'') (\<lambda>id. Inr (WireOrderId id))
     | None \<Rightarrow> let clientOrderID = (case key_ClientOrderID key of Some c \<Rightarrow> c | None \<Rightarrow> []) in
         bind_res (requiredClientID clientOrderID ''client_order_id'') (\<lambda>v. Inr (WireClientOrderId v)))"

section \<open>What a validated identifier is\<close>

definition valid_id :: "nat \<Rightarrow> string \<Rightarrow> bool" where
  "valid_id maxLen s \<longleftrightarrow> s \<noteq> [] \<and> length s \<le> maxLen \<and> list_all allowed_id_char s"

lemma allowed_id_char_ascii: "allowed_id_char c \<Longrightarrow> no_space_end c"
  by (rule no_space_end_ascii) (auto simp: allowed_id_char_def Let_def)

lemma trim_space_valid: "list_all allowed_id_char s \<Longrightarrow> trim_space s = s"
  by (intro trim_space_id) (cases s; auto simp: list_all_iff allowed_id_char_ascii)

lemma validateCorrelationID_iff:
  "validateCorrelationID v field m = Inr s \<longleftrightarrow> s = trim_space v \<and> valid_id m s"
  by (auto simp: validateCorrelationID_def valid_id_def Let_def)

lemma validateCorrelationID_valid: "valid_id m s \<Longrightarrow> validateCorrelationID s field m = Inr s"
  by (simp add: validateCorrelationID_iff trim_space_valid valid_id_def)

lemma key_accessors_disjoint: "key_OrderID k = None \<or> key_ClientOrderID k = None"
  by (simp add: key_OrderID_def key_ClientOrderID_def)

lemma key_IsSet_iff: "key_IsSet k \<longleftrightarrow> key_OrderID k \<noteq> None \<or> key_ClientOrderID k \<noteq> None"
  by (simp add: key_IsSet_def key_OrderID_def key_ClientOrderID_def)

text \<open>The encoders of the three requests agree on every set key.\<close>

lemma apply_keys_agree:
  assumes "key_IsSet k"
  shows "ApplyOrderKeyToCancel enc dec k = ApplyOrderKeyToGet enc dec k"
    and "ApplyOrderKeyToModify enc dec k = ApplyOrderKeyToGet enc dec k"
  using assms by (simp_all add: ApplyOrderKeyToCancel_def ApplyOrderKeyToGet_def
      ApplyOrderKeyToModify_def requireOrderKey_def ValidateClientOrderID_def Let_def
      split: option.splits)

lemma apply_key_client:
  "ApplyOrderKeyToGet enc dec (OrderKeyByClientID c) = Inr w \<longleftrightarrow>
     c \<noteq> [] \<and> w = WireClientOrderId (trim_space c) \<and> valid_id 36 (trim_space c)"
  by (auto simp: ApplyOrderKeyToGet_def requireOrderKey_def key_IsSet_def key_OrderID_def
      key_ClientOrderID_def OrderKeyByClientID_def zeroOrderKey_def ValidateClientOrderID_def
      requiredClientID_def clientIDMaxLen_def bind_res_Inr_iff validateCorrelationID_iff)

lemma hex_digit_allowed: "d < 16 \<Longrightarrow> allowed_id_char (hex_digit d)"
  by (auto simp: allowed_id_char_def hex_digit_def Let_def)

lemma hex_encode_props: "length (hex_encode bs) = 2 * length bs" "list_all allowed_id_char (hex_encode bs)"
proof -
  have "unat b div 16 < 16" for b :: byte using unat_byte_less [of b] by linarith
  then show "length (hex_encode bs) = 2 * length bs" "list_all allowed_id_char (hex_encode bs)"
    by (induction bs) (auto simp: hex_encode_def hex_digit_allowed)
qed

section \<open>Properties\<close>

text \<open>A client order id is accepted exactly when its trimmed form has 1 to 36 of the allowed
  characters, and what is sent is the trimmed form, which is accepted unchanged again.\<close>

theorem client_id_exact:
  "(ValidateClientOrderID v = Inr s \<longleftrightarrow> s = trim_space v \<and> valid_id clientIDMaxLen s)
    \<and> (valid_id clientIDMaxLen s \<longrightarrow> ValidateClientOrderID s = Inr s)"
  by (simp add: ValidateClientOrderID_def requiredClientID_def validateCorrelationID_iff
      validateCorrelationID_valid trim_space_valid valid_id_def)

theorem client_id_exact_witness:
  "ValidateClientOrderID ''order-1'' = Inr ''order-1''"
proof -
  have "valid_id clientIDMaxLen ''order-1''" by code_simp
  with client_id_exact [of "''order-1''" "''order-1''"] show ?thesis by blast
qed

text \<open>The get, cancel and modify requests carry the same identification for the same set order
  key, or the same error.\<close>

theorem order_keys_agree:
  assumes "key_IsSet k"
  shows "ApplyOrderKeyToCancel enc dec k = ApplyOrderKeyToGet enc dec k
    \<and> ApplyOrderKeyToModify enc dec k = ApplyOrderKeyToGet enc dec k"
  using apply_keys_agree [OF assms] by blast

theorem order_keys_agree_witness:
  "ApplyOrderKeyToCancel (\<lambda>_. []) (\<lambda>_. None) (OrderKeyByClientID ''a'') =
     ApplyOrderKeyToGet (\<lambda>_. []) (\<lambda>_. None) (OrderKeyByClientID ''a'')"
  by (rule order_keys_agree [THEN conjunct1]) code_simp

end
