(* ===== verification/LocalBook.thy ===== *)
theory LocalBook
  imports Scalars "HOL-Library.AList" "HOL-Library.Multiset"
begin

text \<open>
  \<open>orderbook/local_book.go\<close> and \<open>codecs/orderbook.go\<close>: the in-memory book of a market.
  A \<open>BookSide\<close> (a Go map from price ticks to quantity) is an association list with distinct
  keys; its order stands for the order in which Go's \<open>range\<close> happens to visit the map, and
  the facts below hold for every order. A message's \<open>nil\<close> level is \<open>None\<close>.
\<close>

section \<open>Sides and deltas\<close>

type_synonym book_side = "(int \<times> int) list"

record price_qty_pair =
  pq_priceTicks :: int
  pq_qtyScaled :: int

fun LevelsFromProtoLevels_loop :: "(int \<times> int) option list \<Rightarrow> book_side \<Rightarrow> book_side res" where
  "LevelsFromProtoLevels_loop [] book = Inr book"
| "LevelsFromProtoLevels_loop (level # levels) book = (case level of
       None \<Rightarrow> Inl (ValidationError ''orderbook level is missing'')
     | Some (price, qty) \<Rightarrow>
         if price \<le> 0 then Inl (ValidationError ''orderbook level has invalid or missing price'')
         else if qty \<le> 0 then Inl (ValidationError ''orderbook level has invalid or missing quantity'')
         else LevelsFromProtoLevels_loop levels (AList.update price qty book))"

definition LevelsFromProtoLevels :: "(int \<times> int) option list \<Rightarrow> book_side res" where
  "LevelsFromProtoLevels levels = LevelsFromProtoLevels_loop levels []"

definition set_level :: "price_qty_pair \<Rightarrow> book_side \<Rightarrow> book_side" where
  "set_level pair book =
     (let price = pq_priceTicks pair; qty = pq_qtyScaled pair in
      if price < 0 \<or> qty < 0 then book
      else if qty = 0 then AList.delete price book
      else AList.update price qty book)"

definition ApplySideDelta :: "book_side \<Rightarrow> price_qty_pair list \<Rightarrow> book_side" where
  "ApplySideDelta book pairs = fold set_level pairs book"

section \<open>Buckets\<close>

definition checkedMul :: "int \<Rightarrow> int \<Rightarrow> int res" where
  "checkedMul a b = (if a = 0 \<or> b = 0 then Inr 0
     else let result = wrap64 (a * b) in
       if wrap64 (quo result a) \<noteq> b then Inl (ValidationError ''orderbook bucket price overflow'')
       else Inr result)"

definition checkedAdd :: "int \<Rightarrow> int \<Rightarrow> int res" where
  "checkedAdd a b = (let result = wrap64 (a + b) in
     if b > 0 \<and> result < a \<or> b < 0 \<and> result > a then Inl (ValidationError ''integer overflow'')
     else Inr result)"

fun check_raw_side :: "book_side \<Rightarrow> unit res" where
  "check_raw_side [] = Inr ()"
| "check_raw_side ((price, qty) # rest) =
     (if price < 0 then Inl (ValidationError ''orderbook price ticks must be non-negative'')
      else if qty < 0 then Inl (ValidationError ''orderbook quantity must be non-negative'')
      else if price = 0 \<and> qty > 0
      then Inl (ValidationError ''orderbook level has invalid or missing price'')
      else check_raw_side rest)"

definition bucket_of :: "int \<Rightarrow> bool \<Rightarrow> int \<Rightarrow> int res" where
  "bucket_of bucketTicks asks price =
     bind_res (checkedMul (price div bucketTicks) bucketTicks) (\<lambda>floor.
       if asks \<and> price mod bucketTicks \<noteq> 0
       then (case checkedAdd floor bucketTicks of
               Inl _ \<Rightarrow> Inl (ValidationError ''ask bucket price overflow'')
             | Inr bucket \<Rightarrow> Inr bucket)
       else Inr floor)"

definition add_level :: "book_side \<Rightarrow> int \<Rightarrow> int \<Rightarrow> book_side res" where
  "add_level aggregated bucket qty =
     (case checkedAdd (case map_of aggregated bucket of None \<Rightarrow> 0 | Some q \<Rightarrow> q) qty of
        Inl _ \<Rightarrow> Inl (ValidationError ''orderbook bucket quantity overflow'')
      | Inr qtySum \<Rightarrow> Inr (AList.update bucket qtySum aggregated))"

fun bucket_loop :: "int \<Rightarrow> bool \<Rightarrow> book_side \<Rightarrow> book_side \<Rightarrow> book_side res" where
  "bucket_loop bucketTicks asks [] aggregated = Inr aggregated"
| "bucket_loop bucketTicks asks ((price, qty) # rest) aggregated =
     (if price < 0 then Inl (ValidationError ''orderbook price ticks must be non-negative'')
      else if qty \<le> 0 then bucket_loop bucketTicks asks rest aggregated
      else if price = 0 then Inl (ValidationError ''orderbook level has invalid or missing price'')
      else bind_res (bucket_of bucketTicks asks price) (\<lambda>bucket.
           bind_res (add_level aggregated bucket qty) (\<lambda>aggregated'.
             bucket_loop bucketTicks asks rest aggregated')))"

definition BucketSide :: "book_side \<Rightarrow> int \<Rightarrow> bool \<Rightarrow> book_side res" where
  "BucketSide book bucketTicks asks =
     (if bucketTicks \<le> 0 then bind_res (check_raw_side book) (\<lambda>_. Inr book)
      else bucket_loop bucketTicks asks book [])"

definition ParseBucketTicks :: "string \<Rightarrow> int" where
  "ParseBucketTicks bucket = (if bucket = [] then 0
     else case ParsePriceTicks bucket ''bucket'' of Inl _ \<Rightarrow> 0 | Inr ticks \<Rightarrow> wrap64 ticks)"

section \<open>Applying a delta\<close>

record book_delta =
  bd_symbolID :: u32
  bd_bookSeqStart :: string
  bd_bookSeqEnd :: string
  bd_reset :: bool
  bd_bids :: "price_qty_pair list"
  bd_asks :: "price_qty_pair list"

record local_book =
  lb_bids :: book_side
  lb_asks :: book_side
  lb_seq :: int

definition malformed_pair :: "price_qty_pair \<Rightarrow> bool" where
  "malformed_pair pair \<longleftrightarrow> pq_priceTicks pair < 0 \<or> pq_qtyScaled pair < 0
     \<or> pq_priceTicks pair = 0 \<and> pq_qtyScaled pair > 0"

text \<open>The maps are mutated in place and the new sequence returned: here the new book and
  whether a snapshot refresh is needed.\<close>

definition ApplyDelta :: "local_book \<Rightarrow> book_delta \<Rightarrow> local_book \<times> bool" where
  "ApplyDelta b delta =
     (if list_ex malformed_pair (bd_bids delta @ bd_asks delta) then (b, True)
      else case (atoi (bd_bookSeqStart delta), atoi (bd_bookSeqEnd delta)) of
        (Some seqStart, Some seqEnd) \<Rightarrow>
          if seqStart < 0 \<or> seqEnd < seqStart then (b, True)
          else if seqEnd \<le> lb_seq b then (b, False)
          else if \<not> bd_reset delta \<and> seqStart > wrap64 (lb_seq b + 1) then (b, True)
          else let b1 = (if bd_reset delta then \<lparr>lb_bids = [], lb_asks = [], lb_seq = 0\<rparr> else b);
                   bids = ApplySideDelta (lb_bids b1) (bd_bids delta);
                   asks = ApplySideDelta (lb_asks b1) (bd_asks delta);
                   seq = (if seqEnd > lb_seq b1 then seqEnd else lb_seq b1)
               in (\<lparr>lb_bids = bids, lb_asks = asks, lb_seq = seq\<rparr>, False)
      | _ \<Rightarrow> (b, True))"

section \<open>Rendering\<close>

record orderbook_level =
  ol_price :: price_ticks
  ol_qty :: qty_scaled

record orderbook_data =
  ob_symbol :: string
  ob_depth :: int
  ob_bookSeq :: string
  ob_bids :: "orderbook_level list"
  ob_asks :: "orderbook_level list"
  ob_available :: bool

fun check_view :: "book_side \<Rightarrow> book_side res" where
  "check_view [] = Inr []"
| "check_view ((price, qty) # rest) =
     (if price < 0 \<or> qty \<le> 0
      then Inl (ValidationError ''orderbook level has invalid price or quantity'')
      else bind_res (check_view rest) (\<lambda>es. Inr ((price, qty) # es)))"

text \<open>\<open>sort.Slice\<close> with a strict comparison of the distinct prices.\<close>

definition sort_entries :: "string \<Rightarrow> book_side \<Rightarrow> book_side" where
  "sort_entries side entries =
     (if side = ''bids'' then sort_key (\<lambda>e. - fst e) entries else sort_key fst entries)"

fun render_levels :: "string \<Rightarrow> int \<Rightarrow> book_side \<Rightarrow> orderbook_level list res" where
  "render_levels symbol quantityScale [] = Inr []"
| "render_levels symbol quantityScale ((p, q) # rest) =
     (let price = DecodePriceTicks p symbol in
      if pt_ticks price < 0
      then Inl (ValidationError ''orderbook level has invalid or missing price'')
      else let qty = DecodeQtyScaled q quantityScale symbol None in
        if qs_scaled qty < 0
        then Inl (ValidationError ''orderbook level has invalid or missing quantity'')
        else bind_res (render_levels symbol quantityScale rest) (\<lambda>out.
               Inr (\<lparr>ol_price = price, ol_qty = qty\<rparr> # out)))"

definition sideToLevels ::
  "book_side \<Rightarrow> string \<Rightarrow> string \<Rightarrow> int \<Rightarrow> int \<Rightarrow> int \<Rightarrow> orderbook_level list res" where
  "sideToLevels book side symbol limit0 bucketTicks quantityScale =
     bind_res (BucketSide book bucketTicks (side = ''asks'')) (\<lambda>view.
     bind_res (check_view view) (\<lambda>entries0.
       let entries = sort_entries side entries0;
           limit = (if limit0 > int (length entries) then int (length entries) else limit0)
       in render_levels symbol quantityScale (take (nat limit) entries)))"

definition BuildOrderbookData ::
  "string \<Rightarrow> int \<Rightarrow> local_book \<Rightarrow> int \<Rightarrow> int \<Rightarrow> orderbook_data res" where
  "BuildOrderbookData symbol depth b bucketTicks quantityScale =
     (if depth < 0
      then Inl (ValidationError (''orderbook depth must not be negative, got '' @ itoa depth))
      else bind_res (sideToLevels (lb_bids b) ''bids'' symbol depth bucketTicks quantityScale) (\<lambda>bidLevels.
           bind_res (sideToLevels (lb_asks b) ''asks'' symbol depth bucketTicks quantityScale) (\<lambda>askLevels.
             Inr \<lparr>ob_symbol = symbol, ob_depth = depth, ob_bookSeq = itoa (lb_seq b),
                  ob_bids = bidLevels, ob_asks = askLevels, ob_available = False\<rparr>)))"

section \<open>Depth tiers\<close>

definition orderbookStreamDepths :: "int list" where
  "orderbookStreamDepths = [1, 20, 50, 200, 500]"

definition orderbookSnapshotDepths :: "int list" where
  "orderbookSnapshotDepths = [1, 5, 10, 20, 50, 100, 200, 500, 1000]"

definition orderbookSnapshotMaxDepth :: int where
  "orderbookSnapshotMaxDepth = 1000"

definition OrderbookSnapshotDepth :: "int \<Rightarrow> int res" where
  "OrderbookSnapshotDepth depth =
     (if depth = 0 then Inr 50
      else if depth < 0
      then Inl (ValidationError (''orderbook snapshot depth must not be negative, got '' @ itoa depth))
      else case find (\<lambda>tier. tier \<ge> depth) orderbookSnapshotDepths of
          Some tier \<Rightarrow> Inr tier
        | None \<Rightarrow> Inl (ValidationError (''orderbook snapshot depth '' @ itoa depth
            @ '' is above the deepest snapshot depth ('' @ itoa orderbookSnapshotMaxDepth @ '')'')))"

definition OrderbookStreamTier :: "int \<Rightarrow> int res" where
  "OrderbookStreamTier depth =
     (if depth < 1
      then Inl (ValidationError (''orderbook subscription depth must be positive, got '' @ itoa depth))
      else case find (\<lambda>tier. tier \<ge> depth) orderbookStreamDepths of
          Some tier \<Rightarrow> Inr tier
        | None \<Rightarrow> Inl (ValidationError (''orderbook subscription depth '' @ itoa depth
            @ '' is above the deepest published stream tier ('' @ itoa (last orderbookStreamDepths)
            @ ''); use Orderbook.Get for a snapshot of up to '' @ itoa orderbookSnapshotMaxDepth
            @ '' levels'')))"

fun join_comma :: "string list \<Rightarrow> string" where
  "join_comma [] = []"
| "join_comma [x] = x"
| "join_comma (x # xs) = x @ '', '' @ join_comma xs"

definition RequirePublishedStreamDepth :: "int \<Rightarrow> int res" where
  "RequirePublishedStreamDepth depth =
     (if depth \<in> set orderbookStreamDepths then Inr depth
      else Inl (ValidationError (''orderbook delta streams are published only at depths ''
        @ join_comma (map itoa orderbookStreamDepths) @ '', got '' @ itoa depth
        @ ''; use Orderbook.CreateSubscription for a book trimmed to any depth up to ''
        @ itoa (last orderbookStreamDepths))))"

definition DepthToConnectEnum :: "int \<Rightarrow> string" where
  "DepthToConnectEnum depth =
     (if depth \<le> 0 then ''DEPTH_5'' else if depth = 1 then ''DEPTH_1''
      else if depth \<le> 5 then ''DEPTH_5'' else if depth \<le> 10 then ''DEPTH_10''
      else if depth \<le> 20 then ''DEPTH_20'' else if depth \<le> 50 then ''DEPTH_50''
      else if depth \<le> 100 then ''DEPTH_100'' else if depth \<le> 200 then ''DEPTH_200''
      else if depth \<le> 500 then ''DEPTH_500'' else ''DEPTH_1000'')"

definition DepthProtoValue :: "int \<Rightarrow> (string \<Rightarrow> int option) \<Rightarrow> int res" where
  "DepthProtoValue depth values = (case values (DepthToConnectEnum depth) of
       Some v \<Rightarrow> Inr v
     | None \<Rightarrow> Inl (PlainError (''unsupported depth '' @ itoa depth)))"

section \<open>Well-formed books\<close>

definition wf_side :: "book_side \<Rightarrow> bool" where
  "wf_side book \<longleftrightarrow> distinct (map fst book) \<and> (\<forall>(p, q) \<in> set book. 0 < p \<and> 0 < q)"

definition wf_book :: "local_book \<Rightarrow> bool" where
  "wf_book b \<longleftrightarrow> wf_side (lb_bids b) \<and> wf_side (lb_asks b)"

lemma wf_side_Nil [simp]: "wf_side []"
  by (simp add: wf_side_def)

lemma wf_side_map_of: "wf_side book \<longleftrightarrow> distinct (map fst book)
    \<and> (\<forall>p q. map_of book p = Some q \<longrightarrow> 0 < p \<and> 0 < q)"
  by (auto simp: wf_side_def)

lemma wf_side_update: "wf_side book \<Longrightarrow> 0 < p \<Longrightarrow> 0 < q \<Longrightarrow> wf_side (AList.update p q book)"
  by (auto simp: wf_side_map_of distinct_update update_conv' split: if_splits)

lemma wf_side_delete: "wf_side book \<Longrightarrow> wf_side (AList.delete p book)"
  by (auto simp: wf_side_map_of distinct_delete delete_conv' split: if_splits)

lemma wf_set_level: "wf_side book \<Longrightarrow> \<not> malformed_pair pr \<Longrightarrow> wf_side (set_level pr book)"
  by (auto simp: set_level_def Let_def malformed_pair_def intro: wf_side_update wf_side_delete)

lemma wf_ApplySideDelta:
  "wf_side book \<Longrightarrow> \<forall>pr \<in> set pairs. \<not> malformed_pair pr \<Longrightarrow> wf_side (ApplySideDelta book pairs)"
  unfolding ApplySideDelta_def by (induction pairs arbitrary: book) (auto simp: wf_set_level)

lemma LevelsFromProtoLevels_loop_wf:
  "LevelsFromProtoLevels_loop levels book = Inr out \<Longrightarrow> wf_side book \<Longrightarrow> wf_side out"
  by (induction levels book rule: LevelsFromProtoLevels_loop.induct)
    (auto simp: wf_side_update not_le split: option.splits if_splits)

section \<open>The specification of a delta\<close>

text \<open>The effect of delta rows on a side seen as a partial map: the last row of a price wins,
  and a zero quantity removes it.\<close>

definition set_level_spec :: "price_qty_pair \<Rightarrow> (int \<rightharpoonup> int) \<Rightarrow> (int \<rightharpoonup> int)" where
  "set_level_spec pair m = m(pq_priceTicks pair :=
     (if pq_qtyScaled pair = 0 then None else Some (pq_qtyScaled pair)))"

definition side_spec :: "(int \<rightharpoonup> int) \<Rightarrow> price_qty_pair list \<Rightarrow> (int \<rightharpoonup> int)" where
  "side_spec m pairs = fold set_level_spec pairs m"

lemma map_of_set_level:
  assumes "\<not> malformed_pair pr"
  shows "map_of (set_level pr book) = set_level_spec pr (map_of book)"
  using assms
  by (auto simp: set_level_def Let_def malformed_pair_def set_level_spec_def update_conv' delete_conv'
      fun_eq_iff)

lemma map_of_ApplySideDelta:
  "\<forall>pr \<in> set pairs. \<not> malformed_pair pr \<Longrightarrow>
    map_of (ApplySideDelta book pairs) = side_spec (map_of book) pairs"
  unfolding ApplySideDelta_def side_spec_def
  by (induction pairs arbitrary: book) (auto simp: map_of_set_level)

lemma side_spec_last:
  assumes "distinct (map pq_priceTicks pairs)"
  shows "side_spec m pairs p = (case find (\<lambda>pr. pq_priceTicks pr = p) pairs of
     None \<Rightarrow> m p | Some pr \<Rightarrow> if pq_qtyScaled pr = 0 then None else Some (pq_qtyScaled pr))"
  using assms
proof (induction pairs arbitrary: m)
  case (Cons a pairs)
  have "find (\<lambda>pr. pq_priceTicks pr = p) pairs = None" if "pq_priceTicks a = p"
    using Cons.prems that by (auto simp: find_None_iff image_iff)
  with Cons show ?case
    by (auto simp: side_spec_def set_level_spec_def fun_upd_def split: option.splits)
qed (simp add: side_spec_def)

text \<open>What a delta says, once its sequence texts are read.\<close>

definition delta_seqs :: "book_delta \<Rightarrow> (int \<times> int) option" where
  "delta_seqs d = (case (atoi (bd_bookSeqStart d), atoi (bd_bookSeqEnd d)) of
       (Some s, Some e) \<Rightarrow> if s < 0 \<or> e < s then None else Some (s, e)
     | _ \<Rightarrow> None)"

definition well_formed_delta :: "book_delta \<Rightarrow> bool" where
  "well_formed_delta d \<longleftrightarrow> \<not> list_ex malformed_pair (bd_bids d @ bd_asks d) \<and> delta_seqs d \<noteq> None"

text \<open>The three outcomes: stale (ignored), gap or corruption (refresh), applied.\<close>

definition stale_delta :: "local_book \<Rightarrow> book_delta \<Rightarrow> bool" where
  "stale_delta b d \<longleftrightarrow> well_formed_delta d \<and> snd (the (delta_seqs d)) \<le> lb_seq b"

definition gap_delta :: "local_book \<Rightarrow> book_delta \<Rightarrow> bool" where
  "gap_delta b d \<longleftrightarrow> \<not> bd_reset d \<and> fst (the (delta_seqs d)) > wrap64 (lb_seq b + 1)"

lemma ApplyDelta_cases:
  "ApplyDelta b d =
    (if \<not> well_formed_delta d then (b, True)
     else if stale_delta b d then (b, False)
     else if gap_delta b d then (b, True)
     else let base = (if bd_reset d then \<lparr>lb_bids = [], lb_asks = [], lb_seq = 0\<rparr> else b)
       in (\<lparr>lb_bids = ApplySideDelta (lb_bids base) (bd_bids d),
             lb_asks = ApplySideDelta (lb_asks base) (bd_asks d),
             lb_seq = (if snd (the (delta_seqs d)) > lb_seq base then snd (the (delta_seqs d)) else lb_seq base)\<rparr>,
           False))"
proof (cases "list_ex malformed_pair (bd_bids d @ bd_asks d)")
  case True
  then show ?thesis by (simp add: ApplyDelta_def well_formed_delta_def)
next
  case ok: False
  show ?thesis
  proof (cases "delta_seqs d")
    case None
    with ok show ?thesis
      by (auto simp: ApplyDelta_def well_formed_delta_def delta_seqs_def split: option.splits)
  next
    case (Some se)
    obtain s e where se: "se = (s, e)" by fastforce
    with Some have "atoi (bd_bookSeqStart d) = Some s" "atoi (bd_bookSeqEnd d) = Some e"
      "\<not> (s < 0 \<or> e < s)"
      by (auto simp: delta_seqs_def split: option.splits if_splits)
    with ok Some se show ?thesis
      by (simp add: ApplyDelta_def well_formed_delta_def stale_delta_def gap_delta_def Let_def)
  qed
qed

lemma delta_seqs_bounds: "delta_seqs d = Some (s, e) \<Longrightarrow> 0 \<le> s \<and> s \<le> e \<and> is_int64 e"
  by (auto simp: delta_seqs_def atoi_def split: option.splits if_splits)

text \<open>An applied delta moves the sequence to its end and both sides to their specification.\<close>

lemma ApplyDelta_applied:
  assumes "well_formed_delta d" and "\<not> stale_delta b d" and "\<not> gap_delta b d" and "0 \<le> lb_seq b"
  obtains b' where "ApplyDelta b d = (b', False)"
    and "lb_seq b' = snd (the (delta_seqs d))"
    and "map_of (lb_bids b') = side_spec (if bd_reset d then Map.empty else map_of (lb_bids b)) (bd_bids d)"
    and "map_of (lb_asks b') = side_spec (if bd_reset d then Map.empty else map_of (lb_asks b)) (bd_asks d)"
proof -
  have ok: "\<forall>pr \<in> set (bd_bids d). \<not> malformed_pair pr" "\<forall>pr \<in> set (bd_asks d). \<not> malformed_pair pr"
    using assms(1) by (auto simp: well_formed_delta_def list_ex_iff)
  obtain s e where se: "delta_seqs d = Some (s, e)" using assms(1) by (auto simp: well_formed_delta_def)
  from delta_seqs_bounds [OF this] have "0 \<le> e" by simp
  moreover have "lb_seq b < e" using assms(1,2) se by (simp add: stale_delta_def)
  ultimately show thesis
    using assms se by (intro that) (auto simp: ApplyDelta_cases Let_def map_of_ApplySideDelta ok)
qed

lemma ApplyDelta_wf: "wf_book b \<Longrightarrow> wf_book (fst (ApplyDelta b d))"
  by (auto simp: ApplyDelta_cases Let_def wf_book_def well_formed_delta_def list_ex_iff
      intro!: wf_ApplySideDelta)

lemma ApplyDelta_refresh: "snd (ApplyDelta b d) \<Longrightarrow> fst (ApplyDelta b d) = b"
  by (auto simp: ApplyDelta_cases Let_def split: if_splits)

lemma ApplyDelta_seq_mono: "0 \<le> lb_seq b \<Longrightarrow> lb_seq b \<le> lb_seq (fst (ApplyDelta b d))"
  by (auto simp: ApplyDelta_cases Let_def stale_delta_def)

section \<open>Checked arithmetic\<close>

lemma checkedAdd_exact:
  assumes "is_int64 a" and "is_int64 b" and "0 \<le> b"
  shows "checkedAdd a b = Inr n \<longleftrightarrow> n = a + b \<and> is_int64 (a + b)"
proof (cases "is_int64 (a + b)")
  case True
  with assms show ?thesis by (auto simp: checkedAdd_def)
next
  case False
  with assms have o: "int64Max < a + b" "a + b \<le> 2 * int64Max + 2"
    by (auto simp: int64_defs)
  have "0 < b" using assms False by (cases "b = 0") auto
  moreover have "wrap64 (a + b) < a"
    unfolding wrap64_above [OF o] using assms by (simp add: int64_defs)
  ultimately show ?thesis using False by (simp add: checkedAdd_def)
qed

text \<open>A nonnegative product that fits is not touched by the check.\<close>

lemma checkedMul_fits:
  assumes "is_int64 b" and "0 \<le> a" and "0 < b" and "is_int64 (a * b)"
  shows "checkedMul a b = Inr (a * b)"
proof -
  have "quo (a * b) a = b" if "a \<noteq> 0"
    using quo_exact_iff(2) [of a b] that assms(2) by (simp add: mult.commute)
  with assms show ?thesis by (auto simp: checkedMul_def)
qed

section \<open>Buckets\<close>

text \<open>The bucket a price belongs to: below for a bid, above for an ask.\<close>

definition bucket_price :: "int \<Rightarrow> bool \<Rightarrow> int \<Rightarrow> int" where
  "bucket_price bt asks p =
     (if asks \<and> p mod bt \<noteq> 0 then p div bt * bt + bt else p div bt * bt)"

lemma bucket_price_bounds:
  assumes "0 < bt"
  shows "\<not> asks \<Longrightarrow> bucket_price bt asks p \<le> p \<and> p < bucket_price bt asks p + bt"
    and "asks \<Longrightarrow> p \<le> bucket_price bt asks p \<and> bucket_price bt asks p < p + bt"
    and "bt dvd bucket_price bt asks p"
proof -
  have eq: "p div bt * bt + p mod bt = p" and m: "0 \<le> p mod bt" "p mod bt < bt"
    using assms by simp_all
  show "\<not> asks \<Longrightarrow> bucket_price bt asks p \<le> p \<and> p < bucket_price bt asks p + bt"
    unfolding bucket_price_def using eq m by (simp only: simp_thms if_False) linarith
  show "asks \<Longrightarrow> p \<le> bucket_price bt asks p \<and> bucket_price bt asks p < p + bt"
    unfolding bucket_price_def using eq m by (simp only: simp_thms split: if_split) linarith
  show "bt dvd bucket_price bt asks p" by (simp add: bucket_price_def)
qed

lemma bucket_of_iff:
  assumes "is_int64 p" and "0 < p" and "is_int64 bt" and "0 < bt"
  shows "bucket_of bt asks p = Inr k \<longleftrightarrow> k = bucket_price bt asks p \<and> is_int64 k"
proof -
  have nn: "0 \<le> p div bt" using assms by (simp add: pos_imp_zdiv_nonneg_iff)
  have "p div bt * bt + p mod bt = p" and "0 \<le> p mod bt" using assms(4) by simp_all
  then have le: "p div bt * bt \<le> p" by linarith
  have "0 \<le> p div bt * bt" using nn assms(4) by simp
  with le assms(1) have fits: "is_int64 (p div bt * bt)" by (simp add: int64_defs)
  have "checkedMul (p div bt) bt = Inr (p div bt * bt)"
    using checkedMul_fits [OF assms(3) nn assms(4) fits] .
  moreover have "checkedAdd (p div bt * bt) bt = Inr k \<longleftrightarrow> k = p div bt * bt + bt \<and> is_int64 k" for k
    using checkedAdd_exact [OF fits assms(3)] assms(4) by auto
  ultimately show ?thesis using fits
    by (auto simp: bucket_of_def bucket_price_def split: sum.splits)
qed

definition int64_side :: "book_side \<Rightarrow> bool" where
  "int64_side book \<longleftrightarrow> (\<forall>(p, q) \<in> set book. is_int64 p \<and> is_int64 q)"

text \<open>The levels of one bucket, and the view they must make.\<close>

definition bucket_levels :: "int \<Rightarrow> bool \<Rightarrow> book_side \<Rightarrow> int \<Rightarrow> book_side" where
  "bucket_levels bt asks book k = filter (\<lambda>(p, q). bucket_price bt asks p = k) book"

definition get_qty :: "book_side \<Rightarrow> int \<Rightarrow> int" where
  "get_qty book k = (case map_of book k of None \<Rightarrow> 0 | Some q \<Rightarrow> q)"

lemma bucket_levels_simps [simp]:
  "bucket_levels bt asks [] k = []"
  "bucket_levels bt asks ((p, q) # rest) k =
     (if bucket_price bt asks p = k then (p, q) # bucket_levels bt asks rest k
      else bucket_levels bt asks rest k)"
  by (simp_all add: bucket_levels_def)

lemma add_level_get_qty:
  "add_level agg k q = (case checkedAdd (get_qty agg k) q of
      Inl _ \<Rightarrow> Inl (ValidationError ''orderbook bucket quantity overflow'')
    | Inr qtySum \<Rightarrow> Inr (AList.update k qtySum agg))"
  by (simp add: add_level_def get_qty_def)

lemma add_level_Inr:
  assumes "is_int64 (get_qty agg k)" and "is_int64 q" and "0 < q" and "add_level agg k q = Inr agg'"
  shows "agg' = AList.update k (get_qty agg k + q) agg" and "is_int64 (get_qty agg k + q)"
  using assms checkedAdd_exact [OF assms(1,2), of "projr (checkedAdd (get_qty agg k) q)"]
  by (auto simp: add_level_get_qty split: sum.splits)

lemma bucket_loop_spec:
  assumes "bucket_loop bt asks rest agg = Inr out"
    and "0 < bt" and "is_int64 bt"
    and "\<forall>(p, q) \<in> set rest. 0 < p \<and> 0 < q \<and> is_int64 p \<and> is_int64 q"
    and "\<forall>k. is_int64 (get_qty agg k)"
  shows "map_of out k = (if bucket_levels bt asks rest k = [] then map_of agg k
           else Some (get_qty agg k + sum_list (map snd (bucket_levels bt asks rest k))))"
  using assms
proof (induction bt asks rest agg rule: bucket_loop.induct)
  case (2 bt asks p q rest agg)
  from "2.prems" have pq: "0 < p" "0 < q" "is_int64 p" "is_int64 q" by auto
  from "2.prems"(1) pq obtain b agg' where b: "bucket_of bt asks p = Inr b"
    and a: "add_level agg b q = Inr agg'" and l: "bucket_loop bt asks rest agg' = Inr out"
    by (auto simp: bind_res_Inr_iff)
  have bp: "b = bucket_price bt asks p" using b bucket_of_iff pq "2.prems"(2,3) by simp
  have agg': "agg' = AList.update b (get_qty agg b + q) agg" and fit: "is_int64 (get_qty agg b + q)"
    using add_level_Inr [OF _ pq(4,2) a] "2.prems"(5) by auto
  have g: "get_qty agg' k = (if k = b then get_qty agg b + q else get_qty agg k)" for k
    by (auto simp: agg' get_qty_def update_conv')
  have "\<forall>k. is_int64 (get_qty agg' k)" using "2.prems"(5) fit by (simp add: g)
  with "2.IH"(2) [OF _ _ _ b a l] pq "2.prems"
  have IH: "map_of out k = (if bucket_levels bt asks rest k = [] then map_of agg' k
           else Some (get_qty agg' k + sum_list (map snd (bucket_levels bt asks rest k))))"
    by auto
  show ?case
  proof (cases "k = b")
    case True
    have "map_of agg' b = Some (get_qty agg b + q)" by (simp add: agg' update_conv')
    with IH g True bp show ?thesis by (auto simp: add.assoc)
  next
    case False
    then have "map_of agg' k = map_of agg k" by (simp add: agg' update_conv')
    with IH g False bp show ?thesis by auto
  qed
qed simp

lemma add_level_distinct:
  "add_level agg k q = Inr agg' \<Longrightarrow> distinct (map fst agg) \<Longrightarrow> distinct (map fst agg')"
  by (auto simp: add_level_get_qty distinct_update split: sum.splits)

lemma bucket_loop_distinct:
  "bucket_loop bt asks rest agg = Inr out \<Longrightarrow> distinct (map fst agg) \<Longrightarrow> distinct (map fst out)"
proof (induction bt asks rest agg rule: bucket_loop.induct)
  case (2 bt asks p q rest agg)
  show ?case
  proof (cases "q \<le> 0")
    case True
    with "2.IH"(1) "2.prems" show ?thesis by (simp split: if_splits)
  next
    case False
    with "2.prems"(1) obtain b agg' where "\<not> p < 0" "p \<noteq> 0" and b: "bucket_of bt asks p = Inr b"
      and a: "add_level agg b q = Inr agg'" and l: "bucket_loop bt asks rest agg' = Inr out"
      by (auto simp: bind_res_Inr_iff split: if_splits)
    then show ?thesis
      using "2.IH"(2) [OF _ False _ b a l] add_level_distinct [OF a] "2.prems"(2) by simp
  qed
qed simp

lemma BucketSide_spec:
  assumes "wf_side book" and "int64_side book" and "0 < bt" and "is_int64 bt"
    and "BucketSide book bt asks = Inr view"
  shows "distinct (map fst view)"
    and "map_of view k = (if bucket_levels bt asks book k = [] then None
           else Some (sum_list (map snd (bucket_levels bt asks book k))))"
proof -
  have l: "bucket_loop bt asks book [] = Inr view" using assms(3,5) by (simp add: BucketSide_def)
  then show "distinct (map fst view)" by (rule bucket_loop_distinct) simp
  have "\<forall>(p, q) \<in> set book. 0 < p \<and> 0 < q \<and> is_int64 p \<and> is_int64 q"
    using assms(1,2) by (auto simp: wf_side_def int64_side_def)
  from bucket_loop_spec [OF l assms(3,4) this, of k]
  show "map_of view k = (if bucket_levels bt asks book k = [] then None
           else Some (sum_list (map snd (bucket_levels bt asks book k))))"
    by (simp add: get_qty_def is_int64_def int64Min_def int64Max_def)
qed

text \<open>Two visiting orders of one book make the same view.\<close>

lemma BucketSide_order:
  assumes "wf_side book" and "int64_side book" and "0 < bt" and "is_int64 bt"
    and "mset book' = mset book"
    and "BucketSide book bt asks = Inr view" and "BucketSide book' bt asks = Inr view'"
  shows "map_of view' = map_of view"
proof
  fix k
  have s: "set book' = set book" by (metis assms(5) set_mset_mset)
  have "mset (map fst book') = mset (map fst book)" using assms(5) by simp
  then have d: "distinct (map fst book')"
    using assms(1) mset_eq_imp_distinct_iff unfolding wf_side_def by blast
  with s assms(1,2) have wf': "wf_side book'" "int64_side book'"
    by (simp_all add: wf_side_def int64_side_def)
  have m: "mset (bucket_levels bt asks book' k) = mset (bucket_levels bt asks book k)"
    by (simp add: bucket_levels_def mset_filter assms(5))
  then have "mset (map snd (bucket_levels bt asks book' k)) = mset (map snd (bucket_levels bt asks book k))"
    by simp
  then have "sum_list (map snd (bucket_levels bt asks book' k)) = sum_list (map snd (bucket_levels bt asks book k))"
    by (metis sum_mset_sum_list)
  moreover have "bucket_levels bt asks book' k = [] \<longleftrightarrow> bucket_levels bt asks book k = []"
    using m by (metis mset_zero_iff)
  ultimately show "map_of view' k = map_of view k"
    using BucketSide_spec(2) [OF assms(1-4,6)] BucketSide_spec(2) [OF wf' assms(3,4,7)] by simp
qed

section \<open>When a bucketed view exists\<close>

text \<open>Bucketing fails only on a bucket price or a bucket quantity that leaves 64 bits.\<close>

lemma bucket_levels_cover:
  "(p, q) \<in> set book \<Longrightarrow> (p, q) \<in> set (bucket_levels bt asks book (bucket_price bt asks p))"
  by (simp add: bucket_levels_def)

lemma sum_list_snd_nonneg: "\<forall>(p, q) \<in> set xs. 0 < (q :: int) \<Longrightarrow> 0 \<le> sum_list (map snd xs)"
  by (induction xs) auto

lemma sum_filter_nonneg:
  "\<forall>(p, q) \<in> set xs. 0 < (q :: int) \<Longrightarrow> 0 \<le> sum_list (map snd (bucket_levels bt asks xs k))"
  by (rule sum_list_snd_nonneg) (auto simp: bucket_levels_def)

lemma bucket_loop_total:
  assumes "0 < bt" and "is_int64 bt"
    and "\<forall>(p, q) \<in> set rest. 0 < p \<and> 0 < q \<and> is_int64 p \<and> is_int64 q \<and> is_int64 (bucket_price bt asks p)"
    and "\<forall>k. 0 \<le> get_qty agg k
          \<and> is_int64 (get_qty agg k + sum_list (map snd (bucket_levels bt asks rest k)))"
  shows "\<exists>out. bucket_loop bt asks rest agg = Inr out"
  using assms
proof (induction rest arbitrary: agg)
  case (Cons e rest)
  obtain p q where e: "e = (p, q)" by fastforce
  let ?b = "bucket_price bt asks p"
  from Cons.prems(3) e have pq: "0 < p" "0 < q" "is_int64 p" "is_int64 q" "is_int64 ?b"
    and rest: "\<forall>(p, q) \<in> set rest. 0 < p \<and> 0 < q \<and> is_int64 p \<and> is_int64 q \<and> is_int64 (bucket_price bt asks p)"
    by auto
  have b: "bucket_of bt asks p = Inr ?b" using bucket_of_iff pq Cons.prems(1,2) by simp
  let ?s = "sum_list (map snd (bucket_levels bt asks rest ?b))"
  have nn: "0 \<le> ?s" by (rule sum_filter_nonneg) (use rest in auto)
  have all: "0 \<le> get_qty agg ?b" "is_int64 (get_qty agg ?b + (q + ?s))"
    using Cons.prems(4) [rule_format, of ?b] e by auto
  then have fit: "is_int64 (get_qty agg ?b + q)" "is_int64 (get_qty agg ?b)"
    using nn pq(2) by (auto simp: int64_defs)
  then have "checkedAdd (get_qty agg ?b) q = Inr (get_qty agg ?b + q)"
    using checkedAdd_exact pq by simp
  then have a: "add_level agg ?b q = Inr (AList.update ?b (get_qty agg ?b + q) agg)"
    by (simp add: add_level_get_qty)
  have g: "get_qty (AList.update ?b (get_qty agg ?b + q) agg) k =
      (if k = ?b then get_qty agg ?b + q else get_qty agg k)" for k
    by (auto simp: get_qty_def update_conv')
  have "0 \<le> get_qty (AList.update ?b (get_qty agg ?b + q) agg) k
      \<and> is_int64 (get_qty (AList.update ?b (get_qty agg ?b + q) agg) k
          + sum_list (map snd (bucket_levels bt asks rest k)))" for k
    using Cons.prems(4) [rule_format, of k] all pq(2) e by (auto simp: g add.assoc)
  with Cons.IH [OF Cons.prems(1,2) rest] a b pq e show ?case by simp
qed simp

lemma BucketSide_total:
  assumes "wf_side book" and "int64_side book" and "0 < bt" and "is_int64 bt"
    and "\<forall>(p, q) \<in> set book. is_int64 (bucket_price bt asks p)
          \<and> is_int64 (sum_list (map snd (bucket_levels bt asks book (bucket_price bt asks p))))"
  shows "\<exists>view. BucketSide book bt asks = Inr view"
proof -
  have "is_int64 (sum_list (map snd (bucket_levels bt asks book k)))" for k
  proof (cases "bucket_levels bt asks book k")
    case (Cons e es)
    then have "e \<in> set (bucket_levels bt asks book k)" by simp
    then have "e \<in> set book" "bucket_price bt asks (fst e) = k"
      by (auto simp: bucket_levels_def)
    with assms(5) show ?thesis by (cases e) auto
  qed (simp add: int64_defs)
  then show ?thesis
    using bucket_loop_total [of bt book asks "[]"] assms
    by (fastforce simp: BucketSide_def get_qty_def wf_side_def int64_side_def)
qed

lemma check_raw_side_wf: "wf_side book \<Longrightarrow> check_raw_side book = Inr ()"
  unfolding wf_side_def by (induction book rule: check_raw_side.induct) auto

lemma BucketSide_raw: "wf_side book \<Longrightarrow> bt \<le> 0 \<Longrightarrow> BucketSide book bt asks = Inr book"
  by (simp add: BucketSide_def check_raw_side_wf)

lemma BucketSide_wf:
  assumes "wf_side book" and "int64_side book" and "is_int64 bt" and "BucketSide book bt asks = Inr view"
    and "\<forall>(p, q) \<in> set view. 0 \<le> p"
  shows "distinct (map fst view) \<and> (\<forall>(p, q) \<in> set view. 0 < q)"
proof (cases "bt \<le> 0")
  case True
  with assms(1,4) show ?thesis by (auto simp: BucketSide_raw wf_side_def)
next
  case False
  then have bt: "0 < bt" by simp
  note s = BucketSide_spec [OF assms(1,2) bt assms(3,4)]
  have "0 < q" if "(p, q) \<in> set view" for p q
  proof -
    from that s(1) have "map_of view p = Some q" by simp
    with s(2) [of p] have ne: "bucket_levels bt asks book p \<noteq> []"
      and q: "q = sum_list (map snd (bucket_levels bt asks book p))" by (auto split: if_splits)
    from ne obtain e es where es: "bucket_levels bt asks book p = e # es" by (cases "bucket_levels bt asks book p") auto
    have "\<forall>(p', q') \<in> set (bucket_levels bt asks book p). 0 < q'"
      using assms(1) by (auto simp: bucket_levels_def wf_side_def)
    then have "0 < snd e" "0 \<le> sum_list (map snd es)"
      using es sum_list_snd_nonneg [of es] by (auto simp: split_def)
    with q es show ?thesis by simp
  qed
  with s(1) show ?thesis by auto
qed

section \<open>What a rendered side shows\<close>

definition level_pairs :: "orderbook_level list \<Rightarrow> book_side" where
  "level_pairs levels = map (\<lambda>l. (pt_ticks (ol_price l), qs_scaled (ol_qty l))) levels"

definition better :: "string \<Rightarrow> int \<Rightarrow> int \<Rightarrow> bool" where
  "better side p q \<longleftrightarrow> (if side = ''bids'' then q < p else p < q)"

lemma check_view_Inr: "check_view view = Inr es \<Longrightarrow> es = view \<and> (\<forall>(p, q) \<in> set view. 0 \<le> p \<and> 0 < q)"
  by (induction view arbitrary: es rule: check_view.induct)
    (auto simp: bind_res_Inr_iff split: if_splits)

lemma check_view_ok: "\<forall>(p, q) \<in> set view. 0 \<le> p \<and> 0 < q \<Longrightarrow> check_view view = Inr view"
  by (induction view rule: check_view.induct) auto

lemma pt_ticks_decode: "0 \<le> p \<Longrightarrow> pt_ticks (DecodePriceTicks p s) = p"
  by (simp add: DecodePriceTicks_def NewPriceTicks_def price_WithSymbol_def)

lemma qs_scaled_decode: "0 \<le> q \<Longrightarrow> qs_scaled (DecodeQtyScaled q k s i) = q"
  by (simp add: DecodeQtyScaled_def NewQtyScaled_def qty_WithSymbol_def qty_WithScale_def
      qty_WithSymbolID_def Let_def split: option.splits)

lemma render_levels_pairs:
  "\<forall>(p, q) \<in> set es. 0 \<le> p \<and> 0 < q \<Longrightarrow>
    \<exists>levels. render_levels s k es = Inr levels \<and> level_pairs levels = es"
  by (induction es)
    (auto simp: pt_ticks_decode qs_scaled_decode level_pairs_def Let_def)

lemma sort_entries_sorted:
  assumes "distinct (map fst es)"
  shows "sorted_wrt (better side) (map fst (sort_entries side es))"
    and "mset (sort_entries side es) = mset es"
proof -
  have m: "mset (sort_entries side es) = mset es" by (simp add: sort_entries_def)
  then have "mset (map fst (sort_entries side es)) = mset (map fst es)" by (metis mset_map)
  then have d: "distinct (map fst (sort_entries side es))"
    using assms mset_eq_imp_distinct_iff by blast
  have s: "side = ''bids'' \<Longrightarrow> sorted (map (\<lambda>e. - fst e) (sort_entries side es))"
    and s': "side \<noteq> ''bids'' \<Longrightarrow> sorted (map fst (sort_entries side es))"
    by (simp_all add: sort_entries_def)
  show "sorted_wrt (better side) (map fst (sort_entries side es))"
  proof (cases "side = ''bids''")
    case True
    have "sorted_wrt (\<lambda>x y. x \<ge> y \<and> x \<noteq> y) (map fst (sort_entries side es))"
      using s [OF True] d
      by (auto simp: sorted_wrt_iff_nth_less distinct_conv_nth)
    then show ?thesis by (rule sorted_wrt_mono_rel [rotated]) (use True in \<open>auto simp: better_def\<close>)
  next
    case False
    have "sorted_wrt (\<lambda>x y. x \<le> y \<and> x \<noteq> y) (map fst (sort_entries side es))"
      using s' [OF False] d
      by (auto simp: sorted_wrt_iff_nth_less distinct_conv_nth)
    then show ?thesis by (rule sorted_wrt_mono_rel [rotated]) (use False in \<open>auto simp: better_def\<close>)
  qed
  show "mset (sort_entries side es) = mset es" by (rule m)
qed

text \<open>A side that renders shows the best \<open>depth\<close> rows of its (bucketed) view, best first.\<close>

lemma sideToLevels_iff:
  "sideToLevels book side symbol depth bt k = Inr levels \<longleftrightarrow>
    (\<exists>view. BucketSide book bt (side = ''asks'') = Inr view \<and> (\<forall>(p, q) \<in> set view. 0 \<le> p \<and> 0 < q)
      \<and> render_levels symbol k (take (nat depth) (sort_entries side view)) = Inr levels)"
proof -
  have t: "take (nat (if depth > int (length es) then int (length es) else depth)) es = take (nat depth) es"
    for es :: book_side by simp
  have l: "length (sort_entries side es) = length es" for es by (simp add: sort_entries_def)
  show ?thesis
    unfolding sideToLevels_def Let_def bind_res_Inr_iff t
    using check_view_Inr check_view_ok by (metis (no_types, lifting))
qed

lemma sideToLevels_shows:
  assumes "sideToLevels book side symbol depth bt k = Inr levels"
    and "wf_side book" and "int64_side book" and "is_int64 bt"
  obtains view where "BucketSide book bt (side = ''asks'') = Inr view"
    and "level_pairs levels = take (nat depth) (sort_entries side view)"
    and "sorted_wrt (better side) (map fst (level_pairs levels))"
    and "set (level_pairs levels) \<subseteq> set view" and "length levels = min (nat depth) (length view)"
proof -
  from assms(1) obtain view where v: "BucketSide book bt (side = ''asks'') = Inr view"
    and pos: "\<forall>(p, q) \<in> set view. 0 \<le> p \<and> 0 < q"
    and r: "render_levels symbol k (take (nat depth) (sort_entries side view)) = Inr levels"
    by (auto simp: sideToLevels_iff)
  have "distinct (map fst view)" using BucketSide_wf [OF assms(2-4) v] pos by auto
  note so = sort_entries_sorted [OF this, of side]
  have st: "set (sort_entries side view) = set view" by (metis so(2) set_mset_mset)
  have ln: "length (sort_entries side view) = length view" by (simp add: sort_entries_def)
  have "\<forall>(p, q) \<in> set (take (nat depth) (sort_entries side view)). 0 \<le> p \<and> 0 < q"
    using pos st set_take_subset [of "nat depth" "sort_entries side view"] by blast
  from render_levels_pairs [OF this, of symbol k] r
  have lp: "level_pairs levels = take (nat depth) (sort_entries side view)" by auto
  have "sorted_wrt (better side) (map fst (level_pairs levels))"
    unfolding lp using so(1) by (simp add: take_map [symmetric] sorted_wrt_take)
  moreover have "set (level_pairs levels) \<subseteq> set view"
    unfolding lp using st set_take_subset by metis
  moreover have "length levels = min (nat depth) (length view)"
    using arg_cong [OF lp, of length] ln by (simp add: level_pairs_def min.commute)
  ultimately show thesis using that v lp by blast
qed

text \<open>No row left out is better than a row shown.\<close>

lemma sorted_take_best:
  assumes "sorted_wrt R xs" and "x \<in> set (take n xs)" and "y \<in> set xs" and "y \<notin> set (take n xs)"
  shows "R x y"
proof -
  have "sorted_wrt R (take n xs @ drop n xs)" using assms(1) by simp
  moreover have "y \<in> set (drop n xs)" using assms(3,4) by (metis Un_iff append_take_drop_id set_append)
  ultimately show ?thesis using assms(2) unfolding sorted_wrt_append by blast
qed

lemma sideToLevels_wf_total:
  assumes "wf_side book"
  shows "\<exists>levels. sideToLevels book side symbol depth 0 k = Inr levels"
proof -
  have v: "BucketSide book 0 (side = ''asks'') = Inr book" using assms by (simp add: BucketSide_raw)
  have "set (sort_entries side book) = set book" by (simp add: sort_entries_def)
  then have "\<forall>(p, q) \<in> set (take (nat depth) (sort_entries side book)). 0 \<le> p \<and> 0 < q"
    using assms set_take_subset [of "nat depth" "sort_entries side book"]
    by (fastforce simp: wf_side_def)
  from render_levels_pairs [OF this, of symbol k] show ?thesis
    unfolding sideToLevels_iff using v assms by (fastforce simp: wf_side_def)
qed

section \<open>Tiers\<close>

lemma OrderbookStreamTier_spec:
  "OrderbookStreamTier depth = Inr tier \<longleftrightarrow>
     1 \<le> depth \<and> tier \<in> set orderbookStreamDepths \<and> depth \<le> tier
     \<and> (\<forall>t \<in> set orderbookStreamDepths. depth \<le> t \<longrightarrow> tier \<le> t)"
  by (auto simp: OrderbookStreamTier_def orderbookStreamDepths_def)

lemma OrderbookSnapshotDepth_spec:
  "depth \<noteq> 0 \<Longrightarrow> OrderbookSnapshotDepth depth = Inr tier \<longleftrightarrow>
     1 \<le> depth \<and> tier \<in> set orderbookSnapshotDepths \<and> depth \<le> tier
     \<and> (\<forall>t \<in> set orderbookSnapshotDepths. depth \<le> t \<longrightarrow> tier \<le> t)"
  by (auto simp: OrderbookSnapshotDepth_def orderbookSnapshotDepths_def)

section \<open>Replaying a stream of deltas\<close>

text \<open>What a snapshot-then-stream client needs of a view and its deltas: a sequence number
  that never goes back, a refresh request that leaves the view alone, and deltas whose effect
  is already in the view being ignored.\<close>

locale sequenced_view =
  fixes step :: "'s \<Rightarrow> 'd \<Rightarrow> 's \<times> bool" and seq :: "'s \<Rightarrow> int" and good :: "'s \<Rightarrow> bool"
  assumes step_good: "good s \<Longrightarrow> good (fst (step s d))"
    and step_refresh: "snd (step s d) \<Longrightarrow> fst (step s d) = s"
    and step_mono: "good s \<Longrightarrow> seq s \<le> seq (fst (step s d))"
    and step_covered: "good s \<Longrightarrow> \<not> snd (step s d) \<Longrightarrow> good t \<Longrightarrow> seq (fst (step s d)) \<le> seq t
      \<Longrightarrow> step t d = (t, False)"
begin

primrec replay :: "'s \<Rightarrow> 'd list \<Rightarrow> 's \<times> bool" where
  "replay s [] = (s, False)"
| "replay s (d # ds) = (let r = step s d; r' = replay (fst r) ds in (fst r', snd r \<or> snd r'))"

lemma replay_good: "good s \<Longrightarrow> good (fst (replay s ds))"
  by (induction ds arbitrary: s) (auto simp: Let_def step_good)

lemma replay_mono: "good s \<Longrightarrow> seq s \<le> seq (fst (replay s ds))"
proof (induction ds arbitrary: s)
  case (Cons d ds)
  show ?case
    using step_mono [OF Cons.prems, of d] Cons.IH [OF step_good [OF Cons.prems, of d]]
    by (simp add: Let_def)
qed simp

lemma replay_covers:
  assumes "good s" and "replay s ds = (t, False)" and "d \<in> set ds" and "good u" and "seq t \<le> seq u"
  shows "step u d = (u, False)"
  using assms
proof (induction ds arbitrary: s)
  case (Cons a ds)
  let ?s' = "fst (step s a)"
  from Cons.prems(2) have a: "\<not> snd (step s a)" and r: "replay ?s' ds = (t, False)"
    by (auto simp: Let_def prod_eq_iff)
  have g: "good ?s'" using Cons.prems(1) by (rule step_good)
  show ?case
  proof (cases "d = a")
    case True
    have "seq ?s' \<le> seq u" using replay_mono [OF g, of ds] r Cons.prems(5) by simp
    with True show ?thesis using step_covered [OF Cons.prems(1) a Cons.prems(4)] by simp
  next
    case False
    with Cons.prems(3) have "d \<in> set ds" by simp
    from Cons.IH [OF g r this Cons.prems(4,5)] show ?thesis .
  qed
qed simp

text \<open>Deltas delivered again, in any order and number, change nothing.\<close>

lemma replay_again:
  assumes "good s" and "replay s ds = (t, False)" and "set es \<subseteq> set ds"
  shows "replay t es = (t, False)"
proof -
  have g: "good t" using replay_good [OF assms(1), of ds] assms(2) by simp
  have "step t e = (t, False)" if "e \<in> set ds" for e
    using replay_covers [OF assms(1,2) that g] by simp
  with assms(3) show ?thesis by (induction es) auto
qed

end

lemma ApplyDelta_covered:
  assumes "0 \<le> lb_seq s" and "\<not> snd (ApplyDelta s d)" and "lb_seq (fst (ApplyDelta s d)) \<le> lb_seq t"
  shows "ApplyDelta t d = (t, False)"
proof -
  from assms(2) have w: "well_formed_delta d" and g: "stale_delta s d \<or> \<not> gap_delta s d"
    by (auto simp: ApplyDelta_cases split: if_splits)
  have "snd (the (delta_seqs d)) \<le> lb_seq t"
  proof (cases "stale_delta s d")
    case True
    with w assms(3) show ?thesis by (simp add: ApplyDelta_cases stale_delta_def)
  next
    case False
    with g have "\<not> gap_delta s d" by simp
    from ApplyDelta_applied [OF w False this assms(1)] assms(3) show ?thesis by (metis fst_conv)
  qed
  with w show ?thesis by (simp add: ApplyDelta_cases stale_delta_def)
qed

interpretation book_replay: sequenced_view ApplyDelta lb_seq "\<lambda>b. wf_book b \<and> 0 \<le> lb_seq b"
proof (unfold_locales, goal_cases)
  case (1 s d)
  then show ?case using ApplyDelta_wf [of s d] ApplyDelta_seq_mono [of s d] by simp
next
  case (2 s d)
  then show ?case by (rule ApplyDelta_refresh)
next
  case (3 s d)
  then show ?case by (simp add: ApplyDelta_seq_mono)
next
  case (4 s d t)
  then show ?case using ApplyDelta_covered by blast
qed

text \<open>The deltas handed to the book one after the other, a gap not stopping the loop: the
  flag says whether any of them asked for a refresh.\<close>

primrec replay_book :: "local_book \<Rightarrow> book_delta list \<Rightarrow> local_book \<times> bool" where
  "replay_book b [] = (b, False)"
| "replay_book b (d # ds) =
     (let r = ApplyDelta b d; r' = replay_book (fst r) ds in (fst r', snd r \<or> snd r'))"

lemma replay_book_eq: "replay_book b ds = book_replay.replay b ds"
  by (induction ds arbitrary: b) (auto simp: Let_def)

section \<open>Properties\<close>

definition sample_book :: local_book where
  "sample_book = \<lparr>lb_bids = [(100, 5), (90, 7)], lb_asks = [(110, 4)], lb_seq = 10\<rparr>"

definition sample_delta :: book_delta where
  "sample_delta = \<lparr>bd_symbolID = 1, bd_bookSeqStart = ''11'', bd_bookSeqEnd = ''12'', bd_reset = False,
     bd_bids = [\<lparr>pq_priceTicks = 100, pq_qtyScaled = 0\<rparr>],
     bd_asks = [\<lparr>pq_priceTicks = 120, pq_qtyScaled = 6\<rparr>]\<rparr>"

text \<open>C5. A delta does one of four things. Malformed or out of sequence it asks for a snapshot and
  leaves the book alone; already covered it does nothing; otherwise the book's levels become the
  delta's levels written over the old ones (over nothing, for a reset), zero quantities removing
  theirs, and the sequence becomes the delta's. Well-formed books stay so, and the sequence never
  goes back.\<close>

theorem apply_delta_spec:
  assumes "wf_book b" and "0 \<le> lb_seq b" and "ApplyDelta b d = (b', refresh)"
  shows "refresh = (\<not> well_formed_delta d \<or> \<not> stale_delta b d \<and> gap_delta b d)
    \<and> (refresh \<or> stale_delta b d \<longrightarrow> b' = b)
    \<and> (\<not> refresh \<and> \<not> stale_delta b d \<longrightarrow>
         lb_seq b' = snd (the (delta_seqs d))
         \<and> map_of (lb_bids b') = side_spec (if bd_reset d then Map.empty else map_of (lb_bids b)) (bd_bids d)
         \<and> map_of (lb_asks b') = side_spec (if bd_reset d then Map.empty else map_of (lb_asks b)) (bd_asks d))
    \<and> wf_book b' \<and> lb_seq b \<le> lb_seq b'"
proof -
  have r: "refresh = (\<not> well_formed_delta d \<or> \<not> stale_delta b d \<and> gap_delta b d)"
    and same: "refresh \<or> stale_delta b d \<Longrightarrow> b' = b"
    using assms(3) by (auto simp: ApplyDelta_cases Let_def split: if_splits)
  moreover have "lb_seq b' = snd (the (delta_seqs d))
      \<and> map_of (lb_bids b') = side_spec (if bd_reset d then Map.empty else map_of (lb_bids b)) (bd_bids d)
      \<and> map_of (lb_asks b') = side_spec (if bd_reset d then Map.empty else map_of (lb_asks b)) (bd_asks d)"
    if "\<not> refresh \<and> \<not> stale_delta b d"
  proof -
    from that r have "well_formed_delta d" "\<not> stale_delta b d" "\<not> gap_delta b d" by blast+
    from ApplyDelta_applied [OF this assms(2)] assms(3) show ?thesis by (metis fst_conv)
  qed
  moreover have "wf_book b' \<and> lb_seq b \<le> lb_seq b'"
    using ApplyDelta_wf [OF assms(1), of d] ApplyDelta_seq_mono [OF assms(2), of d] assms(3) by simp
  ultimately show ?thesis by blast
qed

theorem apply_delta_spec_witness:
  "map_of (lb_bids (fst (ApplyDelta sample_book sample_delta))) = side_spec (map_of [(100, 5), (90, 7)])
     [\<lparr>pq_priceTicks = 100, pq_qtyScaled = 0\<rparr>]"
proof -
  obtain b' r where a: "ApplyDelta sample_book sample_delta = (b', r)" by fastforce
  have w: "wf_book sample_book" "0 \<le> lb_seq sample_book" by code_simp+
  have "\<not> snd (ApplyDelta sample_book sample_delta)" "\<not> stale_delta sample_book sample_delta" by code_simp+
  with apply_delta_spec [OF w a] a show ?thesis by (simp add: sample_delta_def sample_book_def)
qed

text \<open>Once deltas have been applied without a gap, delivering any of them again, in any order
  and number, changes nothing and asks for nothing.\<close>

theorem redelivery_ignored:
  assumes "wf_book b" and "0 \<le> lb_seq b" and "replay_book b ds = (t, False)" and "set es \<subseteq> set ds"
  shows "replay_book t es = (t, False)"
  using book_replay.replay_again [of b ds t es] assms by (simp add: replay_book_eq)

theorem redelivery_ignored_witness:
  "replay_book (fst (ApplyDelta sample_book sample_delta)) [sample_delta, sample_delta] =
     (fst (ApplyDelta sample_book sample_delta), False)"
proof (rule redelivery_ignored)
  show "replay_book sample_book [sample_delta] = (fst (ApplyDelta sample_book sample_delta), False)"
    by code_simp
qed (code_simp | simp)+



text \<open>A bucket never flatters the book: a bid is shown at or below its price and an ask at or
  above it, less than one bucket away, on a multiple of the bucket.\<close>

theorem bucket_price_conservative:
  assumes "is_int64 p" and "0 < p" and "is_int64 bt" and "0 < bt" and "bucket_of bt asks p = Inr k"
  shows "bt dvd k \<and> (if asks then p \<le> k \<and> k < p + bt else k \<le> p \<and> p < k + bt)"
  using bucket_of_iff [OF assms(1-4), of asks k] bucket_price_bounds [OF assms(4), of asks p] assms(5) by auto

theorem bucket_price_conservative_witness:
  "(10::int) dvd 110 \<and> (if True then (103::int) \<le> 110 \<and> (110::int) < 103 + 10 else (110::int) \<le> 103 \<and> (103::int) < 110 + 10)"
  by (rule bucket_price_conservative) code_simp+

text \<open>The view of a bucketed side does not depend on the order in which Go iterates the map.\<close>

theorem bucket_order_irrelevant:
  assumes "wf_side book" and "int64_side book" and "0 < bt" and "is_int64 bt" and "mset book' = mset book"
    and "BucketSide book bt asks = Inr view" and "BucketSide book' bt asks = Inr view'"
  shows "map_of view' = map_of view"
  by (rule BucketSide_order [OF assms])

theorem bucket_order_irrelevant_witness:
  "map_of [(200 :: int, 1 :: int), (100, 12)] = map_of [(100, 12), (200, 1)]"
proof (rule bucket_order_irrelevant)
  show "BucketSide [(103, 5), (108, 7), (200, 1)] 10 False = Inr [(100, 12), (200, 1)]" by code_simp
  show "BucketSide [(200, 1), (108, 7), (103, 5)] 10 False = Inr [(200, 1), (100, 12)]" by code_simp
  show "mset [(200, 1), (108, 7), (103, 5)] = mset [(103, 5), (108, 7), (200, 1 :: int)]" by simp
qed code_simp+

text \<open>What is rendered of a side is its best levels, best first: the levels shown are of the
  bucketed book, sorted, as many as the depth allows, and every level left out is worse.\<close>

theorem side_view_best:
  assumes "wf_side book" and "int64_side book" and "is_int64 bt"
    and "sideToLevels book side symbol depth bt k = Inr levels"
  shows "\<exists>view. BucketSide book bt (side = ''asks'') = Inr view
    \<and> level_pairs levels = take (nat depth) (sort_entries side view)
    \<and> sorted_wrt (better side) (map fst (level_pairs levels))
    \<and> set (level_pairs levels) \<subseteq> set view \<and> length levels = min (nat depth) (length view)"
  by (rule sideToLevels_shows [OF assms(4,1,2,3)]) blast

theorem side_view_best_witness:
  "\<exists>levels view. BucketSide [(90, 7), (100, 5)] 0 False = Inr view
    \<and> level_pairs levels = take (nat 1) (sort_entries ''bids'' view) \<and> length levels = min (nat 1) (length view)"
proof -
  have w: "wf_side [(90, 7), (100, 5)]" "int64_side [(90, 7), (100, 5)]" "is_int64 0" by code_simp+
  obtain levels where "sideToLevels [(90, 7), (100, 5)] ''bids'' ''X'' 1 0 2 = Inr levels"
    using sideToLevels_wf_total [OF w(1)] by blast
  from side_view_best [OF w this] show ?thesis by auto
qed

text \<open>A subscription rides the smallest published stream depth that covers the requested one,
  and is refused exactly when there is none.\<close>

theorem stream_tier_smallest:
  "OrderbookStreamTier depth = Inr tier \<longleftrightarrow>
     1 \<le> depth \<and> tier \<in> set orderbookStreamDepths \<and> depth \<le> tier
     \<and> (\<forall>t \<in> set orderbookStreamDepths. depth \<le> t \<longrightarrow> tier \<le> t)"
  by (rule OrderbookStreamTier_spec)

theorem stream_tier_smallest_witness: "OrderbookStreamTier 21 = Inr 50"
  using stream_tier_smallest [of 21 50] by (simp add: orderbookStreamDepths_def)

end
