(* ===== verification/Centrifugo.thy ===== *)
theory Centrifugo
  imports GoText
begin

unbundle bit_operations_syntax

text \<open>
  \<open>realtime/protocol.go\<close>: the Centrifugo protobuf framing written by hand in the SDK. The
  unread part of a \<open>protoCursor\<close> (its \<open>data[offset:]\<close>) is the byte list a reader takes and
  returns; \<open>remaining() > 0\<close> is that the list is not empty. The \<open>incoming\<close> slice a decoder
  appends to is threaded through it.
\<close>

section \<open>Writing\<close>

definition MaxRealtimeMessageBytes :: nat where
  "MaxRealtimeMessageBytes = 8 * 1024 * 1024"

definition bytes_of :: "string \<Rightarrow> byte list" where
  "bytes_of s = map (\<lambda>c. word_of_nat (of_char c)) s"

definition string_of_bytes :: "byte list \<Rightarrow> string" where
  "string_of_bytes bs = map (\<lambda>b. char_of (unat b)) bs"

function appendVarint :: "u64 \<Rightarrow> byte list" where
  "appendVarint v = (if v \<ge> 0x80
     then (ucast v OR 0x80) # appendVarint (drop_bit 7 v)
     else [ucast v])"
  by pat_completeness auto
termination
proof (relation "measure unat")
  fix v :: u64
  assume "v \<ge> 0x80"
  then have "0 < unat v" by (simp add: word_le_nat_alt)
  then show "(drop_bit 7 v, v) \<in> measure unat"
    by (simp only: in_measure unat_drop_bit_eq) (simp add: drop_bit_eq_div)
qed simp

declare appendVarint.simps [simp del]

definition appendVarintField :: "byte list \<Rightarrow> u32 \<Rightarrow> u64 \<Rightarrow> byte list" where
  "appendVarintField out field v =
     out @ appendVarint (ucast (push_bit 3 field)) @ appendVarint v"

definition appendBytesField :: "byte list \<Rightarrow> u32 \<Rightarrow> byte list \<Rightarrow> byte list" where
  "appendBytesField out field v =
     out @ appendVarint (ucast (push_bit 3 field OR 2)) @ appendVarint (word_of_nat (length v)) @ v"

definition appendStringField :: "byte list \<Rightarrow> u32 \<Rightarrow> string \<Rightarrow> byte list" where
  "appendStringField out field v = appendBytesField out field (bytes_of v)"

definition command :: "u32 \<Rightarrow> u32 \<Rightarrow> byte list \<Rightarrow> byte list" where
  "command i field request =
     (let message = appendBytesField (appendVarintField [] 1 (ucast i)) field request
      in appendVarint (word_of_nat (length message)) @ message)"

definition connectCommand :: "u32 \<Rightarrow> string \<Rightarrow> byte list" where
  "connectCommand i token =
     command i 4 (if token \<noteq> [] then appendStringField [] 1 token else [])"

definition subscribeCommand :: "u32 \<Rightarrow> string \<Rightarrow> string \<Rightarrow> byte list" where
  "subscribeCommand i channel token =
     (let request = appendStringField [] 1 channel
      in command i 5 (if token \<noteq> [] then appendStringField request 2 token else request))"

definition refreshCommand :: "u32 \<Rightarrow> string \<Rightarrow> byte list" where
  "refreshCommand i token = command i 14 (appendStringField [] 1 token)"

definition subRefreshCommand :: "u32 \<Rightarrow> string \<Rightarrow> string \<Rightarrow> byte list" where
  "subRefreshCommand i channel token =
     command i 15 (appendStringField (appendStringField [] 1 channel) 2 token)"

definition pongCommand :: "byte list" where
  "pongCommand = [0]"

section \<open>The cursor\<close>

definition truncated :: sdk_error where
  "truncated = PlainError ''truncated centrifugo protobuf''"

definition varint_overflow :: sdk_error where
  "varint_overflow = PlainError ''centrifugo protobuf varint overflow''"

fun varint_loop :: "nat \<Rightarrow> u64 \<Rightarrow> byte list \<Rightarrow> (u64 \<times> byte list) res" where
  "varint_loop shift v [] = Inl (if shift < 70 then truncated else varint_overflow)"
| "varint_loop shift v (current # rest) =
     (if \<not> shift < 70 then Inl varint_overflow
      else if shift = 63 \<and> current > 1 then Inl varint_overflow
      else let v' = v OR push_bit shift (ucast (current AND 0x7f))
        in if current AND 0x80 = 0 then Inr (v', rest) else varint_loop (shift + 7) v' rest)"

definition varint :: "byte list \<Rightarrow> (u64 \<times> byte list) res" where
  "varint bs = varint_loop 0 0 bs"

definition key :: "byte list \<Rightarrow> (u32 \<times> byte \<times> byte list) res" where
  "key bs = bind_res (varint bs) (\<lambda>(k, rest).
     let field = ucast (drop_bit 3 k) :: u32 in
     if field = 0 then Inl (PlainError ''centrifugo protobuf field number is zero'')
     else Inr (field, ucast (k AND 7), rest))"

definition take_bytes :: "nat \<Rightarrow> byte list \<Rightarrow> (byte list \<times> byte list) res" where
  "take_bytes len bs = (if len > length bs then Inl truncated else Inr (take len bs, drop len bs))"

definition lengthDelimited :: "byte list \<Rightarrow> (byte list \<times> byte list) res" where
  "lengthDelimited bs = bind_res (varint bs) (\<lambda>(len, rest).
     if len > word_of_nat MaxRealtimeMessageBytes
     then Inl (PlainError (''centrifugo protobuf field exceeds 8388608 bytes''))
     else if unat len > length rest then Inl truncated
     else take_bytes (unat len) rest)"

definition skip :: "byte \<Rightarrow> byte list \<Rightarrow> byte list res" where
  "skip wire bs =
     (if wire = 0 then bind_res (varint bs) (\<lambda>(_, rest). Inr rest)
      else if wire = 1 then bind_res (take_bytes 8 bs) (\<lambda>(_, rest). Inr rest)
      else if wire = 2 then bind_res (lengthDelimited bs) (\<lambda>(_, rest). Inr rest)
      else if wire = 5 then bind_res (take_bytes 4 bs) (\<lambda>(_, rest). Inr rest)
      else Inl (PlainError (''unsupported centrifugo protobuf wire type '' @ itoa (uint wire))))"

text \<open>A reader that only moves forward.\<close>

definition forward :: "(byte list \<Rightarrow> ('a \<times> byte list) res) \<Rightarrow> bool" where
  "forward r \<longleftrightarrow> (\<forall>bs a rest. r bs = Inr (a, rest) \<longrightarrow> length rest \<le> length bs)"

lemma varint_loop_shorter: "varint_loop shift v bs = Inr (w, rest) \<Longrightarrow> length rest < length bs"
proof (induction shift v bs rule: varint_loop.induct)
  case (2 shift v current rest')
  then show ?case by (force simp: Let_def split: if_splits)
qed simp

lemma varint_shorter: "varint bs = Inr (v, rest) \<Longrightarrow> length rest < length bs"
  unfolding varint_def by (rule varint_loop_shorter)

lemma key_shorter: "key bs = Inr (field, wire, rest) \<Longrightarrow> length rest < length bs"
  by (auto simp: key_def bind_res_Inr_iff Let_def split: if_splits dest!: varint_shorter)

lemma take_bytes_shorter: "take_bytes n bs = Inr (v, rest) \<Longrightarrow> length v + length rest = length bs"
  by (auto simp: take_bytes_def split: if_splits)

lemma lengthDelimited_shorter:
  "lengthDelimited bs = Inr (v, rest) \<Longrightarrow> length v + length rest < length bs"
  by (fastforce simp: lengthDelimited_def bind_res_Inr_iff split: if_splits
      dest: varint_shorter take_bytes_shorter)

lemma skip_shorter: "skip wire bs = Inr rest \<Longrightarrow> length rest \<le> length bs"
  by (fastforce simp: skip_def bind_res_Inr_iff split: if_splits
      dest: varint_shorter take_bytes_shorter lengthDelimited_shorter)

section \<open>The field loop\<close>

text \<open>
  Every decoder is one loop: while bytes remain, read a key and let the \<open>switch\<close> act on it.
  The switch is the parameter: it gets the field, the wire type, the bytes after the key and
  the state, and returns the new state and the bytes left. The length test only serves the
  termination proof: \<open>field_loop_eq\<close> drops it for the switches of the code, which read forward.
\<close>

type_synonym 's switch = "u32 \<Rightarrow> byte \<Rightarrow> byte list \<Rightarrow> 's \<Rightarrow> ('s \<times> byte list) res"

function field_loop :: "'s switch \<Rightarrow> byte list \<Rightarrow> 's \<Rightarrow> 's res" where
  "field_loop switch bs s = (if bs = [] then Inr s
     else bind_res (key bs) (\<lambda>(field, wire, rest).
          bind_res (switch field wire rest s) (\<lambda>(s', rest').
            if length rest' < length bs then field_loop switch rest' s' else Inl truncated)))"
  by pat_completeness auto
termination by (relation "measure (\<lambda>(switch, bs, s). length bs)") auto

declare field_loop.simps [simp del]

definition forward_switch :: "'s switch \<Rightarrow> bool" where
  "forward_switch switch \<longleftrightarrow> (\<forall>field wire bs s s' rest.
     switch field wire bs s = Inr (s', rest) \<longrightarrow> length rest \<le> length bs)"

text \<open>The loop of the code, without the test.\<close>

lemma field_loop_eq:
  assumes "forward_switch switch"
  shows "field_loop switch bs s = (if bs = [] then Inr s
     else bind_res (key bs) (\<lambda>(field, wire, rest).
          bind_res (switch field wire rest s) (\<lambda>(s', rest'). field_loop switch rest' s')))"
proof -
  have "length rest' < length bs"
    if "key bs = Inr (field, wire, rest)" "switch field wire rest s = Inr (s', rest')"
    for field wire rest s' rest'
    using key_shorter [OF that(1)] that(2) assms unfolding forward_switch_def
    by (meson le_less_trans)
  then show ?thesis
    by (subst field_loop.simps) (auto simp: bind_res_def split: sum.splits)
qed

lemma field_loop_Nil [simp]: "field_loop switch [] s = Inr s"
  by (simp add: field_loop.simps)

section \<open>Decoding\<close>

record protocol_error =
  pe_code :: u32
  pe_message :: string
  pe_temporary :: bool

datatype incoming_kind = IncomingReply | IncomingPublication | IncomingPing | IncomingUnsubscribe

record incoming_message =
  im_kind :: incoming_kind
  im_id :: u32
  im_err :: "protocol_error option"
  im_data :: "byte list"
  im_channel :: string
  im_code :: u32
  im_reason :: string
  im_expires :: bool
  im_ttl :: u32

definition message_of :: "incoming_kind \<Rightarrow> incoming_message" where
  "message_of kind = \<lparr>im_kind = kind, im_id = 0, im_err = None, im_data = [], im_channel = [],
     im_code = 0, im_reason = [], im_expires = False, im_ttl = 0\<rparr>"

definition exceeds_uint32 :: "u64 \<Rightarrow> bool" where
  "exceeds_uint32 v \<longleftrightarrow> v > ucast (-1 :: u32)"

definition expiry_switch :: "u32 \<Rightarrow> u32 \<Rightarrow> (bool \<times> u32) switch" where
  "expiry_switch expiresField ttlField field wire bs s =
     (if field = expiresField \<and> wire = 0
      then bind_res (varint bs) (\<lambda>(v, rest). Inr ((v \<noteq> 0, snd s), rest))
      else if field = ttlField \<and> wire = 0
      then bind_res (varint bs) (\<lambda>(v, rest).
             if exceeds_uint32 v then Inl (PlainError ''centrifugo token ttl exceeds uint32'')
             else Inr ((fst s, ucast v), rest))
      else bind_res (skip wire bs) (\<lambda>rest. Inr (s, rest)))"

definition decodeExpiry :: "byte list \<Rightarrow> u32 \<Rightarrow> (bool \<times> u32) res" where
  "decodeExpiry bs resultField =
     (let (expiresField, ttlField) = (if resultField = 5 \<or> resultField = 14 then (3, 4) else (1, 2))
      in field_loop (expiry_switch expiresField ttlField) bs (False, 0))"

definition error_switch :: "protocol_error switch" where
  "error_switch field wire bs out =
     (if field = 1 \<and> wire = 0
      then bind_res (varint bs) (\<lambda>(v, rest).
             if exceeds_uint32 v then Inl (PlainError ''centrifugo error code exceeds uint32'')
             else Inr (out\<lparr>pe_code := ucast v\<rparr>, rest))
      else if field = 2 \<and> wire = 2
      then bind_res (lengthDelimited bs) (\<lambda>(v, rest). Inr (out\<lparr>pe_message := string_of_bytes v\<rparr>, rest))
      else if field = 3 \<and> wire = 0
      then bind_res (varint bs) (\<lambda>(v, rest). Inr (out\<lparr>pe_temporary := v \<noteq> 0\<rparr>, rest))
      else bind_res (skip wire bs) (\<lambda>rest. Inr (out, rest)))"

definition decodeProtocolError :: "byte list \<Rightarrow> protocol_error res" where
  "decodeProtocolError bs =
     field_loop error_switch bs \<lparr>pe_code = 0, pe_message = [], pe_temporary = False\<rparr>"

definition unsubscribe_switch :: "incoming_message switch" where
  "unsubscribe_switch field wire bs message =
     (if field = 2 \<and> wire = 0
      then bind_res (varint bs) (\<lambda>(v, rest).
             if exceeds_uint32 v then Inl (PlainError ''centrifugo unsubscribe code exceeds uint32'')
             else Inr (message\<lparr>im_code := ucast v\<rparr>, rest))
      else if field = 3 \<and> wire = 2
      then bind_res (lengthDelimited bs) (\<lambda>(v, rest). Inr (message\<lparr>im_reason := string_of_bytes v\<rparr>, rest))
      else bind_res (skip wire bs) (\<lambda>rest. Inr (message, rest)))"

definition decodeUnsubscribe :: "byte list \<Rightarrow> incoming_message res" where
  "decodeUnsubscribe bs = field_loop unsubscribe_switch bs (message_of IncomingUnsubscribe)"

definition publication_switch :: "incoming_message list switch" where
  "publication_switch field wire bs incoming =
     (if field = 4 \<and> wire = 2
      then bind_res (lengthDelimited bs) (\<lambda>(v, rest).
             Inr (incoming @ [(message_of IncomingPublication)\<lparr>im_data := v\<rparr>], rest))
      else bind_res (skip wire bs) (\<lambda>rest. Inr (incoming, rest)))"

definition decodePublication :: "byte list \<Rightarrow> incoming_message list \<Rightarrow> incoming_message list res" where
  "decodePublication bs incoming = field_loop publication_switch bs incoming"

record push_state =
  pu_channel :: string
  pu_unsubscribe :: "incoming_message option"
  pu_incoming :: "incoming_message list"

definition push_switch :: "push_state switch" where
  "push_switch field wire bs s =
     (if field = 2 \<and> wire = 2
      then bind_res (lengthDelimited bs) (\<lambda>(v, rest). Inr (s\<lparr>pu_channel := string_of_bytes v\<rparr>, rest))
      else if field = 4 \<and> wire = 2
      then bind_res (lengthDelimited bs) (\<lambda>(v, rest).
           bind_res (decodePublication v (pu_incoming s)) (\<lambda>incoming.
             Inr (s\<lparr>pu_incoming := incoming\<rparr>, rest)))
      else if field = 7 \<and> wire = 2
      then bind_res (lengthDelimited bs) (\<lambda>(v, rest).
           bind_res (decodeUnsubscribe v) (\<lambda>m. Inr (s\<lparr>pu_unsubscribe := Some m\<rparr>, rest)))
      else bind_res (skip wire bs) (\<lambda>rest. Inr (s, rest)))"

definition decodePush :: "byte list \<Rightarrow> incoming_message list \<Rightarrow> incoming_message list res" where
  "decodePush bs incoming =
     bind_res (field_loop push_switch bs
         \<lparr>pu_channel = [], pu_unsubscribe = None, pu_incoming = incoming\<rparr>) (\<lambda>s.
       Inr (case pu_unsubscribe s of
              None \<Rightarrow> pu_incoming s
            | Some m \<Rightarrow> pu_incoming s @ [m\<lparr>im_channel := pu_channel s\<rparr>]))"

record reply_state =
  rs_id :: u32
  rs_err :: "protocol_error option"
  rs_expires :: bool
  rs_ttl :: u32
  rs_sawPush :: bool
  rs_incoming :: "incoming_message list"

definition reply_switch :: "reply_state switch" where
  "reply_switch field wire bs s =
     (if field = 1 \<and> wire = 0
      then bind_res (varint bs) (\<lambda>(v, rest).
             if exceeds_uint32 v then Inl (PlainError ''centrifugo reply id exceeds uint32'')
             else Inr (s\<lparr>rs_id := ucast v\<rparr>, rest))
      else if field = 2 \<and> wire = 2
      then bind_res (lengthDelimited bs) (\<lambda>(v, rest).
           bind_res (decodeProtocolError v) (\<lambda>e. Inr (s\<lparr>rs_err := Some e\<rparr>, rest)))
      else if field = 4 \<and> wire = 2
      then bind_res (lengthDelimited bs) (\<lambda>(v, rest).
           bind_res (decodePush v (rs_incoming s)) (\<lambda>incoming.
             Inr (s\<lparr>rs_sawPush := True, rs_incoming := incoming\<rparr>, rest)))
      else if (field = 5 \<or> field = 6 \<or> field = 14 \<or> field = 15) \<and> wire = 2
      then bind_res (lengthDelimited bs) (\<lambda>(v, rest).
           bind_res (decodeExpiry v field) (\<lambda>(expires, ttl).
             Inr (s\<lparr>rs_expires := expires, rs_ttl := ttl\<rparr>, rest)))
      else bind_res (skip wire bs) (\<lambda>rest. Inr (s, rest)))"

definition reply_result :: "reply_state \<Rightarrow> incoming_message list" where
  "reply_result s = (if rs_id s \<noteq> 0 \<or> rs_err s \<noteq> None \<or> \<not> rs_sawPush s
     then rs_incoming s @ [(message_of IncomingReply)\<lparr>im_id := rs_id s, im_err := rs_err s,
            im_expires := rs_expires s, im_ttl := rs_ttl s\<rparr>]
     else rs_incoming s)"

definition decodeReply :: "byte list \<Rightarrow> incoming_message list \<Rightarrow> incoming_message list res" where
  "decodeReply bs incoming =
     (if bs = [] then Inr (incoming @ [message_of IncomingPing])
      else bind_res (field_loop reply_switch bs
          \<lparr>rs_id = 0, rs_err = None, rs_expires = False, rs_ttl = 0, rs_sawPush = False,
           rs_incoming = incoming\<rparr>) (\<lambda>s. Inr (reply_result s)))"

text \<open>One record of a frame: its length, then its bytes.\<close>

definition read_record :: "byte list \<Rightarrow> (byte list \<times> byte list) res" where
  "read_record bs = bind_res (varint bs) (\<lambda>(len, rest).
     if len > word_of_nat MaxRealtimeMessageBytes
     then Inl (PlainError ''centrifugo protobuf record exceeds 8388608 bytes'')
     else take_bytes (unat len) rest)"

lemma read_record_shorter: "read_record bs = Inr (v, rest) \<Longrightarrow> length v + length rest < length bs"
  by (fastforce simp: read_record_def bind_res_Inr_iff split: if_splits
      dest: varint_shorter take_bytes_shorter)

function replies_loop :: "byte list \<Rightarrow> incoming_message list \<Rightarrow> incoming_message list res" where
  "replies_loop bs incoming = (if bs = [] then Inr incoming
     else case read_record bs of
       Inl e \<Rightarrow> Inl e
     | Inr (reply, rest) \<Rightarrow> (case decodeReply reply incoming of
           Inl e \<Rightarrow> Inl e
         | Inr incoming' \<Rightarrow> replies_loop rest incoming'))"
  by pat_completeness auto
termination
  by (relation "measure (\<lambda>(bs, _). length bs)") (auto dest: read_record_shorter)

declare replies_loop.simps [simp del]

definition decodeReplies :: "byte list \<Rightarrow> incoming_message list res" where
  "decodeReplies frame =
     (if length frame > MaxRealtimeMessageBytes
      then Inl (PlainError ''centrifugo protobuf message exceeds 8388608 bytes'')
      else replies_loop frame [])"

section \<open>The switches read forward\<close>

lemma forward_switches [simp]:
  "forward_switch (expiry_switch a b)" "forward_switch error_switch"
  "forward_switch unsubscribe_switch" "forward_switch publication_switch"
  "forward_switch push_switch" "forward_switch reply_switch"
  unfolding forward_switch_def expiry_switch_def error_switch_def unsubscribe_switch_def
    publication_switch_def push_switch_def reply_switch_def
  by (auto simp: bind_res_Inr_iff split: if_splits dest!: varint_shorter lengthDelimited_shorter skip_shorter)

section \<open>Varints\<close>

text \<open>The number a byte sequence stands for, seven bits a byte, least significant first.\<close>

primrec leb :: "byte list \<Rightarrow> nat" where
  "leb [] = 0"
| "leb (b # bs) = unat b mod 128 + 128 * leb bs"

lemma appendVarint_small: "v < 0x80 \<Longrightarrow> appendVarint v = [ucast v]"
  by (subst appendVarint.simps, rule if_not_P) (simp add: not_le)

lemma appendVarint_big: "v \<ge> 0x80 \<Longrightarrow> appendVarint v = (ucast v OR 0x80) # appendVarint (drop_bit 7 v)"
  by (subst appendVarint.simps) simp

lemma appendVarint_not_Nil [simp]: "appendVarint v \<noteq> []"
  by (subst appendVarint.simps) simp

lemma byte_and_7f: "unat (b AND 0x7f :: byte) = unat b mod 128"
proof -
  have "unat (b AND 0x7f) = unat b AND mask 7" by (simp add: unsigned_and_eq mask_numeral)
  then show ?thesis by (simp add: take_bit_eq_mod flip: take_bit_eq_mask)
qed

lemma byte_and_80: "(b AND 0x80 :: byte) = 0 \<longleftrightarrow> unat b < 128"
proof -
  have "bit (unat b) 7 = odd (unat b div 2 ^ 7)" by (rule bit_iff_odd)
  moreover have "bit (unat b) 7 = bit b 7" by (simp add: bit_unsigned_iff)
  moreover have "(2::nat) ^ 7 = 128" by simp
  ultimately have odd: "bit b 7 = odd (unat b div 128)" by (simp only:)
  have "b AND 2 ^ 7 = 0 \<longleftrightarrow> \<not> bit b 7" by (rule and_exp_eq_0_iff_not_bit)
  moreover have "(2::byte) ^ 7 = 0x80" by simp
  ultimately have "b AND 0x80 = 0 \<longleftrightarrow> even (unat b div 128)" using odd by (simp only:) blast
  moreover have "unat b div 128 < 2"
    by (rule less_mult_imp_div_less) (use unat_byte_less [of b] in linarith)
  moreover have "unat b div 128 = 0 \<longleftrightarrow> unat b < 128" by (simp add: div_eq_0_iff)
  ultimately show ?thesis by (cases "unat b div 128 = 0") auto
qed

text \<open>What a varint writer writes, the reader reads back; a value of 64 bits fits its ten bytes.\<close>

lemma varint_step_word:
  fixes v acc :: u64
  shows "(acc OR push_bit shift (v AND 0x7f)) OR push_bit (shift + 7) (drop_bit 7 v)
    = acc OR push_bit shift v"
proof (rule bit_word_eqI)
  fix n assume "n < LENGTH(64)"
  have "v AND 0x7f = take_bit 7 v" by (simp add: take_bit_eq_mask mask_numeral)
  moreover have "7 + (n - (shift + 7)) = n - shift" if "shift + 7 \<le> n" using that by simp
  ultimately show "bit ((acc OR push_bit shift (v AND 0x7f)) OR push_bit (shift + 7) (drop_bit 7 v)) n
    = bit (acc OR push_bit shift v) n"
    by (cases "shift + 7 \<le> n") (auto simp: bit_simps)
qed

lemma bit_80: "bit (0x80 :: byte) n \<longleftrightarrow> n = 7"
  using bit_exp_iff [where 'a = "8 word" and m = 7 and n = n] by (auto simp: possible_bit_def)

lemma ucast_low7: "ucast ((ucast v OR 0x80 :: byte) AND 0x7f) = (v AND 0x7f :: u64)"
proof -
  have m: "(0x7f :: byte) = mask 7" "(0x7f :: u64) = mask 7" by (simp_all add: mask_numeral)
  show ?thesis unfolding m
  proof (rule bit_word_eqI)
    fix n assume n: "n < LENGTH(64)"
    show "bit (ucast ((ucast v OR 0x80 :: byte) AND mask 7) :: u64) n = bit (v AND mask 7) n"
      using n
      by (simp only: bit_or_iff bit_and_iff bit_mask_iff bit_unsigned_iff bit_80 possible_bit_word) auto
  qed
qed

lemma unat_low_byte: "v < (0x80 :: u64) \<Longrightarrow> unat (ucast v :: byte) = unat v"
  by (simp add: unsigned_ucast_eq word_less_nat_alt take_bit_nat_eq_self_iff)

lemma ucast_low7':
  assumes "v < 0x80"
  shows "ucast ((ucast v :: byte) AND 0x7f) = (v :: u64)"
proof (rule word_unat_eq_iff [THEN iffD2])
  have "unat (ucast ((ucast v :: byte) AND 0x7f) :: u64) = take_bit 64 (unat ((ucast v :: byte) AND 0x7f))"
    by (simp add: unsigned_ucast_eq)
  also have "\<dots> = unat ((ucast v :: byte) AND 0x7f)"
    by (rule take_bit_nat_eq_self) (rule less_trans [OF unat_byte_less], simp)
  also have "\<dots> = unat v"
    using assms unfolding byte_and_7f unat_low_byte [OF assms] by (simp add: word_less_nat_alt)
  finally show "unat (ucast ((ucast v :: byte) AND 0x7f) :: u64) = unat v" .
qed

lemma unat_drop7: "unat (drop_bit 7 v :: u64) = unat v div 128"
proof -
  have "unat (drop_bit 7 v) = drop_bit 7 (unat v)" by (rule unat_drop_bit_eq)
  also have "\<dots> = unat v div 2 ^ 7" by (rule drop_bit_eq_div)
  finally show ?thesis by (simp only:) simp
qed

lemma varint_loop_append:
  assumes "shift \<le> 63" and "7 dvd shift" and "unat v < 2 ^ (64 - shift)"
  shows "varint_loop shift acc (appendVarint v @ rest) = Inr (acc OR push_bit shift v, rest)"
  using assms
proof (induction v arbitrary: shift acc rule: appendVarint.induct)
  case (1 v)
  show ?case
  proof (cases "v \<ge> 0x80")
    case True
    then have "128 \<le> unat v" by (simp add: word_le_nat_alt)
    then have "(2::nat) ^ 7 < 2 ^ (64 - shift)" using "1.prems"(3) by simp
    then have "7 < 64 - shift" by (simp only: power_strict_increasing_iff)
    then have sh: "shift \<le> 56" using "1.prems"(2) by presburger
    have "unat (drop_bit 7 v) < 2 ^ (64 - (shift + 7))"
    proof -
      have "(2::nat) ^ (64 - shift) = 2 ^ (64 - (shift + 7)) * 128"
        using sh power_add [of "2::nat" "57 - shift" 7] by simp
      with "1.prems"(3) show ?thesis
        unfolding unat_drop7 by (simp add: less_mult_imp_div_less)
    qed
    from "1.IH" [OF True _ _ this] sh "1.prems"(2)
    have IH: "varint_loop (shift + 7) acc' (appendVarint (drop_bit 7 v) @ rest)
        = Inr (acc' OR push_bit (shift + 7) (drop_bit 7 v), rest)" for acc'
      by simp
    have h: "(ucast v OR 0x80 :: byte) AND 0x80 \<noteq> 0"
      by (simp add: bit_eq_iff) (rule exI [of _ 7], simp add: bit_simps)
    show ?thesis
      unfolding appendVarint_big [OF True] using sh h
      by (simp add: Let_def IH ucast_low7 varint_step_word del: push_bit_and)
  next
    case False
    then have lt: "v < 0x80" by simp
    then have "unat (ucast v :: byte) = unat v" by (rule unat_low_byte)
    then have "(ucast v :: byte) AND 0x80 = 0" using lt by (simp add: byte_and_80 word_less_nat_alt)
    moreover have "\<not> ucast v > (1 :: byte)" if "shift = 63"
      using "1.prems"(3) that \<open>unat (ucast v :: byte) = unat v\<close> by (simp add: word_less_nat_alt)
    ultimately show ?thesis
      unfolding appendVarint_small [OF lt] using "1.prems"(1) lt
      by (auto simp: Let_def ucast_low7')
  qed
qed

lemma varint_append: "varint (appendVarint v @ rest) = Inr (v, rest)"
  using varint_loop_append [of 0 v 0 rest] unat_u64_less [of v] by (simp add: varint_def)

text \<open>A number that is read is exactly what its bytes stand for: no bit is shifted out, and
  the reader stops at the first byte below 128.\<close>

lemma or_push_bit:
  fixes acc :: u64
  assumes "unat acc < 2 ^ shift" and "unat x * 2 ^ shift < 2 ^ 64"
  shows "unat (acc OR push_bit shift x) = unat acc + 2 ^ shift * unat x"
proof -
  have "take_bit shift (unat acc) = unat acc" using assms(1) by (rule take_bit_nat_eq_self)
  moreover have "take_bit shift (unat acc) AND push_bit shift (unat x) = 0"
    by (simp add: bit_eq_iff bit_simps)
  ultimately have "unat acc AND push_bit shift (unat x) = 0" by simp
  then have "unat acc OR push_bit shift (unat x) = unat acc + push_bit shift (unat x)"
    by (simp add: disjunctive_add_eq_or)
  moreover have "unat (push_bit shift x) = push_bit shift (unat x)"
    unfolding unsigned_push_bit_eq
    by (rule take_bit_nat_eq_self) (use assms(2) in \<open>simp add: push_bit_eq_mult\<close>)
  ultimately show ?thesis by (simp add: unsigned_or_eq push_bit_eq_mult mult.commute)
qed

definition varint_bytes :: "byte list \<Rightarrow> bool" where
  "varint_bytes pre \<longleftrightarrow> pre \<noteq> [] \<and> length pre \<le> 10 \<and> unat (last pre) < 128
     \<and> (\<forall>b \<in> set (butlast pre). 128 \<le> unat b)"

lemma varint_loop_read:
  assumes "varint_loop shift acc bs = Inr (v, rest)"
    and "unat acc < 2 ^ shift" and "7 dvd shift"
  shows "\<exists>pre. bs = pre @ rest \<and> pre \<noteq> [] \<and> unat (last pre) < 128
    \<and> (\<forall>b \<in> set (butlast pre). 128 \<le> unat b) \<and> 7 * length pre + shift \<le> 70
    \<and> unat v = unat acc + 2 ^ shift * leb pre"
  using assms
proof (induction shift acc bs rule: varint_loop.induct)
  case (2 shift acc current bs)
  let ?low = "unat current mod 128"
  let ?v' = "acc OR push_bit shift (ucast (current AND 0x7f))"
  from "2.prems"(1) have sh: "shift < 70" and ovf: "\<not> (shift = 63 \<and> current > 1)"
    by (auto split: if_splits)
  from sh "2.prems"(3) have s: "shift = 63 \<or> shift \<le> 56" by presburger
  have low: "unat (ucast (current AND 0x7f) :: u64) = ?low"
  proof -
    have "unat (ucast (current AND 0x7f) :: u64) = take_bit 64 (unat (current AND 0x7f))"
      by (simp add: unsigned_ucast_eq)
    also have "\<dots> = unat (current AND 0x7f)"
      by (rule take_bit_nat_eq_self) (rule less_trans [OF unat_byte_less], simp)
    finally show ?thesis by (simp only: byte_and_7f)
  qed
  have "?low * 2 ^ shift < 2 ^ 64"
  proof (cases "shift = 63")
    case True
    with ovf have "unat current \<le> 1" by (simp add: word_less_nat_alt not_less)
    with True show ?thesis by simp
  next
    case False
    with s have "(2::nat) ^ shift \<le> 2 ^ 56" by (intro power_increasing) simp_all
    moreover have "?low \<le> 127" by simp
    ultimately have "?low * 2 ^ shift \<le> 127 * 2 ^ 56" by (intro mult_mono) simp_all
    then show ?thesis by simp
  qed
  from or_push_bit [OF "2.prems"(2), of "ucast (current AND 0x7f)"] this low
  have v': "unat ?v' = unat acc + 2 ^ shift * ?low" by simp
  show ?case
  proof (cases "current AND 0x80 = 0")
    case True
    then have lt: "unat current < 128" by (simp add: byte_and_80)
    from True "2.prems"(1) sh ovf have "v = ?v'" and "rest = bs"
      by (auto simp: Let_def)
    with v' lt s show ?thesis by (intro exI [of _ "[current]"]) auto
  next
    case False
    then have ge: "128 \<le> unat current" by (simp add: byte_and_80 not_less)
    from False "2.prems"(1) sh ovf have l: "varint_loop (shift + 7) ?v' bs = Inr (v, rest)"
      by (auto simp: Let_def)
    have "?low \<le> 127" by simp
    then have "2 ^ shift * ?low \<le> 2 ^ shift * 127" by (rule mult_le_mono2)
    moreover have "(2::nat) ^ (shift + 7) = 2 ^ shift + 2 ^ shift * 127" by (simp add: power_add)
    ultimately have "unat ?v' < 2 ^ (shift + 7)" using v' "2.prems"(2) by linarith
    from "2.IH" [OF _ _ _ False l this] sh ovf "2.prems"(3) obtain pre where
      pre: "bs = pre @ rest" "pre \<noteq> []" "unat (last pre) < 128"
        "\<forall>b \<in> set (butlast pre). 128 \<le> unat b" "7 * length pre + (shift + 7) \<le> 70"
        "unat v = unat ?v' + 2 ^ (shift + 7) * leb pre"
      by auto
    with v' ge show ?thesis
      by (intro exI [of _ "current # pre"]) (auto simp: power_add algebra_simps)
  qed
qed simp

lemma varint_read:
  assumes "varint bs = Inr (v, rest)"
  obtains pre where "bs = pre @ rest" and "varint_bytes pre" and "unat v = leb pre"
  using varint_loop_read [of 0 0 bs v rest] assms by (auto simp: varint_def varint_bytes_def)

section \<open>What is written reads back\<close>

lemma appendVarint_length: "length (appendVarint v) \<le> 10"
proof -
  from varint_append [of v "[]"] obtain pre where "appendVarint v @ [] = pre @ []" "varint_bytes pre"
    by (rule varint_read)
  then show ?thesis by (simp add: varint_bytes_def)
qed

lemma unat_of_length: "n < 2 ^ 64 \<Longrightarrow> unat (word_of_nat n :: u64) = n"
  by (simp add: unat_of_nat take_bit_nat_eq_self_iff)

lemma over_max_iff: "len > word_of_nat MaxRealtimeMessageBytes \<longleftrightarrow> unat (len :: u64) > MaxRealtimeMessageBytes"
  by (simp add: word_less_nat_alt unat_of_length MaxRealtimeMessageBytes_def)

lemma lengthDelimited_append:
  assumes "length v \<le> MaxRealtimeMessageBytes"
  shows "lengthDelimited (appendVarint (word_of_nat (length v)) @ v @ rest) = Inr (v, rest)"
proof -
  have "unat (word_of_nat (length v) :: u64) = length v"
    by (rule unat_of_length) (use assms in \<open>simp add: MaxRealtimeMessageBytes_def\<close>)
  with assms show ?thesis
    by (simp add: lengthDelimited_def varint_append over_max_iff take_bytes_def)
qed

lemma read_record_append:
  assumes "length v \<le> MaxRealtimeMessageBytes"
  shows "read_record (appendVarint (word_of_nat (length v)) @ v @ rest) = Inr (v, rest)"
proof -
  have "unat (word_of_nat (length v) :: u64) = length v"
    by (rule unat_of_length) (use assms in \<open>simp add: MaxRealtimeMessageBytes_def\<close>)
  with assms show ?thesis
    by (simp add: read_record_def varint_append over_max_iff take_bytes_def)
qed

text \<open>The field numbers in use fit a tag of 32 bits.\<close>

definition field_number :: "u32 \<Rightarrow> bool" where
  "field_number field \<longleftrightarrow> field \<noteq> 0 \<and> field < 2 ^ 29"

lemma field_number_numerals [simp]:
  "field_number 1" "field_number 2" "field_number 3" "field_number 4" "field_number 5"
  "field_number 6" "field_number 7" "field_number 14" "field_number 15"
  by (simp_all add: field_number_def)

lemma take_bit_word_small: "unat w < 2 ^ n \<Longrightarrow> take_bit n w = (w :: 'a::len word)"
  by (rule unsigned_word_eqI [where 'a = nat]) (simp add: unsigned_take_bit_eq take_bit_nat_eq_self)

lemma key_append:
  assumes "field_number field" and "wire < 8"
  shows "key (appendVarint (ucast (push_bit 3 field OR ucast wire)) @ rest) = Inr (field, wire, rest)"
proof -
  let ?k = "ucast (push_bit 3 field OR ucast wire) :: u64"
  have f: "take_bit 29 field = field"
    using assms(1) by (intro take_bit_word_small) (simp add: field_number_def word_less_nat_alt)
  have w: "take_bit 3 wire = wire"
    using assms(2) by (intro take_bit_word_small) (simp add: word_less_nat_alt)
  have fb: "bit field n \<Longrightarrow> n < 29" for n by (subst (asm) f [symmetric]) (simp add: bit_simps)
  have wb: "bit wire n \<Longrightarrow> n < 3" for n by (subst (asm) w [symmetric]) (simp add: bit_simps)
  have "ucast (drop_bit 3 ?k) = field"
    by (rule bit_word_eqI) (auto simp: bit_simps dest: fb wb)
  moreover have "ucast (?k AND mask 3) = wire"
    by (rule bit_word_eqI) (auto simp: bit_simps dest: fb wb)
  moreover have "(7 :: u64) = mask 3" by (simp add: mask_numeral)
  ultimately show ?thesis
    using assms(1) by (simp add: key_def varint_append field_number_def Let_def del: take_bit_and)
qed

lemma key_append_varint:
  "field_number field \<Longrightarrow> key (appendVarint (ucast (push_bit 3 field)) @ rest) = Inr (field, 0, rest)"
  using key_append [of field 0 rest] by simp

lemma key_append_bytes:
  "field_number field \<Longrightarrow> key (appendVarint (ucast (push_bit 3 field OR 2)) @ rest) = Inr (field, 2, rest)"
  using key_append [of field 2 rest] by simp

lemma field_loop_varint:
  assumes "forward_switch switch" and "field_number field"
  shows "field_loop switch (appendVarintField [] field v @ rest) s =
    bind_res (switch field 0 (appendVarint v @ rest) s) (\<lambda>(s', rest'). field_loop switch rest' s')"
  by (subst field_loop_eq [OF assms(1)])
    (simp add: appendVarintField_def key_append_varint [OF assms(2)])

lemma field_loop_bytes:
  assumes "forward_switch switch" and "field_number field"
  shows "field_loop switch (appendBytesField [] field v @ rest) s =
    bind_res (switch field 2 (appendVarint (word_of_nat (length v)) @ v @ rest) s)
      (\<lambda>(s', rest'). field_loop switch rest' s')"
  by (subst field_loop_eq [OF assms(1)])
    (simp add: appendBytesField_def key_append_bytes [OF assms(2)])

lemmas field_loop_read = field_loop_varint field_loop_bytes varint_append lengthDelimited_append
  field_loop_varint [where rest = "[]", simplified] field_loop_bytes [where rest = "[]", simplified]
  varint_append [where rest = "[]", simplified] lengthDelimited_append [where rest = "[]", simplified]

lemma bytes_field_length: "length v \<le> length (appendBytesField [] field v)"
  by (simp add: appendBytesField_def)

lemma field_writers_append:
  "appendVarintField out field n = out @ appendVarintField [] field n"
  "appendBytesField out field v = out @ appendBytesField [] field v"
  "appendStringField out field t = out @ appendBytesField [] field (bytes_of t)"
  by (simp_all add: appendVarintField_def appendBytesField_def appendStringField_def)

lemma field_writers_length:
  "length (appendVarintField [] field n) \<le> 20"
  "length (appendBytesField [] field v) \<le> 20 + length v"
  using appendVarint_length [of "ucast (push_bit 3 field)"] appendVarint_length [of n]
    appendVarint_length [of "ucast (push_bit 3 field OR 2)"] appendVarint_length [of "word_of_nat (length v)"]
  by (simp_all add: appendVarintField_def appendBytesField_def)

lemma length_bytes_of [simp]: "length (bytes_of s) = length s"
  by (simp add: bytes_of_def)

lemma lengthDelimited_string [simp]:
  "length s \<le> MaxRealtimeMessageBytes \<Longrightarrow>
    lengthDelimited (appendVarint (word_of_nat (length s)) @ bytes_of s @ rest) = Inr (bytes_of s, rest)"
  "length s \<le> MaxRealtimeMessageBytes \<Longrightarrow>
    lengthDelimited (appendVarint (word_of_nat (length s)) @ bytes_of s) = Inr (bytes_of s, [])"
  using lengthDelimited_append [of "bytes_of s" rest] lengthDelimited_append [of "bytes_of s" "[]"]
  by simp_all

lemma field_writers_not_Nil [simp]:
  "appendVarintField [] field n \<noteq> []" "appendBytesField [] field v \<noteq> []"
  by (simp_all add: appendVarintField_def appendBytesField_def)

lemma string_of_bytes_of [simp]: "string_of_bytes (bytes_of s) = s"
proof -
  have "char_of (unat (word_of_nat (of_char c) :: byte)) = c" for c
  proof -
    have "(of_char c :: nat) < 256" by (rule nat_of_char_less_256)
    then have "unat (word_of_nat (of_char c) :: byte) = of_char c"
      by (simp add: unat_of_nat take_bit_nat_eq_self_iff)
    then show ?thesis by simp
  qed
  then show ?thesis by (simp add: bytes_of_def string_of_bytes_def comp_def)
qed

section \<open>Commands, read by a server\<close>

text \<open>A protobuf message seen as its fields in order, read with the cursor of the code.\<close>

datatype field_value = FVarint u64 | FBytes "byte list"

definition scan_switch :: "(u32 \<times> field_value) list switch" where
  "scan_switch field wire bs acc =
     (if wire = 0 then bind_res (varint bs) (\<lambda>(v, rest). Inr (acc @ [(field, FVarint v)], rest))
      else if wire = 2
      then bind_res (lengthDelimited bs) (\<lambda>(v, rest). Inr (acc @ [(field, FBytes v)], rest))
      else bind_res (skip wire bs) (\<lambda>rest. Inr (acc, rest)))"

definition read_fields :: "byte list \<Rightarrow> (u32 \<times> field_value) list res" where
  "read_fields bs = field_loop scan_switch bs []"

text \<open>A command frame holds one record: the command id and one request of fields.\<close>

definition read_command :: "byte list \<Rightarrow> (u64 \<times> u32 \<times> (u32 \<times> field_value) list) res" where
  "read_command frame = bind_res (read_record frame) (\<lambda>(message, rest).
     bind_res (read_fields message) (\<lambda>fs. case (fs, rest) of
         ([(one, FVarint i), (request_field, FBytes request)], []) \<Rightarrow>
           if one = 1 then bind_res (read_fields request) (\<lambda>req. Inr (i, request_field, req))
           else Inl truncated
       | _ \<Rightarrow> Inl truncated))"

lemma forward_scan [simp]: "forward_switch scan_switch"
  unfolding forward_switch_def scan_switch_def
  by (auto simp: bind_res_Inr_iff split: if_splits dest!: varint_shorter lengthDelimited_shorter skip_shorter)

lemma scan_varint:
  "field_number field \<Longrightarrow> field_loop scan_switch (appendVarintField [] field v @ rest) acc
    = field_loop scan_switch rest (acc @ [(field, FVarint v)])"
  by (simp add: field_loop_read scan_switch_def)

lemma scan_bytes:
  "field_number field \<Longrightarrow> length v \<le> MaxRealtimeMessageBytes \<Longrightarrow>
    field_loop scan_switch (appendBytesField [] field v @ rest) acc
    = field_loop scan_switch rest (acc @ [(field, FBytes v)])"
  by (simp add: field_loop_read scan_switch_def)

lemmas scan_fields = scan_varint [where rest = "[]", simplified] scan_varint
  scan_bytes [where rest = "[]", simplified] scan_bytes

lemma read_command_command:
  assumes "field_number request_field" and "length request + 40 \<le> MaxRealtimeMessageBytes"
  shows "read_command (command i request_field request) =
    bind_res (read_fields request) (\<lambda>req. Inr (ucast i, request_field, req))"
proof -
  let ?m = "appendVarintField [] 1 (ucast i) @ appendBytesField [] request_field request"
  have c: "command i request_field request = appendVarint (word_of_nat (length ?m)) @ ?m"
    by (simp add: command_def Let_def field_writers_append(2) [of "appendVarintField [] 1 (ucast i)"])
  have "length ?m \<le> MaxRealtimeMessageBytes"
    using field_writers_length(1) [of 1 "ucast i"] field_writers_length(2) [of request_field request] assms(2)
    by simp
  from read_record_append [OF this, of "[]"]
  have r: "read_record (command i request_field request) = Inr (?m, [])" by (simp add: c)
  have "read_fields ?m = Inr [(1, FVarint (ucast i)), (request_field, FBytes request)]"
    using assms by (simp add: read_fields_def scan_fields)
  with r show ?thesis by (simp add: read_command_def)
qed

lemma read_request:
  assumes "length s + length t + 40 \<le> MaxRealtimeMessageBytes"
  shows "read_fields (appendStringField [] 1 s) = Inr [(1, FBytes (bytes_of s))]"
    and "read_fields (appendStringField (appendStringField [] 1 s) 2 t)
      = Inr [(1, FBytes (bytes_of s)), (2, FBytes (bytes_of t))]"
  using assms
  by (simp_all add: read_fields_def field_writers_append(3) [of "appendBytesField [] 1 (bytes_of s)"]
      field_writers_append(3) [of "[]"] scan_fields)

lemma request_length:
  "length (appendStringField [] 1 s) \<le> 20 + length s"
  "length (appendStringField (appendStringField [] 1 s) 2 t) \<le> 40 + length s + length t"
  using field_writers_length(2) [of 1 "bytes_of s"] field_writers_length(2) [of 2 "bytes_of t"]
  by (simp_all add: field_writers_append(3) [of "appendBytesField [] 1 (bytes_of s)"]
      field_writers_append(3) [of "[]"])

lemma read_commands:
  assumes "length channel + length token + 80 \<le> MaxRealtimeMessageBytes"
  shows "read_command (connectCommand i token) =
      Inr (ucast i, 4, if token = [] then [] else [(1, FBytes (bytes_of token))])"
    and "read_command (subscribeCommand i channel token) =
      Inr (ucast i, 5, (1, FBytes (bytes_of channel)) #
        (if token = [] then [] else [(2, FBytes (bytes_of token))]))"
    and "read_command (refreshCommand i token) = Inr (ucast i, 14, [(1, FBytes (bytes_of token))])"
    and "read_command (subRefreshCommand i channel token) =
      Inr (ucast i, 15, [(1, FBytes (bytes_of channel)), (2, FBytes (bytes_of token))])"
proof -
  note l = request_length(1) [of token] request_length(1) [of channel] request_length(2) [of channel token]
  note r = read_request [of token "[]"] read_request [of channel token]
  show "read_command (connectCommand i token) =
      Inr (ucast i, 4, if token = [] then [] else [(1, FBytes (bytes_of token))])"
    unfolding connectCommand_def using assms l r
    by (simp add: read_command_command) (simp add: read_fields_def MaxRealtimeMessageBytes_def read_command_command)
  show "read_command (subscribeCommand i channel token) =
      Inr (ucast i, 5, (1, FBytes (bytes_of channel)) #
        (if token = [] then [] else [(2, FBytes (bytes_of token))]))"
    unfolding subscribeCommand_def Let_def using assms l r by (simp add: read_command_command)
  show "read_command (refreshCommand i token) = Inr (ucast i, 14, [(1, FBytes (bytes_of token))])"
    unfolding refreshCommand_def using assms l r by (simp add: read_command_command)
  show "read_command (subRefreshCommand i channel token) =
      Inr (ucast i, 15, [(1, FBytes (bytes_of channel)), (2, FBytes (bytes_of token))])"
    unfolding subRefreshCommand_def using assms l r by (simp add: read_command_command)
qed

section \<open>Frames, written by a server\<close>

text \<open>The messages a server sends, written field by field, and what the client must see.\<close>

datatype server_message =
  ServerPing
  | ServerReply u32 "protocol_error option" "(u32 \<times> bool \<times> u32) option"
  | ServerPublication string "byte list list"
  | ServerUnsubscribe string u32 string

definition encode_error :: "protocol_error \<Rightarrow> byte list" where
  "encode_error e = appendVarintField [] 1 (ucast (pe_code e))
     @ appendBytesField [] 2 (bytes_of (pe_message e))
     @ appendVarintField [] 3 (if pe_temporary e then 1 else 0)"

definition encode_expiry :: "u32 \<times> bool \<times> u32 \<Rightarrow> byte list" where
  "encode_expiry r = (case r of (field, expires, ttl) \<Rightarrow>
     (let (ef, tf) = (if field = 5 \<or> field = 14 then (3, 4) else (1, 2))
      in appendBytesField [] field (appendVarintField [] ef (if expires then 1 else 0)
           @ appendVarintField [] tf (ucast ttl))))"

definition encode_message :: "server_message \<Rightarrow> byte list" where
  "encode_message m = (case m of
       ServerPing \<Rightarrow> []
     | ServerReply i err result \<Rightarrow> appendVarintField [] 1 (ucast i)
         @ (case err of None \<Rightarrow> [] | Some e \<Rightarrow> appendBytesField [] 2 (encode_error e))
         @ (case result of None \<Rightarrow> [] | Some r \<Rightarrow> encode_expiry r)
     | ServerPublication channel payloads \<Rightarrow> appendBytesField []  4
         (appendBytesField [] 2 (bytes_of channel)
          @ appendBytesField [] 4 (concat (map (appendBytesField [] 4) payloads)))
     | ServerUnsubscribe channel code reason \<Rightarrow> appendBytesField [] 4
         (appendBytesField [] 2 (bytes_of channel)
          @ appendBytesField [] 7 (appendVarintField [] 2 (ucast code)
              @ appendBytesField [] 3 (bytes_of reason))))"

definition encode_record :: "server_message \<Rightarrow> byte list" where
  "encode_record m = appendVarint (word_of_nat (length (encode_message m))) @ encode_message m"

definition seen_messages :: "server_message \<Rightarrow> incoming_message list" where
  "seen_messages m = (case m of
       ServerPing \<Rightarrow> [message_of IncomingPing]
     | ServerReply i err result \<Rightarrow> [(message_of IncomingReply)\<lparr>im_id := i, im_err := err,
         im_expires := (case result of None \<Rightarrow> False | Some (_, e, _) \<Rightarrow> e),
         im_ttl := (case result of None \<Rightarrow> 0 | Some (_, _, t) \<Rightarrow> t)\<rparr>]
     | ServerPublication channel payloads \<Rightarrow>
         map (\<lambda>p. (message_of IncomingPublication)\<lparr>im_data := p\<rparr>) payloads
     | ServerUnsubscribe channel code reason \<Rightarrow>
         [(message_of IncomingUnsubscribe)\<lparr>im_channel := channel, im_code := code, im_reason := reason\<rparr>])"

text \<open>Replies name an expiry result by one of the four fields the client knows.\<close>

fun sendable :: "server_message \<Rightarrow> bool" where
  "sendable (ServerReply i err (Some (field, _, _))) \<longleftrightarrow> field \<in> {5, 6, 14, 15}"
| "sendable _ \<longleftrightarrow> True"

lemma unat_u32_u64 [simp]: "unat (ucast (v :: u32) :: u64) = unat v"
proof -
  have "unat v < 2 ^ 32" using unsigned_less [of v] by simp
  then show ?thesis by (simp add: unsigned_ucast_eq take_bit_nat_eq_self)
qed

lemma not_exceeds_uint32 [simp]: "\<not> exceeds_uint32 (ucast (v :: u32))"
proof -
  have "v \<le> -1" by simp
  then show ?thesis unfolding exceeds_uint32_def word_less_nat_alt unat_u32_u64 word_le_nat_alt by simp
qed

lemma ucast_u32_u64 [simp]: "ucast (ucast (v :: u32) :: u64) = v"
proof (rule unsigned_word_eqI [where 'a = nat])
  have "unat v < 2 ^ 32" using unsigned_less [of v] by simp
  then show "unat (ucast (ucast v :: u64) :: u32) = unat v"
    by (simp add: unsigned_ucast_eq [where w = "ucast v :: u64"] take_bit_nat_eq_self)
qed

lemma decodeProtocolError_encode:
  assumes "length (encode_error e) \<le> MaxRealtimeMessageBytes"
  shows "decodeProtocolError (encode_error e) = Inr e"
proof -
  have "length (pe_message e) \<le> MaxRealtimeMessageBytes"
    using assms bytes_field_length [of "bytes_of (pe_message e)" 2] by (simp add: encode_error_def)
  then show ?thesis
    by (simp add: decodeProtocolError_def encode_error_def field_loop_read error_switch_def)
qed

lemma decodeExpiry_encode:
  assumes "ef = (if field = 5 \<or> field = 14 then 3 else 1)" and "tf = (if field = 5 \<or> field = 14 then 4 else 2)"
  shows "decodeExpiry (appendVarintField [] ef (if expires then 1 else 0) @ appendVarintField [] tf (ucast ttl)) field
    = Inr (expires, ttl)"
  using assms by (auto simp: decodeExpiry_def field_loop_read expiry_switch_def)

lemma decodePublication_encode:
  "length (concat (map (appendBytesField [] 4) payloads)) \<le> MaxRealtimeMessageBytes \<Longrightarrow>
    decodePublication (concat (map (appendBytesField [] 4) payloads)) incoming
    = Inr (incoming @ map (\<lambda>p. (message_of IncomingPublication)\<lparr>im_data := p\<rparr>) payloads)"
proof (induction payloads arbitrary: incoming)
  case (Cons p ps)
  have "length p \<le> MaxRealtimeMessageBytes"
    using Cons.prems bytes_field_length [of p 4] by simp
  with Cons show ?case by (simp add: decodePublication_def field_loop_read publication_switch_def)
qed (simp add: decodePublication_def)

lemma decodeUnsubscribe_encode:
  "length reason \<le> MaxRealtimeMessageBytes \<Longrightarrow>
    decodeUnsubscribe (appendVarintField [] 2 (ucast code) @ appendBytesField [] 3 (bytes_of reason))
    = Inr ((message_of IncomingUnsubscribe)\<lparr>im_code := code, im_reason := reason\<rparr>)"
  by (simp add: decodeUnsubscribe_def field_loop_read unsubscribe_switch_def)

lemma decodePush_unsubscribe:
  assumes "length un \<le> MaxRealtimeMessageBytes" and "length channel \<le> MaxRealtimeMessageBytes"
    and "decodeUnsubscribe un = Inr m"
  shows "decodePush (appendBytesField [] 2 (bytes_of channel) @ appendBytesField [] 7 un) incoming
    = Inr (incoming @ [m\<lparr>im_channel := channel\<rparr>])"
  using assms by (simp add: decodePush_def field_loop_read push_switch_def)

lemma decodeReply_push:
  assumes "length body \<le> MaxRealtimeMessageBytes" and "decodePush body incoming = Inr out"
  shows "decodeReply (appendBytesField [] 4 body) incoming = Inr out"
  using assms by (simp add: decodeReply_def field_loop_read reply_switch_def reply_result_def)

lemma decodeReply_encode:
  assumes "sendable m" and "length (encode_message m) \<le> MaxRealtimeMessageBytes"
  shows "decodeReply (encode_message m) incoming = Inr (incoming @ seen_messages m)"
proof (cases m)
  case ServerPing
  then show ?thesis by (simp add: decodeReply_def encode_message_def seen_messages_def)
next
  case (ServerReply i err result)
  have ne: "encode_message m \<noteq> []" by (simp add: ServerReply encode_message_def appendVarintField_def)
  have e: "length (encode_error x) \<le> MaxRealtimeMessageBytes" if "err = Some x" for x
    using assms(2) that bytes_field_length [of "encode_error x" 2] by (simp add: ServerReply encode_message_def)
  show ?thesis
  proof (cases result)
    case None
    with ne show ?thesis
      by (cases err) (simp_all add: decodeReply_def encode_message_def ServerReply field_loop_read
        reply_switch_def e decodeProtocolError_encode reply_result_def seen_messages_def)
  next
    case (Some r)
    obtain field expires ttl where r: "r = (field, expires, ttl)" by (cases r)
    with assms(1) Some ServerReply have f: "field \<in> {5, 6, 14, 15}" by simp
    then have fn: "field_number field" by auto
    define body where "body = appendVarintField [] (if field = 5 \<or> field = 14 then 3 else 1) (if expires then 1 else 0)
      @ appendVarintField [] (if field = 5 \<or> field = 14 then 4 else 2) (ucast ttl)"
    have eq: "encode_expiry (field, expires, ttl) = appendBytesField [] field body"
      by (simp add: encode_expiry_def body_def)
    have l: "length body \<le> MaxRealtimeMessageBytes"
      using assms(2) bytes_field_length [of body field] by (simp add: ServerReply encode_message_def Some eq r)
    have d: "decodeExpiry body field = Inr (expires, ttl)"
      unfolding body_def by (rule decodeExpiry_encode) simp_all
    have s: "reply_switch field 2 (appendVarint (word_of_nat (length body)) @ body) s
        = Inr (s\<lparr>rs_expires := expires, rs_ttl := ttl\<rparr>, [])" for s
      using f d l by (auto simp: reply_switch_def field_loop_read)
    from ne show ?thesis
      by (cases err) (simp_all add: decodeReply_def encode_message_def ServerReply Some eq field_loop_read fn s
        reply_switch_def [of 1] reply_switch_def [of 2] e decodeProtocolError_encode reply_result_def seen_messages_def r)
  qed
next
  case (ServerPublication channel payloads)
  let ?pubs = "concat (map (appendBytesField [] 4) payloads)"
  let ?body = "appendBytesField [] 2 (bytes_of channel) @ appendBytesField [] 4 ?pubs"
  have l: "length ?body \<le> MaxRealtimeMessageBytes"
    using assms(2) bytes_field_length [of ?body 4] by (simp add: ServerPublication encode_message_def)
  have "length channel \<le> MaxRealtimeMessageBytes" "length ?pubs \<le> MaxRealtimeMessageBytes"
    using l bytes_field_length [of "bytes_of channel" 2] bytes_field_length [of ?pubs 4] by simp_all
  then have d: "decodePush ?body incoming = Inr (incoming @ seen_messages m)"
    by (simp add: decodePush_def field_loop_read push_switch_def decodePublication_encode
        seen_messages_def ServerPublication)
  have "encode_message m = appendBytesField [] 4 (?body)" by (simp add: ServerPublication encode_message_def)
  with decodeReply_push [OF l d] show ?thesis by simp
next
  case (ServerUnsubscribe channel code reason)
  let ?un = "appendVarintField [] 2 (ucast code) @ appendBytesField [] 3 (bytes_of reason)"
  let ?body = "appendBytesField [] 2 (bytes_of channel) @ appendBytesField [] 7 ?un"
  have l: "length ?body \<le> MaxRealtimeMessageBytes"
    using assms(2) bytes_field_length [of ?body 4] by (simp add: ServerUnsubscribe encode_message_def)
  have c: "length channel \<le> MaxRealtimeMessageBytes" and u: "length ?un \<le> MaxRealtimeMessageBytes"
    using l bytes_field_length [of "bytes_of channel" 2] bytes_field_length [of ?un 7] by simp_all
  have "length reason \<le> MaxRealtimeMessageBytes"
    using u bytes_field_length [of "bytes_of reason" 3] by simp
  from decodePush_unsubscribe [OF u c decodeUnsubscribe_encode [OF this]]
  have d: "decodePush ?body incoming = Inr (incoming @ seen_messages m)"
    by (simp add: seen_messages_def ServerUnsubscribe)
  have "encode_message m = appendBytesField [] 4 (?body)" by (simp add: ServerUnsubscribe encode_message_def)
  with decodeReply_push [OF l d] show ?thesis by simp
qed

lemma replies_loop_encode:
  assumes "\<forall>m \<in> set ms. sendable m \<and> length (encode_message m) \<le> MaxRealtimeMessageBytes"
  shows "replies_loop (concat (map encode_record ms)) incoming = Inr (incoming @ concat (map seen_messages ms))"
  using assms
proof (induction ms arbitrary: incoming)
  case (Cons m ms)
  have "replies_loop (encode_record m @ rest) incoming = replies_loop rest (incoming @ seen_messages m)" for rest
    using Cons.prems
    by (subst replies_loop.simps) (simp add: encode_record_def read_record_append decodeReply_encode)
  with Cons show ?case by simp
qed (simp add: replies_loop.simps)

lemma decodeReplies_encode:
  assumes "\<forall>m \<in> set ms. sendable m" and "length (concat (map encode_record ms)) \<le> MaxRealtimeMessageBytes"
  shows "decodeReplies (concat (map encode_record ms)) = Inr (concat (map seen_messages ms))"
proof -
  have "length (encode_message m) \<le> length (concat (map encode_record ms))" if "m \<in> set ms" for m
  proof -
    have "length (encode_record m) \<le> length (concat (map encode_record ms))"
      using that by (induction ms) auto
    then show ?thesis by (simp add: encode_record_def)
  qed
  then have "\<forall>m \<in> set ms. sendable m \<and> length (encode_message m) \<le> MaxRealtimeMessageBytes"
    using assms le_trans by blast
  from replies_loop_encode [OF this, of "[]"] assms(2) show ?thesis by (simp add: decodeReplies_def)
qed

section \<open>Properties\<close>

text \<open>A varint written before any bytes reads back as the number and those bytes; and whatever
  the reader accepts is at most ten bytes that denote, seven bits each, exactly the number.\<close>

theorem varint_exact:
  "varint (appendVarint v @ rest) = Inr (v, rest)
    \<and> (varint bs = Inr (w, rest) \<longrightarrow> (\<exists>pre. bs = pre @ rest \<and> varint_bytes pre \<and> unat w = leb pre))"
  using varint_append varint_read [of bs w rest] by blast

theorem varint_exact_witness:
  "\<exists>pre. [0xAC, 2, 7] = pre @ [7] \<and> varint_bytes pre \<and> unat (300 :: u64) = leb pre"
proof -
  have "varint [0xAC, 2, 7] = Inr (300, [7])" by code_simp
  with varint_exact [of 0 "[7]" "[0xAC, 2, 7]" 300] show ?thesis by blast
qed

text \<open>Each command the client writes, read by an independent reader of the wire format, has its
  identifier, the command's field number, and exactly the channel and the token.\<close>

theorem commands_read_back:
  assumes "length channel + length token + 80 \<le> MaxRealtimeMessageBytes"
  shows "read_command (connectCommand i token) =
      Inr (ucast i, 4, if token = [] then [] else [(1, FBytes (bytes_of token))])
    \<and> read_command (subscribeCommand i channel token) =
      Inr (ucast i, 5, (1, FBytes (bytes_of channel)) #
        (if token = [] then [] else [(2, FBytes (bytes_of token))]))
    \<and> read_command (refreshCommand i token) = Inr (ucast i, 14, [(1, FBytes (bytes_of token))])
    \<and> read_command (subRefreshCommand i channel token) =
      Inr (ucast i, 15, [(1, FBytes (bytes_of channel)), (2, FBytes (bytes_of token))])"
  using read_commands [OF assms] by blast

theorem commands_read_back_witness:
  "read_command (subscribeCommand 7 ''news'' ''t'') = Inr (7, 5, [(1, FBytes (bytes_of ''news'')), (2, FBytes (bytes_of ''t''))])"
  using commands_read_back [of "''news''" "''t''" 7] by (simp add: MaxRealtimeMessageBytes_def)

text \<open>C16. A frame of any number of server messages is decoded to exactly what they carry, in
  order: replies with their identifier, error and expiry, publications with their payloads,
  unsubscriptions with channel, code and reason, and pings.\<close>

theorem frame_decoded:
  assumes "\<forall>m \<in> set ms. sendable m" and "length (concat (map encode_record ms)) \<le> MaxRealtimeMessageBytes"
  shows "decodeReplies (concat (map encode_record ms)) = Inr (concat (map seen_messages ms))"
  by (rule decodeReplies_encode [OF assms])

theorem frame_decoded_witness:
  "decodeReplies (concat (map encode_record [ServerPing, ServerPublication ''c'' [[1, 2], [3]]])) =
     Inr [message_of IncomingPing, (message_of IncomingPublication)\<lparr>im_data := [1, 2]\<rparr>,
          (message_of IncomingPublication)\<lparr>im_data := [3]\<rparr>]"
proof -
  let ?ms = "[ServerPing, ServerPublication ''c'' [[1, 2], [3]]]"
  have "length (concat (map encode_record ?ms)) \<le> 100" by code_simp
  then have "length (concat (map encode_record ?ms)) \<le> MaxRealtimeMessageBytes"
    unfolding MaxRealtimeMessageBytes_def by linarith
  moreover have "\<forall>m \<in> set ?ms. sendable m" by simp
  moreover have s: "concat (map seen_messages ?ms) =
     [message_of IncomingPing, (message_of IncomingPublication)\<lparr>im_data := [1, 2]\<rparr>,
      (message_of IncomingPublication)\<lparr>im_data := [3]\<rparr>]" by (simp add: seen_messages_def)
  ultimately show ?thesis using frame_decoded [of ?ms] by (simp only:)
qed

text \<open>A frame over the limit is refused before anything of it is read.\<close>

theorem oversized_frame_refused:
  assumes "MaxRealtimeMessageBytes < length frame"
  shows "\<exists>m. decodeReplies frame = Inl (PlainError m)"
  using assms by (simp add: decodeReplies_def)

theorem oversized_frame_refused_witness:
  "\<exists>m. decodeReplies (replicate 8388609 0) = Inl (PlainError m)"
  by (rule oversized_frame_refused) (simp add: MaxRealtimeMessageBytes_def)

end
