(* ===== verification/Timing.thy ===== *)
theory Timing
  imports Prelude
begin

text \<open>
  The loops whose outcome depends on the clock: \<open>realtime/backoff.go\<close> (reconnect delays),
  \<open>services/read_retry.go\<close> (retry of reads that answered UNAVAILABLE) and
  \<open>auth/timestamps.go\<close> (the timestamps signed requests carry). A \<open>time.Duration\<close> is a number
  of nanoseconds; the random number, the answers of the server and the clock are arguments.
\<close>

section \<open>Reconnect backoff\<close>

definition reconnectInitialCap :: int where
  "reconnectInitialCap = 500 * 1000000"

definition reconnectMaxCap :: int where
  "reconnectMaxCap = 30 * 1000000000"

record reconnect_backoff =
  rb_cap :: int
  rb_initial :: int

definition backoff_reset :: "reconnect_backoff \<Rightarrow> reconnect_backoff" where
  "backoff_reset b = b\<lparr>rb_cap := (if rb_initial b > 0 then rb_initial b else reconnectInitialCap)\<rparr>"

definition backoff_next :: "u64 \<Rightarrow> reconnect_backoff \<Rightarrow> int \<times> reconnect_backoff" where
  "backoff_next n b0 =
     (let b = (if rb_cap b0 \<le> 0 then backoff_reset b0 else b0);
          half = rb_cap b div 2;
          delay = half + uint n mod (half + 1);
          cap' = (if rb_cap b < reconnectMaxCap
                  then (if rb_cap b * 2 > reconnectMaxCap then reconnectMaxCap else rb_cap b * 2)
                  else rb_cap b)
      in (delay, b\<lparr>rb_cap := cap'\<rparr>))"

primrec backoff_delays :: "u64 list \<Rightarrow> reconnect_backoff \<Rightarrow> int list" where
  "backoff_delays [] b = []"
| "backoff_delays (n # ns) b = (let (d, b') = backoff_next n b in d # backoff_delays ns b')"

text \<open>The cap of the k-th delay after a reset.\<close>

definition cap_at :: "nat \<Rightarrow> int" where
  "cap_at k = min (reconnectInitialCap * 2 ^ k) reconnectMaxCap"

lemma cap_at_simps: "cap_at 0 = reconnectInitialCap" "cap_at (Suc k) = min (2 * cap_at k) reconnectMaxCap"
  by (auto simp: cap_at_def reconnectInitialCap_def reconnectMaxCap_def min_def)

lemma cap_at_pos: "0 < cap_at k"
  by (simp add: cap_at_def reconnectInitialCap_def reconnectMaxCap_def)

lemma delay_bounds:
  assumes "0 < c"
  shows "c div 2 \<le> c div 2 + uint (n :: u64) mod (c div 2 + 1)"
    and "c div 2 + uint n mod (c div 2 + 1) \<le> c"
proof -
  have "0 < c div 2 + 1" using assms by (simp add: pos_imp_zdiv_nonneg_iff)
  then have "0 \<le> uint n mod (c div 2 + 1)" "uint n mod (c div 2 + 1) < c div 2 + 1"
    by (rule pos_mod_sign, rule pos_mod_bound)
  then show "c div 2 \<le> c div 2 + uint n mod (c div 2 + 1)" "c div 2 + uint n mod (c div 2 + 1) \<le> c"
    by linarith+
qed

lemma backoff_next_cap:
  assumes "rb_cap b = cap_at k"
  shows "cap_at k div 2 \<le> fst (backoff_next n b) \<and> fst (backoff_next n b) \<le> cap_at k"
    and "rb_cap (snd (backoff_next n b)) = cap_at (Suc k)"
  using assms cap_at_pos [of k] delay_bounds [of "cap_at k" n]
  by (auto simp: backoff_next_def Let_def cap_at_simps(2) min_def) (auto simp: cap_at_def)

lemma backoff_delays_bounds:
  "rb_cap b = cap_at k \<Longrightarrow> i < length ns \<Longrightarrow>
    cap_at (k + i) div 2 \<le> backoff_delays ns b ! i \<and> backoff_delays ns b ! i \<le> cap_at (k + i)"
proof (induction ns arbitrary: b k i)
  case (Cons n ns)
  obtain d b' where n: "backoff_next n b = (d, b')" by fastforce
  note c = backoff_next_cap [OF Cons.prems(1), of n, unfolded n, simplified]
  show ?case
  proof (cases i)
    case 0
    with c n show ?thesis by simp
  next
    case (Suc j)
    with Cons.IH [of b' "Suc k" j] c(2) Cons.prems(2) n show ?thesis by simp
  qed
qed simp

lemma backoff_reset_cap: "rb_initial b \<le> 0 \<Longrightarrow> rb_cap (backoff_reset b) = cap_at 0"
  by (simp add: backoff_reset_def cap_at_simps)

section \<open>Retry of unavailable reads\<close>

record unavailable_retry =
  ur_first :: int
  ur_max :: int
  ur_budget :: int

definition triggerReadRetry :: unavailable_retry where
  "triggerReadRetry = \<lparr>ur_first = 25 * 1000000, ur_max = 500 * 1000000, ur_budget = 2 * 1000000000\<rparr>"

datatype read_code = ReadUnavailable | ReadDeadlineExceeded | ReadOther

text \<open>One attempt: its answer, the time it took, and whether the context ended during the
  call and during the wait after it; a wait lasts its delay and possibly longer.\<close>

record 'a attempt =
  at_answer :: "read_code + 'a"
  at_took :: int
  at_ctx_ended :: bool
  at_wait_ended :: bool
  at_late :: int

datatype 'a retry_result = Response 'a | CallError read_code | ContextError

text \<open>The loop of \<open>retryUnavailable\<close>: \<open>i\<close> numbers the attempts, \<open>elapsed\<close> is
  \<open>time.Since(started)\<close>. The second component is the time the loop returned at and the
  number of calls made.\<close>

partial_function (option) retry_loop ::
  "unavailable_retry \<Rightarrow> (nat \<Rightarrow> 'a attempt) \<Rightarrow> nat \<Rightarrow> int \<Rightarrow> int \<Rightarrow> ('a retry_result \<times> int \<times> nat) option" where
  "retry_loop policy attempts i elapsed delay =
     (let a = attempts i; elapsed1 = elapsed + at_took a in
      case at_answer a of
        Inr resp \<Rightarrow> Some (Response resp, elapsed1, Suc i)
      | Inl code \<Rightarrow>
          if at_ctx_ended a \<or> code \<noteq> ReadUnavailable \<and> code \<noteq> ReadDeadlineExceeded
          then Some (CallError code, elapsed1, Suc i)
          else if elapsed1 + delay > ur_budget policy then Some (CallError code, elapsed1, Suc i)
          else if at_wait_ended a then Some (ContextError, elapsed1, Suc i)
          else retry_loop policy attempts (Suc i) (elapsed1 + delay + at_late a)
                 (min (2 * delay) (ur_max policy)))"

definition retryUnavailable ::
  "unavailable_retry \<Rightarrow> (nat \<Rightarrow> 'a attempt) \<Rightarrow> ('a retry_result \<times> int \<times> nat) option" where
  "retryUnavailable policy attempts = retry_loop policy attempts 0 0 (ur_first policy)"

definition plausible :: "(nat \<Rightarrow> 'a attempt) \<Rightarrow> bool" where
  "plausible attempts \<longleftrightarrow> (\<forall>i. 0 \<le> at_took (attempts i) \<and> 0 \<le> at_late (attempts i))"

text \<open>What a result says of the last attempt.\<close>

fun result_of_attempt :: "'a retry_result \<Rightarrow> 'a attempt \<Rightarrow> bool" where
  "result_of_attempt (Response v) a \<longleftrightarrow> at_answer a = Inr v"
| "result_of_attempt (CallError c) a \<longleftrightarrow> at_answer a = Inl c"
| "result_of_attempt ContextError a \<longleftrightarrow> at_wait_ended a"

definition retryable :: "'a attempt \<Rightarrow> bool" where
  "retryable a \<longleftrightarrow> at_answer a = Inl ReadUnavailable \<or> at_answer a = Inl ReadDeadlineExceeded"

text \<open>The loop returns: every wait takes at least the smaller of the first and the maximal
  delay out of the budget. It returns the last answer, and all before it were retryable.\<close>

lemma retry_loop_returns:
  assumes "plausible attempts" and "0 < m" and "m \<le> delay" and "m \<le> ur_max policy"
  shows "\<exists>r t n. retry_loop policy attempts i elapsed delay = Some (r, t, n)
    \<and> i < n \<and> int (n - i - 1) * m \<le> max 0 (ur_budget policy - elapsed)
    \<and> result_of_attempt r (attempts (n - 1)) \<and> (\<forall>j. i \<le> j \<and> j < n - 1 \<longrightarrow> retryable (attempts j))"
  using assms
proof (induction "nat (ur_budget policy - elapsed)" arbitrary: i elapsed delay rule: less_induct)
  case less
  let ?a = "attempts i"
  let ?e = "elapsed + at_took ?a + delay + at_late ?a"
  let ?go = "\<exists>c. at_answer ?a = Inl c \<and> \<not> at_ctx_ended ?a \<and> (c = ReadUnavailable \<or> c = ReadDeadlineExceeded)
     \<and> \<not> elapsed + at_took ?a + delay > ur_budget policy \<and> \<not> at_wait_ended ?a"
  have pl: "0 \<le> at_took ?a" "0 \<le> at_late ?a" using less.prems(1) by (auto simp: plausible_def)
  show ?case
  proof (cases ?go)
    case False
    then have "\<exists>r t. retry_loop policy attempts i elapsed delay = Some (r, t, Suc i) \<and> result_of_attempt r ?a"
      by (subst retry_loop.simps) (auto simp: Let_def split: sum.splits)
    then show ?thesis by fastforce
  next
    case True
    then obtain c where c: "at_answer ?a = Inl c" "\<not> at_ctx_ended ?a"
      "c = ReadUnavailable \<or> c = ReadDeadlineExceeded" "\<not> at_wait_ended ?a"
      and le: "elapsed + at_took ?a + delay \<le> ur_budget policy" by auto
    have eq: "retry_loop policy attempts i elapsed delay
        = retry_loop policy attempts (Suc i) ?e (min (2 * delay) (ur_max policy))"
      using c le by (subst retry_loop.simps) (auto simp: Let_def)
    have "elapsed < ?e" using pl less.prems(2,3) by linarith
    moreover have lt: "elapsed < ur_budget policy" using le pl less.prems(2,3) by linarith
    ultimately have sm: "nat (ur_budget policy - ?e) < nat (ur_budget policy - elapsed)" by linarith
    have d: "m \<le> min (2 * delay) (ur_max policy)" using less.prems(2-4) by auto
    from less.hyps [OF sm less.prems(1,2) d less.prems(4), of "Suc i"] obtain r t n where
      r: "retry_loop policy attempts (Suc i) ?e (min (2 * delay) (ur_max policy)) = Some (r, t, n)"
      and n: "Suc i < n"
      and b: "int (n - Suc i - 1) * m \<le> max 0 (ur_budget policy - ?e)"
      and res: "result_of_attempt r (attempts (n - 1))"
      and before: "\<forall>j. Suc i \<le> j \<and> j < n - 1 \<longrightarrow> retryable (attempts j)" by blast
    have "int (n - i - 1) = int (n - Suc i - 1) + 1" using n by simp
    then have "int (n - i - 1) * m = int (n - Suc i - 1) * m + m"
      by (simp only: distrib_right mult_1_left)
    also have "\<dots> \<le> max 0 (ur_budget policy - elapsed)" using b le lt pl less.prems(3) by linarith
    finally have b': "int (n - i - 1) * m \<le> max 0 (ur_budget policy - elapsed)" .
    have "retryable (attempts j)" if "i \<le> j" "j < n - 1" for j
      using before c that by (cases "j = i") (auto simp: retryable_def)
    with eq r n b' res show ?thesis by (intro exI [of _ r] exI [of _ t] exI [of _ n]) simp
  qed
qed

section \<open>Signing timestamps\<close>

definition MaxSigningFutureSkewMS :: int where
  "MaxSigningFutureSkewMS = 5000"

definition maxSigningBackpressure :: int where
  "maxSigningBackpressure = 10 * 1000"

text \<open>One turn of the loop, up to its compare-and-swap: the value to store, \<open>None\<close> when the
  turn may not allocate (the loop then waits a millisecond or gives up).\<close>

definition signing_candidate :: "int \<Rightarrow> int \<Rightarrow> int option res" where
  "signing_candidate now observed =
     (if now < 0 then Inl (TransportError ''system clock is before UNIX_EPOCH'')
      else if now > int64Max - MaxSigningFutureSkewMS
      then Inl (TransportError ''signing timestamp ceiling overflow'')
      else if observed \<ge> now \<and> observed = int64Max
      then Inl (TransportError ''signing timestamp sequence exhausted'')
      else let ceiling = now + MaxSigningFutureSkewMS;
               candidate = (if observed \<ge> now then wrap64 (observed + 1) else now)
           in Inr (if candidate \<le> ceiling then Some candidate else None))"

datatype signing_turn = Issued int | Refused sdk_error | Again

definition signing_turn :: "int \<Rightarrow> int \<Rightarrow> bool \<Rightarrow> int \<Rightarrow> signing_turn" where
  "signing_turn now observed swapped elapsed = (case signing_candidate now observed of
       Inl e \<Rightarrow> Refused e
     | Inr candidate \<Rightarrow> (case candidate of
           Some c \<Rightarrow> if swapped then Issued c
             else if elapsed \<ge> maxSigningBackpressure
             then Refused (RateLimitError ''signing timestamp capacity exhausted; retry after clock advances'')
             else Again
         | None \<Rightarrow> if elapsed \<ge> maxSigningBackpressure
             then Refused (RateLimitError ''signing timestamp capacity exhausted; retry after clock advances'')
             else Again))"

text \<open>
  Goroutines that sign with one key share an allocator. A goroutine is between turns, or has
  read the clock and \<open>last\<close> and is about to swap. \<open>ts_issued\<close> lists the timestamps handed
  out, newest first, each with the clock reading of its turn.
\<close>

record timestamp_state =
  ts_last :: int
  ts_turns :: "nat \<Rightarrow> (int \<times> int) option"
  ts_issued :: "(int \<times> int) list"

definition ts_init :: timestamp_state where
  "ts_init = \<lparr>ts_last = 0, ts_turns = \<lambda>_. None, ts_issued = []\<rparr>"

definition ts_load :: "nat \<Rightarrow> int \<Rightarrow> timestamp_state \<Rightarrow> timestamp_state" where
  "ts_load i now s = s\<lparr>ts_turns := (ts_turns s)(i \<mapsto> (now, ts_last s))\<rparr>"

definition ts_swap :: "nat \<Rightarrow> int \<Rightarrow> timestamp_state \<Rightarrow> timestamp_state" where
  "ts_swap i elapsed s = (case ts_turns s i of
       None \<Rightarrow> s
     | Some (now, observed) \<Rightarrow>
         (case signing_turn now observed (ts_last s = observed) elapsed of
            Issued c \<Rightarrow> s\<lparr>ts_last := c, ts_turns := (ts_turns s)(i := None),
                           ts_issued := (now, c) # ts_issued s\<rparr>
          | _ \<Rightarrow> s\<lparr>ts_turns := (ts_turns s)(i := None)\<rparr>))"

inductive ts_step :: "timestamp_state \<Rightarrow> timestamp_state \<Rightarrow> bool" where
  load: "ts_step s (ts_load i now s)"
| swap: "ts_step s (ts_swap i elapsed s)"

inductive_cases ts_stepE: "ts_step s t"

definition ts_inv :: "timestamp_state \<Rightarrow> bool" where
  "ts_inv s \<longleftrightarrow> is_int64 (ts_last s) \<and> (\<forall>i now observed. ts_turns s i = Some (now, observed) \<longrightarrow> is_int64 observed)
     \<and> sorted_wrt (>) (map snd (ts_issued s)) \<and> (\<forall>(now, c) \<in> set (ts_issued s). c \<le> ts_last s
          \<and> now \<le> c \<and> c \<le> now + MaxSigningFutureSkewMS)"

lemma signing_turn_issued:
  assumes "signing_turn now observed swapped elapsed = Issued c" and "is_int64 observed"
  shows "swapped" "observed < c" "now \<le> c" "c \<le> now + MaxSigningFutureSkewMS" "is_int64 c"
proof -
  from assms(1) have sc: "signing_candidate now observed = Inr (Some c)" and sw: "swapped"
    by (auto simp: signing_turn_def split: sum.splits option.splits if_splits)
  show "swapped" by (rule sw)
  have now: "0 \<le> now" "now \<le> int64Max - MaxSigningFutureSkewMS"
    and no: "\<not> (observed \<ge> now \<and> observed = int64Max)"
    and le: "c \<le> now + MaxSigningFutureSkewMS"
    and c: "c = (if observed \<ge> now then wrap64 (observed + 1) else now)"
    using sc by (auto simp: signing_candidate_def Let_def split: if_splits)
  have "observed \<ge> now \<Longrightarrow> wrap64 (observed + 1) = observed + 1"
    using no assms(2) by (intro wrap64_id) (auto simp: int64_defs)
  then show "observed < c" "now \<le> c" using c by auto
  show "c \<le> now + MaxSigningFutureSkewMS" by (rule le)
  show "is_int64 c" using c now le wrap64_range by (auto simp: int64_defs MaxSigningFutureSkewMS_def)
qed

lemma ts_inv_swap: "ts_inv s \<Longrightarrow> ts_inv (ts_swap i elapsed s)"
proof -
  assume inv: "ts_inv s"
  show ?thesis
  proof (cases "ts_turns s i")
    case (Some no)
    obtain now observed where no: "no = (now, observed)" by fastforce
    with Some inv have o: "is_int64 observed" by (simp add: ts_inv_def)
    show ?thesis
    proof (cases "signing_turn now observed (ts_last s = observed) elapsed")
      case (Issued c)
      note i = signing_turn_issued [OF this o]
      have "ts_last s = observed" by (rule i(1))
      with inv i have "\<forall>x \<in> set (ts_issued s). snd x < c" by (fastforce simp: ts_inv_def)
      moreover have "\<forall>(n, d) \<in> set (ts_issued s). d \<le> c" using calculation by fastforce
      ultimately show ?thesis
        using inv i Some no Issued by (fastforce simp: ts_swap_def ts_inv_def)
    qed (use inv Some no in \<open>auto simp: ts_swap_def ts_inv_def\<close>)
  qed (use inv in \<open>simp add: ts_swap_def\<close>)
qed

lemma ts_inv_load: "ts_inv s \<Longrightarrow> ts_inv (ts_load i now s)"
  by (auto simp: ts_inv_def ts_load_def)

lemma ts_inv_init: "ts_inv ts_init"
  by (simp add: ts_init_def ts_inv_def int64_defs)

interpretation signing: invariant_system "\<lambda>s. s = ts_init" ts_step ts_inv
  by unfold_locales (auto simp: ts_inv_init elim!: ts_stepE intro: ts_inv_load ts_inv_swap)

lemma issued_sorted: "reachable (\<lambda>s. s = ts_init) ts_step s \<Longrightarrow> sorted_wrt (>) (map snd (ts_issued s))"
  using signing.inv_reachable by (auto simp: ts_inv_def)

section \<open>Properties\<close>

text \<open>The delays between reconnect attempts after a reset: the i-th lies between half and all of
  a cap that starts at half a second, doubles each time and stops at thirty seconds.\<close>

theorem reconnect_delays_bounded:
  assumes "rb_cap b = cap_at 0" and "i < length randoms"
  shows "cap_at i div 2 \<le> backoff_delays randoms b ! i \<and> backoff_delays randoms b ! i \<le> cap_at i
    \<and> cap_at i \<le> reconnectMaxCap"
  using backoff_delays_bounds [OF assms] by (simp add: cap_at_def)

theorem reconnect_delays_bounded_witness:
  "cap_at 1 div 2 \<le> backoff_delays [3, 10 ^ 18] (backoff_reset \<lparr>rb_cap = 0, rb_initial = 0\<rparr>) ! 1
    \<and> backoff_delays [3, 10 ^ 18] (backoff_reset \<lparr>rb_cap = 0, rb_initial = 0\<rparr>) ! 1 \<le> cap_at 1
    \<and> cap_at 1 \<le> reconnectMaxCap"
  by (rule reconnect_delays_bounded) (simp_all add: backoff_reset_def cap_at_def reconnectInitialCap_def reconnectMaxCap_def)

text \<open>C33. A retried read returns, whatever the server answers and however the clock runs: with the
  answer of its last call, every earlier one having been retryable, and after at most as many
  further calls as the budget has room for the shortest wait.\<close>

theorem retry_returns_in_budget:
  assumes "plausible attempts" and "0 < ur_first policy" and "ur_first policy \<le> ur_max policy"
  shows "\<exists>r t n. retryUnavailable policy attempts = Some (r, t, n) \<and> 0 < n
    \<and> int (n - 1) * ur_first policy \<le> max 0 (ur_budget policy)
    \<and> result_of_attempt r (attempts (n - 1)) \<and> (\<forall>j < n - 1. retryable (attempts j))"
  using retry_loop_returns [OF assms(1,2) order_refl assms(3), of 0 0] by (simp add: retryUnavailable_def)

definition down_then_up :: "nat \<Rightarrow> string attempt" where
  "down_then_up i = \<lparr>at_answer = (if i < 2 then Inl ReadUnavailable else Inr ''ok''), at_took = 1000,
     at_ctx_ended = False, at_wait_ended = False, at_late = 0\<rparr>"

theorem retry_returns_in_budget_witness:
  "\<exists>r t n. retryUnavailable triggerReadRetry down_then_up = Some (r, t, n) \<and> n \<le> 81"
proof -
  have p: "plausible down_then_up" by (simp add: plausible_def down_then_up_def)
  have "0 < ur_first triggerReadRetry" "ur_first triggerReadRetry \<le> ur_max triggerReadRetry"
    by (simp_all add: triggerReadRetry_def)
  from retry_returns_in_budget [OF p this] obtain r t n where
    "retryUnavailable triggerReadRetry down_then_up = Some (r, t, n)"
    and "int (n - 1) * 25000000 \<le> 2000000000" by (auto simp: triggerReadRetry_def)
  moreover from this(2) have "n \<le> 81" by simp
  ultimately show ?thesis by blast
qed

text \<open>C34. However goroutines that sign with one key interleave, the timestamps handed out strictly
  increase, and each is at least the clock reading of its turn and at most five seconds ahead.\<close>

theorem signing_timestamps_increase:
  assumes "reachable (\<lambda>s. s = ts_init) ts_step s"
  shows "sorted_wrt (>) (map snd (ts_issued s))
    \<and> (\<forall>(now, c) \<in> set (ts_issued s). now \<le> c \<and> c \<le> now + MaxSigningFutureSkewMS)"
  using signing.inv_reachable [OF assms] by (auto simp: ts_inv_def)

theorem signing_timestamps_increase_witness:
  "sorted_wrt (>) (map snd (ts_issued (ts_swap 1 0 (ts_load 1 500 (ts_swap 0 0 (ts_load 0 500 ts_init))))))"
proof -
  have "reachable (\<lambda>s. s = ts_init) ts_step ts_init" by (rule reach_init) simp
  note load = reach_step [OF this ts_step.load [of ts_init 0 500]]
  note swap = reach_step [OF load ts_step.swap [of _ 0 0]]
  note load = reach_step [OF swap ts_step.load [of _ 1 500]]
  note swap = reach_step [OF load ts_step.swap [of _ 1 0]]
  show ?thesis by (rule signing_timestamps_increase [OF swap, THEN conjunct1])
qed

end
