(* ===== verification/Subscriptions.thy ===== *)
theory Subscriptions
  imports Prelude
begin

text \<open>
  The bounded queues between the SDK and its consumers: \<open>realtime/subscription.go\<close>,
  \<open>orderbook/subscription.go\<close> and \<open>marketoverview/subscription.go\<close>. A Go channel is the list
  of the values in its buffer. Every operation runs under the subscription's mutex; the
  errors handed to the consumer's callback are appended to a log.
\<close>

section \<open>The delivery contract\<close>

text \<open>
  An offer to an open queue with room appends; an offer to a full queue ends the subscription
  with an overflow error and keeps the queue; an ended subscription refuses. A consumer takes
  from the front, also after the end. Nothing is dropped without the consumer being told.
\<close>

locale bounded_subscription =
  fixes offer :: "'s \<Rightarrow> 'a \<Rightarrow> 's \<times> bool" and take_one :: "'s \<Rightarrow> 's \<times> 'a option"
    and queue :: "'s \<Rightarrow> 'a list" and cap :: "'s \<Rightarrow> nat"
    and is_closed :: "'s \<Rightarrow> bool" and failure :: "'s \<Rightarrow> sdk_error option"
    and good :: "'s \<Rightarrow> bool"
  assumes offer_closed: "is_closed s \<Longrightarrow> offer s x = (s, False)"
    and offer_room: "\<not> is_closed s \<Longrightarrow> length (queue s) < cap s \<Longrightarrow> offer s x = (s', b)
      \<Longrightarrow> b \<and> queue s' = queue s @ [x] \<and> is_closed s' = is_closed s \<and> cap s' = cap s"
    and offer_full: "\<not> is_closed s \<Longrightarrow> good s \<Longrightarrow> \<not> length (queue s) < cap s \<Longrightarrow> offer s x = (s', b)
      \<Longrightarrow> \<not> b \<and> queue s' = queue s \<and> is_closed s' \<and> cap s' = cap s
        \<and> (\<exists>m. failure s' = Some (QueueOverflowError m))"
    and take_one_queue: "take_one s = (s', r) \<Longrightarrow>
      (case queue s of [] \<Rightarrow> r = None \<and> s' = s
       | x # xs \<Rightarrow> r = Some x \<and> queue s' = xs \<and> is_closed s' = is_closed s \<and> cap s' = cap s
           \<and> failure s' = failure s)"
    and good_offer: "good s \<Longrightarrow> good (fst (offer s x))"
    and good_take: "good s \<Longrightarrow> good (fst (take_one s))"
begin

primrec offer_all :: "'s \<Rightarrow> 'a list \<Rightarrow> 's" where
  "offer_all s [] = s"
| "offer_all s (x # xs) = offer_all (fst (offer s x)) xs"

text \<open>A schedule of publications and consumer reads: the last state and what was read.\<close>

primrec run :: "'a option list \<Rightarrow> 's \<Rightarrow> 's \<times> 'a list" where
  "run [] s = (s, [])"
| "run (e # es) s = (case e of
     Some x \<Rightarrow> run es (fst (offer s x))
   | None \<Rightarrow> (let (s', r) = take_one s; (t, got) = run es s'
              in (t, (case r of None \<Rightarrow> got | Some x \<Rightarrow> x # got))))"

definition offered :: "'a option list \<Rightarrow> 'a list" where
  "offered es = concat (map (\<lambda>e. case e of Some x \<Rightarrow> [x] | None \<Rightarrow> []) es)"

text \<open>One read, in the words of the schedule.\<close>

lemma run_take:
  assumes "take_one s = (s', r)" and "run es s' = (t, got')" and "run (None # es) s = (t, got)"
  shows "is_closed s' = is_closed s" and "failure s' = failure s"
    and "got' @ queue t = queue s' @ zs \<Longrightarrow> got @ queue t = queue s @ zs"
proof -
  have got: "got = (case r of None \<Rightarrow> got' | Some x \<Rightarrow> x # got')"
    using assms(3) by (simp add: assms(1,2))
  have "is_closed s' = is_closed s \<and> failure s' = failure s
      \<and> (got' @ queue t = queue s' @ zs \<longrightarrow> got @ queue t = queue s @ zs)"
  proof (cases "queue s")
    case Nil
    with take_one_queue [OF assms(1)] have "r = None" "s' = s" by simp_all
    with got show ?thesis by simp
  next
    case (Cons x xs)
    with take_one_queue [OF assms(1)] have q: "r = Some x" "queue s' = xs"
      and c: "is_closed s' = is_closed s" "failure s' = failure s" by simp_all
    from got q(1) have "got = x # got'" by simp
    with q(2) c Cons show ?thesis by simp
  qed
  then show "is_closed s' = is_closed s" "failure s' = failure s"
    "got' @ queue t = queue s' @ zs \<Longrightarrow> got @ queue t = queue s @ zs" by blast+
qed

lemma run_closed:
  "is_closed s \<Longrightarrow> run es s = (t, got) \<Longrightarrow> is_closed t \<and> got @ queue t = queue s \<and> failure t = failure s"
proof (induction es arbitrary: s t got)
  case (Cons e es)
  show ?case
  proof (cases e)
    case (Some x)
    with Cons.prems have "run es s = (t, got)" by (simp add: offer_closed)
    from Cons.IH [OF Cons.prems(1) this] show ?thesis .
  next
    case None
    obtain s' r where t: "take_one s = (s', r)" by fastforce
    obtain t' got' where g: "run es s' = (t', got')" by fastforce
    have "t' = t" using Cons.prems(2) None t g by simp
    with g have g: "run es s' = (t, got')" by simp
    note rt = run_take [OF t g Cons.prems(2) [unfolded None]]
    from Cons.IH [OF _ g] rt(1) Cons.prems(1)
    have IH: "is_closed t" "got' @ queue t = queue s'" "failure t = failure s'" by simp_all
    with rt(2) rt(3) [of "[]"] show ?thesis by simp
  qed
qed simp

text \<open>What was read and what is still queued is a prefix of what was offered (after what was
  queued at the start); a publication is missing only if the subscription has ended.\<close>

lemma run_prefix:
  "good s \<Longrightarrow> \<not> is_closed s \<Longrightarrow> run es s = (t, got) \<Longrightarrow>
    (\<exists>k. got @ queue t = queue s @ take k (offered es) \<and>
      (k < length (offered es) \<longrightarrow> is_closed t \<and> (\<exists>m. failure t = Some (QueueOverflowError m))))"
proof (induction es arbitrary: s t got)
  case Nil
  then show ?case by (intro exI [of _ 0]) (simp add: offered_def)
next
  case (Cons e es)
  show ?case
  proof (cases e)
    case (Some x)
    obtain s' b where o: "offer s x = (s', b)" by fastforce
    with Cons.prems(3) Some have r: "run es s' = (t, got)" by simp
    have off: "offered (e # es) = x # offered es" by (simp add: offered_def Some)
    show ?thesis
    proof (cases "length (queue s) < cap s")
      case True
      note q = offer_room [OF Cons.prems(2) True o]
      have "good s'" using good_offer [OF Cons.prems(1), of x] o by simp
      from Cons.IH [OF this _ r] q Cons.prems(2) obtain k where
        k: "got @ queue t = queue s' @ take k (offered es)"
        "k < length (offered es) \<longrightarrow> is_closed t \<and> (\<exists>m. failure t = Some (QueueOverflowError m))" by auto
      with q off show ?thesis by (intro exI [of _ "Suc k"]) simp
    next
      case False
      note q = offer_full [OF Cons.prems(2,1) False o]
      with run_closed [OF _ r] show ?thesis by (intro exI [of _ 0]) auto
    qed
  next
    case None
    obtain s' r where t: "take_one s = (s', r)" by fastforce
    obtain t' got' where g: "run es s' = (t', got')" by fastforce
    have "t' = t" using Cons.prems(3) None t g by simp
    with g have g: "run es s' = (t, got')" by simp
    note rt = run_take [OF t g Cons.prems(3) [unfolded None]]
    have "good s'" using good_take [OF Cons.prems(1)] t by (metis fst_conv)
    from Cons.IH [OF this _ g] rt(1) Cons.prems(2) obtain k where
      k: "got' @ queue t = queue s' @ take k (offered es)"
        "k < length (offered es) \<longrightarrow> is_closed t \<and> (\<exists>m. failure t = Some (QueueOverflowError m))" by auto
    have "offered (e # es) = offered es" by (simp add: offered_def None)
    with rt(3) [OF k(1)] k(2) show ?thesis by auto
  qed
qed

end

section \<open>Realtime subscriptions\<close>

text \<open>\<open>done\<close> is the done channel being closed, \<open>canceled\<close> that the context's cancel function
  ran, \<open>untracked\<close> that the client's list of subscriptions forgot this one.\<close>

record 'a rt_subscription =
  rt_ch :: "'a list"
  rt_cap :: nat
  rt_done :: bool
  rt_closeOnce :: bool
  rt_finishOnce :: bool
  rt_closed :: bool
  rt_canceled :: bool
  rt_untracked :: bool
  rt_err :: "sdk_error option"
  rt_onError :: bool
  rt_reported :: "sdk_error list"
  rt_resubscribes :: u64
  rt_resubscribed :: bool

definition newSubscription :: "int \<Rightarrow> 'a rt_subscription" where
  "newSubscription maxQueue = \<lparr>rt_ch = [], rt_cap = nat (if maxQueue \<le> 0 then 1000 else maxQueue),
     rt_done = False, rt_closeOnce = False, rt_finishOnce = False, rt_closed = False,
     rt_canceled = False, rt_untracked = False, rt_err = None, rt_onError = False, rt_reported = [],
     rt_resubscribes = 0, rt_resubscribed = False\<rparr>"

definition rt_callErrorCallback :: "sdk_error option \<Rightarrow> 'a rt_subscription \<Rightarrow> 'a rt_subscription" where
  "rt_callErrorCallback err s = (case err of
       Some e \<Rightarrow> if rt_onError s then s\<lparr>rt_reported := rt_reported s @ [e]\<rparr> else s
     | None \<Rightarrow> s)"

definition rt_failLocked :: "sdk_error \<Rightarrow> 'a rt_subscription \<Rightarrow> 'a rt_subscription" where
  "rt_failLocked err s = s\<lparr>rt_err := (case rt_err s of None \<Rightarrow> Some err | Some e \<Rightarrow> Some e), rt_closed := True\<rparr>"

definition rt_fail :: "sdk_error \<Rightarrow> 'a rt_subscription \<Rightarrow> 'a rt_subscription" where
  "rt_fail err s = rt_callErrorCallback (Some err) (rt_failLocked err s)"

definition rt_SetOnError :: "bool \<Rightarrow> 'a rt_subscription \<Rightarrow> 'a rt_subscription" where
  "rt_SetOnError callback s = (let s' = s\<lparr>rt_onError := callback\<rparr> in
     if callback \<and> rt_err s \<noteq> None then rt_callErrorCallback (rt_err s) s' else s')"

definition rt_notifyError :: "sdk_error \<Rightarrow> 'a rt_subscription \<Rightarrow> 'a rt_subscription" where
  "rt_notifyError err s = rt_callErrorCallback (Some err) s"

text \<open>Up to the wait for the run loop to close \<open>done\<close>.\<close>

definition rt_Close :: "'a rt_subscription \<Rightarrow> 'a rt_subscription" where
  "rt_Close s = (if rt_closeOnce s then s
     else s\<lparr>rt_closeOnce := True, rt_closed := True, rt_canceled := True, rt_untracked := True\<rparr>)"

definition rt_markFinished :: "'a rt_subscription \<Rightarrow> 'a rt_subscription" where
  "rt_markFinished s = (if rt_finishOnce s then s
     else s\<lparr>rt_finishOnce := True, rt_closed := True, rt_done := True\<rparr>)"

definition rt_noteHandshakeReady :: "bool \<Rightarrow> 'a rt_subscription \<Rightarrow> 'a rt_subscription" where
  "rt_noteHandshakeReady first s = (if first then s
     else s\<lparr>rt_resubscribes := rt_resubscribes s + 1, rt_resubscribed := True\<rparr>)"

definition rt_TakeResubscribed :: "'a rt_subscription \<Rightarrow> 'a rt_subscription \<times> bool" where
  "rt_TakeResubscribed s = (s\<lparr>rt_resubscribed := False\<rparr>, rt_resubscribed s)"

definition rt_overflow :: sdk_error where
  "rt_overflow = QueueOverflowError ''realtime subscription queue full; consumer too slow''"

definition rt_enqueue :: "'a rt_subscription \<Rightarrow> 'a \<Rightarrow> 'a rt_subscription \<times> bool" where
  "rt_enqueue s item =
     (if rt_closed s then (s, False)
      else if length (rt_ch s) < rt_cap s then (s\<lparr>rt_ch := rt_ch s @ [item]\<rparr>, True)
      else ((rt_callErrorCallback (Some rt_overflow) (rt_failLocked rt_overflow s))\<lparr>rt_canceled := True\<rparr>, False))"

definition rt_receive :: "'a rt_subscription \<Rightarrow> 'a rt_subscription \<times> 'a option" where
  "rt_receive s = (case rt_ch s of [] \<Rightarrow> (s, None) | x # xs \<Rightarrow> (s\<lparr>rt_ch := xs\<rparr>, Some x))"

text \<open>The error is set only together with the end.\<close>

definition rt_good :: "'a rt_subscription \<Rightarrow> bool" where
  "rt_good s \<longleftrightarrow> (rt_err s \<noteq> None \<longrightarrow> rt_closed s) \<and> (rt_done s \<longrightarrow> rt_closed s)"

lemmas rt_defs = rt_callErrorCallback_def rt_failLocked_def rt_fail_def rt_SetOnError_def
  rt_notifyError_def rt_Close_def rt_markFinished_def rt_noteHandshakeReady_def
  rt_TakeResubscribed_def rt_enqueue_def rt_receive_def rt_overflow_def

lemma rt_good_ops:
  assumes "rt_good s"
  shows "rt_good (fst (rt_enqueue s x))" "rt_good (fst (rt_receive s))" "rt_good (rt_fail e s)"
    "rt_good (rt_SetOnError cb s)" "rt_good (rt_notifyError e s)" "rt_good (rt_Close s)"
    "rt_good (rt_markFinished s)" "rt_good (rt_noteHandshakeReady f s)" "rt_good (fst (rt_TakeResubscribed s))"
  using assms by (auto simp: rt_defs rt_good_def Let_def split: option.splits list.splits)

interpretation rt: bounded_subscription rt_enqueue rt_receive rt_ch rt_cap rt_closed rt_err rt_good
  by unfold_locales
    (auto simp: rt_defs rt_good_def split: option.splits list.splits if_splits)

section \<open>Managed subscriptions\<close>

text \<open>The order book and the market overview subscription: the same structure with queues of
  200 books and of 50 lists of rows. \<open>stopped\<close> is that the stream below was asked to stop.\<close>

record 'a managed_subscription =
  ms_updates :: "'a list"
  ms_cap :: nat
  ms_updates_closed :: bool
  ms_done :: bool
  ms_closed :: bool
  ms_err :: "sdk_error option"
  ms_onError :: bool
  ms_reported :: "sdk_error list"
  ms_stopped :: bool

definition managed_new :: "nat \<Rightarrow> 'a managed_subscription" where
  "managed_new n = \<lparr>ms_updates = [], ms_cap = n, ms_updates_closed = False, ms_done = False,
     ms_closed = False, ms_err = None, ms_onError = False, ms_reported = [], ms_stopped = False\<rparr>"

definition orderbook_NewSubscription :: "'a managed_subscription" where
  "orderbook_NewSubscription = managed_new 200"

definition marketoverview_NewSubscription :: "'a managed_subscription" where
  "marketoverview_NewSubscription = managed_new 50"

definition ms_callErrorCallback :: "sdk_error option \<Rightarrow> 'a managed_subscription \<Rightarrow> 'a managed_subscription" where
  "ms_callErrorCallback err s = (case err of
       Some e \<Rightarrow> if ms_onError s then s\<lparr>ms_reported := ms_reported s @ [e]\<rparr> else s
     | None \<Rightarrow> s)"

definition closeUpdates :: "'a managed_subscription \<Rightarrow> 'a managed_subscription" where
  "closeUpdates s = (if ms_updates_closed s then s
     else s\<lparr>ms_closed := True, ms_updates_closed := True, ms_done := True\<rparr>)"

definition ob_Fail :: "sdk_error \<Rightarrow> 'a managed_subscription \<Rightarrow> 'a managed_subscription" where
  "ob_Fail err s =
     (if ms_closed s then s
      else let err' = (case ms_err s of None \<Rightarrow> err | Some e \<Rightarrow> e);
               s1 = s\<lparr>ms_err := Some err', ms_closed := True\<rparr>;
               s2 = (closeUpdates s1)\<lparr>ms_stopped := True\<rparr>
           in ms_callErrorCallback (Some err') s2)"

definition ob_overflow :: sdk_error where
  "ob_overflow = QueueOverflowError ''orderbook subscription queue full; consumer too slow''"

definition ob_Enqueue :: "'a managed_subscription \<Rightarrow> 'a \<Rightarrow> 'a managed_subscription \<times> bool" where
  "ob_Enqueue s data =
     (if ms_closed s then (s, False)
      else if length (ms_updates s) < ms_cap s then (s\<lparr>ms_updates := ms_updates s @ [data]\<rparr>, True)
      else (ob_Fail ob_overflow s, False))"

definition mo_Enqueue :: "'a managed_subscription \<Rightarrow> 'a \<Rightarrow> 'a managed_subscription \<times> bool" where
  "mo_Enqueue s rows =
     (if ms_closed s then (s, False)
      else if length (ms_updates s) < ms_cap s then (s\<lparr>ms_updates := ms_updates s @ [rows]\<rparr>, True)
      else let err = (case ms_err s of
                 None \<Rightarrow> QueueOverflowError ''market overview subscription queue full; consumer too slow''
               | Some e \<Rightarrow> e);
               s1 = s\<lparr>ms_err := Some err, ms_closed := True\<rparr>;
               s2 = (closeUpdates s1)\<lparr>ms_stopped := True\<rparr>
           in (ms_callErrorCallback (Some err) s2, False))"

definition ms_Close :: "'a managed_subscription \<Rightarrow> 'a managed_subscription" where
  "ms_Close s = (closeUpdates s)\<lparr>ms_stopped := True\<rparr>"

text \<open>\<open>streamErr\<close> is the error of the stream below.\<close>

definition ms_Err :: "sdk_error option \<Rightarrow> 'a managed_subscription \<Rightarrow> sdk_error option" where
  "ms_Err streamErr s = (case ms_err s of None \<Rightarrow> streamErr | Some e \<Rightarrow> Some e)"

text \<open>The stream keeps the callback for its own errors; here the error of the subscription is
  handed to a callback installed late.\<close>

definition ms_SetOnError :: "bool \<Rightarrow> 'a managed_subscription \<Rightarrow> 'a managed_subscription" where
  "ms_SetOnError callback s = ms_callErrorCallback (ms_err s) (s\<lparr>ms_onError := callback\<rparr>)"

definition ms_receive :: "'a managed_subscription \<Rightarrow> 'a managed_subscription \<times> 'a option" where
  "ms_receive s = (case ms_updates s of [] \<Rightarrow> (s, None) | x # xs \<Rightarrow> (s\<lparr>ms_updates := xs\<rparr>, Some x))"

text \<open>The channel is closed only after \<open>closed\<close> is set, so nothing is sent on it after.\<close>

definition ms_good :: "'a managed_subscription \<Rightarrow> bool" where
  "ms_good s \<longleftrightarrow> (ms_err s \<noteq> None \<longrightarrow> ms_closed s) \<and> (ms_updates_closed s \<longrightarrow> ms_closed s)
     \<and> (ms_done s = ms_updates_closed s) \<and> (ms_closed s \<longrightarrow> ms_updates_closed s)"

lemmas ms_defs = ms_callErrorCallback_def closeUpdates_def ob_Fail_def ob_Enqueue_def mo_Enqueue_def
  ms_Close_def ms_SetOnError_def ms_receive_def ob_overflow_def

lemma ms_good_ops:
  assumes "ms_good s"
  shows "ms_good (fst (ob_Enqueue s x))" "ms_good (fst (mo_Enqueue s x))" "ms_good (fst (ms_receive s))"
    "ms_good (ob_Fail e s)" "ms_good (ms_Close s)" "ms_good (ms_SetOnError cb s)" "ms_good (closeUpdates s)"
  using assms by (auto simp: ms_defs ms_good_def Let_def split: option.splits list.splits)

lemma ms_receive_queue:
  "ms_receive s = (s', r) \<Longrightarrow> (case ms_updates s of [] \<Rightarrow> r = None \<and> s' = s
     | x # xs \<Rightarrow> r = Some x \<and> ms_updates s' = xs \<and> ms_closed s' = ms_closed s \<and> ms_cap s' = ms_cap s
         \<and> ms_err s' = ms_err s)"
  by (auto simp: ms_receive_def split: list.splits)

interpretation ob: bounded_subscription ob_Enqueue ms_receive ms_updates ms_cap ms_closed ms_err ms_good
proof (unfold_locales, goal_cases)
  case (3 s x s' b)
  then show ?case by (auto simp: ms_defs ms_good_def Let_def)
next
  case (4 s s' r)
  then show ?case by (rule ms_receive_queue)
qed (auto simp: ms_good_ops, auto simp: ob_Enqueue_def)

interpretation mo: bounded_subscription mo_Enqueue ms_receive ms_updates ms_cap ms_closed ms_err ms_good
proof (unfold_locales, goal_cases)
  case (3 s x s' b)
  then show ?case by (auto simp: ms_defs ms_good_def Let_def)
next
  case (4 s s' r)
  then show ?case by (rule ms_receive_queue)
qed (auto simp: ms_good_ops, auto simp: mo_Enqueue_def)

text \<open>The first error is the one that stays, and it is reported once.\<close>

lemma ob_Fail_once:
  "ob_Fail e2 (ob_Fail e1 s) = ob_Fail e1 s"
  by (simp add: ms_defs Let_def)

section \<open>Properties\<close>

text \<open>C17. Nothing handed to a realtime subscription is lost silently: whatever the order of
  publications and reads, what the consumer read and what its queue still holds is a prefix of
  what was offered, and it is shorter only when the subscription ended with the overflow error.\<close>

theorem realtime_no_silent_drop:
  assumes "rt.run es (newSubscription n) = (t, got)"
  shows "\<exists>k. got @ rt_ch t = take k (rt.offered es)
    \<and> (k < length (rt.offered es) \<longrightarrow> rt_closed t \<and> (\<exists>m. rt_err t = Some (QueueOverflowError m)))"
proof -
  have "rt_good (newSubscription n :: 'a rt_subscription)" "\<not> rt_closed (newSubscription n :: 'a rt_subscription)" "rt_ch (newSubscription n :: 'a rt_subscription) = []"
    by (simp_all add: newSubscription_def rt_good_def)
  from rt.run_prefix [OF this(1,2) assms] this(3) show ?thesis by simp
qed

theorem realtime_no_silent_drop_witness:
  "\<exists>t got k. rt.run [Some 1, Some 2, None, Some (3 :: nat)] (newSubscription 1) = (t, got)
    \<and> got @ rt_ch t = take k [1, 2, 3] \<and> (k < 3 \<longrightarrow> rt_closed t)"
proof -
  obtain t got where r: "rt.run [Some 1, Some 2, None, Some (3 :: nat)] (newSubscription 1) = (t, got)" by fastforce
  have "rt.offered [Some 1, Some 2, None, Some (3 :: nat)] = [1, 2, 3]" by (simp add: rt.offered_def)
  with realtime_no_silent_drop [OF r] r show ?thesis by auto
qed

text \<open>The same of a managed order book subscription and its 200 views.\<close>

theorem orderbook_no_silent_drop:
  fixes es :: "'a option list"
  assumes "ob.run es orderbook_NewSubscription = (t, got)"
  shows "\<exists>k. got @ ms_updates t = take k (ob.offered es)
    \<and> (k < length (ob.offered es) \<longrightarrow> ms_closed t \<and> (\<exists>m. ms_err t = Some (QueueOverflowError m)))"
proof -
  have "ms_good (orderbook_NewSubscription :: 'a managed_subscription)" "\<not> ms_closed (orderbook_NewSubscription :: 'a managed_subscription)"
    "ms_updates (orderbook_NewSubscription :: 'a managed_subscription) = []"
    by (simp_all add: orderbook_NewSubscription_def managed_new_def ms_good_def)
  from ob.run_prefix [OF this(1,2) assms] this(3) show ?thesis by simp
qed

theorem orderbook_no_silent_drop_witness:
  "\<exists>t got k. ob.run [Some 1, None, Some (2 :: nat)] orderbook_NewSubscription = (t, got)
    \<and> got @ ms_updates t = take k [1, 2] \<and> (k < 2 \<longrightarrow> ms_closed t)"
proof -
  obtain t got where r: "ob.run [Some 1, None, Some (2 :: nat)] orderbook_NewSubscription = (t, got)" by fastforce
  have "ob.offered [Some 1, None, Some (2 :: nat)] = [1, 2]" by (simp add: ob.offered_def)
  with orderbook_no_silent_drop [OF r] r show ?thesis by auto
qed

text \<open>The same of a market overview subscription and its 50 lists of rows.\<close>

theorem market_overview_no_silent_drop:
  fixes es :: "'a option list"
  assumes "mo.run es marketoverview_NewSubscription = (t, got)"
  shows "\<exists>k. got @ ms_updates t = take k (mo.offered es)
    \<and> (k < length (mo.offered es) \<longrightarrow> ms_closed t \<and> (\<exists>m. ms_err t = Some (QueueOverflowError m)))"
proof -
  have "ms_good (marketoverview_NewSubscription :: 'a managed_subscription)" "\<not> ms_closed (marketoverview_NewSubscription :: 'a managed_subscription)"
    "ms_updates (marketoverview_NewSubscription :: 'a managed_subscription) = []"
    by (simp_all add: marketoverview_NewSubscription_def managed_new_def ms_good_def)
  from mo.run_prefix [OF this(1,2) assms] this(3) show ?thesis by simp
qed

theorem market_overview_no_silent_drop_witness:
  "\<exists>t got k. mo.run [Some 1, None, Some (2 :: nat)] marketoverview_NewSubscription = (t, got)
    \<and> got @ ms_updates t = take k [1, 2] \<and> (k < 2 \<longrightarrow> ms_closed t)"
proof -
  obtain t got where r: "mo.run [Some 1, None, Some (2 :: nat)] marketoverview_NewSubscription = (t, got)" by fastforce
  have "mo.offered [Some 1, None, Some (2 :: nat)] = [1, 2]" by (simp add: mo.offered_def)
  with market_overview_no_silent_drop [OF r] r show ?thesis by auto
qed

end
