(* ===== verification/SnapshotStream.thy ===== *)
theory SnapshotStream
  imports Prelude
begin

text \<open>
  \<open>SnapshotThenStream\<close> of \<open>realtime/client.go\<close>: a REST snapshot merged with a live channel.
  Three goroutines meet on one mutex: the worker that reads publications (\<open>run\<close>), at most one
  \<open>RefreshSnapshot\<close> (they exclude each other on \<open>refreshMu\<close>), and the single-flight worker of
  \<open>RequestSnapshotRefresh\<close>. Each definition is one section of code between two lock
  operations or callbacks, so a run of the program is a sequence of them; what a goroutine
  holds between two sections is its field of the state. Callbacks are events: what they
  return, or the error of the panic they are isolated from, is an argument.
\<close>

section \<open>State\<close>

datatype 'p reader = RIdle | RRead | RApply "'p list"

datatype ('s, 'p) refresher =
  FIdle
| FFetch nat
| FApply nat 's "'p list"
| FDrain nat
| FLive nat "'p list"

datatype worker = WIdle | WHead | WTry nat

datatype run_phase = RunTop bool | RunSubscribe bool | RunWait bool | RunDrain | RunLive | RunDone

text \<open>The calls of the two apply callbacks, in order.\<close>

datatype ('s, 'p) application = Snapshot 's "'p list" | Live "'p list"

primrec app_items :: "('s, 'p) application \<Rightarrow> 'p list" where
  "app_items (Snapshot s ps) = ps"
| "app_items (Live ps) = ps"

fun is_snapshot :: "('s, 'p) application \<Rightarrow> bool" where
  "is_snapshot (Snapshot s ps) \<longleftrightarrow> True"
| "is_snapshot (Live ps) \<longleftrightarrow> False"

text \<open>\<open>ss_reported\<close> lists what the error callback got, \<open>ss_signal\<close> what \<open>connected\<close> got;
  \<open>ss_accepted\<close> lists every publication let past the second lock of \<open>handlePublication\<close> and
  \<open>ss_applied\<close> every call of an apply callback; \<open>ss_dropped\<close> is what the end of the stream
  threw away of the pending publications.\<close>

record ('s, 'p) snapshot_stream =
  ss_ready :: bool
  ss_disposed :: bool
  ss_generation :: nat
  ss_pending :: "'p list"
  ss_lastErr :: "sdk_error option"
  ss_canceled :: bool
  ss_signal :: "sdk_error option option"
  ss_refreshRun :: bool
  ss_refreshNext :: bool
  ss_maxBuffered :: nat
  ss_reader :: "'p reader"
  ss_refresher :: "('s, 'p) refresher"
  ss_worker :: worker
  ss_run :: run_phase
  ss_reported :: "sdk_error list"
  ss_accepted :: "'p list"
  ss_applied :: "('s, 'p) application list"
  ss_dropped :: "'p list"

definition NewSnapshotThenStream :: "int \<Rightarrow> ('s, 'p) snapshot_stream" where
  "NewSnapshotThenStream maxBuffered = \<lparr>ss_ready = False, ss_disposed = False, ss_generation = 0,
     ss_pending = [], ss_lastErr = None, ss_canceled = False, ss_signal = None,
     ss_refreshRun = False, ss_refreshNext = False,
     ss_maxBuffered = nat (if maxBuffered \<le> 0 then 200 else maxBuffered),
     ss_reader = RIdle, ss_refresher = FIdle, ss_worker = WIdle, ss_run = RunTop True,
     ss_reported = [], ss_accepted = [], ss_applied = [], ss_dropped = []\<rparr>"

section \<open>Errors and the end\<close>

definition setErr :: "sdk_error \<Rightarrow> ('s, 'p) snapshot_stream \<Rightarrow> ('s, 'p) snapshot_stream" where
  "setErr err s = s\<lparr>ss_lastErr := Some err, ss_ready := False, ss_reported := ss_reported s @ [err]\<rparr>"

definition failClosed :: "sdk_error \<Rightarrow> ('s, 'p) snapshot_stream \<Rightarrow> ('s, 'p) snapshot_stream" where
  "failClosed err s =
     (if ss_disposed s then s
      else s\<lparr>ss_lastErr := Some err, ss_ready := False, ss_disposed := True,
             ss_generation := ss_generation s + 1, ss_pending := [],
             ss_dropped := ss_pending s @ ss_dropped s, ss_reported := ss_reported s @ [err], ss_canceled := True\<rparr>)"

definition Stop :: "('s, 'p) snapshot_stream \<Rightarrow> ('s, 'p) snapshot_stream" where
  "Stop s = s\<lparr>ss_disposed := True, ss_generation := ss_generation s + 1, ss_pending := [],
     ss_dropped := ss_pending s @ ss_dropped s, ss_canceled := True\<rparr>"

definition recovery_overflow :: sdk_error where
  "recovery_overflow = QueueOverflowError ''snapshot recovery buffer full; recreate the subscription''"

section \<open>Reading publications\<close>

text \<open>\<open>handlePublication\<close>, up to the call of \<open>readPublication\<close>.\<close>

definition handle_begin :: "('s, 'p) snapshot_stream \<Rightarrow> ('s, 'p) snapshot_stream" where
  "handle_begin s = (if ss_disposed s then s else s\<lparr>ss_reader := RRead\<rparr>)"

text \<open>From the return of \<open>readPublication\<close> to the end, or to the live apply.\<close>

definition handle_items :: "'p list res \<Rightarrow> ('s, 'p) snapshot_stream \<Rightarrow> ('s, 'p) snapshot_stream" where
  "handle_items result s0 = (let s = s0\<lparr>ss_reader := RIdle\<rparr> in case result of
       Inl err \<Rightarrow> failClosed err s
     | Inr items \<Rightarrow>
         if items = [] then s
         else if ss_disposed s then s
         else if \<not> ss_ready s then
           (if length (ss_pending s) + length items > ss_maxBuffered s
            then s\<lparr>ss_pending := [], ss_dropped := ss_pending s @ ss_dropped s, ss_ready := False, ss_disposed := True,
                   ss_generation := ss_generation s + 1, ss_lastErr := Some recovery_overflow,
                   ss_reported := ss_reported s @ [recovery_overflow], ss_canceled := True\<rparr>
            else s\<lparr>ss_pending := ss_pending s @ items, ss_accepted := ss_accepted s @ items\<rparr>)
         else s\<lparr>ss_reader := RApply items, ss_accepted := ss_accepted s @ items\<rparr>)"

text \<open>The live apply, and \<open>Some\<close> error when the callback panicked.\<close>

definition handle_apply :: "sdk_error option \<Rightarrow> ('s, 'p) snapshot_stream \<Rightarrow> ('s, 'p) snapshot_stream" where
  "handle_apply panic s = (case ss_reader s of
       RApply items \<Rightarrow>
         (let s' = s\<lparr>ss_reader := RIdle, ss_applied := ss_applied s @ [Live items]\<rparr>
          in case panic of None \<Rightarrow> s' | Some err \<Rightarrow> failClosed err s')
     | _ \<Rightarrow> s)"

section \<open>Refreshing the snapshot\<close>

text \<open>\<open>RefreshSnapshot\<close> from its lock to the fetch.\<close>

definition refresh_begin :: "('s, 'p) snapshot_stream \<Rightarrow> ('s, 'p) snapshot_stream" where
  "refresh_begin s =
     (if ss_disposed s then s
      else let generation = ss_generation s + 1
           in s\<lparr>ss_generation := generation, ss_ready := False, ss_refresher := FFetch generation\<rparr>)"

text \<open>From the end of the fetch to the snapshot callback.\<close>

definition refresh_fetched :: "'s res \<Rightarrow> ('s, 'p) snapshot_stream \<Rightarrow> ('s, 'p) snapshot_stream" where
  "refresh_fetched result s = (case ss_refresher s of
       FFetch generation \<Rightarrow>
         (case result of
            Inl err \<Rightarrow> (setErr err s)\<lparr>ss_refresher := FIdle\<rparr>
          | Inr snapshot \<Rightarrow>
              if ss_disposed s \<or> generation \<noteq> ss_generation s then s\<lparr>ss_refresher := FIdle\<rparr>
              else s\<lparr>ss_refresher := FApply generation snapshot (ss_pending s), ss_pending := []\<rparr>)
     | _ \<Rightarrow> s)"

definition refresh_apply :: "sdk_error option \<Rightarrow> ('s, 'p) snapshot_stream \<Rightarrow> ('s, 'p) snapshot_stream" where
  "refresh_apply panic s = (case ss_refresher s of
       FApply generation snapshot buffered \<Rightarrow>
         (let s' = s\<lparr>ss_applied := ss_applied s @ [Snapshot snapshot buffered]\<rparr>
          in case panic of
               None \<Rightarrow> s'\<lparr>ss_refresher := FDrain generation\<rparr>
             | Some err \<Rightarrow> (failClosed err s')\<lparr>ss_refresher := FIdle\<rparr>)
     | _ \<Rightarrow> s)"

text \<open>One turn of the drain loop.\<close>

definition refresh_drain :: "('s, 'p) snapshot_stream \<Rightarrow> ('s, 'p) snapshot_stream" where
  "refresh_drain s = (case ss_refresher s of
       FDrain generation \<Rightarrow>
         if ss_disposed s \<or> generation \<noteq> ss_generation s then s\<lparr>ss_refresher := FIdle\<rparr>
         else if ss_pending s = []
         then s\<lparr>ss_ready := True, ss_lastErr := None, ss_refresher := FIdle\<rparr>
         else s\<lparr>ss_refresher := FLive generation (ss_pending s), ss_pending := []\<rparr>
     | _ \<Rightarrow> s)"

definition refresh_live :: "sdk_error option \<Rightarrow> ('s, 'p) snapshot_stream \<Rightarrow> ('s, 'p) snapshot_stream" where
  "refresh_live panic s = (case ss_refresher s of
       FLive generation buffered \<Rightarrow>
         (let s' = s\<lparr>ss_applied := ss_applied s @ [Live buffered]\<rparr>
          in case panic of
               None \<Rightarrow> s'\<lparr>ss_refresher := FDrain generation\<rparr>
             | Some err \<Rightarrow> (failClosed err s')\<lparr>ss_refresher := FIdle\<rparr>)
     | _ \<Rightarrow> s)"

section \<open>Requested refreshes\<close>

definition RequestSnapshotRefresh :: "('s, 'p) snapshot_stream \<Rightarrow> ('s, 'p) snapshot_stream" where
  "RequestSnapshotRefresh s =
     (if ss_disposed s then s
      else let s' = s\<lparr>ss_refreshNext := True\<rparr>
           in if ss_refreshRun s then s' else s'\<lparr>ss_refreshRun := True, ss_worker := WHead\<rparr>)"

definition worker_head :: "('s, 'p) snapshot_stream \<Rightarrow> ('s, 'p) snapshot_stream" where
  "worker_head s =
     (if ss_disposed s \<or> \<not> ss_refreshNext s then s\<lparr>ss_refreshRun := False, ss_worker := WIdle\<rparr>
      else s\<lparr>ss_refreshNext := False, ss_worker := WTry 0\<rparr>)"

text \<open>\<open>refreshSnapshotWithRetry\<close> after its k-th call: a failure is tried once more, unless the
  context ended during the pause; a second failure fails the stream.\<close>

definition worker_result :: "bool \<Rightarrow> sdk_error option \<Rightarrow> ('s, 'p) snapshot_stream \<Rightarrow> ('s, 'p) snapshot_stream" where
  "worker_result ctxDone result s = (case ss_worker s of
       WTry k \<Rightarrow> (case result of
           None \<Rightarrow> s\<lparr>ss_worker := WHead\<rparr>
         | Some err \<Rightarrow> if k = 0 \<and> \<not> ctxDone then s\<lparr>ss_worker := WTry 1\<rparr>
                       else (failClosed err s)\<lparr>ss_worker := WIdle\<rparr>)
     | _ \<Rightarrow> s)"

section \<open>The worker that reads the channel\<close>

definition signalInitialConnection :: "sdk_error option \<Rightarrow> ('s, 'p) snapshot_stream \<Rightarrow> ('s, 'p) snapshot_stream" where
  "signalInitialConnection err s =
     (case ss_signal s of None \<Rightarrow> s\<lparr>ss_signal := Some err\<rparr> | Some _ \<Rightarrow> s)"

definition run_top :: "('s, 'p) snapshot_stream \<Rightarrow> ('s, 'p) snapshot_stream" where
  "run_top s = (case ss_run s of
       RunTop isFirst \<Rightarrow> s\<lparr>ss_run := (if ss_canceled s \<or> ss_disposed s then RunDone else RunSubscribe isFirst)\<rparr>
     | _ \<Rightarrow> s)"

definition ctx_error :: sdk_error where
  "ctx_error = PlainError ''context canceled''"

definition run_subscribed :: "sdk_error option \<Rightarrow> ('s, 'p) snapshot_stream \<Rightarrow> ('s, 'p) snapshot_stream" where
  "run_subscribed result s = (case ss_run s of
       RunSubscribe isFirst \<Rightarrow>
         (case result of
            Some err \<Rightarrow>
              if ss_canceled s then (signalInitialConnection (Some ctx_error) s)\<lparr>ss_run := RunDone\<rparr>
              else let s' = setErr err s in
                if isFirst then (signalInitialConnection (Some err) s')\<lparr>ss_run := RunDone\<rparr>
                else s'\<lparr>ss_run := RunWait isFirst\<rparr>
          | None \<Rightarrow>
              if isFirst then (signalInitialConnection None s)\<lparr>ss_run := RunLive\<rparr>
              else s\<lparr>ss_run := RunDrain\<rparr>)
     | _ \<Rightarrow> s)"

definition run_waited :: "('s, 'p) snapshot_stream \<Rightarrow> ('s, 'p) snapshot_stream" where
  "run_waited s = (case ss_run s of
       RunWait isFirst \<Rightarrow> s\<lparr>ss_run := (if ss_canceled s then RunDone else RunTop isFirst)\<rparr>
     | _ \<Rightarrow> s)"

text \<open>The refresh of a reconnect came back while the worker drained the channel.\<close>

definition run_refreshed :: "sdk_error option \<Rightarrow> ('s, 'p) snapshot_stream \<Rightarrow> ('s, 'p) snapshot_stream" where
  "run_refreshed result s = (case ss_run s of
       RunDrain \<Rightarrow> (case result of
           Some err \<Rightarrow> (setErr err s)\<lparr>ss_run := RunDone\<rparr>
         | None \<Rightarrow> s\<lparr>ss_run := RunLive\<rparr>)
     | _ \<Rightarrow> s)"

text \<open>The context ended while the worker drained.\<close>

definition run_canceled :: "('s, 'p) snapshot_stream \<Rightarrow> ('s, 'p) snapshot_stream" where
  "run_canceled s = (case ss_run s of
       RunDrain \<Rightarrow> if ss_canceled s then s\<lparr>ss_run := RunDone\<rparr> else s
     | _ \<Rightarrow> s)"

text \<open>The subscription below ended, with its error; \<open>permanent\<close> is that the error is a
  terminal realtime error, a queue overflow or an ended subscription.\<close>

definition run_ended :: "(bool \<times> sdk_error) option \<Rightarrow> ('s, 'p) snapshot_stream \<Rightarrow> ('s, 'p) snapshot_stream" where
  "run_ended result s = (case ss_run s of
       RunLive \<Rightarrow> (case result of
           Some (permanent, err) \<Rightarrow>
             if permanent then (failClosed err s)\<lparr>ss_run := RunDone\<rparr>
             else let s' = setErr err s in
               s'\<lparr>ss_run := (if ss_canceled s' \<or> ss_disposed s' then RunDone else RunWait False)\<rparr>
         | None \<Rightarrow> s\<lparr>ss_run := (if ss_canceled s \<or> ss_disposed s then RunDone else RunWait False)\<rparr>)
     | _ \<Rightarrow> s)"

section \<open>Steps\<close>

definition reading :: "('s, 'p) snapshot_stream \<Rightarrow> bool" where
  "reading s \<longleftrightarrow> ss_run s = RunDrain \<or> ss_run s = RunLive"

text \<open>The worker moves on only between publications.\<close>

inductive ss_step :: "('s, 'p) snapshot_stream \<Rightarrow> ('s, 'p) snapshot_stream \<Rightarrow> bool" where
  publish: "reading s \<Longrightarrow> ss_reader s = RIdle \<Longrightarrow> ss_step s (handle_begin s)"
| items: "ss_reader s = RRead \<Longrightarrow> ss_step s (handle_items result s)"
| live: "ss_step s (handle_apply panic s)"
| refresh: "ss_refresher s = FIdle \<Longrightarrow> ss_step s (refresh_begin s)"
| fetched: "ss_step s (refresh_fetched fetch s)"
| applied: "ss_step s (refresh_apply panic s)"
| drain: "ss_step s (refresh_drain s)"
| drain_live: "ss_step s (refresh_live panic s)"
| request: "ss_step s (RequestSnapshotRefresh s)"
| head: "ss_worker s = WHead \<Longrightarrow> ss_step s (worker_head s)"
| tried: "ss_step s (worker_result ctxDone outcome s)"
| top: "ss_reader s = RIdle \<Longrightarrow> ss_step s (run_top s)"
| subscribed: "ss_reader s = RIdle \<Longrightarrow> ss_step s (run_subscribed outcome s)"
| waited: "ss_step s (run_waited s)"
| refreshed: "ss_reader s = RIdle \<Longrightarrow> ss_step s (run_refreshed outcome s)"
| canceled: "ss_reader s = RIdle \<Longrightarrow> ss_step s (run_canceled s)"
| ended: "ss_reader s = RIdle \<Longrightarrow> ss_step s (run_ended ending s)"
| stop: "ss_step s (Stop s)"

inductive_cases ss_stepE: "ss_step s t"

definition ss_init :: "('s, 'p) snapshot_stream \<Rightarrow> bool" where
  "ss_init s \<longleftrightarrow> (\<exists>n. s = NewSnapshotThenStream n)"

section \<open>The invariant\<close>

definition live_items :: "('s, 'p) snapshot_stream \<Rightarrow> 'p list" where
  "live_items s = (case ss_reader s of RApply items \<Rightarrow> items | _ \<Rightarrow> [])"

definition taken_items :: "('s, 'p) snapshot_stream \<Rightarrow> 'p list" where
  "taken_items s = (case ss_refresher s of FApply _ _ b \<Rightarrow> b | FLive _ b \<Rightarrow> b | _ \<Rightarrow> [])"

definition refresh_generation :: "('s, 'p) snapshot_stream \<Rightarrow> nat option" where
  "refresh_generation s = (case ss_refresher s of FIdle \<Rightarrow> None | FFetch g \<Rightarrow> Some g
     | FApply g _ _ \<Rightarrow> Some g | FDrain g \<Rightarrow> Some g | FLive g _ \<Rightarrow> Some g)"

definition applied_items :: "('s, 'p) snapshot_stream \<Rightarrow> 'p list" where
  "applied_items s = concat (map app_items (ss_applied s))"

text \<open>Every publication let in is applied, held by one goroutine, or pending, once and in
  order; only the end of the stream drops some.\<close>

definition items_inv :: "('s, 'p) snapshot_stream \<Rightarrow> bool" where
  "items_inv s \<longleftrightarrow>
     ss_accepted s = applied_items s @ taken_items s @ live_items s @ ss_pending s @ ss_dropped s
     \<and> (ss_dropped s \<noteq> [] \<longrightarrow> ss_disposed s) \<and> (ss_disposed s \<longrightarrow> ss_pending s = [])
     \<and> length (ss_pending s) \<le> ss_maxBuffered s
     \<and> (ss_ready s \<longrightarrow> ss_pending s = [] \<and> ss_refresher s = FIdle)
     \<and> (live_items s \<noteq> [] \<longrightarrow> ss_pending s = [] \<and> taken_items s = [])"

text \<open>A refresh in flight is the current one; the first application is a snapshot.\<close>

definition past_snapshot :: "('s, 'p) snapshot_stream \<Rightarrow> bool" where
  "past_snapshot s \<longleftrightarrow> ss_ready s \<or> live_items s \<noteq> []
     \<or> (case ss_refresher s of FDrain _ \<Rightarrow> True | FLive _ _ \<Rightarrow> True | _ \<Rightarrow> False)"

definition refresh_inv :: "('s, 'p) snapshot_stream \<Rightarrow> bool" where
  "refresh_inv s \<longleftrightarrow>
     (ss_disposed s \<or> refresh_generation s = None \<or> refresh_generation s = Some (ss_generation s))
     \<and> (past_snapshot s \<longrightarrow> ss_applied s \<noteq> [])
     \<and> (ss_applied s \<noteq> [] \<longrightarrow> is_snapshot (hd (ss_applied s)))"

text \<open>A requested refresh has a worker, and one only.\<close>

definition worker_inv :: "('s, 'p) snapshot_stream \<Rightarrow> bool" where
  "worker_inv s \<longleftrightarrow> (ss_disposed s \<longrightarrow> ss_canceled s)
     \<and> (ss_worker s \<noteq> WIdle \<longrightarrow> ss_refreshRun s)
     \<and> (ss_disposed s \<or> ss_refreshRun s \<longrightarrow> ss_disposed s \<or> ss_worker s \<noteq> WIdle)
     \<and> (ss_disposed s \<or> (ss_refreshNext s \<longrightarrow> ss_refreshRun s))"

lemmas items_defs = items_inv_def taken_items_def live_items_def applied_items_def
lemmas refresh_defs = refresh_inv_def past_snapshot_def live_items_def refresh_generation_def

lemmas section_defs = setErr_def failClosed_def Stop_def handle_begin_def handle_items_def
  handle_apply_def refresh_begin_def refresh_fetched_def refresh_apply_def refresh_drain_def
  refresh_live_def RequestSnapshotRefresh_def worker_head_def worker_result_def
  signalInitialConnection_def run_top_def run_subscribed_def run_waited_def run_refreshed_def
  run_canceled_def run_ended_def Let_def

lemmas section_splits = reader.splits refresher.splits worker.splits run_phase.splits sum.splits
  option.splits if_splits

text \<open>Sections that touch neither the publications nor the refresh.\<close>

definition same_items :: "('s, 'p) snapshot_stream \<Rightarrow> ('s, 'p) snapshot_stream \<Rightarrow> bool" where
  "same_items s t \<longleftrightarrow> ss_accepted t = ss_accepted s \<and> ss_applied t = ss_applied s
     \<and> ss_dropped t = ss_dropped s \<and> ss_pending t = ss_pending s \<and> ss_disposed t = ss_disposed s
     \<and> ss_maxBuffered t = ss_maxBuffered s \<and> ss_ready t = ss_ready s \<and> ss_reader t = ss_reader s
     \<and> ss_refresher t = ss_refresher s \<and> ss_generation t = ss_generation s \<and> ss_canceled t = ss_canceled s"

lemma same_items_inv: "same_items s t \<Longrightarrow> items_inv t = items_inv s \<and> refresh_inv t = refresh_inv s"
  by (simp add: same_items_def items_defs refresh_inv_def past_snapshot_def refresh_generation_def)

lemma same_items_sections:
  "same_items s (RequestSnapshotRefresh s)" "same_items s (worker_head s)" "same_items s (run_top s)"
  "same_items s (run_waited s)" "same_items s (run_canceled s)" "same_items s (signalInitialConnection e s)"
  by (auto simp: same_items_def section_defs split: section_splits)

lemma same_items_simps [simp]:
  "items_inv (RequestSnapshotRefresh s) = items_inv s" "refresh_inv (RequestSnapshotRefresh s) = refresh_inv s"
  "items_inv (worker_head s) = items_inv s" "refresh_inv (worker_head s) = refresh_inv s"
  "items_inv (run_top s) = items_inv s" "refresh_inv (run_top s) = refresh_inv s"
  "items_inv (run_waited s) = items_inv s" "refresh_inv (run_waited s) = refresh_inv s"
  "items_inv (run_canceled s) = items_inv s" "refresh_inv (run_canceled s) = refresh_inv s"
  "items_inv (signalInitialConnection e s) = items_inv s"
  "refresh_inv (signalInitialConnection e s) = refresh_inv s"
  using same_items_sections same_items_inv by blast+

lemma items_inv_setErr: "items_inv s \<Longrightarrow> items_inv (setErr e s)"
  by (simp add: items_defs setErr_def)

lemma items_inv_failClosed: "items_inv s \<Longrightarrow> items_inv (failClosed e s)"
  by (simp add: items_defs failClosed_def)

lemma items_inv_Stop: "items_inv s \<Longrightarrow> items_inv (Stop s)"
  by (simp add: items_defs Stop_def)

lemma items_inv_reader:
  "items_inv s \<Longrightarrow> ss_reader s = RIdle \<Longrightarrow> items_inv (handle_begin s)"
  by (auto simp: items_defs handle_begin_def)

lemma items_inv_idle: "items_inv s \<Longrightarrow> live_items s = [] \<Longrightarrow> items_inv (s\<lparr>ss_reader := RIdle\<rparr>)"
  by (simp add: items_defs)

lemma items_inv_handle_items:
  assumes "items_inv s" and "ss_reader s = RRead"
  shows "items_inv (handle_items r s)"
proof -
  have i: "items_inv (s\<lparr>ss_reader := RIdle\<rparr>)"
    by (rule items_inv_idle [OF assms(1)]) (simp add: live_items_def assms(2))
  show ?thesis
  proof (cases r)
    case (Inl e)
    then show ?thesis using items_inv_failClosed [OF i] by (simp add: handle_items_def)
  next
    case (Inr items)
    then show ?thesis using i by (auto simp: handle_items_def Let_def items_defs)
  qed
qed

lemma items_inv_handle_apply: "items_inv s \<Longrightarrow> items_inv (handle_apply panic s)"
proof (cases "ss_reader s")
  case (RApply items)
  assume inv: "items_inv s"
  let ?s = "s\<lparr>ss_reader := RIdle, ss_applied := ss_applied s @ [Live items]\<rparr>"
  have "items_inv ?s" using inv RApply by (cases "items = []") (simp_all add: items_defs)
  then show ?thesis using items_inv_failClosed by (cases panic) (auto simp: handle_apply_def RApply)
qed (simp_all add: handle_apply_def)

lemma items_inv_refresh_begin:
  "items_inv s \<Longrightarrow> ss_refresher s = FIdle \<Longrightarrow> items_inv (refresh_begin s)"
  by (auto simp: items_defs refresh_begin_def Let_def split: reader.splits)

lemma items_inv_refresh_fetched: "items_inv s \<Longrightarrow> items_inv (refresh_fetched r s)"
proof (cases "ss_refresher s")
  case (FFetch g)
  assume inv: "items_inv s"
  show ?thesis
  proof (cases r)
    case (Inl e)
    from inv FFetch have "items_inv ((setErr e s)\<lparr>ss_refresher := FIdle\<rparr>)" by (simp add: items_defs setErr_def)
    then show ?thesis by (simp add: refresh_fetched_def FFetch Inl)
  next
    case (Inr snapshot)
    with inv FFetch show ?thesis
      by (cases "live_items s = []") (auto simp: items_defs refresh_fetched_def)
  qed
qed (simp_all add: refresh_fetched_def)

lemma items_inv_refresh_apply: "items_inv s \<Longrightarrow> items_inv (refresh_apply panic s)"
proof (cases "ss_refresher s")
  case (FApply g snapshot buffered)
  assume inv: "items_inv s"
  let ?s = "s\<lparr>ss_applied := ss_applied s @ [Snapshot snapshot buffered]\<rparr>"
  from inv FApply have d: "items_inv (?s\<lparr>ss_refresher := FDrain g\<rparr>)" by (simp add: items_defs)
  from inv FApply have "items_inv (?s\<lparr>ss_refresher := FIdle\<rparr>)" by (simp add: items_defs)
  then have "items_inv (failClosed e (?s\<lparr>ss_refresher := FIdle\<rparr>))" for e by (rule items_inv_failClosed)
  moreover have "failClosed e (?s\<lparr>ss_refresher := FIdle\<rparr>) = (failClosed e ?s)\<lparr>ss_refresher := FIdle\<rparr>" for e
    by (simp add: failClosed_def)
  ultimately show ?thesis using d by (cases panic) (simp_all add: refresh_apply_def FApply)
qed (simp_all add: refresh_apply_def)

lemma items_inv_refresh_live: "items_inv s \<Longrightarrow> items_inv (refresh_live panic s)"
proof (cases "ss_refresher s")
  case (FLive g buffered)
  assume inv: "items_inv s"
  let ?s = "s\<lparr>ss_applied := ss_applied s @ [Live buffered]\<rparr>"
  from inv FLive have d: "items_inv (?s\<lparr>ss_refresher := FDrain g\<rparr>)" by (simp add: items_defs)
  from inv FLive have "items_inv (?s\<lparr>ss_refresher := FIdle\<rparr>)" by (simp add: items_defs)
  then have "items_inv (failClosed e (?s\<lparr>ss_refresher := FIdle\<rparr>))" for e by (rule items_inv_failClosed)
  moreover have "failClosed e (?s\<lparr>ss_refresher := FIdle\<rparr>) = (failClosed e ?s)\<lparr>ss_refresher := FIdle\<rparr>" for e
    by (simp add: failClosed_def)
  ultimately show ?thesis using d by (cases panic) (simp_all add: refresh_live_def FLive)
qed (simp_all add: refresh_live_def)

lemma items_inv_refresh_drain: "items_inv s \<Longrightarrow> items_inv (refresh_drain s)"
proof (cases "ss_refresher s")
  case (FDrain g)
  assume "items_inv s"
  with FDrain show ?thesis by (cases "live_items s = []") (auto simp: items_defs refresh_drain_def)
qed (simp_all add: refresh_drain_def)

text \<open>Updates of fields the invariants do not read.\<close>

lemma inv_irrelevant [simp]:
  "items_inv (s\<lparr>ss_run := x\<rparr>) = items_inv s" "items_inv (s\<lparr>ss_worker := w\<rparr>) = items_inv s"
  "refresh_inv (s\<lparr>ss_run := x\<rparr>) = refresh_inv s" "refresh_inv (s\<lparr>ss_worker := w\<rparr>) = refresh_inv s"
  "worker_inv (s\<lparr>ss_run := x\<rparr>) = worker_inv s"
  by (simp_all add: items_defs refresh_inv_def past_snapshot_def refresh_generation_def worker_inv_def)

lemma items_inv_worker_result: "items_inv s \<Longrightarrow> items_inv (worker_result c r s)"
  by (auto simp: worker_result_def items_inv_failClosed split: worker.splits option.splits)

lemma items_inv_run:
  "items_inv s \<Longrightarrow> items_inv (run_subscribed r s)" "items_inv s \<Longrightarrow> items_inv (run_refreshed r s)"
  "items_inv s \<Longrightarrow> items_inv (run_ended x s)"
  by (auto simp: run_subscribed_def run_refreshed_def run_ended_def Let_def items_inv_setErr
      items_inv_failClosed split: run_phase.splits option.splits)

theorem items_inv_step: "items_inv s \<Longrightarrow> ss_step s t \<Longrightarrow> items_inv t"
  by (elim ss_stepE) (simp_all add: items_inv_reader items_inv_handle_items items_inv_handle_apply
      items_inv_refresh_begin items_inv_refresh_fetched items_inv_refresh_apply items_inv_refresh_drain
      items_inv_refresh_live items_inv_worker_result items_inv_run items_inv_Stop)

section \<open>Refreshes and workers\<close>

lemma refresh_inv_setErr: "refresh_inv s \<Longrightarrow> refresh_inv (setErr e s)"
  by (auto simp: refresh_defs setErr_def)

lemma refresh_inv_failClosed: "refresh_inv s \<Longrightarrow> refresh_inv (failClosed e s)"
  by (auto simp: refresh_defs failClosed_def)

lemma refresh_inv_Stop: "refresh_inv s \<Longrightarrow> refresh_inv (Stop s)"
  by (auto simp: refresh_defs Stop_def)

lemma refresh_inv_reader:
  "refresh_inv s \<Longrightarrow> ss_reader s = RIdle \<Longrightarrow> refresh_inv (handle_begin s)"
  by (auto simp: refresh_defs handle_begin_def)

lemma refresh_inv_handle_items:
  "refresh_inv s \<Longrightarrow> ss_reader s = RRead \<Longrightarrow> refresh_inv (handle_items r s)"
  by (cases r) (auto simp: refresh_defs handle_items_def failClosed_def Let_def)

lemma refresh_inv_applied:
  assumes "refresh_inv s" and "past_snapshot s" and "past_snapshot s' \<longrightarrow> past_snapshot s"
    and "refresh_generation s' = None \<or> refresh_generation s' = refresh_generation s"
    and "ss_applied s' = ss_applied s @ xs" "ss_disposed s' = ss_disposed s" "ss_generation s' = ss_generation s"
  shows "refresh_inv s'"
  using assms by (auto simp: refresh_inv_def)

lemma refresh_inv_handle_apply:
  assumes "refresh_inv s" and "ss_reader s \<noteq> RApply []"
  shows "refresh_inv (handle_apply panic s)"
proof (cases "ss_reader s")
  case (RApply items)
  let ?s = "s\<lparr>ss_reader := RIdle, ss_applied := ss_applied s @ [Live items]\<rparr>"
  have "refresh_inv ?s"
    by (rule refresh_inv_applied [OF assms(1)])
      (use RApply assms(2) in \<open>auto simp: past_snapshot_def live_items_def refresh_generation_def\<close>)
  then show ?thesis using refresh_inv_failClosed by (cases panic) (auto simp: handle_apply_def RApply)
qed (use assms(1) in \<open>simp_all add: handle_apply_def\<close>)

lemma refresh_inv_idle: "refresh_inv s \<Longrightarrow> refresh_inv (s\<lparr>ss_refresher := FIdle\<rparr>)"
  by (auto simp: refresh_defs)

lemma failClosed_refresher: "(failClosed e s)\<lparr>ss_refresher := r\<rparr> = failClosed e (s\<lparr>ss_refresher := r\<rparr>)"
  by (simp add: failClosed_def)

lemma refresh_inv_begin:
  "refresh_inv s \<Longrightarrow> ss_refresher s = FIdle \<Longrightarrow> refresh_inv (refresh_begin s)"
  by (auto simp: refresh_defs refresh_begin_def Let_def)

lemma refresh_inv_fetched: "refresh_inv s \<Longrightarrow> refresh_inv (refresh_fetched r s)"
proof (cases "ss_refresher s")
  case (FFetch g)
  assume inv: "refresh_inv s"
  show ?thesis
  proof (cases r)
    case (Inl e)
    have "refresh_inv (setErr e (s\<lparr>ss_refresher := FIdle\<rparr>))" using inv refresh_inv_idle refresh_inv_setErr by blast
    moreover have "setErr e (s\<lparr>ss_refresher := FIdle\<rparr>) = (setErr e s)\<lparr>ss_refresher := FIdle\<rparr>"
      by (simp add: setErr_def)
    ultimately show ?thesis by (simp add: refresh_fetched_def FFetch Inl)
  next
    case (Inr x)
    with inv FFetch show ?thesis
      by (auto simp: refresh_fetched_def refresh_inv_idle) (auto simp: refresh_defs)
  qed
qed (simp_all add: refresh_fetched_def)

lemma refresh_inv_apply:
  assumes "refresh_inv s"
  shows "refresh_inv (refresh_apply panic s)"
proof (cases "ss_refresher s")
  case (FApply g x buffered)
  have g: "ss_disposed s \<or> g = ss_generation s"
    using assms FApply by (auto simp: refresh_defs)
  have h: "is_snapshot (hd (ss_applied s @ [Snapshot x buffered]))"
    using assms by (cases "ss_applied s") (auto simp: refresh_inv_def)
  from g h have "refresh_inv (s\<lparr>ss_applied := ss_applied s @ [Snapshot x buffered], ss_refresher := FDrain g\<rparr>)"
    by (auto simp: refresh_inv_def refresh_generation_def)
  moreover from h have "refresh_inv (s\<lparr>ss_applied := ss_applied s @ [Snapshot x buffered], ss_refresher := FIdle\<rparr>)"
    by (simp add: refresh_inv_def refresh_generation_def)
  ultimately show ?thesis
    by (cases panic) (simp_all add: refresh_apply_def FApply failClosed_refresher refresh_inv_failClosed)
qed (use assms in \<open>simp_all add: refresh_apply_def\<close>)

lemma refresh_inv_live:
  assumes "refresh_inv s"
  shows "refresh_inv (refresh_live panic s)"
proof (cases "ss_refresher s")
  case (FLive g buffered)
  let ?s = "s\<lparr>ss_applied := ss_applied s @ [Live buffered]\<rparr>"
  have "refresh_inv (?s\<lparr>ss_refresher := FDrain g\<rparr>)"
    by (rule refresh_inv_applied [OF assms]) (simp_all add: FLive past_snapshot_def refresh_generation_def)
  moreover have "refresh_inv (?s\<lparr>ss_refresher := FIdle\<rparr>)"
    by (rule refresh_inv_applied [OF assms]) (simp_all add: FLive past_snapshot_def refresh_generation_def)
  ultimately show ?thesis
    by (cases panic) (simp_all add: refresh_live_def FLive failClosed_refresher refresh_inv_failClosed)
qed (use assms in \<open>simp_all add: refresh_live_def\<close>)

lemma refresh_inv_drain: "refresh_inv s \<Longrightarrow> refresh_inv (refresh_drain s)"
  by (cases "ss_refresher s")
    (auto simp: refresh_drain_def refresh_inv_idle, auto simp: refresh_defs)

lemma refresh_inv_worker_result: "refresh_inv s \<Longrightarrow> refresh_inv (worker_result c r s)"
  by (auto simp: worker_result_def refresh_inv_failClosed split: worker.splits option.splits)

lemma refresh_inv_run:
  "refresh_inv s \<Longrightarrow> refresh_inv (run_subscribed r s)" "refresh_inv s \<Longrightarrow> refresh_inv (run_refreshed r s)"
  "refresh_inv s \<Longrightarrow> refresh_inv (run_ended x s)"
  by (auto simp: run_subscribed_def run_refreshed_def run_ended_def Let_def refresh_inv_setErr
      refresh_inv_failClosed split: run_phase.splits option.splits)

text \<open>A batch in live application is not empty.\<close>

definition batch_inv :: "('s, 'p) snapshot_stream \<Rightarrow> bool" where
  "batch_inv s \<longleftrightarrow> ss_reader s \<noteq> RApply []"

lemma batch_inv_step: "batch_inv s \<Longrightarrow> ss_step s t \<Longrightarrow> batch_inv t"
  by (elim ss_stepE) (auto simp: batch_inv_def section_defs split: section_splits)

lemma refresh_inv_step: "refresh_inv s \<Longrightarrow> batch_inv s \<Longrightarrow> ss_step s t \<Longrightarrow> refresh_inv t"
  by (elim ss_stepE) (simp_all add: refresh_inv_reader refresh_inv_handle_items refresh_inv_handle_apply
      refresh_inv_begin refresh_inv_fetched refresh_inv_apply refresh_inv_drain
      refresh_inv_live refresh_inv_worker_result refresh_inv_run refresh_inv_Stop batch_inv_def)

lemma worker_inv_step: "worker_inv s \<Longrightarrow> ss_step s t \<Longrightarrow> worker_inv t"
  by (elim ss_stepE) (auto simp: worker_inv_def section_defs split: section_splits)

definition ss_inv :: "('s, 'p) snapshot_stream \<Rightarrow> bool" where
  "ss_inv s \<longleftrightarrow> items_inv s \<and> refresh_inv s \<and> batch_inv s \<and> worker_inv s"

lemma ss_inv_init: "ss_init s \<Longrightarrow> ss_inv s"
  by (auto simp: ss_init_def NewSnapshotThenStream_def ss_inv_def items_defs refresh_inv_def
      past_snapshot_def refresh_generation_def batch_inv_def worker_inv_def)

lemma ss_inv_step: "ss_inv s \<Longrightarrow> ss_step s t \<Longrightarrow> ss_inv t"
  unfolding ss_inv_def using items_inv_step refresh_inv_step batch_inv_step worker_inv_step by blast

interpretation stream: invariant_system ss_init ss_step ss_inv
  by unfold_locales (fact ss_inv_init, fact ss_inv_step)

section \<open>What holds of every run\<close>

abbreviation ss_reachable :: "('s, 'p) snapshot_stream \<Rightarrow> bool" where
  "ss_reachable s \<equiv> reachable ss_init ss_step s"

lemma stream_conserves:
  assumes "ss_reachable s"
  shows "\<exists>dropped. ss_accepted s = applied_items s @ taken_items s @ live_items s @ ss_pending s @ dropped
    \<and> (dropped \<noteq> [] \<longrightarrow> ss_disposed s)"
  using stream.inv_reachable [OF assms] by (auto simp: ss_inv_def items_inv_def)

text \<open>At rest and ready, everything let in has been applied.\<close>

lemma stream_settled:
  assumes "ss_reachable s" and "ss_ready s" and "\<not> ss_disposed s" and "\<forall>i. ss_reader s \<noteq> RApply i"
  shows "applied_items s = ss_accepted s"
  using stream.inv_reachable [OF assms(1)] assms(2-)
  by (auto simp: ss_inv_def items_defs split: reader.splits)

lemma stream_snapshot_first:
  assumes "ss_reachable s" and "ss_applied s = a # as"
  shows "is_snapshot a"
  using stream.inv_reachable [OF assms(1)] assms(2) by (simp add: ss_inv_def refresh_inv_def)

lemma stream_bounded:
  assumes "ss_reachable s"
  shows "length (ss_pending s) \<le> ss_maxBuffered s" and "ss_ready s \<Longrightarrow> ss_pending s = []"
  using stream.inv_reachable [OF assms] by (auto simp: ss_inv_def items_inv_def)

text \<open>A finished refresh was the newest one: the generation test stops a refresh only once the
  stream has ended.\<close>

lemma stream_generation:
  assumes "ss_reachable s" and "refresh_generation s = Some g" and "g \<noteq> ss_generation s"
  shows "ss_disposed s"
  using stream.inv_reachable [OF assms(1)] assms(2,3) by (auto simp: ss_inv_def refresh_inv_def)

lemma stream_request_worker:
  assumes "ss_reachable s" and "\<not> ss_disposed s" and "ss_refreshNext s"
  shows "ss_worker s \<noteq> WIdle"
  using stream.inv_reachable [OF assms(1)] assms(2,3) by (auto simp: ss_inv_def worker_inv_def)

lemma disposed_step:
  assumes "ss_disposed s" and "ss_step s t"
  shows "ss_disposed t \<and> ss_accepted t = ss_accepted s \<and> (\<not> ss_ready s \<longrightarrow> \<not> ss_ready t)"
  using assms(2,1) by (elim ss_stepE) (auto simp: section_defs split: section_splits)

lemma disposed_steps:
  assumes "ss_step\<^sup>*\<^sup>* s t" and "ss_disposed s"
  shows "ss_disposed t \<and> ss_accepted t = ss_accepted s \<and> (\<not> ss_ready s \<longrightarrow> \<not> ss_ready t)"
  using assms by (induction rule: rtranclp_induct) (auto dest: disposed_step)

lemma done_step:
  assumes "ss_run s = RunDone" and "ss_step s t"
  shows "ss_run t = RunDone"
  using assms(2,1) by (elim ss_stepE) (auto simp: section_defs split: section_splits)

text \<open>A refresh that succeeds from an idle coordinator leaves it ready, with the snapshot and
  then everything that was pending handed to the consumer.\<close>

definition refresh_quietly :: "'s \<Rightarrow> ('s, 'p) snapshot_stream \<Rightarrow> ('s, 'p) snapshot_stream" where
  "refresh_quietly x s = refresh_drain (refresh_apply None (refresh_fetched (Inr x) (refresh_begin s)))"

lemma refresh_quietly_ready:
  assumes "\<not> ss_disposed s" and "ss_refresher s = FIdle"
  shows "ss_ready (refresh_quietly x s)" and "ss_pending (refresh_quietly x s) = []"
    and "ss_lastErr (refresh_quietly x s) = None"
    and "ss_applied (refresh_quietly x s) = ss_applied s @ [Snapshot x (ss_pending s)]"
    and "ss_refresher (refresh_quietly x s) = FIdle"
  using assms by (simp_all add: refresh_quietly_def refresh_begin_def refresh_fetched_def
      refresh_apply_def refresh_drain_def Let_def)

text \<open>The terminal error of a stream that overflowed during a refresh does not stay: the fetch,
  cancelled by the end of the stream, reports its own error over it.\<close>

definition overflow_run :: "sdk_error \<Rightarrow> (unit, nat) snapshot_stream" where
  "overflow_run fetchErr =
     (let connected = run_subscribed None (run_top (NewSnapshotThenStream 1));
          fetching = refresh_begin connected;
          full = handle_items (Inr [1]) (handle_begin fetching);
          ended = handle_items (Inr [2]) (handle_begin full)
      in refresh_fetched (Inl fetchErr) ended)"

lemma overflow_error_lost:
  "ss_disposed (overflow_run e)" "ss_lastErr (overflow_run e) = Some e"
  "ss_reported (overflow_run e) = [recovery_overflow, e]"
  by (simp_all add: overflow_run_def section_defs NewSnapshotThenStream_def)

lemma overflow_run_reachable: "ss_reachable (overflow_run e)"
proof -
  let ?s0 = "NewSnapshotThenStream 1 :: (unit, nat) snapshot_stream"
  let ?s2 = "run_subscribed None (run_top ?s0)"
  let ?s3 = "refresh_begin ?s2"
  let ?s5 = "handle_items (Inr [1]) (handle_begin ?s3)"
  have 0: "ss_reachable ?s0" by (rule reach_init) (auto simp: ss_init_def)
  have 2: "ss_reachable ?s2"
    by (rule reach_step [OF reach_step [OF 0 top] subscribed])
      (simp_all add: NewSnapshotThenStream_def run_top_def)
  have 3: "ss_reachable ?s3"
    by (rule reach_step [OF 2 refresh])
      (simp add: NewSnapshotThenStream_def run_top_def run_subscribed_def signalInitialConnection_def)
  have 5: "ss_reachable ?s5"
    by (rule reach_step [OF reach_step [OF 3 publish] items])
      (simp_all add: reading_def section_defs NewSnapshotThenStream_def)
  have "ss_reachable (handle_items (Inr [2]) (handle_begin ?s5))"
    by (rule reach_step [OF reach_step [OF 5 publish] items])
      (simp_all add: reading_def section_defs NewSnapshotThenStream_def)
  then show ?thesis unfolding overflow_run_def Let_def by (rule reach_step) (rule fetched)
qed

section \<open>Properties\<close>

text \<open>A run: a publication is buffered during the first refresh, the next is applied live.\<close>

text \<open>A run in which \<open>d\<close> arrives during the first refresh and \<open>e\<close> after it.\<close>

definition settled_run :: "'s \<Rightarrow> 'p \<Rightarrow> 'p \<Rightarrow> ('s, 'p) snapshot_stream" where
  "settled_run x d e =
     (let connected = run_subscribed None (run_top (NewSnapshotThenStream 3));
          buffered = handle_items (Inr [d]) (handle_begin (refresh_begin connected));
          refreshed = refresh_drain (refresh_apply None (refresh_fetched (Inr x) buffered))
      in handle_apply None (handle_items (Inr [e]) (handle_begin refreshed)))"

lemma settled_run_eval:
  "settled_run x d e = \<lparr>ss_ready = True, ss_disposed = False, ss_generation = 1, ss_pending = [], ss_lastErr = None,
     ss_canceled = False, ss_signal = Some None, ss_refreshRun = False, ss_refreshNext = False,
     ss_maxBuffered = 3, ss_reader = RIdle, ss_refresher = FIdle, ss_worker = WIdle, ss_run = RunLive,
     ss_reported = [], ss_accepted = [d, e], ss_applied = [Snapshot x [d], Live [e]], ss_dropped = []\<rparr>"
proof -
  let ?st = "\<lambda>ready gen pending reader refresher accepted applied. \<lparr>ss_ready = ready, ss_disposed = False,
     ss_generation = gen, ss_pending = pending, ss_lastErr = None, ss_canceled = False,
     ss_signal = Some None, ss_refreshRun = False, ss_refreshNext = False,
     ss_maxBuffered = 3, ss_reader = reader, ss_refresher = refresher, ss_worker = WIdle, ss_run = RunLive,
     ss_reported = [], ss_accepted = accepted, ss_applied = applied, ss_dropped = []\<rparr>"
  have 1: "run_subscribed None (run_top (NewSnapshotThenStream 3)) = ?st False 0 [] RIdle FIdle [] []"
    by (simp add: NewSnapshotThenStream_def run_top_def run_subscribed_def signalInitialConnection_def)
  have 2: "handle_begin (refresh_begin (?st False 0 [] RIdle FIdle [] [])) = ?st False 1 [] RRead (FFetch 1) [] []"
    by (simp add: refresh_begin_def handle_begin_def)
  have 3: "handle_items (Inr [d]) (?st False 1 [] RRead (FFetch 1) [] []) = ?st False 1 [d] RIdle (FFetch 1) [d] []"
    by (simp add: handle_items_def)
  have 4: "refresh_fetched (Inr x) (?st False 1 [d] RIdle (FFetch 1) [d] []) = ?st False 1 [] RIdle (FApply 1 x [d]) [d] []"
    by (simp add: refresh_fetched_def)
  have 5: "refresh_drain (refresh_apply None (?st False 1 [] RIdle (FApply 1 x [d]) [d] []))
      = ?st True 1 [] RIdle FIdle [d] [Snapshot x [d]]"
    by (simp add: refresh_apply_def refresh_drain_def)
  have 6: "handle_items (Inr [e]) (handle_begin (?st True 1 [] RIdle FIdle [d] [Snapshot x [d]]))
      = ?st True 1 [] (RApply [e]) FIdle [d, e] [Snapshot x [d]]"
    by (simp add: handle_begin_def handle_items_def)
  show ?thesis unfolding settled_run_def Let_def 1 2 3 4 5 6 by (simp add: handle_apply_def)
qed

lemma settled_run_reachable: "ss_reachable (settled_run x d e)"
proof -
  let ?s0 = "NewSnapshotThenStream 3 :: ('a, 'b) snapshot_stream"
  let ?s2 = "run_subscribed None (run_top ?s0)"
  let ?s3 = "refresh_begin ?s2"
  let ?s5 = "handle_items (Inr [d]) (handle_begin ?s3)"
  let ?s8 = "refresh_drain (refresh_apply None (refresh_fetched (Inr x) ?s5))"
  have 0: "ss_reachable ?s0" by (rule reach_init) (auto simp: ss_init_def)
  have 2: "ss_reachable ?s2"
    by (rule reach_step [OF reach_step [OF 0 top] subscribed])
      (simp_all add: NewSnapshotThenStream_def run_top_def)
  have 3: "ss_reachable ?s3"
    by (rule reach_step [OF 2 refresh])
      (simp add: NewSnapshotThenStream_def run_top_def run_subscribed_def signalInitialConnection_def)
  have 5: "ss_reachable ?s5"
    by (rule reach_step [OF reach_step [OF 3 publish] items])
      (simp_all add: reading_def section_defs NewSnapshotThenStream_def)
  have 8: "ss_reachable ?s8"
    by (rule reach_step [OF reach_step [OF reach_step [OF 5 fetched] applied] drain])
  have "ss_reachable (handle_apply None (handle_items (Inr [e]) (handle_begin ?s8)))"
    by (rule reach_step [OF reach_step [OF reach_step [OF 8 publish] items] live])
      (simp_all add: reading_def section_defs NewSnapshotThenStream_def)
  then show ?thesis unfolding settled_run_def Let_def .
qed

definition sample_stream :: "(unit, nat) snapshot_stream" where
  "sample_stream = settled_run () 1 2"

lemmas sample_stream_eval = settled_run_eval [of "()" "1 :: nat" 2, folded sample_stream_def]

lemmas sample_stream_reachable = settled_run_reachable [of "()" "1 :: nat" 2, folded sample_stream_def]

text \<open>C2. In every interleaving of the reader, a refresh and the refresh worker, each publication
  let in is, exactly once and in order, in a callback's calls, in the hand of one goroutine or in
  the buffer; only a stream that ended has dropped any.\<close>

theorem publications_conserved:
  assumes "ss_reachable s"
  shows "\<exists>dropped. ss_accepted s = applied_items s @ taken_items s @ live_items s @ ss_pending s @ dropped
    \<and> (dropped \<noteq> [] \<longrightarrow> ss_disposed s)"
  by (rule stream_conserves [OF assms])

theorem publications_conserved_witness:
  "\<exists>dropped. [1, 2] = applied_items sample_stream @ taken_items sample_stream @ live_items sample_stream
    @ ss_pending sample_stream @ dropped \<and> (dropped \<noteq> [] \<longrightarrow> ss_disposed sample_stream)"
  using publications_conserved [OF sample_stream_reachable] by (simp add: sample_stream_eval)

text \<open>When the stream is ready and its reader is not in a callback, every publication let in has
  been applied, in order: going live leaves none behind in the buffer.\<close>

theorem ready_stream_caught_up:
  assumes "ss_reachable s" and "ss_ready s" and "\<not> ss_disposed s" and "\<forall>i. ss_reader s \<noteq> RApply i"
  shows "applied_items s = ss_accepted s \<and> ss_pending s = []"
  using stream_settled [OF assms] stream_bounded(2) [OF assms(1,2)] by blast

theorem ready_stream_caught_up_witness:
  "applied_items sample_stream = ss_accepted sample_stream \<and> ss_pending sample_stream = []"
  by (rule ready_stream_caught_up [OF sample_stream_reachable]) (simp_all add: sample_stream_eval)

text \<open>The first call a consumer gets is a snapshot, and what waits for one is never more than the
  configured bound.\<close>

theorem snapshot_first_and_bounded:
  assumes "ss_reachable s"
  shows "(ss_applied s \<noteq> [] \<longrightarrow> is_snapshot (hd (ss_applied s))) \<and> length (ss_pending s) \<le> ss_maxBuffered s"
  using stream_snapshot_first [OF assms] stream_bounded(1) [OF assms] by (cases "ss_applied s") auto

theorem snapshot_first_and_bounded_witness:
  "is_snapshot (hd (ss_applied sample_stream)) \<and> length (ss_pending sample_stream) \<le> 3"
  using snapshot_first_and_bounded [OF sample_stream_reachable] by (simp add: sample_stream_eval)

text \<open>The end of a stream is permanent: whatever happens next, it stays disposed, lets no
  publication in, and does not become ready.\<close>

theorem disposed_forever:
  assumes "ss_step\<^sup>*\<^sup>* s t" and "ss_disposed s"
  shows "ss_disposed t \<and> ss_accepted t = ss_accepted s \<and> (\<not> ss_ready s \<longrightarrow> \<not> ss_ready t)"
  by (rule disposed_steps [OF assms])

theorem disposed_forever_witness:
  "ss_disposed (refresh_begin (Stop sample_stream)) \<and> ss_accepted (refresh_begin (Stop sample_stream)) = [1, 2]"
proof -
  have "ss_step\<^sup>*\<^sup>* (Stop sample_stream) (refresh_begin (Stop sample_stream))"
    by (rule r_into_rtranclp, rule refresh) (simp add: Stop_def sample_stream_eval)
  from disposed_forever [OF this] show ?thesis by (simp add: Stop_def sample_stream_eval)
qed



text \<open>A stream that ends by recovery overflow during a refresh does not keep that error: when the
  cancelled fetch returns, its own error replaces it. The run is one of the program.\<close>

theorem overflow_error_replaced:
  "ss_reachable (overflow_run e) \<and> ss_disposed (overflow_run e)
    \<and> ss_reported (overflow_run e) = [recovery_overflow, e] \<and> ss_lastErr (overflow_run e) = Some e"
  using overflow_run_reachable overflow_error_lost by blast

end
