(* ===== verification/PrivateOrders.thy ===== *)
theory PrivateOrders
  imports Scalars Subscriptions "HOL-Library.AList"
begin

text \<open>
  \<open>realtime/private_orders.go\<close> with the events of \<open>realtime/order_stream.go\<close>: every account
  order subscription of a client over one private WebSocket. All state is guarded by one
  mutex; each definition below is what a goroutine does between taking and releasing it, so
  a run of the program is a sequence of them. Subscriptions (\<open>orderStreamSub\<close>) and consumers
  are pointers into two heaps. Token fetches, the dial and timers come back as events that
  carry what they captured (the connection, the subscription, the request id, the timer).

  Order identifiers are kept as the numbers they print; \<open>'o\<close> stands for a decoded order and
  \<open>'x\<close> for a decoded unit event (package \<open>decode\<close>). Timer delays and clock readings are
  arguments; a frame is already unmarshalled. Writing to the socket is a log of messages: a
  failed write only closes the socket, which the reader reports as a closed connection. The
  request counter is a number: a client does not send the \<open>2 ^ 64\<close> requests that would wrap it.
  Two sets record what closures captured: \<open>ps_fetches\<close> the connection, subscription and request
  of every subscribe-token fetch, \<open>ps_retries\<close> the connection, subscription and timer of every
  resubscribe timer; they only say which events can come.
\<close>

section \<open>Data\<close>

definition privateOrdersChannelPrefix :: string where
  "privateOrdersChannelPrefix = ''private:spot:orders:''"

datatype ('o, 'x) order_event =
  OrderStreamConnected
| OrderStreamDisconnected
| OrderSnapshot "(u64 \<times> 'o) list"
| OrderReady
| OrderUnit "(u64 \<times> 'o) list" "u64 list" "'x list"
| OrderStale bool string "u64 list"
| OrderStreamError sdk_error

text \<open>A consumer's subscription, and the log of all events its queue ever took.\<close>

record ('o, 'x) order_consumer =
  oc_sub :: "('o, 'x) order_event rt_subscription"
  oc_log :: "('o, 'x) order_event list"

datatype sub_state = SubPending | SubConnected | SubDisconnected

record 'o order_sub =
  os_consumers :: "nat list"
  os_channel :: string
  os_account :: u64
  os_sub :: string
  os_seq :: u64
  os_cursor :: string
  os_staging :: bool
  os_staged :: "(u64 \<times> 'o) list"
  os_orders :: "(u64 \<times> 'o) list option"
  os_state :: sub_state
  os_stale :: bool
  os_staleReason :: string
  os_staleOrderIDs :: "u64 list"
  os_ready :: bool
  os_retries :: nat
  os_retryTimer :: "nat option"
  os_confirmed :: bool
  os_ackTimer :: "nat option"

datatype request_kind = RequestSubscribe | RequestRefresh

datatype client_message =
  CAuth string
| CSubscribe string u64 string string
| CSubscribeRefresh string string string
| CUnsubscribe string string

record ('o, 'x) private_stream =
  ps_maxQueue :: int
  ps_sub :: "nat \<Rightarrow> 'o order_sub"
  ps_con :: "nat \<Rightarrow> ('o, 'x) order_consumer"
  ps_next :: nat
  ps_subs :: "(string \<times> nat) list"
  ps_pending :: "string \<rightharpoonup> (request_kind \<times> nat)"
  ps_bySub :: "string \<rightharpoonup> nat"
  ps_unsubscribing :: "string set"
  ps_sess :: "nat option"
  ps_conn :: "nat option"
  ps_connecting :: bool
  ps_authSent :: bool
  ps_reconnectAttempt :: nat
  ps_reconnectTimer :: "nat option"
  ps_requestSeq :: nat
  ps_sent :: "client_message list"
  ps_fetches :: "(nat \<times> nat \<times> string) set"
  ps_retries :: "(nat \<times> nat \<times> nat) set"

definition new_sub :: "string \<Rightarrow> u64 \<Rightarrow> 'o order_sub" where
  "new_sub channel account = \<lparr>os_consumers = [], os_channel = channel, os_account = account,
     os_sub = [], os_seq = 0, os_cursor = [], os_staging = False, os_staged = [], os_orders = None,
     os_state = SubPending, os_stale = False, os_staleReason = [], os_staleOrderIDs = [],
     os_ready = False, os_retries = 0, os_retryTimer = None, os_confirmed = False, os_ackTimer = None\<rparr>"

definition newPrivateOrderStream :: "int \<Rightarrow> ('o, 'x) private_stream" where
  "newPrivateOrderStream maxQueue = \<lparr>ps_maxQueue = (if maxQueue \<le> 0 then 1000 else maxQueue),
     ps_sub = \<lambda>_. new_sub [] 0, ps_con = \<lambda>_. \<lparr>oc_sub = newSubscription 0, oc_log = []\<rparr>, ps_next = 0,
     ps_subs = [], ps_pending = Map.empty, ps_bySub = Map.empty, ps_unsubscribing = {},
     ps_sess = None, ps_conn = None, ps_connecting = False, ps_authSent = False,
     ps_reconnectAttempt = 0, ps_reconnectTimer = None, ps_requestSeq = 0, ps_sent = [],
     ps_fetches = {}, ps_retries = {}\<rparr>"

definition upd_sub :: "nat \<Rightarrow> ('o order_sub \<Rightarrow> 'o order_sub) \<Rightarrow> ('o, 'x) private_stream \<Rightarrow> ('o, 'x) private_stream" where
  "upd_sub i f p = p\<lparr>ps_sub := (ps_sub p)(i := f (ps_sub p i))\<rparr>"

definition upd_con :: "nat \<Rightarrow> (('o, 'x) order_consumer \<Rightarrow> ('o, 'x) order_consumer) \<Rightarrow>
    ('o, 'x) private_stream \<Rightarrow> ('o, 'x) private_stream" where
  "upd_con i f p = p\<lparr>ps_con := (ps_con p)(i := f (ps_con p i))\<rparr>"

definition isCurrent :: "nat \<Rightarrow> ('o, 'x) private_stream \<Rightarrow> bool" where
  "isCurrent s p \<longleftrightarrow> map_of (ps_subs p) (os_channel (ps_sub p s)) = Some s"

definition snapshotSubs :: "('o, 'x) private_stream \<Rightarrow> nat list" where
  "snapshotSubs p = map snd (ps_subs p)"

section \<open>Timing\<close>

definition heartbeatTimeout :: int where "heartbeatTimeout = 3 * 1000000000"
definition backoffBase :: int where "backoffBase = 500 * 1000000"
definition backoffMax :: int where "backoffMax = 10 * 1000000000"
definition stableAfter :: int where "stableAfter = 10 * 1000000000"

text \<open>\<open>r\<close> is the random number of \<open>rand.N(half + 1)\<close>.\<close>

definition private_backoff :: "nat \<Rightarrow> int \<Rightarrow> int" where
  "private_backoff attempt r =
     (let ceiling = (if attempt < 30 then min backoffMax (push_bit (attempt + 1) backoffBase) else backoffMax);
          half = ceiling div 2
      in half + r mod (half + 1))"

section \<open>Requests\<close>

definition nextRequestID :: "('o, 'x) private_stream \<Rightarrow> string \<times> ('o, 'x) private_stream" where
  "nextRequestID p = (let n = ps_requestSeq p + 1 in (itoa (int n), p\<lparr>ps_requestSeq := n\<rparr>))"

definition send :: "nat \<Rightarrow> client_message \<Rightarrow> ('o, 'x) private_stream \<Rightarrow> ('o, 'x) private_stream" where
  "send conn m p = (if ps_conn p \<noteq> Some conn then p else p\<lparr>ps_sent := ps_sent p @ [m]\<rparr>)"

definition unsubscribe :: "nat \<Rightarrow> string \<Rightarrow> ('o, 'x) private_stream \<Rightarrow> ('o, 'x) private_stream" where
  "unsubscribe conn serverSub p =
     (let (i, p1) = nextRequestID p;
          p2 = p1\<lparr>ps_unsubscribing := insert i (ps_unsubscribing p1)\<rparr>
      in send conn (CUnsubscribe i serverSub) p2)"

section \<open>Ending\<close>

text \<open>\<open>finish\<close>: the queue closes, with an error or not.\<close>

definition finish :: "nat \<Rightarrow> sdk_error option \<Rightarrow> ('o, 'x) private_stream \<Rightarrow> ('o, 'x) private_stream" where
  "finish c err p = upd_con c (\<lambda>con.
     let s = oc_sub con;
         s1 = (case err of None \<Rightarrow> s | Some e \<Rightarrow> rt_failLocked e s)
     in con\<lparr>oc_sub := rt_markFinished (s1\<lparr>rt_closed := True\<rparr>)\<rparr>) p"

definition clear_server_sub :: "'o order_sub \<Rightarrow> 'o order_sub" where
  "clear_server_sub s = s\<lparr>os_retryTimer := None, os_ackTimer := None, os_sub := [], os_seq := 0,
     os_ready := False, os_staging := False, os_staged := []\<rparr>"

definition detach :: "('o, 'x) private_stream \<Rightarrow> ('o, 'x) private_stream" where
  "detach p = fold (\<lambda>s. upd_sub s clear_server_sub) (snapshotSubs p)
     (p\<lparr>ps_conn := None, ps_authSent := False, ps_pending := Map.empty, ps_bySub := Map.empty,
        ps_unsubscribing := {}\<rparr>)"

definition shutdown :: "('o, 'x) private_stream \<Rightarrow> ('o, 'x) private_stream" where
  "shutdown p = (detach p)\<lparr>ps_reconnectTimer := None, ps_reconnectAttempt := 0, ps_connecting := False,
     ps_sess := None\<rparr>"

definition drop_pending :: "nat \<Rightarrow> (string \<rightharpoonup> (request_kind \<times> nat)) \<Rightarrow> (string \<rightharpoonup> (request_kind \<times> nat))" where
  "drop_pending s m = (\<lambda>i. case m i of
       Some (k, s') \<Rightarrow> if s' = s then None else Some (k, s')
     | None \<Rightarrow> None)"

definition drop_consumers :: "nat \<Rightarrow> sdk_error option \<Rightarrow> ('o, 'x) private_stream \<Rightarrow> ('o, 'x) private_stream" where
  "drop_consumers s err p =
     upd_sub s (\<lambda>st. st\<lparr>os_consumers := []\<rparr>) (fold (\<lambda>c. finish c err) (os_consumers (ps_sub p s)) p)"

definition teardown :: "nat \<Rightarrow> ('o, 'x) private_stream \<Rightarrow> ('o, 'x) private_stream" where
  "teardown s p =
     (if \<not> isCurrent s p then p
      else let p1 = p\<lparr>ps_subs := AList.delete (os_channel (ps_sub p s)) (ps_subs p)\<rparr>;
               p2 = drop_consumers s None p1;
               p3 = upd_sub s (\<lambda>st. st\<lparr>os_retryTimer := None, os_ackTimer := None\<rparr>) p2;
               p4 = (case ps_conn p3 of
                       Some conn \<Rightarrow> if os_sub (ps_sub p3 s) \<noteq> []
                         then unsubscribe conn (os_sub (ps_sub p3 s))
                                (p3\<lparr>ps_bySub := (ps_bySub p3)(os_sub (ps_sub p3 s) := None)\<rparr>)
                         else p3
                     | None \<Rightarrow> p3);
               p5 = upd_sub s (\<lambda>st. st\<lparr>os_sub := []\<rparr>) p4;
               p6 = p5\<lparr>ps_pending := drop_pending s (ps_pending p5)\<rparr>
           in if ps_subs p6 = [] then shutdown p6 else p6)"

section \<open>Delivering\<close>

definition private_overflow :: sdk_error where
  "private_overflow = QueueOverflowError ''private order stream queue full; consumer too slow''"

definition notify :: "nat \<Rightarrow> sdk_error \<Rightarrow> ('o, 'x) private_stream \<Rightarrow> ('o, 'x) private_stream" where
  "notify c err p = upd_con c (\<lambda>con. con\<lparr>oc_sub := rt_callErrorCallback (Some err) (oc_sub con)\<rparr>) p"

definition offer :: "nat \<Rightarrow> ('o, 'x) order_event \<Rightarrow> nat \<Rightarrow> ('o, 'x) private_stream \<Rightarrow> ('o, 'x) private_stream" where
  "offer s event c p =
     (let sub = oc_sub (ps_con p c) in
      if rt_closed sub then p
      else if length (rt_ch sub) < rt_cap sub
      then upd_con c (\<lambda>con. con\<lparr>oc_sub := sub\<lparr>rt_ch := rt_ch sub @ [event]\<rparr>, oc_log := oc_log con @ [event]\<rparr>) p
      else let p1 = upd_sub s (\<lambda>st. st\<lparr>os_consumers := remove1 c (os_consumers st)\<rparr>) p;
               p2 = notify c private_overflow (finish c (Some private_overflow) p1)
           in if os_consumers (ps_sub p2 s) = [] then teardown s p2 else p2)"

definition deliver :: "nat \<Rightarrow> ('o, 'x) order_event \<Rightarrow> ('o, 'x) private_stream \<Rightarrow> ('o, 'x) private_stream" where
  "deliver s event p = fold (offer s event) (os_consumers (ps_sub p s)) p"

definition report :: "sdk_error \<Rightarrow> nat \<Rightarrow> ('o, 'x) private_stream \<Rightarrow> ('o, 'x) private_stream" where
  "report err s p =
     fold (\<lambda>c q. notify c err (offer s (OrderStreamError err) c q)) (os_consumers (ps_sub p s)) p"

definition reportAll :: "sdk_error \<Rightarrow> ('o, 'x) private_stream \<Rightarrow> ('o, 'x) private_stream" where
  "reportAll err p = fold (report err) (snapshotSubs p) p"

text \<open>\<open>sortedOrders\<close>: by identifier.\<close>

definition sortedOrders :: "(u64 \<times> 'o) list \<Rightarrow> (u64 \<times> 'o) list" where
  "sortedOrders orders = sort_key (unat \<circ> fst) orders"

definition only_if :: "bool \<Rightarrow> ('a \<Rightarrow> 'a) \<Rightarrow> 'a \<Rightarrow> 'a" where
  "only_if b f x = (if b then f x else x)"

definition catchUp :: "nat \<Rightarrow> nat \<Rightarrow> ('o, 'x) private_stream \<Rightarrow> ('o, 'x) private_stream" where
  "catchUp s c p0 =
     (let p1 = only_if (os_state (ps_sub p0 s) = SubConnected) (offer s OrderStreamConnected c) p0;
          p2 = (case os_orders (ps_sub p1 s) of
                  Some orders \<Rightarrow> offer s (OrderSnapshot (sortedOrders orders)) c p1
                | None \<Rightarrow> p1);
          p3 = only_if (os_ready (ps_sub p2 s)) (offer s OrderReady c) p2
      in only_if (os_stale (ps_sub p3 s))
           (offer s (OrderStale True (os_staleReason (ps_sub p3 s)) (os_staleOrderIDs (ps_sub p3 s))) c) p3)"

definition terminate :: "sdk_error \<Rightarrow> nat \<Rightarrow> ('o, 'x) private_stream \<Rightarrow> ('o, 'x) private_stream" where
  "terminate err s p =
     (if \<not> isCurrent s p then p
      else let p1 = report err s p;
               p2 = (if os_state (ps_sub p1 s) \<noteq> SubDisconnected
                     then deliver s OrderStreamDisconnected (upd_sub s (\<lambda>st. st\<lparr>os_state := SubDisconnected\<rparr>) p1)
                     else p1);
               p3 = drop_consumers s (Some err) p2
           in teardown s p3)"

definition terminateAll :: "sdk_error \<Rightarrow> ('o, 'x) private_stream \<Rightarrow> ('o, 'x) private_stream" where
  "terminateAll err p = fold (terminate err) (snapshotSubs p) p"

section \<open>Subscribing on the server\<close>

text \<open>A new pending request; the token fetch it starts comes back as \<open>subscribe_fetched\<close>.\<close>

definition subscribeServer :: "nat \<Rightarrow> nat \<Rightarrow> ('o, 'x) private_stream \<Rightarrow> ('o, 'x) private_stream" where
  "subscribeServer conn s p =
     (if \<not> isCurrent s p then p
      else let (i, p1) = nextRequestID p
           in p1\<lparr>ps_pending := (ps_pending p1)(i \<mapsto> (RequestSubscribe, s)),
                  ps_fetches := insert (conn, s, i) (ps_fetches p1)\<rparr>)"

text \<open>\<open>afterFunc\<close>: a fresh timer, unless the run has ended.\<close>

definition new_timer :: "('o, 'x) private_stream \<Rightarrow> nat option \<times> ('o, 'x) private_stream" where
  "new_timer p = (case ps_sess p of
       None \<Rightarrow> (None, p)
     | Some _ \<Rightarrow> (Some (ps_next p), p\<lparr>ps_next := Suc (ps_next p)\<rparr>))"

definition retrySubscribe :: "nat \<Rightarrow> nat \<Rightarrow> ('o, 'x) private_stream \<Rightarrow> ('o, 'x) private_stream" where
  "retrySubscribe conn s p =
     (let (t, p1) = new_timer p;
          p2 = (case t of
                  Some t' \<Rightarrow> p1\<lparr>ps_retries := insert (conn, s, t') (ps_retries p1)\<rparr>
                | None \<Rightarrow> p1)
      in upd_sub s (\<lambda>st. st\<lparr>os_retryTimer := t, os_retries := os_retries st + 1\<rparr>) p2)"

definition retry_fired :: "nat \<Rightarrow> nat \<Rightarrow> nat \<Rightarrow> ('o, 'x) private_stream \<Rightarrow> ('o, 'x) private_stream" where
  "retry_fired conn s t p =
     (if os_retryTimer (ps_sub p s) \<noteq> Some t then p
      else let p1 = upd_sub s (\<lambda>st. st\<lparr>os_retryTimer := None\<rparr>) p
           in if ps_conn p1 = Some conn \<and> isCurrent s p1 \<and> os_sub (ps_sub p1 s) = []
              then subscribeServer conn s p1 else p1)"

definition isTerminalTokenError :: "sdk_error \<Rightarrow> bool" where
  "isTerminalTokenError err = as_auth err"

definition subscribe_fetched ::
  "nat \<Rightarrow> nat \<Rightarrow> string \<Rightarrow> string res \<Rightarrow> ('o, 'x) private_stream \<Rightarrow> ('o, 'x) private_stream" where
  "subscribe_fetched conn s i result p =
     (if \<not> (\<exists>k. ps_pending p i = Some (k, s)) then p
      else case result of
        Inl err \<Rightarrow>
          (let p1 = p\<lparr>ps_pending := (ps_pending p)(i := None)\<rparr> in
           if isTerminalTokenError err then terminate err s p1
           else retrySubscribe conn s (report err s p1))
      | Inr token \<Rightarrow>
          if ps_conn p \<noteq> Some conn then p
          else let p1 = send conn (CSubscribe i (os_account (ps_sub p s)) token (os_cursor (ps_sub p s))) p;
                   (t, p2) = new_timer p1
               in upd_sub s (\<lambda>st. st\<lparr>os_ackTimer := t\<rparr>) p2)"

definition subscribe_timeout :: sdk_error where
  "subscribe_timeout =
     RealtimeError ''private order stream subscribe timed out: subscription not confirmed''"

definition expireSubscribe :: "nat \<Rightarrow> nat \<Rightarrow> string \<Rightarrow> ('o, 'x) private_stream \<Rightarrow> ('o, 'x) private_stream" where
  "expireSubscribe conn s i p =
     (if \<not> (\<exists>k. ps_pending p i = Some (k, s)) then p
      else if \<not> os_confirmed (ps_sub p s) then terminate subscribe_timeout s p
      else let p1 = report subscribe_timeout s (p\<lparr>ps_pending := (ps_pending p)(i := None)\<rparr>)
           in if ps_conn p1 = Some conn \<and> isCurrent s p1 \<and> os_sub (ps_sub p1 s) = []
              then retrySubscribe conn s p1 else p1)"

definition ack_fired :: "nat \<Rightarrow> nat \<Rightarrow> string \<Rightarrow> nat \<Rightarrow> ('o, 'x) private_stream \<Rightarrow> ('o, 'x) private_stream" where
  "ack_fired conn s i t p =
     (if os_ackTimer (ps_sub p s) \<noteq> Some t then p
      else expireSubscribe conn s i (upd_sub s (\<lambda>st. st\<lparr>os_ackTimer := None\<rparr>) p))"

text \<open>\<open>refresh\<close> after its token fetch; \<open>serverSub\<close> is the server subscription it was for.\<close>

definition refresh_token ::
  "nat \<Rightarrow> nat \<Rightarrow> string \<Rightarrow> string res \<Rightarrow> ('o, 'x) private_stream \<Rightarrow> ('o, 'x) private_stream" where
  "refresh_token conn s serverSub result p =
     (if ps_conn p \<noteq> Some conn \<or> os_sub (ps_sub p s) \<noteq> serverSub \<or> \<not> isCurrent s p then p
      else case result of
        Inl err \<Rightarrow> report err s p
      | Inr token \<Rightarrow>
          let (i, p1) = nextRequestID p;
              p2 = p1\<lparr>ps_pending := (ps_pending p1)(i \<mapsto> (RequestRefresh, s))\<rparr>
          in send conn (CSubscribeRefresh i serverSub token) p2)"

definition resubscribe :: "nat \<Rightarrow> nat \<Rightarrow> ('o, 'x) private_stream \<Rightarrow> ('o, 'x) private_stream" where
  "resubscribe conn s p =
     (let p1 = (if os_sub (ps_sub p s) \<noteq> []
                then unsubscribe conn (os_sub (ps_sub p s))
                       (p\<lparr>ps_bySub := (ps_bySub p)(os_sub (ps_sub p s) := None)\<rparr>)
                else p);
          p2 = upd_sub s (\<lambda>st. st\<lparr>os_sub := [], os_seq := 0, os_ready := False, os_staging := False,
                                  os_staged := []\<rparr>) p1;
          p3 = (if os_retries (ps_sub p2 s) > 0 then retrySubscribe conn s p2
                else subscribeServer conn s (upd_sub s (\<lambda>st. st\<lparr>os_retries := 1\<rparr>) p2))
      in if os_state (ps_sub p3 s) = SubConnected
         then deliver s OrderStreamDisconnected (upd_sub s (\<lambda>st. st\<lparr>os_state := SubDisconnected\<rparr>) p3)
         else p3)"

section \<open>Frames\<close>

datatype request_error_code = CURSOR_INVALID | SUBSCRIPTION_UNKNOWN | OtherCode string

datatype ('o, 'x) server_frame =
  FSubscribed string
| FSubscribeRefreshed string
| FUnsubscribed string
| FError string request_error_code string
| FTokenExpiring
| FSnapshotBegin
| FSnapshotPage "(u64 \<times> 'o) list"
| FSnapshotEnd nat string
| FUnit "(u64 \<times> 'o) list" "u64 list" string "'x list"
| FCovered string
| FReady
| FResyncRequired
| FUnavailable string "u64 list"
| FAvailable
| FSubscribeExpiring
| FOther

text \<open>\<open>sub\<close> and \<open>seq\<close> of the message; a frame that is not binary or does not unmarshal is
  \<open>BadFrame\<close>.\<close>

datatype ('o, 'x) server_message = Frame string u64 "('o, 'x) server_frame" | BadFrame string

fun code_text :: "request_error_code \<Rightarrow> string" where
  "code_text CURSOR_INVALID = ''CURSOR_INVALID''"
| "code_text SUBSCRIPTION_UNKNOWN = ''SUBSCRIPTION_UNKNOWN''"
| "code_text (OtherCode c) = c"

definition onRequestError ::
  "nat \<Rightarrow> string \<Rightarrow> string \<Rightarrow> request_error_code \<Rightarrow> string \<Rightarrow> ('o, 'x) private_stream \<Rightarrow> ('o, 'x) private_stream" where
  "onRequestError conn serverSub i code message p =
     (if i \<noteq> [] \<and> i \<in> ps_unsubscribing p
      then p\<lparr>ps_unsubscribing := ps_unsubscribing p - {i}\<rparr>
      else if i \<noteq> [] \<and> ps_pending p i = None then p
      else let request = (if i \<noteq> [] then ps_pending p i else None);
               p1 = (if i \<noteq> [] then p\<lparr>ps_pending := (ps_pending p)(i := None)\<rparr> else p);
               target = (case request of Some (k, s) \<Rightarrow> Some s | None \<Rightarrow> ps_bySub p1 serverSub);
               err = RealtimeError (if message = []
                       then ''private order stream request failed: '' @ code_text code else message)
           in case target of
                None \<Rightarrow> reportAll err p1
              | Some s \<Rightarrow>
                  if request = Some (RequestSubscribe, s) then
                    (if code = CURSOR_INVALID
                     then subscribeServer conn s (upd_sub s (\<lambda>st. st\<lparr>os_cursor := []\<rparr>) p1)
                     else terminate err s p1)
                  else if code = SUBSCRIPTION_UNKNOWN \<and> os_sub (ps_sub p1 s) = serverSub
                  then resubscribe conn s
                         (upd_sub s (\<lambda>st. st\<lparr>os_sub := []\<rparr>)
                           (p1\<lparr>ps_bySub := (ps_bySub p1)(serverSub := None)\<rparr>))
                  else report err s p1)"

definition onSubscribed :: "nat \<Rightarrow> string \<Rightarrow> string \<Rightarrow> ('o, 'x) private_stream \<Rightarrow> ('o, 'x) private_stream" where
  "onSubscribed conn serverSub i p = (case ps_pending p i of
       Some (RequestSubscribe, s) \<Rightarrow>
         (let p1 = p\<lparr>ps_pending := (ps_pending p)(i := None), ps_bySub := (ps_bySub p)(serverSub \<mapsto> s)\<rparr>;
              p2 = upd_sub s (\<lambda>st. st\<lparr>os_ackTimer := None, os_confirmed := True, os_sub := serverSub,
                                      os_seq := 0, os_ready := False\<rparr>) p1;
              p3 = (if os_state (ps_sub p2 s) \<noteq> SubConnected
                    then deliver s OrderStreamConnected (upd_sub s (\<lambda>st. st\<lparr>os_state := SubConnected\<rparr>) p2)
                    else p2)
          in if os_stale (ps_sub p3 s)
             then deliver s (OrderStale False [] [])
                    (upd_sub s (\<lambda>st. st\<lparr>os_stale := False, os_staleReason := [], os_staleOrderIDs := []\<rparr>) p3)
             else p3)
     | _ \<Rightarrow> if serverSub \<noteq> [] then unsubscribe conn serverSub p else p)"

definition put_orders :: "(u64 \<times> 'o) list \<Rightarrow> (u64 \<times> 'o) list \<Rightarrow> (u64 \<times> 'o) list" where
  "put_orders orders m = fold (\<lambda>(i, order). AList.update i order) orders m"

definition remove_orders :: "u64 list \<Rightarrow> (u64 \<times> 'o) list \<Rightarrow> (u64 \<times> 'o) list" where
  "remove_orders ids m = fold AList.delete ids m"

text \<open>The frames of a subscription's stream, once the sequence number is counted.\<close>

definition onStreamFrame ::
  "nat \<Rightarrow> nat \<Rightarrow> ('o, 'x) server_frame \<Rightarrow> ('o, 'x) private_stream \<Rightarrow> ('o, 'x) private_stream" where
  "onStreamFrame conn s frame p = (let st = ps_sub p s in case frame of
       FSnapshotBegin \<Rightarrow> upd_sub s (\<lambda>st. st\<lparr>os_staging := True, os_staged := []\<rparr>) p
     | FSnapshotPage orders \<Rightarrow>
         if os_staging st then upd_sub s (\<lambda>st. st\<lparr>os_staged := os_staged st @ orders\<rparr>) p else p
     | FSnapshotEnd count cursor \<Rightarrow>
         (let p1 = upd_sub s (\<lambda>st. st\<lparr>os_staging := False, os_staged := []\<rparr>) p in
          if \<not> os_staging st \<or> length (os_staged st) \<noteq> count
          then resubscribe conn s (upd_sub s (\<lambda>st. st\<lparr>os_cursor := []\<rparr>) p1)
          else deliver s (OrderSnapshot (os_staged st))
                 (upd_sub s (\<lambda>st'. st'\<lparr>os_cursor := cursor, os_retries := 0,
                    os_orders := Some (put_orders (os_staged st) [])\<rparr>) p1))
     | FUnit orders removed cursor events \<Rightarrow>
         deliver s (OrderUnit orders removed events)
           (upd_sub s (\<lambda>st. st\<lparr>os_cursor := cursor, os_retries := 0,
              os_orders := (case os_orders st of
                 None \<Rightarrow> None
               | Some m \<Rightarrow> Some (remove_orders removed (put_orders orders m)))\<rparr>) p)
     | FCovered cursor \<Rightarrow> upd_sub s (\<lambda>st. st\<lparr>os_cursor := cursor, os_retries := 0\<rparr>) p
     | FReady \<Rightarrow>
         (let p1 = upd_sub s (\<lambda>st. st\<lparr>os_retries := 0\<rparr>) p in
          if \<not> os_ready st then deliver s OrderReady (upd_sub s (\<lambda>st. st\<lparr>os_ready := True\<rparr>) p1) else p1)
     | FResyncRequired \<Rightarrow> upd_sub s (\<lambda>st. st\<lparr>os_staging := False, os_staged := []\<rparr>) p
     | FUnavailable reason ids \<Rightarrow>
         deliver s (OrderStale True reason ids)
           (upd_sub s (\<lambda>st. st\<lparr>os_stale := True, os_staleReason := reason, os_staleOrderIDs := ids\<rparr>) p)
     | FAvailable \<Rightarrow>
         deliver s (OrderStale False [] [])
           (upd_sub s (\<lambda>st. st\<lparr>os_stale := False, os_staleReason := [], os_staleOrderIDs := []\<rparr>) p)
     | FUnsubscribed i \<Rightarrow>
         resubscribe conn s
           (upd_sub s (\<lambda>st. st\<lparr>os_sub := []\<rparr>) (p\<lparr>ps_bySub := (ps_bySub p)(os_sub st := None)\<rparr>))
     | _ \<Rightarrow> p)"

text \<open>A frame with a sequence number must be the next one of its subscription. A token fetch that
  a frame starts (\<open>TokenExpiring\<close>, \<open>SubscribeExpiring\<close>) comes back as an event.\<close>

definition onStream ::
  "nat \<Rightarrow> string \<Rightarrow> u64 \<Rightarrow> ('o, 'x) server_frame \<Rightarrow> ('o, 'x) private_stream \<Rightarrow> ('o, 'x) private_stream" where
  "onStream conn serverSub seq frame p = (case ps_bySub p serverSub of
       None \<Rightarrow> p
     | Some s \<Rightarrow>
         if seq > 0 \<and> seq \<noteq> os_seq (ps_sub p s) + 1 then resubscribe conn s p
         else onStreamFrame conn s frame
                (if seq > 0 then upd_sub s (\<lambda>st. st\<lparr>os_seq := seq\<rparr>) p else p))"

definition onFrame :: "nat \<Rightarrow> ('o, 'x) server_message \<Rightarrow> ('o, 'x) private_stream \<Rightarrow> ('o, 'x) private_stream" where
  "onFrame conn msg p =
     (if ps_conn p \<noteq> Some conn then p
      else case msg of
        BadFrame reason \<Rightarrow> reportAll (RealtimeError reason) p
      | Frame serverSub seq frame \<Rightarrow> (case frame of
          FSubscribed i \<Rightarrow> onSubscribed conn serverSub i p
        | FSubscribeRefreshed i \<Rightarrow> p\<lparr>ps_pending := (ps_pending p)(i := None)\<rparr>
        | FUnsubscribed i \<Rightarrow>
            if i \<in> ps_unsubscribing p then p\<lparr>ps_unsubscribing := ps_unsubscribing p - {i}\<rparr>
            else onStream conn serverSub seq frame p
        | FError i code message \<Rightarrow> onRequestError conn serverSub i code message p
        | FTokenExpiring \<Rightarrow> p
        | _ \<Rightarrow> onStream conn serverSub seq frame p))"

section \<open>The connection\<close>

definition scheduleReconnect :: "('o, 'x) private_stream \<Rightarrow> ('o, 'x) private_stream" where
  "scheduleReconnect p =
     (let (t, p1) = new_timer (p\<lparr>ps_reconnectAttempt := ps_reconnectAttempt p + 1\<rparr>)
      in p1\<lparr>ps_reconnectTimer := t\<rparr>)"

text \<open>\<open>open\<close>: the fetch and the dial it starts come back as \<open>opened\<close>.\<close>

definition open_conn :: "('o, 'x) private_stream \<Rightarrow> ('o, 'x) private_stream" where
  "open_conn p = p\<lparr>ps_connecting := True\<rparr>"

definition reconnect_fired :: "nat \<Rightarrow> ('o, 'x) private_stream \<Rightarrow> ('o, 'x) private_stream" where
  "reconnect_fired t p =
     (if ps_reconnectTimer p \<noteq> Some t then p
      else let p1 = p\<lparr>ps_reconnectTimer := None\<rparr>
           in if ps_subs p1 \<noteq> [] \<and> ps_conn p1 = None \<and> \<not> ps_connecting p1 then open_conn p1 else p1)"

definition authenticate :: "nat \<Rightarrow> string \<Rightarrow> ('o, 'x) private_stream \<Rightarrow> ('o, 'x) private_stream" where
  "authenticate conn token p =
     (let p1 = (send conn (CAuth token) p)\<lparr>ps_authSent := True\<rparr>
      in fold (subscribeServer conn) (snapshotSubs p1) p1)"

text \<open>\<open>sess\<close> is the run the fetch belongs to; \<open>Inl (b, err)\<close> is a failure, \<open>b\<close> that it was the
  token fetch; a new connection is the next pointer.\<close>

definition opened ::
  "nat \<Rightarrow> ((bool \<times> sdk_error) + string) \<Rightarrow> ('o, 'x) private_stream \<Rightarrow> ('o, 'x) private_stream" where
  "opened sess result p =
     (if ps_sess p \<noteq> Some sess then p
      else let p1 = p\<lparr>ps_connecting := False\<rparr>
           in case result of
                Inl (tokenFailed, err) \<Rightarrow>
                  if tokenFailed \<and> isTerminalTokenError err then terminateAll err p1
                  else scheduleReconnect (reportAll err p1)
              | Inr token \<Rightarrow>
                  let conn = ps_next p1
                  in authenticate conn token (p1\<lparr>ps_conn := Some conn, ps_next := Suc conn\<rparr>))"

definition reauthenticated :: "nat \<Rightarrow> string res \<Rightarrow> ('o, 'x) private_stream \<Rightarrow> ('o, 'x) private_stream" where
  "reauthenticated conn result p =
     (if ps_conn p \<noteq> Some conn then p
      else case result of
        Inl err \<Rightarrow> if isTerminalTokenError err then terminateAll err p else reportAll err p
      | Inr token \<Rightarrow> send conn (CAuth token) p)"

definition disconnect_sub :: "nat \<Rightarrow> ('o, 'x) private_stream \<Rightarrow> ('o, 'x) private_stream" where
  "disconnect_sub s p =
     (if os_state (ps_sub p s) = SubConnected
      then deliver s OrderStreamDisconnected (upd_sub s (\<lambda>st. st\<lparr>os_state := SubDisconnected\<rparr>) p)
      else p)"

text \<open>\<open>up\<close> is \<open>time.Since(authSentAt)\<close>.\<close>

definition onClosed :: "nat \<Rightarrow> int \<Rightarrow> string \<Rightarrow> int \<Rightarrow> ('o, 'x) private_stream \<Rightarrow> ('o, 'x) private_stream" where
  "onClosed conn code reason up p =
     (if ps_conn p \<noteq> Some conn then p
      else let stable = (ps_authSent p \<and> up \<ge> stableAfter);
               p1 = detach p;
               p2 = (if stable then p1\<lparr>ps_reconnectAttempt := 0\<rparr> else p1)
           in if ps_subs p2 = [] then p2
              else if code = 4400 \<or> code = 4403
              then terminateAll (RealtimeError (if reason = []
                     then ''private WebSocket closed with code '' @ itoa code else reason)) p2
              else fold disconnect_sub (snapshotSubs p2) (scheduleReconnect p2))"

section \<open>Consumers\<close>

definition remove_consumer :: "nat \<Rightarrow> nat \<Rightarrow> ('o, 'x) private_stream \<Rightarrow> ('o, 'x) private_stream" where
  "remove_consumer s c p =
     (if c \<in> set (os_consumers (ps_sub p s))
      then let p1 = upd_sub s (\<lambda>st. st\<lparr>os_consumers := remove1 c (os_consumers st)\<rparr>) p;
               p2 = finish c None p1
           in if os_consumers (ps_sub p2 s) = [] then teardown s p2 else p2
      else p)"

text \<open>The consumer, its server subscription and the new state; \<open>enc\<close> is the base58 encoder.\<close>

definition subscribe ::
  "(byte list \<Rightarrow> string) \<Rightarrow> u64 \<Rightarrow> ('o, 'x) private_stream \<Rightarrow> nat \<times> nat \<times> ('o, 'x) private_stream" where
  "subscribe enc account p =
     (let channel = privateOrdersChannelPrefix @ FormatID enc account;
          c = ps_next p;
          p1 = upd_con c (\<lambda>_. \<lparr>oc_sub = newSubscription (ps_maxQueue p), oc_log = []\<rparr>)
                 (p\<lparr>ps_next := Suc c\<rparr>);
          p2 = (case ps_sess p1 of
                  None \<Rightarrow> p1\<lparr>ps_sess := Some (ps_next p1), ps_next := Suc (ps_next p1)\<rparr>
                | Some _ \<Rightarrow> p1)
      in case map_of (ps_subs p2) channel of
           Some s \<Rightarrow>
             (c, s, catchUp s c (upd_sub s (\<lambda>st. st\<lparr>os_consumers := c # os_consumers st\<rparr>) p2))
         | None \<Rightarrow>
             (let s = ps_next p2;
                  p3 = upd_sub s (\<lambda>_. (new_sub channel account)\<lparr>os_consumers := [c]\<rparr>)
                         (p2\<lparr>ps_next := Suc s, ps_subs := (channel, s) # ps_subs p2\<rparr>)
              in (c, s,
                  case ps_conn p3 of
                    Some conn \<Rightarrow> if ps_authSent p3 then subscribeServer conn s p3 else p3
                  | None \<Rightarrow> if \<not> ps_connecting p3 \<and> ps_reconnectTimer p3 = None then open_conn p3 else p3)))"

text \<open>A consumer reads an event from its queue.\<close>

definition consume :: "nat \<Rightarrow> ('o, 'x) private_stream \<Rightarrow> ('o, 'x) private_stream" where
  "consume c p = upd_con c (\<lambda>con. con\<lparr>oc_sub := fst (rt_receive (oc_sub con))\<rparr>) p"

section \<open>The skeleton\<close>

text \<open>The part of the state that says what is subscribed where: events that only queue, close or
  record leave it alone.\<close>

definition skel where
  "skel p = (ps_subs p, \<lambda>s. (os_channel (ps_sub p s), os_sub (ps_sub p s), os_retryTimer (ps_sub p s)),
     ps_pending p, ps_bySub p, ps_sess p, ps_conn p, ps_connecting p, ps_authSent p, ps_reconnectTimer p,
     ps_fetches p, ps_retries p)"

definition cur :: "nat \<Rightarrow> ('o, 'x) private_stream \<Rightarrow> bool" where
  "cur s p \<longleftrightarrow> (os_channel (ps_sub p s), s) \<in> set (ps_subs p)"

text \<open>\<open>grows p q\<close>: the same skeleton; only the counters went on.\<close>

definition grows :: "('o, 'x) private_stream \<Rightarrow> ('o, 'x) private_stream \<Rightarrow> bool" where
  "grows p q \<longleftrightarrow> skel q = skel p \<and> ps_requestSeq p \<le> ps_requestSeq q \<and> ps_next p \<le> ps_next q"

lemma grows_refl [simp]: "grows p p"
  by (simp add: grows_def)

lemma grows_trans: "grows p q \<Longrightarrow> grows q r \<Longrightarrow> grows p r"
  by (auto simp: grows_def)

lemma grows_upd_con [simp]: "grows p (upd_con c f p)"
  by (simp add: grows_def skel_def upd_con_def)

lemma grows_finish [simp]: "grows p (finish c e p)"
  by (simp add: finish_def)

lemma grows_notify [simp]: "grows p (notify c e p)"
  by (simp add: notify_def)

lemma grows_upd_sub:
  "os_channel (f (ps_sub p s)) = os_channel (ps_sub p s) \<Longrightarrow> os_sub (f (ps_sub p s)) = os_sub (ps_sub p s)
    \<Longrightarrow> os_retryTimer (f (ps_sub p s)) = os_retryTimer (ps_sub p s) \<Longrightarrow> grows p (upd_sub s f p)"
  by (simp add: grows_def skel_def upd_sub_def fun_eq_iff)

lemma grows_send [simp]: "grows p (send conn m p)"
  by (simp add: grows_def skel_def send_def)

lemma grows_request: "nextRequestID p = (i, q) \<Longrightarrow> grows p q"
  by (auto simp: nextRequestID_def Let_def grows_def skel_def)

lemma grows_unsubscribe [simp]: "grows p (unsubscribe conn k p)"
proof -
  have "grows p (p\<lparr>ps_requestSeq := n, ps_unsubscribing := u\<rparr>)" if "ps_requestSeq p \<le> n" for n u
    using that by (simp add: grows_def skel_def)
  then show ?thesis
    by (auto simp: unsubscribe_def nextRequestID_def Let_def intro!: grows_trans [OF _ grows_send])
qed

lemma grows_fold: "(\<And>x q. grows q (f x q)) \<Longrightarrow> grows p (fold f xs p)"
  by (induction xs arbitrary: p) (auto intro: grows_trans)

lemma grows_drop_consumers [simp]: "grows p (drop_consumers s e p)"
  unfolding drop_consumers_def
  by (rule grows_trans [OF grows_fold grows_upd_sub]) simp_all

lemma grows_timer: "new_timer p = (t, q) \<Longrightarrow> grows p q \<and> (ps_sess p \<noteq> None \<longrightarrow> t \<noteq> None)"
  by (auto simp: new_timer_def grows_def skel_def split: option.splits)

section \<open>The invariant of the skeleton\<close>

text \<open>
  \<open>stream_ok g X p\<close>: subscriptions are keyed by their channel; a run exists exactly while there
  are some; pending requests belong to current subscriptions; without a
  connection there are neither, and (if \<open>g\<close>) a connection attempt is under way or scheduled,
  but never two; with one, every subscription outside \<open>X\<close> is confirmed, or has asked the server,
  or will ask when its timer fires.
\<close>

definition waits :: "('o, 'x) private_stream \<Rightarrow> nat \<Rightarrow> bool" where
  "waits p s \<longleftrightarrow> (\<exists>i. ps_pending p i = Some (RequestSubscribe, s)) \<or> os_retryTimer (ps_sub p s) \<noteq> None"

definition keyed_subs :: "('o, 'x) private_stream \<Rightarrow> bool" where
  "keyed_subs p \<longleftrightarrow> distinct (map fst (ps_subs p))
     \<and> (\<forall>(ch, s) \<in> set (ps_subs p). os_channel (ps_sub p s) = ch \<and> s < ps_next p)"

definition owned_requests :: "('o, 'x) private_stream \<Rightarrow> bool" where
  "owned_requests p \<longleftrightarrow>
     (\<forall>i k s. ps_pending p i = Some (k, s) \<longrightarrow> cur s p \<and> (\<exists>n. n \<le> ps_requestSeq p \<and> i = itoa (int n)))"

definition link_ok :: "bool \<Rightarrow> ('o, 'x) private_stream \<Rightarrow> bool" where
  "link_ok g p \<longleftrightarrow> (ps_subs p = [] \<longleftrightarrow> ps_sess p = None)
     \<and> (ps_subs p = [] \<longrightarrow> ps_conn p = None \<and> ps_reconnectTimer p = None \<and> \<not> ps_connecting p)
     \<and> (ps_authSent p \<longleftrightarrow> ps_conn p \<noteq> None)
     \<and> (ps_conn p \<noteq> None \<or> ps_connecting p \<longrightarrow> ps_reconnectTimer p = None)
     \<and> (ps_conn p \<noteq> None \<longrightarrow> \<not> ps_connecting p)
     \<and> (g \<longrightarrow> ps_subs p \<noteq> [] \<longrightarrow> ps_conn p = None \<longrightarrow> ps_connecting p \<or> ps_reconnectTimer p \<noteq> None)"

definition offline_clear :: "('o, 'x) private_stream \<Rightarrow> bool" where
  "offline_clear p \<longleftrightarrow> (ps_conn p = None \<longrightarrow> ps_pending p = Map.empty \<and> ps_bySub p = Map.empty
     \<and> (\<forall>s. cur s p \<longrightarrow> os_sub (ps_sub p s) = [] \<and> os_retryTimer (ps_sub p s) = None))"

text \<open>A fetch whose request is still pending, and a timer that is still set, are of the current
  connection.\<close>

definition captured :: "('o, 'x) private_stream \<Rightarrow> bool" where
  "captured p \<longleftrightarrow>
     (\<forall>c s i. (c, s, i) \<in> ps_fetches p \<longrightarrow> (\<exists>n. n \<le> ps_requestSeq p \<and> i = itoa (int n))
        \<and> (\<forall>k. ps_pending p i = Some (k, s) \<longrightarrow> ps_conn p = Some c))
     \<and> (\<forall>c s t. (c, s, t) \<in> ps_retries p \<longrightarrow> t < ps_next p
        \<and> (cur s p \<and> os_retryTimer (ps_sub p s) = Some t \<longrightarrow> ps_conn p = Some c))"

definition none_stuck :: "nat set \<Rightarrow> ('o, 'x) private_stream \<Rightarrow> bool" where
  "none_stuck X p \<longleftrightarrow> (ps_conn p \<noteq> None \<longrightarrow>
     (\<forall>s. cur s p \<and> s \<notin> X \<and> os_sub (ps_sub p s) = [] \<longrightarrow> waits p s))"

definition stream_ok :: "bool \<Rightarrow> nat set \<Rightarrow> ('o, 'x) private_stream \<Rightarrow> bool" where
  "stream_ok g X p \<longleftrightarrow>
     keyed_subs p \<and> owned_requests p \<and> link_ok g p \<and> offline_clear p \<and> captured p \<and> none_stuck X p"

lemma cur_iff: "keyed_subs p \<Longrightarrow> isCurrent s p \<longleftrightarrow> cur s p"
  by (auto simp: keyed_subs_def isCurrent_def cur_def)

lemma grows_fields:
  assumes "grows p q"
  shows "ps_subs q = ps_subs p" "ps_pending q = ps_pending p" "ps_bySub q = ps_bySub p"
    "ps_sess q = ps_sess p" "ps_conn q = ps_conn p" "ps_connecting q = ps_connecting p"
    "ps_authSent q = ps_authSent p" "ps_reconnectTimer q = ps_reconnectTimer p"
    "os_channel (ps_sub q s) = os_channel (ps_sub p s)" "os_sub (ps_sub q s) = os_sub (ps_sub p s)"
    "os_retryTimer (ps_sub q s) = os_retryTimer (ps_sub p s)"
    "ps_requestSeq p \<le> ps_requestSeq q" "ps_next p \<le> ps_next q" "cur s q = cur s p" "waits q s = waits p s"
    "ps_fetches q = ps_fetches p" "ps_retries q = ps_retries p"
  using assms by (simp_all add: grows_def skel_def cur_def waits_def fun_eq_iff)

lemma stream_ok_grows:
  assumes "stream_ok g X p" and "grows p q"
  shows "stream_ok g X q"
proof -
  note f = grows_fields [OF assms(2)]
  from assms(1) have a: "keyed_subs p" "owned_requests p" "link_ok g p" "offline_clear p" "none_stuck X p"
    "captured p" by (simp_all add: stream_ok_def)
  have "captured q"
    using a(6) le_trans [OF _ f(12)] less_le_trans [OF _ f(13)] unfolding captured_def f(2,5,11,14,16,17)
    by blast
  moreover have "keyed_subs q"
    using a(1) less_le_trans [OF _ f(13)] unfolding keyed_subs_def f(1,9) by fast
  moreover have "owned_requests q"
    using a(2) le_trans [OF _ f(12)] unfolding owned_requests_def f(2,14) by blast
  moreover have "link_ok g q" using a(3) by (simp add: link_ok_def f)
  moreover have "offline_clear q" using a(4) by (simp add: offline_clear_def f)
  moreover have "none_stuck X q" using a(5) by (simp add: none_stuck_def f)
  ultimately show ?thesis by (simp add: stream_ok_def)
qed

lemma stream_ok_weaken: "stream_ok g X p \<Longrightarrow> X \<subseteq> Y \<Longrightarrow> g' \<longrightarrow> g \<Longrightarrow> stream_ok g' Y p"
  unfolding stream_ok_def link_ok_def none_stuck_def by blast

lemma stream_ok_new: "stream_ok True {} (newPrivateOrderStream n)"
  by (simp add: stream_ok_def keyed_subs_def owned_requests_def link_ok_def offline_clear_def
      none_stuck_def captured_def newPrivateOrderStream_def cur_def)

section \<open>Ending keeps the skeleton\<close>

lemma fold_upd_sub: "\<exists>h. fold (\<lambda>s. upd_sub s f) xs p = p\<lparr>ps_sub := h\<rparr>"
proof (induction xs arbitrary: p)
  case (Cons a xs)
  from Cons [of "upd_sub a f p"] show ?case by (auto simp: upd_sub_def)
next
  case Nil
  show ?case by (rule exI [of _ "ps_sub p"]) simp
qed

lemma detach_sub_at:
  assumes "distinct xs"
  shows "ps_sub (fold (\<lambda>s. upd_sub s f) xs p) i = (if i \<in> set xs then f (ps_sub p i) else ps_sub p i)"
  using assms by (induction xs arbitrary: p) (auto simp: upd_sub_def)

lemma keyed_distinct: "keyed_subs p \<Longrightarrow> distinct (map snd (ps_subs p))"
proof -
  assume k: "keyed_subs p"
  have "map fst (ps_subs p) = map (\<lambda>s. os_channel (ps_sub p s)) (map snd (ps_subs p))"
    using k by (auto simp: keyed_subs_def)
  with k show ?thesis by (metis distinct_map keyed_subs_def)
qed

lemma cur_snd: "keyed_subs p \<Longrightarrow> cur s p \<longleftrightarrow> s \<in> snd ` set (ps_subs p)"
  by (force simp: keyed_subs_def cur_def)

lemma detach_fields:
  "ps_subs (detach p) = ps_subs p" "ps_pending (detach p) = Map.empty" "ps_bySub (detach p) = Map.empty"
  "ps_sess (detach p) = ps_sess p" "ps_conn (detach p) = None" "ps_connecting (detach p) = ps_connecting p"
  "ps_authSent (detach p) = False" "ps_reconnectTimer (detach p) = ps_reconnectTimer p"
  "ps_next (detach p) = ps_next p" "ps_requestSeq (detach p) = ps_requestSeq p"
  "ps_con (detach p) = ps_con p" "ps_reconnectAttempt (detach p) = ps_reconnectAttempt p"
  "ps_fetches (detach p) = ps_fetches p" "ps_retries (detach p) = ps_retries p"
proof -
  obtain h where "detach p = (p\<lparr>ps_conn := None, ps_authSent := False, ps_pending := Map.empty,
      ps_bySub := Map.empty, ps_unsubscribing := {}\<rparr>)\<lparr>ps_sub := h\<rparr>"
    unfolding detach_def using fold_upd_sub by blast
  then show "ps_subs (detach p) = ps_subs p" "ps_pending (detach p) = Map.empty"
    "ps_bySub (detach p) = Map.empty" "ps_sess (detach p) = ps_sess p" "ps_conn (detach p) = None"
    "ps_connecting (detach p) = ps_connecting p" "ps_authSent (detach p) = False"
    "ps_reconnectTimer (detach p) = ps_reconnectTimer p" "ps_next (detach p) = ps_next p"
    "ps_requestSeq (detach p) = ps_requestSeq p" "ps_con (detach p) = ps_con p"
    "ps_reconnectAttempt (detach p) = ps_reconnectAttempt p" "ps_fetches (detach p) = ps_fetches p"
    "ps_retries (detach p) = ps_retries p"
    by simp_all
qed

lemma detach_sub:
  "keyed_subs p \<Longrightarrow> ps_sub (detach p) s = (if cur s p then clear_server_sub (ps_sub p s) else ps_sub p s)"
  by (simp add: detach_def snapshotSubs_def detach_sub_at keyed_distinct cur_snd)

lemma clear_channel [simp]: "os_channel (clear_server_sub s) = os_channel s" "os_sub (clear_server_sub s) = []"
  "os_retryTimer (clear_server_sub s) = None"
  by (simp_all add: clear_server_sub_def)

lemma cur_detach: "keyed_subs p \<Longrightarrow> cur s (detach p) = cur s p"
  by (simp add: cur_def detach_fields detach_sub)

lemma stream_ok_detach:
  assumes "stream_ok g X p"
  shows "stream_ok False {} (detach p)"
proof -
  have k: "keyed_subs p" and l: "link_ok g p" using assms by (simp_all add: stream_ok_def)
  have "keyed_subs (detach p)" using k by (auto simp: keyed_subs_def detach_fields detach_sub [OF k])
  moreover have "link_ok False (detach p)" using l by (auto simp: link_ok_def detach_fields)
  moreover have "offline_clear (detach p)" 
    using cur_detach [OF k] by (simp add: offline_clear_def detach_fields detach_sub [OF k])
  moreover have "captured (detach p)"
    using assms cur_detach [OF k] by (auto simp: stream_ok_def captured_def detach_fields detach_sub [OF k])
  ultimately show ?thesis by (simp add: stream_ok_def owned_requests_def none_stuck_def detach_fields)
qed

text \<open>A torn-down subscription is gone, and the others are as they were.\<close>

lemma upd_sub_fields [simp]:
  "ps_subs (upd_sub s f p) = ps_subs p" "ps_pending (upd_sub s f p) = ps_pending p"
  "ps_bySub (upd_sub s f p) = ps_bySub p" "ps_sess (upd_sub s f p) = ps_sess p"
  "ps_conn (upd_sub s f p) = ps_conn p" "ps_connecting (upd_sub s f p) = ps_connecting p"
  "ps_authSent (upd_sub s f p) = ps_authSent p" "ps_reconnectTimer (upd_sub s f p) = ps_reconnectTimer p"
  "ps_requestSeq (upd_sub s f p) = ps_requestSeq p" "ps_next (upd_sub s f p) = ps_next p"
  "ps_con (upd_sub s f p) = ps_con p" "ps_fetches (upd_sub s f p) = ps_fetches p"
  "ps_retries (upd_sub s f p) = ps_retries p"
  "ps_sub (upd_sub s f p) i = (if i = s then f (ps_sub p s) else ps_sub p i)"
  by (simp_all add: upd_sub_def)

lemma stream_ok_shutdown:
  assumes "keyed_subs p" and "ps_subs p = []" and "captured p"
  shows "stream_ok g X (shutdown p)"
  using assms by (simp add: stream_ok_def keyed_subs_def owned_requests_def link_ok_def offline_clear_def
      none_stuck_def captured_def shutdown_def detach_fields cur_def)

text \<open>The state of \<open>teardown\<close> before the run may end.\<close>

definition torn :: "nat \<Rightarrow> ('o, 'x) private_stream \<Rightarrow> ('o, 'x) private_stream \<Rightarrow> bool" where
  "torn s p q \<longleftrightarrow> ps_subs q = AList.delete (os_channel (ps_sub p s)) (ps_subs p)
     \<and> ps_pending q = drop_pending s (ps_pending p)
     \<and> ps_bySub q = (if ps_conn p \<noteq> None \<and> os_sub (ps_sub p s) \<noteq> []
          then (ps_bySub p)(os_sub (ps_sub p s) := None) else ps_bySub p)
     \<and> ps_sess q = ps_sess p \<and> ps_conn q = ps_conn p \<and> ps_connecting q = ps_connecting p
     \<and> ps_authSent q = ps_authSent p \<and> ps_reconnectTimer q = ps_reconnectTimer p
     \<and> ps_requestSeq p \<le> ps_requestSeq q \<and> ps_next p \<le> ps_next q
     \<and> ps_fetches q = ps_fetches p \<and> ps_retries q = ps_retries p
     \<and> (\<forall>i. os_channel (ps_sub q i) = os_channel (ps_sub p i))
     \<and> (\<forall>i. i \<noteq> s \<longrightarrow> os_sub (ps_sub q i) = os_sub (ps_sub p i)
          \<and> os_retryTimer (ps_sub q i) = os_retryTimer (ps_sub p i))"

lemma teardown_torn:
  assumes "isCurrent s p"
  obtains q where "torn s p q" and "teardown s p = (if ps_subs q = [] then shutdown q else q)"
proof -
  let ?p1 = "p\<lparr>ps_subs := AList.delete (os_channel (ps_sub p s)) (ps_subs p)\<rparr>"
  let ?p2 = "drop_consumers s None ?p1"
  let ?p3 = "upd_sub s (\<lambda>st. st\<lparr>os_retryTimer := None, os_ackTimer := None\<rparr>) ?p2"
  let ?k = "os_sub (ps_sub ?p3 s)"
  let ?p4 = "case ps_conn ?p3 of Some conn \<Rightarrow> if ?k \<noteq> []
      then unsubscribe conn ?k (?p3\<lparr>ps_bySub := (ps_bySub ?p3)(?k := None)\<rparr>) else ?p3 | None \<Rightarrow> ?p3"
  let ?p5 = "upd_sub s (\<lambda>st. st\<lparr>os_sub := []\<rparr>) ?p4"
  let ?q = "?p5\<lparr>ps_pending := drop_pending s (ps_pending ?p5)\<rparr>"
  note f2 = grows_fields [OF grows_drop_consumers [of ?p1 s None]]
  have k: "?k = os_sub (ps_sub p s)" using f2(10) [of s] by simp
  have "torn s p ?q"
  proof (cases "ps_conn p \<noteq> None \<and> os_sub (ps_sub p s) \<noteq> []")
    case True
    then obtain conn where c: "ps_conn p = Some conn" by auto
    note f4 = grows_fields [OF grows_unsubscribe [of "?p3\<lparr>ps_bySub := (ps_bySub ?p3)(?k := None)\<rparr>" conn ?k]]
    show ?thesis using True c f2 f4 k by (simp add: torn_def)
  next
    case False
    show ?thesis
    proof (cases "ps_conn p")
      case None
      then show ?thesis using f2 k by (simp add: torn_def)
    next
      case (Some conn)
      with False have "os_sub (ps_sub p s) = []" by simp
      with Some show ?thesis using f2 k by (simp add: torn_def)
    qed
  qed
  moreover have "teardown s p = (if ps_subs ?q = [] then shutdown ?q else ?q)"
    using assms by (simp only: teardown_def Let_def if_True not_not if_False simp_thms)
  ultimately show thesis by (rule that)
qed

lemma drop_pending_Some: "drop_pending s m i = Some (k, x) \<longleftrightarrow> m i = Some (k, x) \<and> x \<noteq> s"
  by (auto simp: drop_pending_def split: option.splits)

lemma set_delete: "set (AList.delete k al) = {e \<in> set al. fst e \<noteq> k}"
  by (auto simp: AList.delete_eq)

lemma cur_torn: "keyed_subs p \<Longrightarrow> cur s p \<Longrightarrow> torn s p q \<Longrightarrow> cur i q \<longleftrightarrow> cur i p \<and> i \<noteq> s"
  by (auto simp: cur_def torn_def keyed_subs_def set_delete) (metis eq_key_imp_eq_value)+

lemma stream_ok_torn:
  assumes "stream_ok g X p" and "cur s p" and "torn s p q"
  shows "captured q" and "ps_subs q \<noteq> [] \<Longrightarrow> stream_ok g X q"
proof -
  have a: "keyed_subs p" "owned_requests p" "link_ok g p" "offline_clear p" "none_stuck X p" "captured p"
    using assms(1) by (simp_all add: stream_ok_def)
  note c = cur_torn [OF a(1) assms(2,3)]
  have sub: "set (ps_subs q) \<subseteq> set (ps_subs p)" using assms(3) by (auto simp: torn_def set_delete)
  have w: "waits q i" if "waits p i" "i \<noteq> s" for i
  proof -
    from assms(3) that(2) have "ps_pending q = drop_pending s (ps_pending p)"
      and "os_retryTimer (ps_sub q i) = os_retryTimer (ps_sub p i)"
      by (simp_all add: torn_def)
    with that show ?thesis by (auto simp: waits_def drop_pending_Some)
  qed
  from assms(3) have s: "ps_subs q = AList.delete (os_channel (ps_sub p s)) (ps_subs p)"
    and pe: "ps_pending q = drop_pending s (ps_pending p)" and nx: "ps_next p \<le> ps_next q"
    and rq: "ps_requestSeq p \<le> ps_requestSeq q" and cn: "ps_conn q = ps_conn p"
    and ch: "os_channel (ps_sub q i) = os_channel (ps_sub p i)"
    and sb: "i \<noteq> s \<Longrightarrow> os_sub (ps_sub q i) = os_sub (ps_sub p i)"
      "i \<noteq> s \<Longrightarrow> os_retryTimer (ps_sub q i) = os_retryTimer (ps_sub p i)"
    and gh: "ps_fetches q = ps_fetches p" "ps_retries q = ps_retries p" for i
    by (simp_all add: torn_def)
  show cap: "captured q"
    unfolding captured_def pe drop_pending_Some gh cn c
    using a(6) le_trans [OF _ rq] less_le_trans [OF _ nx] sb(2) unfolding captured_def by (metis (no_types))
  assume ne: "ps_subs q \<noteq> []"
  have "keyed_subs q"
    unfolding keyed_subs_def ch
  proof (intro conjI ballI)
    show "distinct (map fst (ps_subs q))" using a(1) by (simp add: s keyed_subs_def distinct_delete)
    fix e assume "e \<in> set (ps_subs q)"
    with sub a(1) nx show "case e of (ch, s) \<Rightarrow> os_channel (ps_sub p s) = ch \<and> s < ps_next q"
      by (fastforce simp: keyed_subs_def)
  qed
  moreover have "owned_requests q"
    unfolding owned_requests_def pe drop_pending_Some
    using a(2) c le_trans [OF _ rq] unfolding owned_requests_def by blast
  moreover have "link_ok g q"
    using a(3) assms(3) ne by (auto simp: link_ok_def torn_def)
  moreover have "offline_clear q"
  proof (cases "ps_conn p")
    case None
    with a(4) have o: "ps_pending p = Map.empty" "ps_bySub p = Map.empty"
      "\<forall>s. cur s p \<longrightarrow> os_sub (ps_sub p s) = [] \<and> os_retryTimer (ps_sub p s) = None"
      by (simp_all add: offline_clear_def)
    have "drop_pending s Map.empty = Map.empty" by (simp add: drop_pending_def fun_eq_iff)
    moreover have "ps_bySub q = Map.empty" using assms(3) o(2) None by (simp add: torn_def)
    ultimately show ?thesis using o c sb by (simp add: offline_clear_def pe)
  qed (simp add: offline_clear_def cn)
  moreover have "none_stuck X q"
    using a(5) c w sb by (auto simp: none_stuck_def cn)
  ultimately show "stream_ok g X q" using cap by (simp add: stream_ok_def)
qed

lemma stream_ok_teardown:
  assumes "stream_ok g X p"
  shows "stream_ok g X (teardown s p)"
proof (cases "isCurrent s p")
  case True
  then obtain q where q: "torn s p q" and t: "teardown s p = (if ps_subs q = [] then shutdown q else q)"
    by (rule teardown_torn)
  have k: "keyed_subs p" using assms by (simp add: stream_ok_def)
  have c: "cur s p" using True by (simp add: cur_iff [OF k])
  show ?thesis
  proof (cases "ps_subs q = []")
    case True
    with t stream_ok_torn(1) [OF assms c q] show ?thesis by (simp add: stream_ok_shutdown keyed_subs_def)
  next
    case False
    with t stream_ok_torn(2) [OF assms c q] show ?thesis by simp
  qed
qed (simp add: teardown_def assms)

text \<open>What is left after a teardown.\<close>

lemma teardown_subs:
  assumes "keyed_subs p"
  shows "set (ps_subs (teardown s p)) \<subseteq> set (ps_subs p)"
    and "cur s p \<Longrightarrow> s \<notin> snd ` set (ps_subs (teardown s p))"
proof -
  have "set (ps_subs (teardown s p)) \<subseteq> set (ps_subs p)
    \<and> (cur s p \<longrightarrow> s \<notin> snd ` set (ps_subs (teardown s p)))"
  proof (cases "isCurrent s p")
    case True
    then obtain q where q: "torn s p q" and t: "teardown s p = (if ps_subs q = [] then shutdown q else q)"
      by (rule teardown_torn)
    have c: "cur s p" using True by (simp add: cur_iff [OF assms])
    have "s \<notin> snd ` set (ps_subs q)"
      using cur_torn [OF assms c q, of s] assms q by (force simp: keyed_subs_def torn_def cur_def set_delete)
    with t q show ?thesis by (auto simp: torn_def set_delete shutdown_def detach_fields)
  qed (simp add: teardown_def cur_iff [OF assms])
  then show "set (ps_subs (teardown s p)) \<subseteq> set (ps_subs p)"
    and "cur s p \<Longrightarrow> s \<notin> snd ` set (ps_subs (teardown s p))" by blast+
qed

section \<open>Delivering keeps the skeleton\<close>

lemma stream_ok_offer: "stream_ok g X p \<Longrightarrow> stream_ok g X (offer s ev c p)"
proof -
  assume ok: "stream_ok g X p"
  have 1: "grows p (upd_sub s (\<lambda>st. st\<lparr>os_consumers := remove1 c (os_consumers st)\<rparr>) p)"
    by (rule grows_upd_sub) simp_all
  have "grows p (notify c private_overflow (finish c (Some private_overflow)
      (upd_sub s (\<lambda>st. st\<lparr>os_consumers := remove1 c (os_consumers st)\<rparr>) p)))"
    by (rule grows_trans [OF grows_trans [OF 1 grows_finish] grows_notify])
  from stream_ok_grows [OF ok this] stream_ok_teardown stream_ok_grows [OF ok grows_upd_con] ok
  show ?thesis by (auto simp: offer_def Let_def)
qed

lemma stream_ok_fold: "(\<And>x q. stream_ok g X q \<Longrightarrow> stream_ok g X (f x q)) \<Longrightarrow> stream_ok g X p \<Longrightarrow>
    stream_ok g X (fold f xs p)"
  by (induction xs arbitrary: p) auto

lemma stream_ok_deliver: "stream_ok g X p \<Longrightarrow> stream_ok g X (deliver s ev p)"
  unfolding deliver_def by (rule stream_ok_fold) (rule stream_ok_offer)

lemma stream_ok_report: "stream_ok g X p \<Longrightarrow> stream_ok g X (report e s p)"
  unfolding report_def
  by (rule stream_ok_fold) (rule stream_ok_grows [OF stream_ok_offer grows_notify])

lemma stream_ok_reportAll: "stream_ok g X p \<Longrightarrow> stream_ok g X (reportAll e p)"
  unfolding reportAll_def by (rule stream_ok_fold) (rule stream_ok_report)

lemma stream_ok_upd_sub:
  "stream_ok g X p \<Longrightarrow> os_channel (f (ps_sub p s)) = os_channel (ps_sub p s) \<Longrightarrow>
    os_sub (f (ps_sub p s)) = os_sub (ps_sub p s) \<Longrightarrow>
    os_retryTimer (f (ps_sub p s)) = os_retryTimer (ps_sub p s) \<Longrightarrow> stream_ok g X (upd_sub s f p)"
  using stream_ok_grows [OF _ grows_upd_sub] .

lemma stream_ok_catchUp: "stream_ok g X p \<Longrightarrow> stream_ok g X (catchUp s c p)"
  by (simp add: catchUp_def Let_def only_if_def stream_ok_offer split: option.split)

lemma stream_ok_disconnect: "stream_ok g X p \<Longrightarrow> stream_ok g X (disconnect_sub s p)"
  by (simp add: disconnect_sub_def stream_ok_deliver stream_ok_upd_sub)

lemma stream_ok_terminate: "stream_ok g X p \<Longrightarrow> stream_ok g X (terminate e s p)"
  by (simp add: terminate_def Let_def stream_ok_teardown stream_ok_grows [OF _ grows_drop_consumers]
      stream_ok_deliver stream_ok_upd_sub stream_ok_report)

lemma stream_ok_terminateAll: "stream_ok g X p \<Longrightarrow> stream_ok g X (terminateAll e p)"
  unfolding terminateAll_def by (rule stream_ok_fold) (rule stream_ok_terminate)

lemma itoa_inj: "itoa n = itoa m \<Longrightarrow> n = m"
  by (metis big_set_string_itoa option.inject)

section \<open>Asking the server keeps the skeleton\<close>

lemma stream_ok_excuse:
  assumes "stream_ok g (insert s X) p" and "cur s p \<Longrightarrow> os_sub (ps_sub p s) = [] \<Longrightarrow> waits p s"
  shows "stream_ok g X p"
  using assms unfolding stream_ok_def none_stuck_def by blast

lemma stream_ok_upd_any:
  assumes "stream_ok g X p" and "s \<in> X" and "os_channel (f (ps_sub p s)) = os_channel (ps_sub p s)"
    and "ps_conn p \<noteq> None \<or> os_sub (f (ps_sub p s)) = []"
    and "os_retryTimer (f (ps_sub p s)) = None \<or> os_retryTimer (f (ps_sub p s)) = os_retryTimer (ps_sub p s)"
  shows "stream_ok g X (upd_sub s f p)"
proof -
  have c: "cur i (upd_sub s f p) = cur i p" for i using assms(3) by (simp add: cur_def)
  have w: "waits p i \<Longrightarrow> i \<noteq> s \<Longrightarrow> waits (upd_sub s f p) i" for i by (simp add: waits_def)
  have "keyed_subs (upd_sub s f p)" using assms(1,3) by (fastforce simp: stream_ok_def keyed_subs_def)
  moreover have "owned_requests (upd_sub s f p)" using assms(1) by (simp add: stream_ok_def owned_requests_def c)
  moreover have "link_ok g (upd_sub s f p)" using assms(1) by (simp add: stream_ok_def link_ok_def)
  moreover have "offline_clear (upd_sub s f p)" using assms(1,4,5)
    unfolding stream_ok_def offline_clear_def c by auto
  moreover have "captured (upd_sub s f p)" using assms(1,5) unfolding stream_ok_def captured_def c
    by (auto split: if_splits)
  moreover have "none_stuck X (upd_sub s f p)"
    using assms(1,2) w unfolding stream_ok_def none_stuck_def c upd_sub_fields by metis
  ultimately show ?thesis by (simp add: stream_ok_def)
qed

lemma stream_ok_bySub: "stream_ok g X p \<Longrightarrow> ps_conn p \<noteq> None \<Longrightarrow> stream_ok g X (p\<lparr>ps_bySub := b\<rparr>)"
  by (auto simp: stream_ok_def keyed_subs_def owned_requests_def link_ok_def offline_clear_def none_stuck_def
      captured_def cur_def waits_def)

lemma stream_ok_request:
  assumes "stream_ok g X p" and "cur s p" and "ps_conn p = Some conn"
    and "F \<subseteq> insert (conn, s, itoa (int (ps_requestSeq p + 1))) (ps_fetches p)"
  shows "stream_ok g X (p\<lparr>ps_requestSeq := ps_requestSeq p + 1,
    ps_pending := (ps_pending p)(itoa (int (ps_requestSeq p + 1)) \<mapsto> (kind, s)), ps_fetches := F\<rparr>)"
proof -
  have a: "keyed_subs p" "owned_requests p" "link_ok g p" "offline_clear p" "none_stuck X p"
    "captured p" using assms(1) by (simp_all add: stream_ok_def)
  define n where "n = ps_requestSeq p + 1"
  let ?q = "p\<lparr>ps_requestSeq := n, ps_pending := (ps_pending p)(itoa (int n) \<mapsto> (kind, s)),
      ps_fetches := F\<rparr>"
  have c: "cur i ?q = cur i p" for i by (simp add: cur_def)
  have fresh: "ps_pending p (itoa (int n)) = None"
  proof (rule ccontr)
    assume "ps_pending p (itoa (int n)) \<noteq> None"
    then obtain k x where "ps_pending p (itoa (int n)) = Some (k, x)" by auto
    with a(2) obtain m where "m \<le> ps_requestSeq p" "itoa (int n) = itoa (int m)"
      unfolding owned_requests_def by blast
    then show False using itoa_inj n_def by fastforce
  qed
  have w: "waits ?q i" if "waits p i" for i
  proof (cases "os_retryTimer (ps_sub p i) = None")
    case True
    with that obtain j where j: "ps_pending p j = Some (RequestSubscribe, i)" by (auto simp: waits_def)
    with fresh have "j \<noteq> itoa (int n)" by auto
    with j have "ps_pending ?q j = Some (RequestSubscribe, i)" by simp
    then show ?thesis unfolding waits_def by blast
  qed (simp add: waits_def)
  have ids: "x = itoa (int n) \<Longrightarrow> m \<le> ps_requestSeq p \<Longrightarrow> x \<noteq> itoa (int m)" for x m
    using itoa_inj n_def by fastforce
  have "captured ?q"
    unfolding captured_def c
  proof (intro conjI allI impI)
    fix d r i assume f: "(d, r, i) \<in> ps_fetches ?q"
    show "\<exists>m \<le> ps_requestSeq ?q. i = itoa (int m)"
    proof (cases "(d, r, i) \<in> ps_fetches p")
      case True
      with a(6) obtain m where "m \<le> ps_requestSeq p" "i = itoa (int m)" unfolding captured_def by blast
      then show ?thesis by (intro exI [of _ m]) (simp add: n_def)
    next
      case False
      with f assms(4) have "i = itoa (int n)" by (auto simp: n_def)
      then show ?thesis by (intro exI [of _ n]) simp
    qed
    fix k assume k: "ps_pending ?q i = Some (k, r)"
    show "ps_conn ?q = Some d"
    proof (cases "(d, r, i) \<in> ps_fetches p")
      case True
      then obtain m where "m \<le> ps_requestSeq p" "i = itoa (int m)"
        and c: "\<forall>k. ps_pending p i = Some (k, r) \<longrightarrow> ps_conn p = Some d"
        using a(6) unfolding captured_def by blast
      with ids have "i \<noteq> itoa (int n)" by blast
      with k c show ?thesis by simp
    next
      case False
      with f assms(3,4) show ?thesis by (auto simp: n_def)
    qed
  next
    fix d r t assume "(d, r, t) \<in> ps_retries ?q"
    then have "(d, r, t) \<in> ps_retries p" by simp
    with a(6) show "t < ps_next ?q" by (simp add: captured_def)
  next
    fix d r t assume "(d, r, t) \<in> ps_retries ?q" "cur r p \<and> os_retryTimer (ps_sub ?q r) = Some t"
    then have "(d, r, t) \<in> ps_retries p" "cur r p \<and> os_retryTimer (ps_sub p r) = Some t" by simp_all
    with a(6) show "ps_conn ?q = Some d" by (simp add: captured_def)
  qed
  moreover have "keyed_subs ?q" using a(1) by (simp add: keyed_subs_def)
  moreover have "owned_requests ?q"
    unfolding owned_requests_def c
  proof (intro allI impI)
    fix i k x assume q: "ps_pending ?q i = Some (k, x)"
    show "cur x p \<and> (\<exists>m \<le> ps_requestSeq ?q. i = itoa (int m))"
    proof (cases "i = itoa (int n)")
      case True
      with q assms(2) show ?thesis by auto
    next
      case False
      with q have "ps_pending p i = Some (k, x)" by simp
      with a(2) obtain m where "cur x p" "m \<le> ps_requestSeq p" "i = itoa (int m)"
        unfolding owned_requests_def by blast
      then show ?thesis by (auto simp: n_def intro: le_SucI)
    qed
  qed
  moreover have "link_ok g ?q" using a(3) by (simp add: link_ok_def)
  moreover have "offline_clear ?q" using assms(3) by (simp add: offline_clear_def)
  moreover have "none_stuck X ?q" using a(5) w unfolding none_stuck_def c by auto
  ultimately show ?thesis unfolding stream_ok_def n_def [symmetric] by blast
qed

lemma stream_ok_subscribeServer:
  assumes "stream_ok g (insert s X) p" and "ps_conn p = Some conn"
  shows "stream_ok g X (subscribeServer conn s p)"
proof (cases "isCurrent s p")
  case False
  then have "\<not> cur s p" using assms(1) cur_iff unfolding stream_ok_def by blast
  with stream_ok_excuse [OF assms(1)] False show ?thesis by (simp add: subscribeServer_def)
next
  case True
  have s: "cur s p" using True assms(1) cur_iff unfolding stream_ok_def by blast
  let ?i = "itoa (int (ps_requestSeq p + 1))"
  let ?q = "p\<lparr>ps_requestSeq := ps_requestSeq p + 1, ps_pending := (ps_pending p)(?i \<mapsto> (RequestSubscribe, s)),
      ps_fetches := insert (conn, s, ?i) (ps_fetches p)\<rparr>"
  have eq: "subscribeServer conn s p = ?q"
    using True by (simp add: subscribeServer_def nextRequestID_def Let_def)
  have "stream_ok g (insert s X) ?q" by (rule stream_ok_request [OF assms(1) s assms(2)]) simp
  moreover have "waits ?q s" by (auto simp: waits_def)
  ultimately show ?thesis unfolding eq using stream_ok_excuse by blast
qed

lemma stream_ok_retrySubscribe:
  assumes "stream_ok g (insert s X) p" and "cur s p \<Longrightarrow> ps_conn p = Some conn"
  shows "stream_ok g X (retrySubscribe conn s p)"
proof (cases "ps_sess p")
  case None
  then have "ps_subs p = []" using assms(1) by (simp add: stream_ok_def link_ok_def)
  moreover have "grows (upd_sub s (\<lambda>st. st\<lparr>os_retryTimer := None\<rparr>) p) (retrySubscribe conn s p)"
    using None by (simp add: retrySubscribe_def new_timer_def grows_def skel_def fun_eq_iff)
  moreover have "stream_ok g X (upd_sub s (\<lambda>st. st\<lparr>os_retryTimer := None\<rparr>) p)"
    using assms(1) \<open>ps_subs p = []\<close>
    by (auto simp: stream_ok_def keyed_subs_def owned_requests_def link_ok_def offline_clear_def
        none_stuck_def captured_def cur_def)
  ultimately show ?thesis using stream_ok_grows by blast
next
  case (Some sess)
  let ?t = "ps_next p"
  let ?q = "p\<lparr>ps_next := Suc ?t, ps_retries := insert (conn, s, ?t) (ps_retries p)\<rparr>"
  let ?f = "\<lambda>st. st\<lparr>os_retryTimer := Some ?t, os_retries := os_retries st + 1\<rparr>"
  let ?r = "upd_sub s ?f ?q"
  have eq: "retrySubscribe conn s p = ?r" using Some by (simp add: retrySubscribe_def new_timer_def)
  have a: "keyed_subs p" "owned_requests p" "link_ok g p" "offline_clear p" "none_stuck (insert s X) p"
    "captured p" using assms(1) by (simp_all add: stream_ok_def)
  have c: "cur i ?r = cur i p" for i by (simp add: cur_def)
  have w: "waits p i \<Longrightarrow> waits ?r i" "waits ?r s" for i by (auto simp: waits_def)
  have "keyed_subs ?r" using a(1) by (fastforce simp: keyed_subs_def)
  moreover have "owned_requests ?r" using a(2) unfolding owned_requests_def c by simp
  moreover have "link_ok g ?r" using a(3) by (simp add: link_ok_def)
  moreover have "offline_clear ?r" using a(4) assms(2) unfolding offline_clear_def c by auto
  moreover have "none_stuck X ?r" using a(5) w unfolding none_stuck_def c by auto
  moreover have "captured ?r"
    unfolding captured_def c
  proof (intro conjI allI impI)
    fix d r t assume m: "(d, r, t) \<in> ps_retries ?r"
    show "t < ps_next ?r" using m a(6) by (fastforce simp: captured_def less_Suc_eq)
    assume u: "cur r p \<and> os_retryTimer (ps_sub ?r r) = Some t"
    show "ps_conn ?r = Some d"
    proof (cases "(d, r, t) \<in> ps_retries p")
      case True
      with a(6) have "t < ps_next p" and k: "cur r p \<and> os_retryTimer (ps_sub p r) = Some t \<longrightarrow> ps_conn p = Some d"
        unfolding captured_def by blast+
      with u have "r \<noteq> s" by auto
      with u k show ?thesis by simp
    next
      case False
      with m u assms(2) show ?thesis by auto
    qed
  next
    fix d r i assume "(d, r, i) \<in> ps_fetches ?r"
    then have m: "(d, r, i) \<in> ps_fetches p" by simp
    with a(6) show "\<exists>n \<le> ps_requestSeq ?r. i = itoa (int n)" unfolding captured_def by auto
    fix k assume "ps_pending ?r i = Some (k, r)"
    then have "ps_pending p i = Some (k, r)" by simp
    with m a(6) have "ps_conn p = Some d" unfolding captured_def by blast
    then show "ps_conn ?r = Some d" by simp
  qed
  ultimately show ?thesis by (simp add: eq stream_ok_def)
qed

lemma stream_ok_drop_request:
  assumes "stream_ok g X p" and "\<forall>x. ps_pending p i = Some (RequestSubscribe, x) \<longrightarrow> x \<in> Y"
  shows "stream_ok g (X \<union> Y) (p\<lparr>ps_pending := (ps_pending p)(i := None)\<rparr>)"
proof -
  let ?q = "p\<lparr>ps_pending := (ps_pending p)(i := None)\<rparr>"
  have c: "cur s ?q = cur s p" for s by (simp add: cur_def)
  have w: "waits p s \<Longrightarrow> s \<notin> Y \<Longrightarrow> waits ?q s" for s
    using assms(2) by (auto simp: waits_def)
  have "keyed_subs ?q" using assms(1) by (simp add: stream_ok_def keyed_subs_def)
  moreover have "owned_requests ?q" using assms(1) unfolding stream_ok_def owned_requests_def c by simp
  moreover have "link_ok g ?q" using assms(1) by (simp add: stream_ok_def link_ok_def)
  moreover have "offline_clear ?q" using assms(1) unfolding stream_ok_def offline_clear_def c by auto
  moreover have "captured ?q" using assms(1) unfolding stream_ok_def captured_def c by auto
  moreover have "none_stuck (X \<union> Y) ?q" using assms(1) w unfolding stream_ok_def none_stuck_def c by auto
  ultimately show ?thesis by (simp add: stream_ok_def)
qed

lemma conn_unsubscribe: "ps_conn (unsubscribe conn k p) = ps_conn p"
  by (rule grows_fields(5) [OF grows_unsubscribe])

lemma conn_new_timer: "ps_conn (snd (new_timer p)) = ps_conn p"
  by (simp add: new_timer_def split: option.splits)

lemma stream_ok_resubscribe:
  assumes "stream_ok g (insert s X) p" and "ps_conn p = Some conn"
  shows "stream_ok g X (resubscribe conn s p)"
proof -
  define p1 where "p1 = (if os_sub (ps_sub p s) \<noteq> []
      then unsubscribe conn (os_sub (ps_sub p s)) (p\<lparr>ps_bySub := (ps_bySub p)(os_sub (ps_sub p s) := None)\<rparr>)
      else p)"
  define p2 where "p2 = upd_sub s (\<lambda>st. st\<lparr>os_sub := [], os_seq := 0, os_ready := False, os_staging := False,
      os_staged := []\<rparr>) p1"
  define p3 where "p3 = (if os_retries (ps_sub p2 s) > 0 then retrySubscribe conn s p2
      else subscribeServer conn s (upd_sub s (\<lambda>st. st\<lparr>os_retries := 1\<rparr>) p2))"
  have "stream_ok g (insert s X) p1"
    unfolding p1_def using assms
    by (auto intro!: stream_ok_grows [OF _ grows_unsubscribe] stream_ok_bySub)
  moreover have "ps_conn p1 = ps_conn p" by (simp add: p1_def conn_unsubscribe)
  ultimately have p2: "stream_ok g (insert s X) p2" "ps_conn p2 = Some conn"
    using assms(2) by (auto simp: p2_def intro!: stream_ok_upd_any)
  then have "stream_ok g X p3"
    by (auto simp: p3_def intro!: stream_ok_retrySubscribe stream_ok_subscribeServer stream_ok_upd_sub)
  moreover have "resubscribe conn s p = disconnect_sub s p3"
    by (simp only: resubscribe_def Let_def disconnect_sub_def p1_def p2_def p3_def)
  ultimately show ?thesis by (simp add: stream_ok_disconnect)
qed

section \<open>Every handler keeps the skeleton\<close>

text \<open>Deliveries change the connection only by ending the run.\<close>

definition fewer :: "('o, 'x) private_stream \<Rightarrow> ('o, 'x) private_stream \<Rightarrow> bool" where
  "fewer p q \<longleftrightarrow> set (ps_subs q) \<subseteq> set (ps_subs p) \<and> (ps_subs q \<noteq> [] \<longrightarrow> ps_conn q = ps_conn p)"

lemma fewer_trans: "fewer p q \<Longrightarrow> fewer q r \<Longrightarrow> fewer p r"
  by (auto simp: fewer_def)

lemma fewer_grows: "grows p q \<Longrightarrow> fewer p q"
  using grows_fields(1,5) [of p q] by (simp add: fewer_def)

lemma fewer_refl [simp]: "fewer p p"
  by (simp add: fewer_def)

lemma fewer_fold: "(\<And>x q. fewer q (f x q)) \<Longrightarrow> fewer p (fold f xs p)"
  by (induction xs arbitrary: p) (auto intro: fewer_trans)

lemma fewer_teardown: "fewer p (teardown s p)"
proof (cases "isCurrent s p")
  case True
  then obtain q where "torn s p q" "teardown s p = (if ps_subs q = [] then shutdown q else q)"
    by (rule teardown_torn)
  then show ?thesis by (auto simp: fewer_def torn_def set_delete shutdown_def detach_fields)
qed (simp add: teardown_def)

lemma fewer_offer: "fewer p (offer s ev c p)"
proof -
  let ?q = "notify c private_overflow (finish c (Some private_overflow)
      (upd_sub s (\<lambda>st. st\<lparr>os_consumers := remove1 c (os_consumers st)\<rparr>) p))"
  have "grows p (upd_sub s (\<lambda>st. st\<lparr>os_consumers := remove1 c (os_consumers st)\<rparr>) p)"
    by (rule grows_upd_sub) simp_all
  from grows_trans [OF grows_trans [OF this grows_finish] grows_notify]
  have q: "fewer p ?q" by (rule fewer_grows)
  moreover have "fewer p (teardown s ?q)" by (rule fewer_trans [OF q fewer_teardown])
  moreover have "fewer p (upd_con c f p)" for f by (rule fewer_grows [OF grows_upd_con])
  ultimately show ?thesis unfolding offer_def Let_def by (simp only: split: if_split) simp
qed

lemma fewer_deliver: "fewer p (deliver s ev p)"
  unfolding deliver_def by (rule fewer_fold) (rule fewer_offer)

lemma fewer_report: "fewer p (report e s p)"
  unfolding report_def by (rule fewer_fold) (rule fewer_trans [OF fewer_offer fewer_grows [OF grows_notify]])

lemma fewer_terminate: "fewer p (terminate e s p)"
proof -
  have "fewer q (deliver s OrderStreamDisconnected (upd_sub s (\<lambda>st. st\<lparr>os_state := SubDisconnected\<rparr>) q))" for q
    by (rule fewer_trans [OF fewer_grows [OF grows_upd_sub] fewer_deliver]) simp_all
  then show ?thesis
    using fewer_report fewer_teardown fewer_grows [OF grows_drop_consumers] fewer_trans
    unfolding terminate_def Let_def by (smt (verit) fewer_refl)
qed

text \<open>Deliveries never start a connection attempt.\<close>

lemma calm_teardown: "\<not> ps_connecting p \<Longrightarrow> \<not> ps_connecting (teardown s p)"
proof (cases "isCurrent s p")
  case True
  then obtain q where "torn s p q" "teardown s p = (if ps_subs q = [] then shutdown q else q)"
    by (rule teardown_torn)
  then show "\<not> ps_connecting p \<Longrightarrow> ?thesis" by (auto simp: torn_def shutdown_def)
qed (simp add: teardown_def)

lemma calm_offer: "\<not> ps_connecting p \<Longrightarrow> \<not> ps_connecting (offer s ev c p)"
  by (auto simp: offer_def Let_def calm_teardown grows_fields(6) [OF grows_upd_con]
      grows_fields(6) [OF grows_notify] grows_fields(6) [OF grows_finish])

lemma calm_fold: "(\<And>x q. \<not> ps_connecting q \<Longrightarrow> \<not> ps_connecting (f x q)) \<Longrightarrow> \<not> ps_connecting p \<Longrightarrow>
    \<not> ps_connecting (fold f xs p)"
  by (induction xs arbitrary: p) auto

lemma calm_reportAll: "\<not> ps_connecting p \<Longrightarrow> \<not> ps_connecting (reportAll err p)"
  unfolding reportAll_def report_def
  by (intro calm_fold) (simp_all add: calm_offer grows_fields(6) [OF grows_notify])

lemma cur_subs: "cur s p \<Longrightarrow> ps_subs p \<noteq> []"
  by (auto simp: cur_def)

lemma fewer_conn: "fewer p q \<Longrightarrow> cur s q \<Longrightarrow> ps_conn q = ps_conn p"
  using cur_subs by (auto simp: fewer_def)

lemma teardown_gone: "keyed_subs p \<Longrightarrow> \<not> cur s (teardown s p)"
proof (cases "isCurrent s p")
  case True
  moreover assume k: "keyed_subs p"
  ultimately show ?thesis using teardown_subs(2) [OF k] cur_iff [OF k] by (force simp: cur_def)
next
  case False
  moreover assume k: "keyed_subs p"
  ultimately show ?thesis using cur_iff [OF k] by (simp add: teardown_def)
qed

lemma terminate_gone:
  assumes "stream_ok g X p"
  shows "\<not> cur s (terminate e s p)"
proof (cases "isCurrent s p")
  case False
  with assms cur_iff show ?thesis unfolding stream_ok_def by (auto simp: terminate_def)
next
  case True
  define p1 where "p1 = report e s p"
  define p2 where "p2 = (if os_state (ps_sub p1 s) \<noteq> SubDisconnected
      then deliver s OrderStreamDisconnected (upd_sub s (\<lambda>st. st\<lparr>os_state := SubDisconnected\<rparr>) p1) else p1)"
  have "stream_ok g X p1" using assms by (simp add: p1_def stream_ok_report)
  then have "stream_ok g X p2" by (simp add: p2_def stream_ok_deliver stream_ok_upd_sub)
  then have "stream_ok g X (drop_consumers s (Some e) p2)" by (rule stream_ok_grows) simp
  then have "keyed_subs (drop_consumers s (Some e) p2)" by (simp add: stream_ok_def)
  moreover have "terminate e s p = teardown s (drop_consumers s (Some e) p2)"
    using True by (simp only: terminate_def Let_def p1_def p2_def if_True not_not if_False simp_thms)
  ultimately show ?thesis by (simp add: teardown_gone)
qed

lemma stream_ok_terminate_excused:
  "stream_ok g (insert s X) p \<Longrightarrow> stream_ok g X (terminate e s p)"
  using stream_ok_excuse stream_ok_terminate terminate_gone by blast

lemma terminateAll_empties:
  assumes "stream_ok g X p"
  shows "ps_subs (terminateAll e p) = []"
proof -
  have "set (map snd (ps_subs (fold (terminate e) xs p))) \<subseteq> set (map snd (ps_subs p)) - set xs" for xs
    using assms
  proof (induction xs arbitrary: p)
    case (Cons s xs)
    let ?q = "terminate e s p"
    have ok: "stream_ok g X ?q" using Cons.prems by (rule stream_ok_terminate)
    then have "s \<notin> set (map snd (ps_subs ?q))"
      using terminate_gone [OF Cons.prems] cur_snd [of ?q s] by (simp add: stream_ok_def)
    moreover have "set (map snd (ps_subs ?q)) \<subseteq> set (map snd (ps_subs p))"
      using fewer_terminate [of p e s] by (auto simp: fewer_def)
    moreover have "set (map snd (ps_subs (fold (terminate e) xs ?q))) \<subseteq> set (map snd (ps_subs ?q)) - set xs"
      by (rule Cons.IH [OF ok])
    ultimately show ?case unfolding fold_Cons comp_def list.set by blast
  qed simp
  from this [of "snapshotSubs p"] show ?thesis by (auto simp: terminateAll_def snapshotSubs_def)
qed

lemma stream_ok_cur: "stream_ok g X p \<Longrightarrow> isCurrent s p \<longleftrightarrow> cur s p"
  using cur_iff unfolding stream_ok_def by blast

lemma captured_fetch:
  "stream_ok g X p \<Longrightarrow> (conn, s, i) \<in> ps_fetches p \<Longrightarrow> ps_pending p i = Some (k, s) \<Longrightarrow> ps_conn p = Some conn"
  unfolding stream_ok_def captured_def by blast

lemma stream_ok_drop:
  "stream_ok g X p \<Longrightarrow> ps_pending p i = Some (k, s) \<Longrightarrow>
    stream_ok g (insert s X) (p\<lparr>ps_pending := (ps_pending p)(i := None)\<rparr>)"
  using stream_ok_drop_request [of g X p i "{s}"] by simp

lemma stream_ok_subscribe_fetched:
  assumes "stream_ok g {} p" and "(conn, s, i) \<in> ps_fetches p"
  shows "stream_ok g {} (subscribe_fetched conn s i result p)"
proof (cases "\<exists>k. ps_pending p i = Some (k, s)")
  case True
  then obtain k where k: "ps_pending p i = Some (k, s)" by blast
  have conn: "ps_conn p = Some conn" by (rule captured_fetch [OF assms k])
  show ?thesis
  proof (cases result)
    case (Inl err)
    let ?p1 = "p\<lparr>ps_pending := (ps_pending p)(i := None)\<rparr>"
    have p1: "stream_ok g {s} ?p1" using stream_ok_drop [OF assms(1) k] .
    have "ps_conn (report err s ?p1) = Some conn" if "cur s (report err s ?p1)"
      using fewer_conn [OF fewer_report that] conn by simp
    then have "stream_ok g {} (retrySubscribe conn s (report err s ?p1))"
      by (intro stream_ok_retrySubscribe stream_ok_report p1)
    moreover have "stream_ok g {} (terminate err s ?p1)" by (rule stream_ok_terminate_excused [OF p1])
    ultimately show ?thesis using True Inl by (simp add: subscribe_fetched_def Let_def)
  next
    case (Inr token)
    obtain t q where t: "new_timer (send conn (CSubscribe i (os_account (ps_sub p s)) token (os_cursor (ps_sub p s))) p)
        = (t, q)" by fastforce
    have "stream_ok g {} q"
      using stream_ok_grows [OF stream_ok_grows [OF assms(1) grows_send]] grows_timer [OF t] by blast
    then have "stream_ok g {} (upd_sub s (\<lambda>st. st\<lparr>os_ackTimer := t\<rparr>) q)" by (rule stream_ok_upd_sub) simp_all
    then show ?thesis using True Inr conn t by (simp add: subscribe_fetched_def Let_def)
  qed
qed (simp add: subscribe_fetched_def assms)

lemma stream_ok_expireSubscribe:
  assumes "stream_ok g {} p" and "(conn, s, i) \<in> ps_fetches p"
  shows "stream_ok g {} (expireSubscribe conn s i p)"
proof (cases "\<exists>k. ps_pending p i = Some (k, s)")
  case True
  then obtain k where k: "ps_pending p i = Some (k, s)" by blast
  have conn: "ps_conn p = Some conn" by (rule captured_fetch [OF assms k])
  let ?p1 = "report subscribe_timeout s (p\<lparr>ps_pending := (ps_pending p)(i := None)\<rparr>)"
  have p1: "stream_ok g {s} ?p1" using stream_ok_report [OF stream_ok_drop [OF assms(1) k]] .
  have c: "ps_conn ?p1 = Some conn" if "cur s ?p1"
    using fewer_conn [OF fewer_report that] conn by simp
  have r: "stream_ok g {} (retrySubscribe conn s ?p1)" by (rule stream_ok_retrySubscribe [OF p1 c])
  have e: "stream_ok g {} ?p1" if "\<not> (ps_conn ?p1 = Some conn \<and> isCurrent s ?p1 \<and> os_sub (ps_sub ?p1 s) = [])"
    using stream_ok_excuse [OF p1] that c stream_ok_cur [OF p1] by blast
  from r e True show ?thesis
    unfolding expireSubscribe_def Let_def using stream_ok_terminate [OF assms(1)] by (simp only: if_split) simp
qed (simp add: expireSubscribe_def assms)

lemma stream_ok_ack_fired:
  assumes "stream_ok g {} p" and "(conn, s, i) \<in> ps_fetches p"
  shows "stream_ok g {} (ack_fired conn s i t p)"
proof -
  have "stream_ok g {} (upd_sub s (\<lambda>st. st\<lparr>os_ackTimer := None\<rparr>) p)"
    by (rule stream_ok_upd_sub [OF assms(1)]) simp_all
  from stream_ok_expireSubscribe [OF this] assms show ?thesis by (simp add: ack_fired_def)
qed

lemma stream_ok_dead:
  assumes "stream_ok g X p" and "\<not> cur s p" and "os_channel (f (ps_sub p s)) = os_channel (ps_sub p s)"
  shows "stream_ok g X (upd_sub s f p)"
proof -
  let ?q = "upd_sub s f p"
  have c: "cur x ?q = cur x p" for x using assms(3) by (simp add: cur_def)
  have same: "cur x p \<Longrightarrow> ps_sub ?q x = ps_sub p x" for x using assms(2) by auto
  then have w: "cur x p \<Longrightarrow> waits ?q x = waits p x" for x by (simp add: waits_def)
  have a: "keyed_subs p" "owned_requests p" "link_ok g p" "offline_clear p" "none_stuck X p" "captured p"
    using assms(1) by (simp_all add: stream_ok_def)
  have "keyed_subs ?q" using a(1) assms(3) by (fastforce simp: keyed_subs_def)
  moreover have "owned_requests ?q" using a(2) unfolding owned_requests_def c by simp
  moreover have "link_ok g ?q" using a(3) by (simp add: link_ok_def)
  moreover have "offline_clear ?q" using a(4) same unfolding offline_clear_def c by simp
  moreover have "captured ?q" using a(6) same assms(2) unfolding captured_def c by simp
  moreover have "none_stuck X ?q"
    unfolding none_stuck_def c
  proof (intro impI allI)
    fix x assume "ps_conn ?q \<noteq> None" and x: "cur x p \<and> x \<notin> X \<and> os_sub (ps_sub ?q x) = []"
    then have "os_sub (ps_sub p x) = []" using same [of x] by simp
    with a(5) x w [of x] \<open>ps_conn ?q \<noteq> None\<close> show "waits ?q x" unfolding none_stuck_def by simp
  qed
  ultimately show ?thesis by (simp add: stream_ok_def)
qed

lemma stream_ok_retry_fired:
  assumes "stream_ok g {} p" and "(conn, s, t) \<in> ps_retries p"
  shows "stream_ok g {} (retry_fired conn s t p)"
proof (cases "os_retryTimer (ps_sub p s) = Some t")
  case True
  let ?p1 = "upd_sub s (\<lambda>st. st\<lparr>os_retryTimer := None\<rparr>) p"
  have c1: "cur s ?p1 = cur s p" by (simp add: cur_def)
  have conn: "ps_conn ?p1 = Some conn" if "cur s ?p1"
    using that assms True unfolding stream_ok_def captured_def c1 by auto
  have p1: "stream_ok g {s} ?p1"
  proof (cases "cur s p")
    case True
    with conn c1 show ?thesis by (intro stream_ok_upd_any [OF stream_ok_weaken [OF assms(1)]]) auto
  next
    case False
    have "stream_ok g {} ?p1" by (rule stream_ok_dead [OF assms(1) False]) simp
    then show ?thesis by (rule stream_ok_weaken) auto
  qed
  have "stream_ok g {} (subscribeServer conn s ?p1)" if "ps_conn ?p1 = Some conn"
    by (rule stream_ok_subscribeServer [OF p1 that])
  moreover have "stream_ok g {} ?p1"
    if "\<not> (ps_conn ?p1 = Some conn \<and> isCurrent s ?p1 \<and> os_sub (ps_sub ?p1 s) = [])"
    using stream_ok_excuse [OF p1] that conn stream_ok_cur [OF p1] by blast
  ultimately show ?thesis using True unfolding retry_fired_def Let_def by (simp only: if_split) simp
qed (simp add: retry_fired_def assms)

lemma stream_ok_refresh_token: "stream_ok g {} p \<Longrightarrow> stream_ok g {} (refresh_token conn s k result p)"
proof -
  assume ok: "stream_ok g {} p"
  have "stream_ok g {} (p\<lparr>ps_requestSeq := ps_requestSeq p + 1,
      ps_pending := (ps_pending p)(itoa (int (ps_requestSeq p + 1)) \<mapsto> (RequestRefresh, s))\<rparr>)"
    if "cur s p" "ps_conn p = Some conn"
    using stream_ok_request [OF ok that, of "ps_fetches p"] by fastforce
  then show ?thesis
    using ok stream_ok_report stream_ok_cur [OF ok]
    by (auto simp: refresh_token_def nextRequestID_def Let_def split: sum.split
        intro!: stream_ok_grows [OF _ grows_send])
qed

lemma stream_ok_onSubscribed:
  assumes "stream_ok g {} p" and "ps_conn p = Some conn" and "serverSub \<noteq> []"
  shows "stream_ok g {} (onSubscribed conn serverSub i p)"
proof (cases "\<exists>s. ps_pending p i = Some (RequestSubscribe, s)")
  case True
  then obtain s where s: "ps_pending p i = Some (RequestSubscribe, s)" by blast
  let ?p1 = "p\<lparr>ps_pending := (ps_pending p)(i := None), ps_bySub := (ps_bySub p)(serverSub \<mapsto> s)\<rparr>"
  let ?p2 = "upd_sub s (\<lambda>st. st\<lparr>os_ackTimer := None, os_confirmed := True, os_sub := serverSub,
                                      os_seq := 0, os_ready := False\<rparr>) ?p1"
  have "stream_ok g {s} (p\<lparr>ps_pending := (ps_pending p)(i := None)\<rparr>)" by (rule stream_ok_drop [OF assms(1) s])
  from stream_ok_bySub [OF this, of "(ps_bySub p)(serverSub \<mapsto> s)"] have "stream_ok g {s} ?p1"
    using assms(2) by simp
  then have "stream_ok g {s} ?p2" using assms(2) by (intro stream_ok_upd_any) simp_all
  then have p2: "stream_ok g {} ?p2" using assms(3) by (intro stream_ok_excuse [of g s "{}"]) auto
  let ?p3 = "if os_state (ps_sub ?p2 s) \<noteq> SubConnected
      then deliver s OrderStreamConnected (upd_sub s (\<lambda>st. st\<lparr>os_state := SubConnected\<rparr>) ?p2) else ?p2"
  have "stream_ok g {} ?p3" using p2 by (simp add: stream_ok_deliver stream_ok_upd_sub del: upd_sub_fields)
  then have "stream_ok g {} (if os_stale (ps_sub ?p3 s)
             then deliver s (OrderStale False [] [])
                    (upd_sub s (\<lambda>st. st\<lparr>os_stale := False, os_staleReason := [], os_staleOrderIDs := []\<rparr>) ?p3)
             else ?p3)" by (simp add: stream_ok_deliver stream_ok_upd_sub del: upd_sub_fields)
  then show ?thesis by (simp only: onSubscribed_def s option.case prod.case request_kind.case Let_def)
next
  case False
  then have "onSubscribed conn serverSub i p = (if serverSub \<noteq> [] then unsubscribe conn serverSub p else p)"
    by (auto simp: onSubscribed_def split: option.splits prod.splits request_kind.splits)
  then show ?thesis using assms(1,3) stream_ok_grows [OF assms(1) grows_unsubscribe] by simp
qed

lemma stream_ok_onRequestError:
  assumes "stream_ok g {} p" and "ps_conn p = Some conn"
  shows "stream_ok g {} (onRequestError conn serverSub i code message p)"
proof -
  have un: "stream_ok g {} (p\<lparr>ps_unsubscribing := u\<rparr>)" for u
    by (rule stream_ok_grows [OF assms(1)]) (simp add: grows_def skel_def)
  define err where "err = RealtimeError (if message = []
    then ''private order stream request failed: '' @ code_text code else message)"
  define request where "request = (if i \<noteq> [] then ps_pending p i else None)"
  define p1 where "p1 = (if i \<noteq> [] then p\<lparr>ps_pending := (ps_pending p)(i := None)\<rparr> else p)"
  have conn: "ps_conn p1 = Some conn" using assms(2) by (simp add: p1_def)
  have drop: "stream_ok g (X) p1" if "\<And>s. request = Some (RequestSubscribe, s) \<Longrightarrow> s \<in> X" for X
    using stream_ok_drop_request [OF assms(1), of i X] that assms(1) stream_ok_weaken [OF assms(1), of X g]
    by (auto simp: p1_def request_def)
  define target where "target = (case request of Some (k, s) \<Rightarrow> Some s | None \<Rightarrow> ps_bySub p1 serverSub)"
  define after where "after = (case target of
      None \<Rightarrow> reportAll err p1
    | Some s \<Rightarrow>
        if request = Some (RequestSubscribe, s) then
          (if code = CURSOR_INVALID
           then subscribeServer conn s (upd_sub s (\<lambda>st. st\<lparr>os_cursor := []\<rparr>) p1)
           else terminate err s p1)
        else if code = SUBSCRIPTION_UNKNOWN \<and> os_sub (ps_sub p1 s) = serverSub
        then resubscribe conn s (upd_sub s (\<lambda>st. st\<lparr>os_sub := []\<rparr>)
               (p1\<lparr>ps_bySub := (ps_bySub p1)(serverSub := None)\<rparr>))
        else report err s p1)"
  have eq: "onRequestError conn serverSub i code message p =
      (if i \<noteq> [] \<and> i \<in> ps_unsubscribing p then p\<lparr>ps_unsubscribing := ps_unsubscribing p - {i}\<rparr>
       else if i \<noteq> [] \<and> ps_pending p i = None then p else after)"
    unfolding onRequestError_def Let_def after_def target_def request_def p1_def err_def by (rule refl)
  have "stream_ok g {} after"
  proof (cases "\<exists>s. request = Some (RequestSubscribe, s)")
    case True
    then obtain s where s: "request = Some (RequestSubscribe, s)" by blast
    then have p1: "stream_ok g {s} p1" by (intro drop) simp
    have "stream_ok g {} (subscribeServer conn s (upd_sub s (\<lambda>st. st\<lparr>os_cursor := []\<rparr>) p1))"
      by (rule stream_ok_subscribeServer) (use p1 conn in \<open>auto intro: stream_ok_upd_sub\<close>)
    moreover have "stream_ok g {} (terminate err s p1)" by (rule stream_ok_terminate_excused [OF p1])
    ultimately show ?thesis by (simp add: after_def target_def s)
  next
    case False
    then have p1: "stream_ok g {} p1" by (intro drop) auto
    have "stream_ok g {} (resubscribe conn s (upd_sub s (\<lambda>st. st\<lparr>os_sub := []\<rparr>)
        (p1\<lparr>ps_bySub := (ps_bySub p1)(serverSub := None)\<rparr>)))" for s
    proof (rule stream_ok_resubscribe)
      have "stream_ok g {s} (p1\<lparr>ps_bySub := (ps_bySub p1)(serverSub := None)\<rparr>)"
        using conn by (intro stream_ok_bySub stream_ok_weaken [OF p1]) auto
      then show "stream_ok g {s} (upd_sub s (\<lambda>st. st\<lparr>os_sub := []\<rparr>)
        (p1\<lparr>ps_bySub := (ps_bySub p1)(serverSub := None)\<rparr>))" by (rule stream_ok_upd_any) simp_all
    qed (simp add: conn)
    with p1 False show ?thesis
      by (auto simp: after_def stream_ok_report stream_ok_reportAll split: option.split)
  qed
  with un assms(1) show ?thesis by (simp add: eq)
qed

lemma stream_ok_onStreamFrame:
  assumes "stream_ok g {} p" and "ps_conn p = Some conn"
  shows "stream_ok g {} (onStreamFrame conn s frame p)"
proof -
  note weak = stream_ok_weaken [OF assms(1), of "{s}" g, simplified]
  have re: "stream_ok g {} (resubscribe conn s q)" if "stream_ok g {s} q" "ps_conn q = Some conn" for q
    using stream_ok_resubscribe [OF that] .
  have fin: "stream_ok g {} (resubscribe conn s (upd_sub s (\<lambda>st. st\<lparr>os_cursor := []\<rparr>)
      (upd_sub s (\<lambda>st. st\<lparr>os_staging := False, os_staged := []\<rparr>) p)))"
    by (rule re) (use weak assms(2) in \<open>auto intro!: stream_ok_upd_sub\<close>)
  have uns: "stream_ok g {} (resubscribe conn s (upd_sub s (\<lambda>st. st\<lparr>os_sub := []\<rparr>) (p\<lparr>ps_bySub := b\<rparr>)))" for b
  proof (rule re)
    have "stream_ok g {s} (p\<lparr>ps_bySub := b\<rparr>)" using weak assms(2) by (intro stream_ok_bySub) simp_all
    then show "stream_ok g {s} (upd_sub s (\<lambda>st. st\<lparr>os_sub := []\<rparr>) (p\<lparr>ps_bySub := b\<rparr>))"
      by (rule stream_ok_upd_any) simp_all
  qed (simp add: assms(2))
  show ?thesis
    by (cases frame) (simp_all add: onStreamFrame_def Let_def assms(1) fin uns stream_ok_deliver
      stream_ok_upd_sub del: upd_sub_fields)
qed

lemma stream_ok_onStream:
  assumes "stream_ok g {} p" and "ps_conn p = Some conn"
  shows "stream_ok g {} (onStream conn serverSub seq frame p)"
proof (cases "ps_bySub p serverSub")
  case (Some s)
  have "stream_ok g {} (resubscribe conn s p)"
    by (rule stream_ok_resubscribe [OF _ assms(2)]) (rule stream_ok_weaken [OF assms(1)], auto)
  moreover have "stream_ok g {} (onStreamFrame conn s frame (upd_sub s (\<lambda>st. st\<lparr>os_seq := seq\<rparr>) p))"
    by (rule stream_ok_onStreamFrame) (use assms in \<open>auto intro!: stream_ok_upd_sub\<close>)
  moreover note stream_ok_onStreamFrame [OF assms]
  ultimately show ?thesis unfolding onStream_def Some option.case by presburger
qed (simp add: onStream_def assms)

text \<open>What a server promises of its frames: a confirmation names the new subscription, and the
  answer to a refresh does not carry the id of a subscribe.\<close>

fun frame_ok :: "('o, 'x) server_message \<Rightarrow> ('o, 'x) private_stream \<Rightarrow> bool" where
  "frame_ok (Frame serverSub seq (FSubscribed i)) p \<longleftrightarrow> serverSub \<noteq> []"
| "frame_ok (Frame serverSub seq (FSubscribeRefreshed i)) p \<longleftrightarrow> (\<forall>s. ps_pending p i \<noteq> Some (RequestSubscribe, s))"
| "frame_ok _ p \<longleftrightarrow> True"

lemma stream_ok_onFrame:
  assumes "stream_ok g {} p" and "frame_ok msg p"
  shows "stream_ok g {} (onFrame conn msg p)"
proof (cases "ps_conn p = Some conn")
  case True
  show ?thesis
  proof (cases msg)
    case (Frame serverSub seq frame)
    have un: "stream_ok g {} (p\<lparr>ps_unsubscribing := u\<rparr>)" for u
      by (rule stream_ok_grows [OF assms(1)]) (simp add: grows_def skel_def)
    have re: "stream_ok g {} (p\<lparr>ps_pending := (ps_pending p)(i := None)\<rparr>)"
      if "\<forall>s. ps_pending p i \<noteq> Some (RequestSubscribe, s)" for i
      using stream_ok_drop_request [OF assms(1), of i "{}"] that by simp
    show ?thesis
      using assms(2) True un re stream_ok_onSubscribed [OF assms(1) True]
        stream_ok_onRequestError [OF assms(1) True] stream_ok_onStream [OF assms(1) True] assms(1)
      by (cases frame) (simp_all add: onFrame_def Frame)
  next
    case (BadFrame reason)
    with True show ?thesis by (simp add: onFrame_def stream_ok_reportAll assms(1))
  qed
qed (simp add: onFrame_def assms)

section \<open>The connection keeps the skeleton\<close>

lemma stream_ok_link:
  assumes "stream_ok g X p" and "link_ok g' q"
    and "ps_subs q = ps_subs p" "ps_sub q = ps_sub p" "ps_pending q = ps_pending p" "ps_bySub q = ps_bySub p"
    "ps_conn q = ps_conn p" "ps_requestSeq q = ps_requestSeq p" "ps_next q = ps_next p"
    "ps_fetches q = ps_fetches p" "ps_retries q = ps_retries p"
  shows "stream_ok g' X q"
proof -
  have c: "cur s q = cur s p" "waits q s = waits p s" for s by (simp_all add: cur_def waits_def assms)
  show ?thesis
    using assms(1,2) unfolding stream_ok_def keyed_subs_def owned_requests_def offline_clear_def captured_def
      none_stuck_def c assms(3-) by blast
qed

lemma stream_ok_scheduleReconnect:
  assumes "stream_ok False X p" and "ps_conn p = None" and "\<not> ps_connecting p"
  shows "stream_ok True X (scheduleReconnect p)"
proof -
  obtain t q where t: "new_timer (p\<lparr>ps_reconnectAttempt := ps_reconnectAttempt p + 1\<rparr>) = (t, q)" by fastforce
  have g: "grows p q"
    by (rule grows_trans [OF _ grows_timer [OF t, THEN conjunct1]]) (simp add: grows_def skel_def)
  note f = grows_fields [OF g]
  have tn: "ps_sess p \<noteq> None \<longrightarrow> t \<noteq> None" "ps_sess p = None \<longrightarrow> t = None"
    using t by (auto simp: new_timer_def split: option.splits)
  have q: "stream_ok False X q" by (rule stream_ok_grows [OF assms(1) g])
  have "link_ok True (q\<lparr>ps_reconnectTimer := t\<rparr>)"
    using q tn assms(2,3) f(4,5,6) by (auto simp: stream_ok_def link_ok_def)
  from stream_ok_link [OF q this] show ?thesis
    unfolding scheduleReconnect_def Let_def t prod.case by simp
qed

lemma stream_ok_open:
  assumes "stream_ok False X p" and "ps_conn p = None" and "ps_reconnectTimer p = None" and "ps_subs p \<noteq> []"
  shows "stream_ok True X (open_conn p)"
  by (rule stream_ok_link [OF assms(1)])
    (use assms in \<open>auto simp: stream_ok_def link_ok_def open_conn_def\<close>)

lemma stream_ok_flags:
  assumes "stream_ok g X p"
  shows "stream_ok False X (p\<lparr>ps_connecting := False\<rparr>)" and "stream_ok False X (p\<lparr>ps_reconnectTimer := None\<rparr>)"
    and "stream_ok g X (p\<lparr>ps_reconnectAttempt := n\<rparr>)"
proof -
  have "link_ok g p" using assms by (simp add: stream_ok_def)
  then have "link_ok False (p\<lparr>ps_connecting := False\<rparr>)" "link_ok False (p\<lparr>ps_reconnectTimer := None\<rparr>)"
    by (auto simp: link_ok_def)
  then show "stream_ok False X (p\<lparr>ps_connecting := False\<rparr>)"
    and "stream_ok False X (p\<lparr>ps_reconnectTimer := None\<rparr>)" by (auto intro: stream_ok_link [OF assms])
  show "stream_ok g X (p\<lparr>ps_reconnectAttempt := n\<rparr>)"
    by (rule stream_ok_grows [OF assms]) (simp add: grows_def skel_def)
qed

lemma stream_ok_reconnect_fired: "stream_ok True {} p \<Longrightarrow> stream_ok True {} (reconnect_fired t p)"
proof -
  assume ok: "stream_ok True {} p"
  let ?p1 = "p\<lparr>ps_reconnectTimer := None\<rparr>"
  note p1 = stream_ok_flags(2) [OF ok]
  have "link_ok True ?p1" if "\<not> (ps_subs ?p1 \<noteq> [] \<and> ps_conn ?p1 = None \<and> \<not> ps_connecting ?p1)"
    using that p1 unfolding stream_ok_def link_ok_def by auto
  then have "stream_ok True {} ?p1" if "\<not> (ps_subs ?p1 \<noteq> [] \<and> ps_conn ?p1 = None \<and> \<not> ps_connecting ?p1)"
    using that by (intro stream_ok_link [OF p1]) simp_all
  moreover have "stream_ok True {} (open_conn ?p1)"
    if "ps_subs ?p1 \<noteq> [] \<and> ps_conn ?p1 = None \<and> \<not> ps_connecting ?p1"
    using that by (intro stream_ok_open p1) simp_all
  ultimately show ?thesis using ok unfolding reconnect_fired_def Let_def by (simp only: if_split) simp
qed

text \<open>Without subscriptions there is no connection to have.\<close>

lemma stream_ok_idle: "stream_ok False X p \<Longrightarrow> ps_subs p = [] \<Longrightarrow> stream_ok True X p"
  by (rule stream_ok_link) (simp_all add: stream_ok_def link_ok_def)

lemma stream_ok_terminated: "stream_ok g X p \<Longrightarrow> stream_ok True X (terminateAll e p)"
  by (rule stream_ok_idle) (auto intro: stream_ok_weaken stream_ok_terminateAll terminateAll_empties)

lemma conn_subscribeServer: "ps_conn (subscribeServer conn s p) = ps_conn p"
  by (simp add: subscribeServer_def nextRequestID_def Let_def)

lemma stream_ok_subscribe_all:
  "stream_ok g (set xs) p \<Longrightarrow> ps_conn p = Some conn \<Longrightarrow> stream_ok g {} (fold (subscribeServer conn) xs p)"
proof (induction xs arbitrary: p)
  case (Cons s xs)
  have "stream_ok g (set xs) (subscribeServer conn s p)"
    using Cons.prems by (intro stream_ok_subscribeServer) simp_all
  with Cons show ?case by (simp add: conn_subscribeServer)
qed simp

lemma stream_ok_connected:
  assumes "stream_ok False {} p" and "ps_conn p = None" and "ps_reconnectTimer p = None"
    and "\<not> ps_connecting p" and "ps_subs p \<noteq> []" and "X = set (snapshotSubs p)"
    and that: "ps_next p \<le> Suc conn'"
  shows "stream_ok True X (p\<lparr>ps_conn := Some conn, ps_next := Suc conn', ps_sent := sent, ps_authSent := True\<rparr>)"
    (is "stream_ok _ _ ?q")
proof -
  have a: "keyed_subs p" "owned_requests p" "link_ok False p" "offline_clear p" "captured p"
    using assms(1) by (simp_all add: stream_ok_def)
  from a(4) assms(2) have o: "ps_pending p = Map.empty"
    "\<forall>s. cur s p \<longrightarrow> os_sub (ps_sub p s) = [] \<and> os_retryTimer (ps_sub p s) = None"
    by (simp_all add: offline_clear_def)
  have c: "cur s ?q = cur s p" for s by (simp add: cur_def)
  have "keyed_subs ?q" using a(1) that by (fastforce simp: keyed_subs_def)
  moreover have "owned_requests ?q" using o by (simp add: owned_requests_def)
  moreover have "link_ok True ?q" using a(3) assms(3-5) by (simp add: link_ok_def)
  moreover have "offline_clear ?q" by (simp add: offline_clear_def)
  moreover have "captured ?q" using a(5) o that unfolding captured_def c by fastforce
  moreover have "none_stuck X ?q"
    unfolding none_stuck_def c assms(6) snapshotSubs_def using cur_snd [OF a(1)] by auto
  ultimately show ?thesis by (simp add: stream_ok_def)
qed

lemma stream_ok_opened:
  assumes "stream_ok True {} p" and "ps_connecting p \<or> ps_sess p \<noteq> Some sess"
  shows "stream_ok True {} (opened sess result p)"
proof (cases "ps_sess p = Some sess")
  case True
  with assms(2) have cing: "ps_connecting p" by simp
  let ?p1 = "p\<lparr>ps_connecting := False\<rparr>"
  note p1 = stream_ok_flags(1) [OF assms(1)]
  from assms(1) True cing have conn: "ps_conn p = None" "ps_reconnectTimer p = None" "ps_subs p \<noteq> []"
    unfolding stream_ok_def link_ok_def by auto
  show ?thesis
  proof (cases result)
    case (Inl e)
    obtain tf err where e: "e = (tf, err)" by fastforce
    have f: "fewer ?p1 (reportAll err ?p1)"
      unfolding reportAll_def by (rule fewer_fold) (rule fewer_report)
    have r: "stream_ok False {} (reportAll err ?p1)" by (rule stream_ok_reportAll [OF p1])
    have "ps_conn (reportAll err ?p1) = None"
      using f conn(1) r unfolding fewer_def stream_ok_def link_ok_def by (cases "ps_subs (reportAll err ?p1) = []") auto
    moreover have "\<not> ps_connecting (reportAll err ?p1)"
      by (rule calm_reportAll) simp
    ultimately have "stream_ok True {} (scheduleReconnect (reportAll err ?p1))"
      by (intro stream_ok_scheduleReconnect r)
    then show ?thesis
      using True Inl e stream_ok_terminated [OF p1] by (simp add: opened_def Let_def)
  next
    case (Inr token)
    let ?c = "ps_next p"
    let ?q = "?p1\<lparr>ps_conn := Some ?c, ps_next := Suc ?c, ps_sent := ps_sent p @ [CAuth token], ps_authSent := True\<rparr>"
    have "stream_ok True (set (snapshotSubs ?p1)) ?q"
      using conn by (intro stream_ok_connected [OF p1]) simp_all
    then have "stream_ok True {} (fold (subscribeServer ?c) (snapshotSubs ?p1) ?q)"
      by (intro stream_ok_subscribe_all) simp_all
    then show ?thesis
      using True Inr by (simp add: opened_def Let_def authenticate_def send_def snapshotSubs_def)
  qed
qed (simp add: opened_def assms)

lemma stream_ok_reauthenticated: "stream_ok True {} p \<Longrightarrow> stream_ok True {} (reauthenticated conn result p)"
  by (simp add: reauthenticated_def stream_ok_terminateAll stream_ok_reportAll stream_ok_grows [OF _ grows_send]
      split: sum.split)

lemma stream_ok_onClosed:
  assumes "stream_ok True {} p"
  shows "stream_ok True {} (onClosed conn code reason up p)"
proof (cases "ps_conn p = Some conn")
  case True
  define p2 where "p2 = (if ps_authSent p \<and> up \<ge> stableAfter
      then (detach p)\<lparr>ps_reconnectAttempt := 0\<rparr> else detach p)"
  have p2: "stream_ok False {} p2"
    using stream_ok_detach [OF assms] by (simp add: p2_def stream_ok_flags(3))
  have f: "ps_conn p2 = None" "ps_connecting p2 = ps_connecting p" by (simp_all add: p2_def detach_fields)
  have "\<not> ps_connecting p" using assms True unfolding stream_ok_def link_ok_def by auto
  with f have s: "stream_ok True {} (scheduleReconnect p2)" by (intro stream_ok_scheduleReconnect p2) simp_all
  have d: "stream_ok True {} (fold disconnect_sub (snapshotSubs p2) (scheduleReconnect p2))"
    by (rule stream_ok_fold [OF stream_ok_disconnect s])
  have eq: "onClosed conn code reason up p = (if ps_subs p2 = [] then p2
      else if code = 4400 \<or> code = 4403
      then terminateAll (RealtimeError (if reason = []
             then ''private WebSocket closed with code '' @ itoa code else reason)) p2
      else fold disconnect_sub (snapshotSubs p2) (scheduleReconnect p2))"
    using True by (simp only: onClosed_def p2_def Let_def not_not if_False simp_thms)
  show ?thesis unfolding eq using d stream_ok_terminated [OF p2] stream_ok_idle [OF p2] by (simp only: split: if_split) simp
qed (simp add: onClosed_def assms)

lemma stream_ok_remove_consumer: "stream_ok g X p \<Longrightarrow> stream_ok g X (remove_consumer s c p)"
  by (simp add: remove_consumer_def Let_def stream_ok_teardown stream_ok_grows [OF _ grows_finish] stream_ok_upd_sub)

lemma stream_ok_consume: "stream_ok g X p \<Longrightarrow> stream_ok g X (consume c p)"
  by (simp add: consume_def stream_ok_grows [OF _ grows_upd_con])

text \<open>A new subscription under a fresh pointer.\<close>

lemma stream_ok_added:
  assumes "stream_ok True {} p" and "channel \<notin> fst ` set (ps_subs p)" and "ps_next p \<le> s"
    and "g = (ps_conn p \<noteq> None \<or> ps_connecting p \<or> ps_reconnectTimer p \<noteq> None)"
    and "st = new_sub channel account" and "sess \<noteq> None" and "\<And>x. ps_sess p = Some x \<Longrightarrow> sess = Some x"
  shows "stream_ok g {s} (p\<lparr>ps_sub := (ps_sub p)(s := st\<lparr>os_consumers := cs\<rparr>), ps_next := Suc s,
    ps_subs := (channel, s) # ps_subs p, ps_sess := sess\<rparr>)" (is "stream_ok _ _ ?q")
proof -
  have a: "keyed_subs p" "owned_requests p" "link_ok True p" "offline_clear p" "none_stuck {} p" "captured p"
    using assms(1) by (simp_all add: stream_ok_def)
  have new: "i < ps_next p \<Longrightarrow> i \<noteq> s" for i using assms(3) by simp
  have below: "cur i p \<Longrightarrow> i < ps_next p" for i using a(1) by (auto simp: keyed_subs_def cur_def)
  have chan: "os_channel st = channel" and sub: "os_sub st = []" and tim: "os_retryTimer st = None"
    by (simp_all add: assms(5) new_sub_def)
  have c: "cur i ?q \<longleftrightarrow> i = s \<or> cur i p" if "i = s \<or> i < ps_next p \<or> cur i ?q" for i
    using that below [of i] new a(1) by (auto simp: cur_def chan keyed_subs_def split: if_splits)
  have cq: "cur i ?q \<longleftrightarrow> i = s \<or> cur i p" for i
    using c [of i] below [of i] by blast
  have w: "waits p i \<Longrightarrow> i \<noteq> s \<Longrightarrow> waits ?q i" for i by (simp add: waits_def)
  have "keyed_subs ?q"
    using a(1) assms(2,3) new chan by (fastforce simp: keyed_subs_def)
  moreover have "owned_requests ?q" using a(2) unfolding owned_requests_def cq by auto
  moreover have "link_ok g ?q" using a(3) assms(4,6) by (auto simp: link_ok_def)
  moreover have "offline_clear ?q"
    using a(4) sub tim unfolding offline_clear_def cq by auto
  moreover have "none_stuck {s} ?q"
    using a(5) w unfolding none_stuck_def cq by auto
  moreover have "captured ?q"
    unfolding captured_def cq
  proof (intro conjI allI impI)
    fix d r t assume "(d, r, t) \<in> ps_retries ?q"
    then have m: "(d, r, t) \<in> ps_retries p" by simp
    then have "t < ps_next p" using a(6) unfolding captured_def by blast
    with assms(3) show "t < ps_next ?q" by simp
    assume u: "(r = s \<or> cur r p) \<and> os_retryTimer (ps_sub ?q r) = Some t"
    with tim have "r \<noteq> s" by auto
    with u have "cur r p \<and> os_retryTimer (ps_sub p r) = Some t" by simp
    with m a(6) have "ps_conn p = Some d" unfolding captured_def by blast
    then show "ps_conn ?q = Some d" by simp
  next
    fix d r i assume "(d, r, i) \<in> ps_fetches ?q"
    then have m: "(d, r, i) \<in> ps_fetches p" by simp
    with a(6) show "\<exists>n \<le> ps_requestSeq ?q. i = itoa (int n)" unfolding captured_def by auto
    fix k assume "ps_pending ?q i = Some (k, r)"
    with m a(6) have "ps_conn p = Some d" unfolding captured_def by auto
    then show "ps_conn ?q = Some d" by simp
  qed
  ultimately show ?thesis by (simp add: stream_ok_def)
qed

lemma stream_ok_subscribe:
  assumes "stream_ok True {} p" and "subscribe enc account p = (c, s, q)"
  shows "stream_ok True {} q"
proof -
  define channel where "channel = privateOrdersChannelPrefix @ FormatID enc account"
  define p1 where "p1 = upd_con (ps_next p) (\<lambda>_. \<lparr>oc_sub = newSubscription (ps_maxQueue p), oc_log = []\<rparr>)
      (p\<lparr>ps_next := Suc (ps_next p)\<rparr>)"
  define p2 where "p2 = (case ps_sess p1 of
      None \<Rightarrow> p1\<lparr>ps_sess := Some (ps_next p1), ps_next := Suc (ps_next p1)\<rparr> | Some _ \<Rightarrow> p1)"
  have "grows p (p\<lparr>ps_next := Suc (ps_next p)\<rparr>)" by (simp add: grows_def skel_def)
  from grows_trans [OF this grows_upd_con] have g1: "grows p p1" by (simp add: p1_def)
  note ok1 = stream_ok_grows [OF assms(1) g1]
  have sess: "ps_subs p1 \<noteq> [] \<Longrightarrow> p2 = p1"
    using ok1 by (auto simp: p2_def stream_ok_def link_ok_def split: option.split)
  have eq: "subscribe enc account p = (ps_next p, case map_of (ps_subs p2) channel of
      Some s \<Rightarrow> (s, catchUp s (ps_next p) (upd_sub s (\<lambda>st. st\<lparr>os_consumers := ps_next p # os_consumers st\<rparr>) p2))
    | None \<Rightarrow> (let s = ps_next p2;
               p3 = upd_sub s (\<lambda>_. (new_sub channel account)\<lparr>os_consumers := [ps_next p]\<rparr>)
                      (p2\<lparr>ps_next := Suc s, ps_subs := (channel, s) # ps_subs p2\<rparr>)
           in (s, case ps_conn p3 of
                    Some conn \<Rightarrow> if ps_authSent p3 then subscribeServer conn s p3 else p3
                  | None \<Rightarrow> if \<not> ps_connecting p3 \<and> ps_reconnectTimer p3 = None then open_conn p3 else p3)))"
    unfolding subscribe_def Let_def channel_def p2_def p1_def by (auto split: option.split)
  show ?thesis
  proof (cases "map_of (ps_subs p2) channel")
    case (Some r)
    have "p2 = p1"
    proof (rule sess, rule ccontr)
      assume "\<not> ps_subs p1 \<noteq> []"
      then have "ps_subs p2 = []" by (auto simp: p2_def split: option.split)
      with Some show False by simp
    qed
    with ok1 have "stream_ok True {} (catchUp r (ps_next p)
        (upd_sub r (\<lambda>st. st\<lparr>os_consumers := ps_next p # os_consumers st\<rparr>) p2))"
      by (simp add: stream_ok_catchUp stream_ok_upd_sub del: upd_sub_fields)
    with Some assms(2) eq show ?thesis by auto
  next
    case None
    let ?s = "ps_next p2"
    define p3 where "p3 = upd_sub ?s (\<lambda>_. (new_sub channel account)\<lparr>os_consumers := [ps_next p]\<rparr>)
        (p2\<lparr>ps_next := Suc ?s, ps_subs := (channel, ?s) # ps_subs p2\<rparr>)"
    define up where "up = (ps_conn p1 \<noteq> None \<or> ps_connecting p1 \<or> ps_reconnectTimer p1 \<noteq> None)"
    have same: "ps_sub p2 = ps_sub p1" "ps_subs p2 = ps_subs p1" "ps_next p1 \<le> ps_next p2" "ps_con p2 = ps_con p1"
      "ps_conn p2 = ps_conn p1" "ps_connecting p2 = ps_connecting p1" "ps_reconnectTimer p2 = ps_reconnectTimer p1"
      "ps_authSent p2 = ps_authSent p1" "ps_sess p2 \<noteq> None" "\<And>x. ps_sess p1 = Some x \<Longrightarrow> ps_sess p2 = Some x"
      by (auto simp: p2_def split: option.split)
    have "p3 = p1\<lparr>ps_sub := (ps_sub p1)(?s := (new_sub channel account)\<lparr>os_consumers := [ps_next p]\<rparr>),
        ps_next := Suc ?s, ps_subs := (channel, ?s) # ps_subs p1, ps_sess := ps_sess p2\<rparr>"
      by (auto simp: p3_def p2_def upd_sub_def split: option.split)
    moreover have "channel \<notin> fst ` set (ps_subs p1)"
      using None same(2) by (simp add: map_of_eq_None_iff)
    ultimately have ok3: "stream_ok up {?s} p3"
      using stream_ok_added [OF ok1 _ same(3) up_def refl same(9,10), of channel] by (simp only:) simp
    have f3: "ps_conn p3 = ps_conn p1" "ps_connecting p3 = ps_connecting p1"
      "ps_reconnectTimer p3 = ps_reconnectTimer p1" "ps_authSent p3 = ps_authSent p1" "ps_subs p3 \<noteq> []"
      by (simp_all add: p3_def same)
    have q: "q = (case ps_conn p3 of
          Some conn \<Rightarrow> if ps_authSent p3 then subscribeServer conn ?s p3 else p3
        | None \<Rightarrow> if \<not> ps_connecting p3 \<and> ps_reconnectTimer p3 = None then open_conn p3 else p3)"
      using assms(2) unfolding eq None option.case Let_def p3_def [symmetric] by blast
    show ?thesis
    proof (cases "ps_conn p3")
      case (Some conn)
      then have "up" "ps_authSent p3" using f3 ok3 by (auto simp: up_def stream_ok_def link_ok_def)
      with ok3 Some q stream_ok_subscribeServer [of True ?s "{}" p3 conn] show ?thesis by simp
    next
      case unlinked: None
      then have ok4: "stream_ok up {} p3" using ok3 by (simp add: stream_ok_def none_stuck_def)
      show ?thesis
      proof (cases up)
        case True
        with ok4 f3 unlinked q show ?thesis by (auto simp: up_def)
      next
        case False
        have "stream_ok True {} (open_conn p3)"
          using ok4 False f3 unlinked by (intro stream_ok_open) (simp_all add: up_def)
        with False f3 q show ?thesis by (simp add: up_def)
      qed
    qed
  qed
qed

section \<open>Runs\<close>

text \<open>Every step takes the lock once. The premises say which events can come: the answer to a token
  fetch and the timers that were started, and a dial that is under way.\<close>

inductive ps_step :: "('o, 'x) private_stream \<Rightarrow> ('o, 'x) private_stream \<Rightarrow> bool" where
  subscribe: "subscribe enc account p = (c, s, q) \<Longrightarrow> ps_step p q"
| remove: "ps_step p (remove_consumer s c p)"
| read: "ps_step p (consume c p)"
| opened: "ps_connecting p \<or> ps_sess p \<noteq> Some sess \<Longrightarrow> ps_step p (opened sess result p)"
| reauthenticated: "ps_step p (reauthenticated conn token p)"
| fetched: "(conn, s, i) \<in> ps_fetches p \<Longrightarrow> ps_step p (subscribe_fetched conn s i token p)"
| ack: "(conn, s, i) \<in> ps_fetches p \<Longrightarrow> ps_step p (ack_fired conn s i t p)"
| retry: "(conn, s, t) \<in> ps_retries p \<Longrightarrow> ps_step p (retry_fired conn s t p)"
| refreshed: "ps_step p (refresh_token conn s k token p)"
| frame: "frame_ok msg p \<Longrightarrow> ps_step p (onFrame conn msg p)"
| closed: "ps_step p (onClosed conn code reason up p)"
| reconnect: "ps_step p (reconnect_fired t p)"

inductive_cases ps_stepE: "ps_step p q"

definition ps_init :: "('o, 'x) private_stream \<Rightarrow> bool" where
  "ps_init p \<longleftrightarrow> (\<exists>n. p = newPrivateOrderStream n)"

interpretation private_orders: invariant_system ps_init ps_step "stream_ok True {}"
proof
  show "ps_init p \<Longrightarrow> stream_ok True {} p" for p :: "('o, 'x) private_stream"
    by (auto simp: ps_init_def stream_ok_new)
next
  fix p q :: "('o, 'x) private_stream"
  assume ok: "stream_ok True {} p" and "ps_step p q"
  from this(2) show "stream_ok True {} q"
    by (cases rule: ps_step.cases)
      (simp_all add: ok stream_ok_subscribe [OF ok] stream_ok_remove_consumer stream_ok_consume
        stream_ok_opened stream_ok_reauthenticated stream_ok_subscribe_fetched stream_ok_ack_fired
        stream_ok_retry_fired stream_ok_refresh_token stream_ok_onFrame stream_ok_onClosed
        stream_ok_reconnect_fired)
qed

lemma fewer_resubscribe:
  fixes p :: "('o, 'x) private_stream"
  shows "fewer p (resubscribe conn s p)"
proof -
  have u: "fewer q (upd_sub s f q)" for f and q :: "('o, 'x) private_stream" by (simp add: fewer_def)
  have r: "fewer q (retrySubscribe conn s q)" for q :: "('o, 'x) private_stream"
    by (auto simp: fewer_def retrySubscribe_def new_timer_def split: option.split)
  have b: "fewer q (subscribeServer conn s q)" for q :: "('o, 'x) private_stream"
    by (simp add: fewer_def subscribeServer_def nextRequestID_def Let_def)
  have n: "fewer q (unsubscribe conn k (q\<lparr>ps_bySub := m\<rparr>))" for k m and q :: "('o, 'x) private_stream"
    using fewer_grows [OF grows_unsubscribe [of "q\<lparr>ps_bySub := m\<rparr>" conn k]] by (simp add: fewer_def)
  define p1 where "p1 = (if os_sub (ps_sub p s) \<noteq> []
      then unsubscribe conn (os_sub (ps_sub p s)) (p\<lparr>ps_bySub := (ps_bySub p)(os_sub (ps_sub p s) := None)\<rparr>)
      else p)"
  define p2 where "p2 = upd_sub s (\<lambda>st. st\<lparr>os_sub := [], os_seq := 0, os_ready := False, os_staging := False,
      os_staged := []\<rparr>) p1"
  define p3 where "p3 = (if os_retries (ps_sub p2 s) > 0 then retrySubscribe conn s p2
      else subscribeServer conn s (upd_sub s (\<lambda>st. st\<lparr>os_retries := 1\<rparr>) p2))"
  have eq: "resubscribe conn s p = disconnect_sub s p3"
    by (simp only: resubscribe_def Let_def disconnect_sub_def p1_def p2_def p3_def)
  have "fewer p p1" by (simp add: p1_def n)
  moreover have "fewer p1 p2" by (simp add: p2_def u)
  moreover have "fewer p2 p3" using r u fewer_trans [OF u b] by (simp add: p3_def)
  moreover have "fewer p3 (disconnect_sub s p3)"
    using fewer_trans [OF u fewer_deliver] by (simp add: disconnect_sub_def)
  ultimately show ?thesis unfolding eq by (blast intro: fewer_trans)
qed

section \<open>The live view\<close>

text \<open>What a subscription has applied: the orders and the position to resume from. Deliveries,
  errors, resubscriptions and ends leave it alone; they can only drop the server subscription.\<close>

definition applied_view :: "'o order_sub \<Rightarrow> (u64 \<times> 'o) list option \<times> string" where
  "applied_view st = (os_orders st, os_cursor st)"

definition keeps_view :: "'o order_sub \<Rightarrow> 'o order_sub \<Rightarrow> bool" where
  "keeps_view st st' \<longleftrightarrow> applied_view st' = applied_view st \<and> (os_sub st' = [] \<or> os_sub st' = os_sub st)"

definition same_views :: "('o, 'x) private_stream \<Rightarrow> ('o, 'x) private_stream \<Rightarrow> bool" where
  "same_views p q \<longleftrightarrow> (\<forall>i. keeps_view (ps_sub p i) (ps_sub q i))"

lemma same_views_refl [simp]: "same_views p p"
  by (simp add: same_views_def keeps_view_def)

lemma same_views_trans: "same_views p q \<Longrightarrow> same_views q r \<Longrightarrow> same_views p r"
  unfolding same_views_def keeps_view_def by (metis (no_types))

lemma same_views_fold: "(\<And>x q. same_views q (f x q)) \<Longrightarrow> same_views p (fold f xs p)"
  by (induction xs arbitrary: p) (auto intro: same_views_trans)

lemma same_views_sub: "ps_sub q = ps_sub p \<Longrightarrow> same_views p q"
  by (simp add: same_views_def keeps_view_def)

lemma same_views_upd: "keeps_view (ps_sub p s) (f (ps_sub p s)) \<Longrightarrow> same_views p (upd_sub s f p)"
  by (simp add: same_views_def keeps_view_def)

lemma sub_unsubscribe: "ps_sub (unsubscribe conn k p) = ps_sub p"
  by (simp add: unsubscribe_def nextRequestID_def send_def Let_def)

lemma same_views_queues [simp]:
  "same_views p (upd_con c g p)" "same_views p (finish c e p)" "same_views p (notify c err p)"
  "same_views p (send conn m p)" "same_views p (unsubscribe conn k p)" "same_views p (subscribeServer conn s p)"
  by (rule same_views_sub, simp add: upd_con_def finish_def notify_def send_def unsubscribe_def
      subscribeServer_def nextRequestID_def Let_def)+

lemma same_views_drop_consumers [simp]: "same_views p (drop_consumers s e p)"
  unfolding drop_consumers_def
  by (rule same_views_trans [OF same_views_fold same_views_upd]) (simp_all add: keeps_view_def applied_view_def)

lemma same_views_shutdown:
  fixes p :: "('o, 'x) private_stream"
  shows "same_views p (shutdown p)"
proof -
  have "same_views q (fold (\<lambda>s. upd_sub s clear_server_sub) xs q)" for xs and q :: "('o, 'x) private_stream"
    by (rule same_views_fold, rule same_views_upd) (simp add: keeps_view_def applied_view_def clear_server_sub_def)
  then have "same_views p (detach p)"
    unfolding detach_def by (rule same_views_trans [OF same_views_sub, rotated]) simp
  then show ?thesis by (rule same_views_trans) (simp add: same_views_sub shutdown_def)
qed

lemma same_views_teardown: "same_views p (teardown s p)"
proof (cases "isCurrent s p")
  case True
  define p1 where "p1 = p\<lparr>ps_subs := AList.delete (os_channel (ps_sub p s)) (ps_subs p)\<rparr>"
  define p3 where "p3 = upd_sub s (\<lambda>st. st\<lparr>os_retryTimer := None, os_ackTimer := None\<rparr>) (drop_consumers s None p1)"
  define p4 where "p4 = (case ps_conn p3 of
                       Some conn \<Rightarrow> if os_sub (ps_sub p3 s) \<noteq> []
                         then unsubscribe conn (os_sub (ps_sub p3 s))
                                (p3\<lparr>ps_bySub := (ps_bySub p3)(os_sub (ps_sub p3 s) := None)\<rparr>)
                         else p3
                     | None \<Rightarrow> p3)"
  define p5 where "p5 = upd_sub s (\<lambda>st. st\<lparr>os_sub := []\<rparr>) p4"
  define p6 where "p6 = p5\<lparr>ps_pending := drop_pending s (ps_pending p5)\<rparr>"
  have eq: "teardown s p = (if ps_subs p6 = [] then shutdown p6 else p6)"
    using True by (simp only: teardown_def Let_def p1_def p3_def p4_def p5_def p6_def not_not if_False simp_thms)
  have "same_views p p1" by (rule same_views_sub) (simp add: p1_def)
  moreover have "same_views p1 p3" unfolding p3_def
    by (rule same_views_trans [OF same_views_drop_consumers same_views_upd]) (simp add: keeps_view_def applied_view_def)
  moreover have "same_views p3 p4" unfolding p4_def
    by (auto intro!: same_views_sub simp: sub_unsubscribe split: option.split)
  moreover have "same_views p4 p5" unfolding p5_def by (rule same_views_upd) (simp add: keeps_view_def applied_view_def)
  moreover have "same_views p5 p6" by (rule same_views_sub) (simp add: p6_def)
  ultimately have "same_views p p6" by (blast intro: same_views_trans)
  with same_views_shutdown [of p6] show ?thesis unfolding eq by (auto intro: same_views_trans)
qed (simp add: teardown_def)

lemma same_views_offer: "same_views p (offer s ev c p)"
proof -
  let ?q = "notify c private_overflow (finish c (Some private_overflow)
      (upd_sub s (\<lambda>st. st\<lparr>os_consumers := remove1 c (os_consumers st)\<rparr>) p))"
  have "same_views p (upd_sub s (\<lambda>st. st\<lparr>os_consumers := remove1 c (os_consumers st)\<rparr>) p)"
    by (rule same_views_upd) (simp add: keeps_view_def applied_view_def)
  from same_views_trans [OF same_views_trans [OF this same_views_queues(2)] same_views_queues(3)]
  have q: "same_views p ?q" .
  then have "same_views p (teardown s ?q)" using same_views_teardown same_views_trans by blast
  with q show ?thesis unfolding offer_def Let_def by (simp only: split: if_split) simp
qed

lemma same_views_deliver: "same_views p (deliver s ev p)"
  unfolding deliver_def by (rule same_views_fold) (rule same_views_offer)

lemma same_views_report: "same_views p (report e s p)"
  unfolding report_def by (rule same_views_fold) (rule same_views_trans [OF same_views_offer same_views_queues(3)])

lemma same_views_retrySubscribe: "same_views p (retrySubscribe conn s p)"
  by (auto simp: same_views_def keeps_view_def retrySubscribe_def new_timer_def applied_view_def Let_def split: option.split)

lemma same_views_disconnect: "same_views p (disconnect_sub s p)"
proof -
  have "same_views p (upd_sub s (\<lambda>st. st\<lparr>os_state := SubDisconnected\<rparr>) p)"
    by (rule same_views_upd) (simp add: keeps_view_def applied_view_def)
  from same_views_trans [OF this same_views_deliver] show ?thesis by (simp add: disconnect_sub_def)
qed

lemma sub_retrySubscribe: "os_sub (ps_sub (retrySubscribe conn s p) s) = os_sub (ps_sub p s)"
  by (auto simp: retrySubscribe_def new_timer_def Let_def split: option.split)

lemma sub_subscribeServer: "ps_sub (subscribeServer conn s p) = ps_sub p"
  by (simp add: subscribeServer_def nextRequestID_def Let_def)

lemma resubscribe_view:
  shows "same_views p (resubscribe conn s p)" and "os_sub (ps_sub (resubscribe conn s p) s) = []"
proof -
  define p1 where "p1 = (if os_sub (ps_sub p s) \<noteq> []
      then unsubscribe conn (os_sub (ps_sub p s)) (p\<lparr>ps_bySub := (ps_bySub p)(os_sub (ps_sub p s) := None)\<rparr>)
      else p)"
  define p2 where "p2 = upd_sub s (\<lambda>st. st\<lparr>os_sub := [], os_seq := 0, os_ready := False, os_staging := False,
      os_staged := []\<rparr>) p1"
  define p3 where "p3 = (if os_retries (ps_sub p2 s) > 0 then retrySubscribe conn s p2
      else subscribeServer conn s (upd_sub s (\<lambda>st. st\<lparr>os_retries := 1\<rparr>) p2))"
  have eq: "resubscribe conn s p = disconnect_sub s p3"
    by (simp only: resubscribe_def Let_def disconnect_sub_def p1_def p2_def p3_def)
  have "same_views p p1" by (rule same_views_sub) (simp add: p1_def sub_unsubscribe)
  moreover have "same_views p1 p2"
    unfolding p2_def by (rule same_views_upd) (simp add: keeps_view_def applied_view_def)
  moreover have "same_views p2 (upd_sub s (\<lambda>st. st\<lparr>os_retries := 1\<rparr>) p2)"
    by (rule same_views_upd) (simp add: keeps_view_def applied_view_def)
  then have "same_views p2 p3"
    using same_views_trans [OF _ same_views_queues(6)] same_views_retrySubscribe by (auto simp: p3_def)
  moreover note same_views_disconnect [of p3 s]
  ultimately show "same_views p (resubscribe conn s p)" unfolding eq by (blast intro: same_views_trans)
  have "os_sub (ps_sub p3 s) = []" by (simp add: p3_def p2_def sub_retrySubscribe sub_subscribeServer)
  then show "os_sub (ps_sub (resubscribe conn s p) s) = []"
    using same_views_disconnect [of p3 s] by (auto simp: eq same_views_def keeps_view_def)
qed

text \<open>A frame out of sequence is not applied, and the subscription asks the server again.\<close>

lemma onStream_gap:
  assumes "stream_ok True {} p" and "ps_conn p = Some conn" and "ps_bySub p k = Some s"
    and "seq > 0" and "seq \<noteq> os_seq (ps_sub p s) + 1"
  shows "same_views p (onStream conn k seq frame p)" and "os_sub (ps_sub (onStream conn k seq frame p) s) = []"
    and "cur s (onStream conn k seq frame p) \<Longrightarrow> waits (onStream conn k seq frame p) s"
proof -
  have eq: "onStream conn k seq frame p = resubscribe conn s p" using assms(3-5) by (simp add: onStream_def)
  show "same_views p (onStream conn k seq frame p)" "os_sub (ps_sub (onStream conn k seq frame p) s) = []"
    by (simp_all add: eq resubscribe_view)
  assume c: "cur s (onStream conn k seq frame p)"
  have ok: "stream_ok True {} (onStream conn k seq frame p)" by (rule stream_ok_onStream [OF assms(1,2)])
  have "fewer p (resubscribe conn s p)" by (rule fewer_resubscribe)
  from fewer_conn [OF this] c assms(2) have "ps_conn (onStream conn k seq frame p) = Some conn" by (simp add: eq)
  with ok c show "waits (onStream conn k seq frame p) s"
    unfolding stream_ok_def none_stuck_def by (simp add: eq resubscribe_view(2))
qed

section \<open>Properties\<close>

text \<open>A run: one account is subscribed, and the connection opens.\<close>

definition sample_orders :: "(nat, nat) private_stream" where
  "sample_orders = opened 1 (Inr ''token'') (snd (snd (subscribe (\<lambda>_. ''A'') 5 (newPrivateOrderStream 10))))"

abbreviation orders_reachable :: "('o, 'x) private_stream \<Rightarrow> bool" where
  "orders_reachable p \<equiv> reachable ps_init ps_step p"

lemma sample_orders_reachable: "orders_reachable sample_orders"
proof -
  let ?p0 = "newPrivateOrderStream 10 :: (nat, nat) private_stream"
  let ?p1 = "snd (snd (subscribe (\<lambda>_. ''A'') 5 ?p0))"
  obtain c s q where q: "subscribe (\<lambda>_. ''A'') 5 ?p0 = (c, s, q)" by (metis prod_cases3)
  have "orders_reachable ?p0" by (rule reach_init) (auto simp: ps_init_def)
  then have "orders_reachable q" by (rule reach_step) (rule ps_step.subscribe [OF q])
  moreover have "ps_connecting (snd (snd (subscribe (\<lambda>_. ''A'') 5 ?p0)))" by code_simp
  then have "ps_step q (opened 1 (Inr ''token'') q)" by (intro ps_step.opened) (simp add: q)
  ultimately have "orders_reachable (opened 1 (Inr ''token'') q)" by (rule reach_step)
  then show ?thesis by (simp add: sample_orders_def q)
qed

lemma sample_orders_eval:
  "ps_conn sample_orders = Some 3" "ps_subs sample_orders = [(''private:spot:orders:A'', 2)]"
  "os_sub (ps_sub sample_orders 2) = []" "os_channel (ps_sub sample_orders 2) = ''private:spot:orders:A''"
  "ps_pending sample_orders ''1'' = Some (RequestSubscribe, 2)"
  "os_retryTimer (ps_sub sample_orders 2) = None"
  by code_simp+





text \<open>C3. A numbered frame that is not the next one of its subscription is not applied: the orders
  and the resume position stay, the server subscription is dropped, and the subscription, unless it
  ended, asks the server again.\<close>

theorem gap_not_applied:
  assumes "orders_reachable p" and "ps_conn p = Some conn" and "ps_bySub p k = Some s"
    and "seq > 0" and "seq \<noteq> os_seq (ps_sub p s) + 1" and "q = onStream conn k seq frame p"
  shows "os_orders (ps_sub q s) = os_orders (ps_sub p s) \<and> os_cursor (ps_sub q s) = os_cursor (ps_sub p s)
    \<and> os_sub (ps_sub q s) = [] \<and> (cur s q \<longrightarrow> waits q s)"
proof -
  note g = onStream_gap [OF private_orders.inv_reachable [OF assms(1)] assms(2-5), of frame, folded assms(6)]
  from g(1) have "applied_view (ps_sub q s) = applied_view (ps_sub p s)"
    by (simp add: same_views_def keeps_view_def)
  with g(2,3) show ?thesis by (simp add: applied_view_def)
qed

definition sample_confirmed :: "(nat, nat) private_stream" where
  "sample_confirmed = onFrame 3 (Frame ''x'' 0 (FSubscribed ''1'')) sample_orders"

lemma sample_confirmed_reachable: "orders_reachable sample_confirmed"
  unfolding sample_confirmed_def
  by (rule reach_step [OF sample_orders_reachable ps_step.frame]) simp

theorem gap_not_applied_witness:
  "os_sub (ps_sub (onStream 3 ''x'' 5 FReady sample_confirmed) 2) = []"
proof -
  have "ps_conn sample_confirmed = Some 3" "ps_bySub sample_confirmed ''x'' = Some 2" "os_seq (ps_sub sample_confirmed 2) = 0"
    by code_simp+
  with gap_not_applied [OF sample_confirmed_reachable this(1,2), of 5 _ FReady] show ?thesis by simp
qed



end
