(* ===== verification/OrderbookService.thy ===== *)
theory OrderbookService
  imports LocalBook Subscriptions
begin

text \<open>
  The managed order book of \<open>services/orderbook.go\<close>: the closures that
  \<open>CreateSubscription\<close> hands to the snapshot-then-stream coordinator, over the local book and
  the bounded subscription. The variables the closures share (all guarded by one mutex) are
  the record \<open>book_service\<close>. The coordinator is reached by one call,
  \<open>RequestSnapshotRefresh\<close>, which is counted. A recheck runs on its own goroutine and timer:
  it is started with a delay and the generation it captured, and comes back as an event;
  \<open>bs_ended\<close> records that one saw the end of the stream or of its context.
  \<open>OnEvent\<close> and \<open>OnSequenceGap\<close> are logged.
\<close>

section \<open>State\<close>

definition unavailableSnapshotInitialDelay :: int where "unavailableSnapshotInitialDelay = 1000000000"
definition unavailableSnapshotMaxDelay :: int where "unavailableSnapshotMaxDelay = 8 * 1000000000"

record book_service =
  bs_symbol :: string
  bs_depth :: int
  bs_quantityScale :: int
  bs_book :: local_book
  bs_bookAvailable :: bool
  bs_bucketTicks :: int
  bs_subscription :: "orderbook_data managed_subscription"
  bs_lastViewUnavailable :: bool
  bs_recheckPending :: bool
  bs_recheckDelay :: int
  bs_recheckGeneration :: nat
  bs_timers :: "(nat \<times> int) list"
  bs_requests :: nat
  bs_gaps :: nat
  bs_ended :: bool
  bs_events :: "orderbook_data list"

text \<open>The state once the stream and the subscription exist.\<close>

definition new_book_service :: "string \<Rightarrow> int \<Rightarrow> int \<Rightarrow> string \<Rightarrow> book_service" where
  "new_book_service symbol depth quantityScale bucket = \<lparr>bs_symbol = symbol, bs_depth = depth,
     bs_quantityScale = quantityScale, bs_book = \<lparr>lb_bids = [], lb_asks = [], lb_seq = 0\<rparr>,
     bs_bookAvailable = False, bs_bucketTicks = ParseBucketTicks bucket,
     bs_subscription = orderbook_NewSubscription, bs_lastViewUnavailable = False,
     bs_recheckPending = False, bs_recheckDelay = unavailableSnapshotInitialDelay,
     bs_recheckGeneration = 0, bs_timers = [], bs_requests = 0, bs_gaps = 0, bs_ended = False, bs_events = []\<rparr>"

section \<open>Checks before connecting\<close>

text \<open>\<open>symbolIDs\<close> is the catalog's \<open>SymbolIDForSymbol\<close>, \<open>scales\<close> its
  \<open>BaseQuantityScaleForSymbol\<close>. The result is the tier, the symbol id, the channel and the
  state.\<close>

definition CreateSubscription ::
  "(string \<Rightarrow> nat option) \<Rightarrow> (string \<Rightarrow> int option) \<Rightarrow> string \<Rightarrow> nat option \<Rightarrow> int \<Rightarrow> string \<Rightarrow>
    (int \<times> nat \<times> string \<times> book_service) res" where
  "CreateSubscription symbolIDs scales symbol symbolID depth0 bucket =
     (let depth = (if depth0 = 0 then 50 else depth0) in
      bind_res (OrderbookStreamTier depth) (\<lambda>streamDepth.
        let resolved = (case symbolID of Some i \<Rightarrow> Some i | None \<Rightarrow> symbolIDs symbol) in
        case resolved of
          None \<Rightarrow> Inl (ValidationError (''symbol_id is required for orderbook subscriptions ('' @ quoted symbol @ '')''))
        | Some i \<Rightarrow>
            if i = 0
            then Inl (ValidationError (''symbol_id is required for orderbook subscriptions ('' @ quoted symbol @ '')''))
            else if symbolIDs symbol \<noteq> None \<and> symbolIDs symbol \<noteq> Some i
            then Inl (ValidationError (''orderbook symbol '' @ quoted symbol @ '' does not match symbol_id '' @ itoa (int i)))
            else case scales symbol of
                None \<Rightarrow> Inl (ValidationError (''orderbook decoding requires a hydrated catalog quantity scale for ''
                  @ quoted symbol @ ''; call Client.WaitForCatalogs(ctx) or hydrate the spot catalog first''))
              | Some quantityScale \<Rightarrow>
                  Inr (streamDepth, i,
                    ''public:spot:orderbook:deltas:depth:'' @ itoa streamDepth @ '':'' @ itoa (int i) @ '':proto'',
                    new_book_service symbol depth quantityScale bucket)))"

section \<open>Views\<close>

definition book_view :: "book_service \<Rightarrow> orderbook_data res" where
  "book_view s = bind_res
     (BuildOrderbookData (bs_symbol s) (bs_depth s) (bs_book s) (bs_bucketTicks s) (bs_quantityScale s))
     (\<lambda>data. Inr (data\<lparr>ob_available := bs_bookAvailable s\<rparr>))"

definition emit :: "book_service \<Rightarrow> book_service" where
  "emit s =
     (if ms_closed (bs_subscription s) then s
      else let s1 = s\<lparr>bs_lastViewUnavailable := \<not> bs_bookAvailable s\<rparr>
           in case book_view s of
                Inl err \<Rightarrow> s1\<lparr>bs_subscription := ob_Fail err (bs_subscription s)\<rparr>
              | Inr data \<Rightarrow> s1\<lparr>bs_events := bs_events s @ [data],
                               bs_subscription := fst (ob_Enqueue (bs_subscription s) data)\<rparr>)"

section \<open>Deltas and snapshots\<close>

definition request_refresh :: "book_service \<Rightarrow> book_service" where
  "request_refresh s = s\<lparr>bs_requests := bs_requests s + 1\<rparr>"

definition handleDelta :: "book_service \<Rightarrow> book_delta \<Rightarrow> book_service" where
  "handleDelta s delta =
     (if ms_closed (bs_subscription s) then s
      else let (b, needsRefresh) = ApplyDelta (bs_book s) delta;
               s1 = s\<lparr>bs_book := b\<rparr>
           in if needsRefresh then request_refresh (s1\<lparr>bs_gaps := bs_gaps s + 1\<rparr>)
              else emit s1)"

definition recheckUnavailableSnapshot :: "bool \<Rightarrow> book_service \<Rightarrow> book_service" where
  "recheckUnavailableSnapshot available s =
     (if available
      then s\<lparr>bs_recheckDelay := unavailableSnapshotInitialDelay, bs_recheckPending := False,
             bs_recheckGeneration := bs_recheckGeneration s + 1\<rparr>
      else if bs_recheckPending s then s
      else s\<lparr>bs_recheckPending := True, bs_timers := (bs_recheckGeneration s, bs_recheckDelay s) # bs_timers s,
             bs_recheckDelay := min (bs_recheckDelay s * 2) unavailableSnapshotMaxDelay\<rparr>)"

text \<open>A recheck's goroutine after its select: the timer fired, or the stream or the context ended.\<close>

definition recheck_fired :: "nat \<Rightarrow> int \<Rightarrow> bool \<Rightarrow> book_service \<Rightarrow> book_service" where
  "recheck_fired generation delay ended s =
     (if (generation, delay) \<notin> set (bs_timers s) then s
      else let s1 = s\<lparr>bs_timers := remove1 (generation, delay) (bs_timers s)\<rparr>
           in if ended then s1\<lparr>bs_ended := True\<rparr>
              else if generation \<noteq> bs_recheckGeneration s then s1
              else request_refresh (s1\<lparr>bs_recheckPending := False\<rparr>))"

text \<open>\<open>FetchSnapshot\<close> on a decoded response; the request itself may fail.\<close>

record book_response =
  br_bids :: "(int \<times> int) option list"
  br_asks :: "(int \<times> int) option list"
  br_bookSeq :: nat
  br_available :: bool

definition FetchSnapshot :: "book_response res \<Rightarrow> book_service \<Rightarrow> orderbook_data res \<times> book_service" where
  "FetchSnapshot response s = (case response of
       Inl err \<Rightarrow> (Inl err, s)
     | Inr msg \<Rightarrow>
         (case LevelsFromProtoLevels (br_bids msg) of
            Inl err \<Rightarrow> (Inl err, s)
          | Inr nextBids \<Rightarrow>
              (case LevelsFromProtoLevels (br_asks msg) of
                 Inl err \<Rightarrow> (Inl err, s)
               | Inr nextAsks \<Rightarrow>
                   (let s1 = s\<lparr>bs_book := \<lparr>lb_bids = nextBids, lb_asks = nextAsks,
                                 lb_seq = wrap64 (int (br_bookSeq msg))\<rparr>,
                               bs_bookAvailable := br_available msg\<rparr>
                    in (book_view s1, s1)))))"

definition ApplySnapshot :: "book_delta list \<Rightarrow> book_service \<Rightarrow> book_service" where
  "ApplySnapshot buffered s =
     (let s1 = fold (\<lambda>d q. handleDelta q d) buffered s;
          available = bs_bookAvailable s1;
          repeated = (\<not> available \<and> bs_lastViewUnavailable s1 \<and> buffered = []);
          s2 = (if repeated then s1 else emit s1)
      in recheckUnavailableSnapshot available s2)"

definition ApplyLivePublications :: "book_delta list \<Rightarrow> book_service \<Rightarrow> book_service" where
  "ApplyLivePublications deltas s = fold (\<lambda>d q. handleDelta q d) deltas s"

text \<open>\<open>SetBucket\<close> of the subscription, with its callbacks; \<open>ready\<close> is the stream's
  \<open>IsReady\<close>.\<close>

definition SetBucket :: "string \<Rightarrow> bool \<Rightarrow> book_service \<Rightarrow> book_service" where
  "SetBucket bucket ready s =
     (let s1 = s\<lparr>bs_bucketTicks := ParseBucketTicks bucket\<rparr> in if ready then emit s1 else s1)"

text \<open>\<open>SubscribeDeltas\<close>: its channel.\<close>

definition SubscribeDeltas :: "nat \<Rightarrow> int \<Rightarrow> string res" where
  "SubscribeDeltas symbolID depth = bind_res (RequirePublishedStreamDepth depth) (\<lambda>streamDepth.
     Inr (''public:spot:orderbook:deltas:depth:'' @ itoa streamDepth @ '':'' @ itoa (int symbolID) @ '':proto''))"

section \<open>What a consumer sees\<close>

text \<open>A closed subscription: the book and its views are left as they are.\<close>

lemma handleDelta_closed: "ms_closed (bs_subscription s) \<Longrightarrow> handleDelta s d = s"
  by (simp add: handleDelta_def)

lemma emit_closed: "ms_closed (bs_subscription s) \<Longrightarrow> emit s = s"
  by (simp add: emit_def)

lemma fold_handleDelta_closed: "ms_closed (bs_subscription s) \<Longrightarrow> fold (\<lambda>d q. handleDelta q d) ds s = s"
  by (induction ds arbitrary: s) (simp_all add: handleDelta_closed)

lemma closed_stays:
  "ms_closed (bs_subscription s) \<Longrightarrow> ms_closed (bs_subscription (handleDelta s d))"
  "ms_closed (bs_subscription s) \<Longrightarrow> ms_closed (bs_subscription (emit s))"
  by (simp_all add: handleDelta_closed emit_closed)

lemma emit_book [simp]: "bs_book (emit s) = bs_book s" "bs_bookAvailable (emit s) = bs_bookAvailable s"
  "bs_requests (emit s) = bs_requests s" "bs_gaps (emit s) = bs_gaps s"
  by (simp_all add: emit_def Let_def split: sum.split)

lemma handleDelta_open:
  assumes "\<not> ms_closed (bs_subscription (handleDelta s d))"
  shows "bs_book (handleDelta s d) = fst (ApplyDelta (bs_book s) d)"
    and "bs_requests (handleDelta s d) = bs_requests s + (if snd (ApplyDelta (bs_book s) d) then 1 else 0)"
    and "bs_gaps (handleDelta s d) = bs_gaps s + (if snd (ApplyDelta (bs_book s) d) then 1 else 0)"
proof -
  have "\<not> ms_closed (bs_subscription s)" using assms closed_stays(1) by blast
  then show "bs_book (handleDelta s d) = fst (ApplyDelta (bs_book s) d)"
    and "bs_requests (handleDelta s d) = bs_requests s + (if snd (ApplyDelta (bs_book s) d) then 1 else 0)"
    and "bs_gaps (handleDelta s d) = bs_gaps s + (if snd (ApplyDelta (bs_book s) d) then 1 else 0)"
    by (simp_all add: handleDelta_def request_refresh_def Let_def split: prod.split)
qed

text \<open>While the subscription is open, the book is the replay of the deltas, and every gap
  requested a refresh.\<close>

lemma fold_handleDelta_replay:
  assumes "\<not> ms_closed (bs_subscription (fold (\<lambda>d q. handleDelta q d) ds s))"
  shows "bs_book (fold (\<lambda>d q. handleDelta q d) ds s) = fst (replay_book (bs_book s) ds)
    \<and> (snd (replay_book (bs_book s) ds) \<longleftrightarrow> bs_requests s < bs_requests (fold (\<lambda>d q. handleDelta q d) ds s))
    \<and> bs_requests s \<le> bs_requests (fold (\<lambda>d q. handleDelta q d) ds s)"
  using assms
proof (induction ds arbitrary: s)
  case (Cons d ds)
  let ?s = "handleDelta s d"
  have o: "\<not> ms_closed (bs_subscription ?s)"
    using Cons.prems fold_handleDelta_closed [of ?s ds] by auto
  have "\<not> ms_closed (bs_subscription (fold (\<lambda>d q. handleDelta q d) ds ?s))" using Cons.prems by simp
  from Cons.IH [OF this] handleDelta_open [OF o] show ?case by (auto simp: Let_def)
qed simp

section \<open>The invariant\<close>

text \<open>At most one recheck of the current generation is under way, exactly while one is pending;
  every delay is between the first and the last; and an open subscription whose last view was
  unavailable has shown it.\<close>

definition recheck_ok :: "book_service \<Rightarrow> bool" where
  "recheck_ok s \<longleftrightarrow>
     length (filter (\<lambda>e. fst e = bs_recheckGeneration s) (bs_timers s)) \<le> 1
     \<and> (\<forall>e \<in> set (bs_timers s). fst e \<le> bs_recheckGeneration s
          \<and> unavailableSnapshotInitialDelay \<le> snd e \<and> snd e \<le> unavailableSnapshotMaxDelay)
     \<and> (bs_recheckGeneration s \<in> fst ` set (bs_timers s) \<longrightarrow> bs_recheckPending s)
     \<and> (bs_recheckPending s \<longrightarrow> bs_ended s \<or> bs_recheckGeneration s \<in> fst ` set (bs_timers s))
     \<and> unavailableSnapshotInitialDelay \<le> bs_recheckDelay s
     \<and> bs_recheckDelay s \<le> unavailableSnapshotMaxDelay"

definition shown_ok :: "book_service \<Rightarrow> bool" where
  "shown_ok s \<longleftrightarrow> (\<not> ms_closed (bs_subscription s) \<and> bs_lastViewUnavailable s \<longrightarrow>
     bs_events s \<noteq> [] \<and> \<not> ob_available (last (bs_events s)))"

definition service_ok :: "book_service \<Rightarrow> bool" where
  "service_ok s \<longleftrightarrow> wf_book (bs_book s) \<and> ms_good (bs_subscription s) \<and> recheck_ok s \<and> shown_ok s"

lemma delays: "unavailableSnapshotInitialDelay = 1000000000" "unavailableSnapshotMaxDelay = 8000000000"
  by (simp_all add: unavailableSnapshotInitialDelay_def unavailableSnapshotMaxDelay_def)

lemma recheck_ok_same:
  assumes "recheck_ok s" and "bs_timers t = bs_timers s" "bs_recheckGeneration t = bs_recheckGeneration s"
    "bs_recheckPending t = bs_recheckPending s" "bs_recheckDelay t = bs_recheckDelay s" "bs_ended t = bs_ended s"
  shows "recheck_ok t"
  using assms(1) by (simp add: recheck_ok_def assms(2-))

lemma emit_recheck:
  "bs_timers (emit s) = bs_timers s" "bs_recheckGeneration (emit s) = bs_recheckGeneration s"
  "bs_recheckPending (emit s) = bs_recheckPending s" "bs_recheckDelay (emit s) = bs_recheckDelay s"
  "bs_ended (emit s) = bs_ended s"
  by (simp_all add: emit_def Let_def split: sum.split)

lemma book_view_available: "book_view s = Inr data \<Longrightarrow> ob_available data = bs_bookAvailable s"
  by (auto simp: book_view_def bind_res_def split: sum.splits)

lemma service_ok_emit: "service_ok s \<Longrightarrow> service_ok (emit s)"
proof -
  assume ok: "service_ok s"
  then have "recheck_ok s" by (simp add: service_ok_def)
  then have "recheck_ok (emit s)"
    by (rule recheck_ok_same) (simp_all add: emit_recheck)
  moreover have g: "ms_good (bs_subscription s)" using ok by (simp add: service_ok_def)
  have "ms_good (bs_subscription (emit s))"
    using g ms_good_ops(1,4) [OF g] by (simp add: emit_def Let_def split: sum.split)
  moreover have "shown_ok (emit s)"
  proof (cases "ms_closed (bs_subscription s)")
    case True
    with ok show ?thesis by (simp add: emit_closed service_ok_def)
  next
    case False
    then show ?thesis
      using book_view_available [of s]
      by (cases "book_view s") (simp_all add: shown_ok_def emit_def ob_Fail_def ms_callErrorCallback_def closeUpdates_def Let_def)
  qed
  ultimately show ?thesis using ok by (simp add: service_ok_def)
qed

lemma service_ok_handleDelta: "service_ok s \<Longrightarrow> service_ok (handleDelta s d)"
proof -
  assume ok: "service_ok s"
  obtain b r where b: "ApplyDelta (bs_book s) d = (b, r)" by fastforce
  have "wf_book b" using ApplyDelta_wf [of "bs_book s" d] ok b by (simp add: service_ok_def)
  then have "service_ok (s\<lparr>bs_book := b\<rparr>)"
    using ok by (simp add: service_ok_def recheck_ok_def shown_ok_def)
  with service_ok_emit [OF this] ok b show ?thesis
    by (simp add: handleDelta_def Let_def request_refresh_def service_ok_def recheck_ok_def shown_ok_def)
qed

lemma service_ok_deltas: "service_ok s \<Longrightarrow> service_ok (fold (\<lambda>d q. handleDelta q d) ds s)"
  by (induction ds arbitrary: s) (simp_all add: service_ok_handleDelta)

lemma recheck_ok_recheck: "recheck_ok s \<Longrightarrow> recheck_ok (recheckUnavailableSnapshot available s)"
proof -
  assume ok: "recheck_ok s"
  show ?thesis
  proof (cases available)
    case True
    have "filter (\<lambda>e. fst e = bs_recheckGeneration s + 1) (bs_timers s) = []"
      using ok by (fastforce simp: recheck_ok_def filter_empty_conv)
    with ok True show ?thesis
      by (fastforce simp: recheck_ok_def recheckUnavailableSnapshot_def delays)
  next
    case False
    have none: "filter (\<lambda>e. fst e = bs_recheckGeneration s) (bs_timers s) = []" if "\<not> bs_recheckPending s"
      using ok that by (force simp: recheck_ok_def filter_empty_conv)
    show ?thesis
      using ok False none by (auto simp: recheck_ok_def recheckUnavailableSnapshot_def delays min_def)
  qed
qed

lemma service_ok_ApplySnapshot: "service_ok s \<Longrightarrow> service_ok (ApplySnapshot ds s)"
proof -
  assume ok: "service_ok s"
  let ?s1 = "fold (\<lambda>d q. handleDelta q d) ds s"
  have r: "service_ok (recheckUnavailableSnapshot a t)" if "service_ok t" for a t
    using that recheck_ok_recheck [of t a]
    by (simp add: service_ok_def shown_ok_def recheckUnavailableSnapshot_def)
  have "service_ok ?s1" by (rule service_ok_deltas [OF ok])
  with service_ok_emit [OF this] r show ?thesis unfolding ApplySnapshot_def Let_def by presburger
qed

lemma LevelsFromProtoLevels_wf: "LevelsFromProtoLevels levels = Inr out \<Longrightarrow> wf_side out"
  unfolding LevelsFromProtoLevels_def using LevelsFromProtoLevels_loop_wf by (metis wf_side_Nil)

lemma service_ok_FetchSnapshot: "service_ok s \<Longrightarrow> FetchSnapshot r s = (x, t) \<Longrightarrow> service_ok t"
proof -
  assume ok: "service_ok s" and f: "FetchSnapshot r s = (x, t)"
  have "service_ok (s\<lparr>bs_book := b, bs_bookAvailable := a\<rparr>)" if "wf_book b" for a b
    using ok that recheck_ok_same [of s "s\<lparr>bs_book := b, bs_bookAvailable := a\<rparr>"]
    by (simp add: service_ok_def shown_ok_def)
  then show ?thesis
    using ok f LevelsFromProtoLevels_wf
    by (cases r; cases "LevelsFromProtoLevels (br_bids (projr r))"; cases "LevelsFromProtoLevels (br_asks (projr r))")
      (auto simp: FetchSnapshot_def Let_def wf_book_def)
qed

lemma recheck_filter_remove:
  "e \<in> set xs \<Longrightarrow> Q e \<Longrightarrow> length (filter Q xs) \<le> 1 \<Longrightarrow> filter Q (remove1 e xs) = []"
  by (induction xs) (auto simp: filter_empty_conv split: if_splits)

lemma service_ok_recheck_fired: "service_ok s \<Longrightarrow> service_ok (recheck_fired g delay ended s)"
proof -
  assume ok: "service_ok s"
  let ?ts = "remove1 (g, delay) (bs_timers s)"
  have r: "recheck_ok s" and sub: "set ?ts \<subseteq> set (bs_timers s)"
    using ok by (simp_all add: service_ok_def set_remove1_subset)
  have l: "length (filter (\<lambda>e. fst e = bs_recheckGeneration s) ?ts) \<le> 1"
    using r by (simp add: recheck_ok_def filter_remove1 length_remove1)
  have b: "\<forall>e \<in> set ?ts. fst e \<le> bs_recheckGeneration s
      \<and> unavailableSnapshotInitialDelay \<le> snd e \<and> snd e \<le> unavailableSnapshotMaxDelay"
    using r sub unfolding recheck_ok_def by blast
  have p: "bs_recheckGeneration s \<in> fst ` set ?ts \<Longrightarrow> bs_recheckPending s"
    using r sub unfolding recheck_ok_def by blast
  have k: "bs_recheckGeneration s \<in> fst ` set ?ts"
    if "g \<noteq> bs_recheckGeneration s" "bs_recheckGeneration s \<in> fst ` set (bs_timers s)"
  proof -
    from that(2) obtain e where "e \<in> set (bs_timers s)" "fst e = bs_recheckGeneration s" by force
    moreover from this(2) that(1) have "e \<noteq> (g, delay)" by auto
    ultimately have "e \<in> set ?ts" by simp
    with \<open>fst e = bs_recheckGeneration s\<close> show ?thesis by force
  qed
  have n: "bs_recheckGeneration s \<notin> fst ` set ?ts"
    if "g = bs_recheckGeneration s" "(g, delay) \<in> set (bs_timers s)"
  proof -
    have "length (filter (\<lambda>e. fst e = bs_recheckGeneration s) (bs_timers s)) \<le> 1"
      using r by (simp add: recheck_ok_def)
    from recheck_filter_remove [OF that(2) _ this] that(1) show ?thesis
      by (force simp: filter_empty_conv)
  qed
  have d: "unavailableSnapshotInitialDelay \<le> bs_recheckDelay s" "bs_recheckDelay s \<le> unavailableSnapshotMaxDelay"
    using r by (simp_all add: recheck_ok_def)
  have q: "bs_recheckPending s \<Longrightarrow> bs_ended s \<or> bs_recheckGeneration s \<in> fst ` set (bs_timers s)"
    using r by (simp add: recheck_ok_def)
  define t where "t = s\<lparr>bs_timers := ?ts\<rparr>"
  have e: "recheck_ok (t\<lparr>bs_ended := True\<rparr>)" using l b p d by (simp add: recheck_ok_def t_def)
  have "recheck_ok t" if "g \<noteq> bs_recheckGeneration s"
    using l b p d q k [OF that] by (auto simp: recheck_ok_def t_def)
  moreover have "recheck_ok (request_refresh (t\<lparr>bs_recheckPending := False\<rparr>))"
    if "g = bs_recheckGeneration s" "(g, delay) \<in> set (bs_timers s)"
    using l b p d n [OF that] by (simp add: recheck_ok_def t_def request_refresh_def)
  ultimately have "recheck_ok (recheck_fired g delay ended s)"
    using r e unfolding recheck_fired_def Let_def t_def by presburger
  then show ?thesis using ok by (simp add: service_ok_def shown_ok_def recheck_fired_def Let_def request_refresh_def)
qed

section \<open>Runs\<close>

inductive bs_step :: "book_service \<Rightarrow> book_service \<Rightarrow> bool" where
  fetched: "FetchSnapshot response s = (result, t) \<Longrightarrow> bs_step s t"
| applied: "bs_step s (ApplySnapshot buffered s)"
| live: "bs_step s (ApplyLivePublications deltas s)"
| bucket: "bs_step s (SetBucket b ready s)"
| recheck: "bs_step s (recheck_fired g delay ended s)"
| received: "bs_step s (s\<lparr>bs_subscription := fst (ms_receive (bs_subscription s))\<rparr>)"
| closed: "bs_step s (s\<lparr>bs_subscription := ms_Close (bs_subscription s)\<rparr>)"

definition bs_init :: "book_service \<Rightarrow> bool" where
  "bs_init s \<longleftrightarrow> (\<exists>symbol depth quantityScale bucket. s = new_book_service symbol depth quantityScale bucket)"

inductive_cases bs_stepE: "bs_step s t"

lemma service_ok_queue:
  assumes "service_ok s" and "ms_good sub" and "ms_closed (bs_subscription s) \<longrightarrow> ms_closed sub"
  shows "service_ok (s\<lparr>bs_subscription := sub\<rparr>)"
  using assms by (simp add: service_ok_def shown_ok_def recheck_ok_def) blast

lemma ms_receive_closed: "ms_closed (fst (ms_receive s)) = ms_closed s"
  by (simp add: ms_receive_def split: list.split)

interpretation book_service: invariant_system bs_init bs_step service_ok
proof
  show "bs_init s \<Longrightarrow> service_ok s" for s
    by (auto simp: bs_init_def new_book_service_def service_ok_def recheck_ok_def shown_ok_def wf_book_def
        orderbook_NewSubscription_def managed_new_def ms_good_def delays)
next
  fix s t assume ok: "service_ok s" and "bs_step s t"
  from ok have g: "ms_good (bs_subscription s)" by (simp add: service_ok_def)
  have "service_ok (s\<lparr>bs_bucketTicks := n\<rparr>)" for n
    using ok by (simp add: service_ok_def recheck_ok_def shown_ok_def)
  note bucket = this service_ok_emit [OF this]
  note q = service_ok_queue [OF ok]
  have c: "service_ok (s\<lparr>bs_subscription := ms_Close (bs_subscription s)\<rparr>)"
    by (rule q [OF ms_good_ops(5) [OF g]]) (simp add: ms_Close_def closeUpdates_def)
  have r: "service_ok (s\<lparr>bs_subscription := fst (ms_receive (bs_subscription s))\<rparr>)"
    by (rule q [OF ms_good_ops(3) [OF g]]) (simp add: ms_receive_closed)
  from \<open>bs_step s t\<close> show "service_ok t"
    by (cases rule: bs_step.cases)
      (simp_all add: ok c r service_ok_FetchSnapshot [OF ok] service_ok_ApplySnapshot ApplyLivePublications_def
        service_ok_deltas SetBucket_def Let_def bucket service_ok_recheck_fired)
qed

section \<open>Views and rechecks\<close>

text \<open>A view of a well-formed book that is not bucketed never fails.\<close>

lemma book_view_total:
  assumes "wf_book (bs_book s)" and "bs_bucketTicks s = 0" and "0 \<le> bs_depth s"
  obtains data where "book_view s = Inr data"
proof -
  obtain bids where b: "sideToLevels (lb_bids (bs_book s)) ''bids'' (bs_symbol s) (bs_depth s) 0 (bs_quantityScale s) = Inr bids"
    using sideToLevels_wf_total assms(1) unfolding wf_book_def by blast
  obtain asks where a: "sideToLevels (lb_asks (bs_book s)) ''asks'' (bs_symbol s) (bs_depth s) 0 (bs_quantityScale s) = Inr asks"
    using sideToLevels_wf_total assms(1) unfolding wf_book_def by blast
  have "\<exists>data. book_view s = Inr data"
    using assms(2,3) b a by (simp add: book_view_def BuildOrderbookData_def bind_res_def)
  with that show ?thesis by blast
qed

text \<open>What a snapshot leaves behind.\<close>

lemma ApplySnapshot_book:
  assumes "\<not> ms_closed (bs_subscription (ApplySnapshot ds s))"
  shows "bs_book (ApplySnapshot ds s) = fst (replay_book (bs_book s) ds)"
    and "snd (replay_book (bs_book s) ds) \<Longrightarrow> bs_requests s < bs_requests (ApplySnapshot ds s)"
proof -
  let ?s1 = "fold (\<lambda>d q. handleDelta q d) ds s"
  have r: "bs_book (recheckUnavailableSnapshot a t) = bs_book t"
    "bs_requests (recheckUnavailableSnapshot a t) = bs_requests t"
    "bs_subscription (recheckUnavailableSnapshot a t) = bs_subscription t" for a t
    by (simp_all add: recheckUnavailableSnapshot_def)
  have o: "\<not> ms_closed (bs_subscription ?s1)"
    using assms closed_stays(2) [of ?s1] by (auto simp: ApplySnapshot_def Let_def r split: if_splits)
  have b: "bs_book (ApplySnapshot ds s) = bs_book ?s1" "bs_requests (ApplySnapshot ds s) = bs_requests ?s1"
    by (simp_all add: ApplySnapshot_def Let_def r)
  from fold_handleDelta_replay [OF o]
  show "bs_book (ApplySnapshot ds s) = fst (replay_book (bs_book s) ds)"
    and "snd (replay_book (bs_book s) ds) \<Longrightarrow> bs_requests s < bs_requests (ApplySnapshot ds s)"
    by (simp_all only: b)
qed

lemma closed_recheck: "bs_subscription (recheckUnavailableSnapshot a s) = bs_subscription s"
  "bs_bookAvailable (recheckUnavailableSnapshot a s) = bs_bookAvailable s"
  "bs_events (recheckUnavailableSnapshot a s) = bs_events s"
  by (simp_all add: recheckUnavailableSnapshot_def)

lemma handleDelta_available [simp]: "bs_bookAvailable (handleDelta s d) = bs_bookAvailable s"
  by (simp add: handleDelta_def request_refresh_def Let_def split: prod.split)

lemma fold_handleDelta_available [simp]: "bs_bookAvailable (fold (\<lambda>d q. handleDelta q d) ds s) = bs_bookAvailable s"
  by (induction ds arbitrary: s) simp_all

lemma ob_Fail_closed: "ms_closed (ob_Fail e s)"
  by (simp add: ob_Fail_def ms_callErrorCallback_def closeUpdates_def Let_def)

lemma emit_last:
  assumes "\<not> ms_closed (bs_subscription (emit s))"
  shows "bs_events (emit s) \<noteq> [] \<and> book_view s = Inr (last (bs_events (emit s)))"
proof -
  have o: "\<not> ms_closed (bs_subscription s)" using assms emit_closed by force
  show ?thesis
    using o assms by (cases "book_view s") (simp_all add: emit_def Let_def ob_Fail_closed)
qed

text \<open>After a snapshot the consumer's last view has the snapshot's availability: a snapshot whose
  view is held back is one that says again that the book is unavailable.\<close>

lemma ApplySnapshot_shown:
  assumes "service_ok s" and "\<not> ms_closed (bs_subscription (ApplySnapshot ds s))"
  shows "bs_events (ApplySnapshot ds s) \<noteq> []
    \<and> ob_available (last (bs_events (ApplySnapshot ds s))) = bs_bookAvailable s"
proof -
  let ?s1 = "fold (\<lambda>d q. handleDelta q d) ds s"
  have ok: "service_ok ?s1" by (rule service_ok_deltas [OF assms(1)])
  show ?thesis
  proof (cases "\<not> bs_bookAvailable s \<and> bs_lastViewUnavailable ?s1 \<and> ds = []")
    case True
    then have "ApplySnapshot ds s = recheckUnavailableSnapshot (bs_bookAvailable s) ?s1"
      by (auto simp: ApplySnapshot_def Let_def)
    with True assms(2) ok show ?thesis by (auto simp: closed_recheck service_ok_def shown_ok_def)
  next
    case False
    then have eq: "ApplySnapshot ds s = recheckUnavailableSnapshot (bs_bookAvailable s) (emit ?s1)"
      by (auto simp: ApplySnapshot_def Let_def)
    with assms(2) emit_last [of ?s1] book_view_available [of ?s1] show ?thesis by (simp add: closed_recheck)
  qed
qed

text \<open>Consecutive unavailable snapshots: the delay doubles up to the last one.\<close>

primrec unavailable_cycles :: "nat \<Rightarrow> book_service \<Rightarrow> book_service" where
  "unavailable_cycles 0 s = s"
| "unavailable_cycles (Suc n) s =
     (let t = unavailable_cycles n s in
      recheck_fired (bs_recheckGeneration t) (bs_recheckDelay t) False (recheckUnavailableSnapshot False t))"

lemma unavailable_cycles_delay:
  assumes "\<not> bs_recheckPending s" and "bs_recheckDelay s = unavailableSnapshotInitialDelay"
  shows "\<not> bs_recheckPending (unavailable_cycles n s)
    \<and> bs_recheckDelay (unavailable_cycles n s) = min (unavailableSnapshotInitialDelay * 2 ^ n) unavailableSnapshotMaxDelay
    \<and> bs_requests (unavailable_cycles n s) = bs_requests s + n
    \<and> bs_timers (unavailable_cycles n s) = bs_timers s"
proof (induction n)
  case 0
  with assms show ?case by (simp add: delays)
next
  case (Suc n)
  let ?t = "unavailable_cycles n s"
  have "min (min (1000000000 * 2 ^ n) 8000000000 * 2) 8000000000 = min (1000000000 * 2 ^ Suc n) (8000000000::int)"
    by (simp add: min_def)
  with Suc show ?case
    by (simp add: Let_def recheckUnavailableSnapshot_def recheck_fired_def request_refresh_def delays)
qed

section \<open>Properties\<close>

definition sample_service :: book_service where
  "sample_service = snd (FetchSnapshot (Inr \<lparr>br_bids = [Some (100, 5)], br_asks = [Some (110, 4)], br_bookSeq = 10,
     br_available = True\<rparr>) (new_book_service ''BTC-USDT'' 50 8 []))"

lemma sample_service_reachable: "reachable bs_init bs_step sample_service"
proof (rule reach_step [OF reach_init])
  show "bs_init (new_book_service ''BTC-USDT'' 50 8 [])" by (auto simp: bs_init_def)
  show "bs_step (new_book_service ''BTC-USDT'' 50 8 []) sample_service"
    unfolding sample_service_def by (rule bs_step.fetched [OF prod.collapse [symmetric]])
qed

definition sample_update :: book_delta where
  "sample_update = \<lparr>bd_symbolID = 1, bd_bookSeqStart = ''11'', bd_bookSeqEnd = ''12'', bd_reset = False,
     bd_bids = [], bd_asks = [\<lparr>pq_priceTicks = 120, pq_qtyScaled = 6\<rparr>]\<rparr>"

text \<open>While a managed book's subscription is open, its book after a snapshot is the replay of the
  buffered deltas over the fetched book, and a gap among them has requested a new snapshot.\<close>

theorem managed_book_is_replay:
  assumes "\<not> ms_closed (bs_subscription (ApplySnapshot ds s))"
  shows "bs_book (ApplySnapshot ds s) = fst (replay_book (bs_book s) ds)
    \<and> (snd (replay_book (bs_book s) ds) \<longrightarrow> bs_requests s < bs_requests (ApplySnapshot ds s))"
  using ApplySnapshot_book [OF assms] by blast

theorem managed_book_is_replay_witness:
  "bs_book (ApplySnapshot [sample_update] sample_service) = fst (replay_book (bs_book sample_service) [sample_update])"
  by (rule managed_book_is_replay [THEN conjunct1]) code_simp

text \<open>After a snapshot the last view the consumer was shown says whether the book is available
  exactly as the snapshot did: a view is held back only when it would repeat that the book is
  unavailable.\<close>

theorem availability_shown:
  assumes "reachable bs_init bs_step s" and "\<not> ms_closed (bs_subscription (ApplySnapshot ds s))"
  shows "bs_events (ApplySnapshot ds s) \<noteq> []
    \<and> ob_available (last (bs_events (ApplySnapshot ds s))) = bs_bookAvailable s"
  by (rule ApplySnapshot_shown [OF book_service.inv_reachable [OF assms(1)] assms(2)])

theorem availability_shown_witness:
  "ob_available (last (bs_events (ApplySnapshot [] sample_service)))"
proof -
  have "\<not> ms_closed (bs_subscription (ApplySnapshot [] sample_service))" "bs_bookAvailable sample_service" by code_simp+
  with availability_shown [OF sample_service_reachable this(1)] show ?thesis by simp
qed

text \<open>A snapshot that came back unavailable is asked for again: at any time at most one request
  of the current generation is waiting, exactly while one is marked pending and the stream has not
  ended, after a delay of one to eight seconds.\<close>

theorem recheck_pacing:
  assumes "reachable bs_init bs_step s"
  shows "length (filter (\<lambda>e. fst e = bs_recheckGeneration s) (bs_timers s)) \<le> 1
    \<and> (bs_recheckGeneration s \<in> fst ` set (bs_timers s) \<longrightarrow> bs_recheckPending s)
    \<and> (bs_recheckPending s \<longrightarrow> bs_ended s \<or> bs_recheckGeneration s \<in> fst ` set (bs_timers s))
    \<and> (\<forall>e \<in> set (bs_timers s). unavailableSnapshotInitialDelay \<le> snd e \<and> snd e \<le> unavailableSnapshotMaxDelay)"
  using book_service.inv_reachable [OF assms] unfolding service_ok_def recheck_ok_def by blast

theorem recheck_pacing_witness:
  "length (filter (\<lambda>e. fst e = bs_recheckGeneration sample_service) (bs_timers sample_service)) \<le> 1"
  using recheck_pacing [OF sample_service_reachable] by blast

text \<open>Through consecutive unavailable snapshots the delay doubles from one second to eight and
  stays there, and each cycle asks once.\<close>

theorem recheck_backoff:
  assumes "\<not> bs_recheckPending s" and "bs_recheckDelay s = unavailableSnapshotInitialDelay"
  shows "bs_recheckDelay (unavailable_cycles n s) = min (unavailableSnapshotInitialDelay * 2 ^ n) unavailableSnapshotMaxDelay
    \<and> bs_requests (unavailable_cycles n s) = bs_requests s + n"
  using unavailable_cycles_delay [OF assms] by blast

theorem recheck_backoff_witness:
  "bs_recheckDelay (unavailable_cycles 2 sample_service) = 4000000000
    \<and> bs_requests (unavailable_cycles 2 sample_service) = 2"
proof -
  have "\<not> bs_recheckPending sample_service" "bs_recheckDelay sample_service = unavailableSnapshotInitialDelay"
    "bs_requests sample_service = 0" by code_simp+
  with recheck_backoff [OF this(1,2), of 2] show ?thesis by (simp add: delays)
qed

text \<open>A managed book that is not bucketed never fails to render.\<close>

theorem unbucketed_view_total:
  assumes "reachable bs_init bs_step s" and "bs_bucketTicks s = 0" and "0 \<le> bs_depth s"
  shows "\<exists>data. book_view s = Inr data"
  using book_view_total [of s] book_service.inv_reachable [OF assms(1)] assms(2,3) unfolding service_ok_def by metis

theorem unbucketed_view_total_witness: "\<exists>data. book_view sample_service = Inr data"
  by (rule unbucketed_view_total [OF sample_service_reachable]) code_simp+

text \<open>A managed book is created exactly for a depth some stream covers, a nonzero symbol id that
  the catalog does not contradict, and a symbol of known scale; it then rides the channel of the
  smallest covering tier and that symbol id.\<close>

theorem create_subscription_checked:
  "CreateSubscription symbolIDs scales symbol symbolID depth bucket = Inr (tier, i, channel, s) \<longleftrightarrow>
     OrderbookStreamTier (if depth = 0 then 50 else depth) = Inr tier
     \<and> (symbolID = Some i \<or> symbolID = None \<and> symbolIDs symbol = Some i)
     \<and> i \<noteq> 0 \<and> (symbolIDs symbol = None \<or> symbolIDs symbol = Some i)
     \<and> channel = ''public:spot:orderbook:deltas:depth:'' @ itoa tier @ '':'' @ itoa (int i) @ '':proto''
     \<and> (\<exists>scale. scales symbol = Some scale
          \<and> s = new_book_service symbol (if depth = 0 then 50 else depth) scale bucket)"
  by (auto simp: CreateSubscription_def Let_def bind_res_Inr_iff split: option.splits if_splits)

text \<open>Once the subscription has ended, deltas and views change nothing: the consumer sees no
  further book.\<close>

theorem ended_book_frozen:
  assumes "ms_closed (bs_subscription s)"
  shows "ApplyLivePublications ds s = s \<and> emit s = s"
  using assms by (simp add: ApplyLivePublications_def fold_handleDelta_closed emit_closed)

theorem ended_book_frozen_witness:
  "ApplyLivePublications [sample_update] (sample_service\<lparr>bs_subscription := ms_Close (bs_subscription sample_service)\<rparr>)
    = sample_service\<lparr>bs_subscription := ms_Close (bs_subscription sample_service)\<rparr>"
  by (rule ended_book_frozen [THEN conjunct1]) code_simp

end
