(* ===== verification/Renewal.thy ===== *)
theory Renewal
  imports Centrifugo
begin

text \<open>
  \<open>realtime/renewal.go\<close>: the renewal of the connection and subscription tokens of one private
  channel connection. Timer callbacks run as goroutines counted by a \<open>WaitGroup\<close>; the steps
  below are what each does between its blocking points: the fetch of a token, the lock, the write.
  \<open>rn_armed\<close> are the timers that have not fired, with their delays, \<open>rn_running\<close> the callbacks
  under way, \<open>rn_written\<close> the frames written and \<open>rn_reported\<close> what the error callback got.
  Times are nanoseconds.
\<close>

section \<open>Data\<close>

datatype renewal_kind = RenewConnection | RenewSubscription

datatype renewal_phase =
  Fetching renewal_kind
| Fetched renewal_kind string
| Writing "byte list"

record renewer =
  rn_channel :: string
  rn_unit :: int
  rn_nextID :: u32
  rn_pending :: "u32 \<rightharpoonup> renewal_kind"
  rn_timers :: "renewal_kind \<rightharpoonup> nat"
  rn_stopped :: bool
  rn_canceled :: bool
  rn_wg :: int
  rn_fresh :: nat
  rn_armed :: "(nat \<times> renewal_kind \<times> int) list"
  rn_running :: "(nat \<times> renewal_phase) list"
  rn_written :: "byte list list"
  rn_reported :: "sdk_error list"

definition newTokenRenewer :: "string \<Rightarrow> int \<Rightarrow> u32 \<Rightarrow> renewer" where
  "newTokenRenewer channel unit firstID = \<lparr>rn_channel = channel, rn_unit = unit, rn_nextID = firstID,
     rn_pending = Map.empty, rn_timers = Map.empty, rn_stopped = False, rn_canceled = False, rn_wg = 0,
     rn_fresh = 0, rn_armed = [], rn_running = [], rn_written = [], rn_reported = []\<rparr>"

section \<open>Timers\<close>

text \<open>\<open>if timer.Stop() { wg.Done() }\<close>: stopping succeeds while the timer has not fired.\<close>

definition stop_timer :: "nat \<Rightarrow> renewer \<Rightarrow> renewer" where
  "stop_timer t s =
     (if t \<in> fst ` set (rn_armed s)
      then s\<lparr>rn_armed := filter (\<lambda>a. fst a \<noteq> t) (rn_armed s), rn_wg := rn_wg s - 1\<rparr>
      else s)"

definition renewal_delay :: "int \<Rightarrow> int \<Rightarrow> int \<Rightarrow> u32 \<Rightarrow> int" where
  "renewal_delay unit answered now ttl = max (answered + wrap64 (uint ttl * unit) - now) 0"

definition renewal_schedule :: "renewal_kind \<Rightarrow> int \<Rightarrow> int \<Rightarrow> bool \<Rightarrow> u32 \<Rightarrow> renewer \<Rightarrow> renewer" where
  "renewal_schedule kind answered now expires ttl s =
     (if \<not> expires \<or> rn_stopped s then s
      else let s1 = (case rn_timers s kind of None \<Rightarrow> s | Some previous \<Rightarrow> stop_timer previous s)
           in s1\<lparr>rn_wg := rn_wg s1 + 1, rn_fresh := rn_fresh s1 + 1,
                 rn_timers := (rn_timers s1)(kind \<mapsto> rn_fresh s1),
                 rn_armed := (rn_fresh s1, kind, renewal_delay (rn_unit s1) answered now ttl) # rn_armed s1\<rparr>)"

section \<open>One renewal\<close>

definition renewal_fired :: "nat \<Rightarrow> renewer \<Rightarrow> renewer" where
  "renewal_fired t s = (case map_of (rn_armed s) t of
       None \<Rightarrow> s
     | Some (kind, delay) \<Rightarrow> s\<lparr>rn_armed := filter (\<lambda>a. fst a \<noteq> t) (rn_armed s),
                              rn_running := (t, Fetching kind) # rn_running s\<rparr>)"

definition callback_done :: "nat \<Rightarrow> renewer \<Rightarrow> renewer" where
  "callback_done t s = s\<lparr>rn_running := filter (\<lambda>a. fst a \<noteq> t) (rn_running s), rn_wg := rn_wg s - 1\<rparr>"

definition set_phase :: "nat \<Rightarrow> renewal_phase \<Rightarrow> renewer \<Rightarrow> renewer" where
  "set_phase t phase s = s\<lparr>rn_running := map (\<lambda>a. if fst a = t then (t, phase) else a) (rn_running s)\<rparr>"

text \<open>\<open>renew\<close> from the end of the fetch to its lock, from there to the write, and to its end.\<close>

definition renew_fetched :: "nat \<Rightarrow> string res \<Rightarrow> renewer \<Rightarrow> renewer" where
  "renew_fetched t result s = (case map_of (rn_running s) t of
       Some (Fetching kind) \<Rightarrow>
         if rn_canceled s then callback_done t s
         else (case result of
             Inl err \<Rightarrow> callback_done t (s\<lparr>rn_reported := rn_reported s @ [err]\<rparr>)
           | Inr token \<Rightarrow> set_phase t (Fetched kind token) s)
     | _ \<Rightarrow> s)"

definition renewal_frame :: "renewal_kind \<Rightarrow> u32 \<Rightarrow> string \<Rightarrow> string \<Rightarrow> byte list" where
  "renewal_frame kind i channel token = (case kind of
       RenewConnection \<Rightarrow> refreshCommand i token
     | RenewSubscription \<Rightarrow> subRefreshCommand i channel token)"

definition renew_register :: "nat \<Rightarrow> renewer \<Rightarrow> renewer" where
  "renew_register t s = (case map_of (rn_running s) t of
       Some (Fetched kind token) \<Rightarrow>
         if rn_stopped s then callback_done t s
         else set_phase t (Writing (renewal_frame kind (rn_nextID s) (rn_channel s) token))
                (s\<lparr>rn_nextID := rn_nextID s + 1, rn_pending := (rn_pending s)(rn_nextID s \<mapsto> kind)\<rparr>)
     | _ \<Rightarrow> s)"

definition renew_wrote :: "nat \<Rightarrow> renewer \<Rightarrow> renewer" where
  "renew_wrote t s = (case map_of (rn_running s) t of
       Some (Writing frame) \<Rightarrow> callback_done t (s\<lparr>rn_written := rn_written s @ [frame]\<rparr>)
     | _ \<Rightarrow> s)"

section \<open>Replies and the end\<close>

text \<open>\<open>centrifugoProtocolError\<close> of \<open>realtime/client.go\<close>.\<close>

definition centrifugo_message :: "protocol_error \<Rightarrow> string" where
  "centrifugo_message e = ''centrifugo error '' @ itoa (uint (pe_code e)) @ '': ''
     @ pe_message e @ (if pe_temporary e then '' (temporary)'' else [])"

definition centrifugoProtocolError :: "protocol_error \<Rightarrow> sdk_error" where
  "centrifugoProtocolError e = RealtimeError (centrifugo_message e)"

definition renewalRefused :: "renewal_kind \<Rightarrow> protocol_error \<Rightarrow> sdk_error" where
  "renewalRefused kind e = RealtimeError (''realtime ''
     @ (if kind = RenewSubscription then ''subscription'' else ''connection'')
     @ '' token renewal refused: '' @ centrifugo_message e)"

definition handleReply :: "int \<Rightarrow> incoming_message \<Rightarrow> renewer \<Rightarrow> bool \<times> renewer" where
  "handleReply now message s =
     (let s1 = s\<lparr>rn_pending := (rn_pending s)(im_id message := None)\<rparr>
      in case rn_pending s (im_id message) of
           None \<Rightarrow> (False, s1)
         | Some kind \<Rightarrow>
             (case im_err message of
                Some e \<Rightarrow> (True, s1\<lparr>rn_reported := rn_reported s1 @ [renewalRefused kind e]\<rparr>)
              | None \<Rightarrow> (True, renewal_schedule kind now now (im_expires message) (im_ttl message) s1)))"

definition renewer_cancel :: "renewer \<Rightarrow> renewer" where
  "renewer_cancel s = s\<lparr>rn_canceled := True\<rparr>"

text \<open>\<open>stop\<close> under its lock; it then waits until the count of the group is zero.\<close>

definition stop_of_kind :: "renewal_kind \<Rightarrow> renewer \<Rightarrow> renewer" where
  "stop_of_kind kind s = (case rn_timers s kind of None \<Rightarrow> s | Some t \<Rightarrow> stop_timer t s)"

definition renewer_stop :: "renewer \<Rightarrow> renewer" where
  "renewer_stop s = stop_of_kind RenewSubscription (stop_of_kind RenewConnection (s\<lparr>rn_stopped := True\<rparr>))"

section \<open>Steps\<close>

inductive rn_step :: "renewer \<Rightarrow> renewer \<Rightarrow> bool" where
  schedule: "rn_step s (renewal_schedule kind answered now expires ttl s)"
| fired: "rn_step s (renewal_fired t s)"
| fetched: "rn_step s (renew_fetched t result s)"
| register: "rn_step s (renew_register t s)"
| wrote: "rn_step s (renew_wrote t s)"
| reply: "rn_step s (snd (handleReply now message s))"
| cancel: "rn_step s (renewer_cancel s)"
| stop: "rn_canceled s \<Longrightarrow> rn_step s (renewer_stop s)"

inductive_cases rn_stepE: "rn_step s t"

definition rn_init :: "renewer \<Rightarrow> bool" where
  "rn_init s \<longleftrightarrow> (\<exists>channel unit firstID. s = newTokenRenewer channel unit firstID)"

section \<open>The invariant\<close>

text \<open>The group counts the armed timers and the running callbacks; an armed timer is the last one of
  its kind; a stopped renewer has none.\<close>

definition rn_ok :: "renewer \<Rightarrow> bool" where
  "rn_ok s \<longleftrightarrow> rn_wg s = int (length (rn_armed s)) + int (length (rn_running s))
     \<and> distinct (map fst (rn_armed s) @ map fst (rn_running s))
     \<and> (\<forall>t \<in> set (map fst (rn_armed s) @ map fst (rn_running s)). t < rn_fresh s)
     \<and> (\<forall>(t, kind, delay) \<in> set (rn_armed s). rn_timers s kind = Some t)
     \<and> (rn_stopped s \<longrightarrow> rn_armed s = [] \<and> rn_canceled s)"

lemma length_filter_fst:
  "distinct (map fst xs) \<Longrightarrow> t \<in> fst ` set xs \<Longrightarrow> length xs = Suc (length (filter (\<lambda>a. fst a \<noteq> t) xs))"
proof (induction xs)
  case (Cons a xs)
  show ?case
  proof (cases "fst a = t")
    case True
    with Cons.prems have "\<forall>b \<in> set xs. fst b \<noteq> t" by (auto simp: image_iff)
    then have "filter (\<lambda>a. fst a \<noteq> t) xs = xs" by (rule filter_True)
    with True show ?thesis by simp
  next
    case False
    with Cons show ?thesis by auto
  qed
qed simp

lemma distinct_map_filter_append:
  "distinct (map f xs @ map g ys) \<Longrightarrow> distinct (map f (filter P xs) @ map g (filter Q ys))"
  by (auto simp: distinct_map_filter)

lemma map_fst_set_phase [simp]: "map fst (map (\<lambda>a. if fst a = t then (t, phase) else a) xs) = map fst xs"
  by (induction xs) auto

lemma rn_ok_stop_timer: "rn_ok s \<Longrightarrow> rn_ok (stop_timer t s)"
  using length_filter_fst [of "rn_armed s" t] distinct_map_filter_append [of fst "rn_armed s" fst "rn_running s" _ "\<lambda>_. True"]
  by (auto simp: rn_ok_def stop_timer_def)

lemma stop_timer_gone: "t \<notin> fst ` set (rn_armed (stop_timer t s))"
  by (auto simp: stop_timer_def)

lemma stop_timer_fields [simp]:
  "rn_timers (stop_timer t s) = rn_timers s" "rn_fresh (stop_timer t s) = rn_fresh s"
  "rn_stopped (stop_timer t s) = rn_stopped s" "rn_running (stop_timer t s) = rn_running s"
  "rn_written (stop_timer t s) = rn_written s" "rn_unit (stop_timer t s) = rn_unit s"
  "rn_canceled (stop_timer t s) = rn_canceled s" "rn_pending (stop_timer t s) = rn_pending s"
  by (simp_all add: stop_timer_def)

lemma set_armed_stop_timer: "set (rn_armed (stop_timer t s)) \<subseteq> set (rn_armed s)"
  by (auto simp: stop_timer_def)

text \<open>What is armed after the previous timer of a kind was stopped is of the other kind.\<close>

definition free_kind :: "renewal_kind \<Rightarrow> renewer \<Rightarrow> renewer" where
  "free_kind kind s = (case rn_timers s kind of None \<Rightarrow> s | Some t \<Rightarrow> stop_timer t s)"

lemma free_kind_ok:
  assumes "rn_ok s"
  shows "rn_ok (free_kind kind s)" and "kind \<notin> (fst \<circ> snd) ` set (rn_armed (free_kind kind s))"
    and "rn_timers (free_kind kind s) = rn_timers s" and "rn_stopped (free_kind kind s) = rn_stopped s"
    and "rn_canceled (free_kind kind s) = rn_canceled s" and "rn_running (free_kind kind s) = rn_running s"
    and "rn_written (free_kind kind s) = rn_written s" and "rn_unit (free_kind kind s) = rn_unit s"
    and "rn_pending (free_kind kind s) = rn_pending s"
proof -
  show "rn_ok (free_kind kind s)" using assms rn_ok_stop_timer by (auto simp: free_kind_def split: option.splits)
  show "kind \<notin> (fst \<circ> snd) ` set (rn_armed (free_kind kind s))"
  proof
    assume "kind \<in> (fst \<circ> snd) ` set (rn_armed (free_kind kind s))"
    then obtain t d where a: "(t, kind, d) \<in> set (rn_armed (free_kind kind s))" by auto
    then have "(t, kind, d) \<in> set (rn_armed s)"
      using set_armed_stop_timer by (auto simp: free_kind_def split: option.splits)
    then have "rn_timers s kind = Some t" using assms by (auto simp: rn_ok_def)
    with a show False using stop_timer_gone [of t s] by (force simp: free_kind_def)
  qed
qed (simp_all add: free_kind_def split: option.splits)

lemma rn_ok_arm:
  assumes "rn_ok s" and "\<not> rn_stopped s" and "kind \<notin> (fst \<circ> snd) ` set (rn_armed s)"
  shows "rn_ok (s\<lparr>rn_wg := rn_wg s + 1, rn_fresh := rn_fresh s + 1,
                 rn_timers := (rn_timers s)(kind \<mapsto> rn_fresh s), rn_armed := (rn_fresh s, kind, d) # rn_armed s\<rparr>)"
proof -
  have "\<forall>(t, k, e) \<in> set (rn_armed s). k \<noteq> kind" using assms(3) by force
  moreover have "rn_fresh s \<notin> set (map fst (rn_armed s) @ map fst (rn_running s))"
    using assms(1) unfolding rn_ok_def by blast
  ultimately show ?thesis using assms(1,2) by (auto simp: rn_ok_def less_Suc_eq)
qed

lemma rn_ok_schedule:
  assumes "rn_ok s"
  shows "rn_ok (renewal_schedule kind answered now expires ttl s)"
proof (cases "\<not> expires \<or> rn_stopped s")
  case False
  note f = free_kind_ok [OF assms, of kind]
  have "rn_ok ((free_kind kind s)\<lparr>rn_wg := rn_wg (free_kind kind s) + 1, rn_fresh := rn_fresh (free_kind kind s) + 1,
      rn_timers := (rn_timers (free_kind kind s))(kind \<mapsto> rn_fresh (free_kind kind s)),
      rn_armed := (rn_fresh (free_kind kind s), kind, renewal_delay (rn_unit (free_kind kind s)) answered now ttl)
        # rn_armed (free_kind kind s)\<rparr>)"
    using f(4) False by (intro rn_ok_arm f) simp
  with False show ?thesis unfolding renewal_schedule_def Let_def free_kind_def by simp
qed (use assms in \<open>auto simp: renewal_schedule_def\<close>)

lemma map_of_armed: "map_of xs t = Some v \<Longrightarrow> t \<in> fst ` set xs"
  by (metis domI dom_map_of_conv_image_fst)

lemma rn_ok_fired:
  assumes "rn_ok s"
  shows "rn_ok (renewal_fired t s)"
proof (cases "map_of (rn_armed s) t")
  case (Some v)
  then have t: "t \<in> fst ` set (rn_armed s)" by (rule map_of_armed)
  with assms have "t \<notin> fst ` set (rn_running s)" "t < rn_fresh s" unfolding rn_ok_def by auto
  with t assms Some length_filter_fst [of "rn_armed s" t]
    distinct_map_filter_append [of fst "rn_armed s" fst "rn_running s" _ "\<lambda>_. True"]
  show ?thesis by (cases v) (auto simp: rn_ok_def renewal_fired_def)
qed (use assms in \<open>simp add: renewal_fired_def\<close>)

lemma rn_ok_done:
  assumes "rn_ok s" and "map_of (rn_running s) t = Some v"
  shows "rn_ok (callback_done t s)"
  using assms length_filter_fst [of "rn_running s" t] map_of_armed [OF assms(2)]
    distinct_map_filter_append [of fst "rn_armed s" fst "rn_running s" "\<lambda>_. True"]
  by (auto simp: rn_ok_def callback_done_def)

lemma rn_ok_same:
  assumes "rn_ok s" and "rn_wg t = rn_wg s" and "rn_armed t = rn_armed s"
    and "map fst (rn_running t) = map fst (rn_running s)" and "rn_fresh t = rn_fresh s"
    and "rn_timers t = rn_timers s" and "rn_stopped t = rn_stopped s" and "rn_canceled s \<Longrightarrow> rn_canceled t"
  shows "rn_ok t"
proof -
  have "length (rn_running t) = length (rn_running s)" using assms(4) by (metis length_map)
  with assms show ?thesis by (simp add: rn_ok_def)
qed

lemma rn_ok_set_phase: "rn_ok s \<Longrightarrow> rn_ok (set_phase t phase s)"
  by (erule rn_ok_same) (simp_all add: set_phase_def del: map_map)

lemma rn_ok_fetched: "rn_ok s \<Longrightarrow> rn_ok (renew_fetched t result s)"
  by (auto simp: renew_fetched_def split: option.splits renewal_phase.splits sum.splits
      intro!: rn_ok_done rn_ok_set_phase elim!: rn_ok_same)

lemma rn_ok_register: "rn_ok s \<Longrightarrow> rn_ok (renew_register t s)"
  by (auto simp: renew_register_def split: option.splits renewal_phase.splits
      intro!: rn_ok_done rn_ok_set_phase elim!: rn_ok_same)

lemma rn_ok_wrote: "rn_ok s \<Longrightarrow> rn_ok (renew_wrote t s)"
  by (auto simp: renew_wrote_def split: option.splits renewal_phase.splits
      intro!: rn_ok_done elim!: rn_ok_same)

lemma rn_ok_reply: "rn_ok s \<Longrightarrow> rn_ok (snd (handleReply now message s))"
  by (auto simp: handleReply_def Let_def split: option.splits intro!: rn_ok_schedule elim!: rn_ok_same)

lemma rn_ok_stop:
  assumes "rn_ok s" and "rn_canceled s"
  shows "rn_ok (renewer_stop s)"
proof -
  have stop: "renewer_stop s = (free_kind RenewSubscription (free_kind RenewConnection s))\<lparr>rn_stopped := True\<rparr>"
    by (simp add: renewer_stop_def stop_of_kind_def free_kind_def stop_timer_def split: option.splits)
  note 1 = free_kind_ok [OF assms(1), of RenewConnection]
  note 2 = free_kind_ok [OF 1(1), of RenewSubscription]
  have "RenewConnection \<notin> (fst \<circ> snd) ` set (rn_armed (free_kind RenewSubscription (free_kind RenewConnection s)))"
    using 1(2) set_armed_stop_timer by (auto simp: free_kind_def split: option.splits)
  with 2(2) have "a \<notin> set (rn_armed (free_kind RenewSubscription (free_kind RenewConnection s)))" for a
    by (cases "fst (snd a)") force+
  then have "rn_armed (free_kind RenewSubscription (free_kind RenewConnection s)) = []" by (metis last_in_set)
  with 2(1,5) 1(5) assms(2) show ?thesis by (simp add: stop rn_ok_def)
qed

lemma rn_ok_cancel: "rn_ok s \<Longrightarrow> rn_ok (renewer_cancel s)"
  by (erule rn_ok_same) (simp_all add: renewer_cancel_def)

lemma rn_ok_init: "rn_init s \<Longrightarrow> rn_ok s"
  by (auto simp: rn_init_def newTokenRenewer_def rn_ok_def)

lemma rn_ok_step: "rn_ok s \<Longrightarrow> rn_step s t \<Longrightarrow> rn_ok t"
  by (elim rn_stepE) (simp_all add: rn_ok_schedule rn_ok_fired rn_ok_fetched rn_ok_register rn_ok_wrote
      rn_ok_reply rn_ok_stop rn_ok_cancel)

interpretation renewal: invariant_system rn_init rn_step rn_ok
  by unfold_locales (fact rn_ok_init, fact rn_ok_step)

section \<open>After the end, and replies\<close>

definition rn_quiet :: "renewer \<Rightarrow> bool" where
  "rn_quiet s \<longleftrightarrow> rn_stopped s \<and> rn_armed s = [] \<and> rn_running s = []"

lemma stop_timer_quiet: "rn_armed s = [] \<Longrightarrow> stop_timer t s = s"
  by (simp add: stop_timer_def)

lemma quiet_step:
  assumes "rn_quiet s" and "rn_step s t"
  shows "rn_quiet t \<and> rn_written t = rn_written s \<and> rn_wg t = rn_wg s"
  using assms(2,1)
  by (elim rn_stepE) (simp_all add: rn_quiet_def renewal_schedule_def renewal_fired_def renew_fetched_def
      renew_register_def renew_wrote_def handleReply_def Let_def renewer_cancel_def renewer_stop_def
      stop_of_kind_def stop_timer_quiet split: option.splits)

lemma quiet_steps:
  assumes "rn_step\<^sup>*\<^sup>* s t" and "rn_quiet s"
  shows "rn_quiet t \<and> rn_written t = rn_written s \<and> rn_wg t = rn_wg s"
  using assms by (induction rule: rtranclp_induct) (auto dest: quiet_step)

lemma waited_quiet:
  assumes "rn_ok s" and "rn_stopped s" and "rn_wg s = 0"
  shows "rn_quiet s"
  using assms by (auto simp: rn_ok_def rn_quiet_def)

text \<open>A server's TTL never wraps when the unit is a second.\<close>

lemma renewal_delay_second: "renewal_delay (10 ^ 9) now now ttl = uint ttl * 10 ^ 9"
proof -
  have wide: "wrap64 (n * 10 ^ 9) = n * 10 ^ 9" if "0 \<le> n" "n < 2 ^ 32" for n :: int
    using that by (intro wrap64_id) (simp add: is_int64_def int64Min_def int64Max_def)
  have "uint ttl < 2 ^ LENGTH(32)" by (rule unsigned_less)
  then have "wrap64 (uint ttl * 10 ^ 9) = uint ttl * 10 ^ 9" by (intro wide) simp_all
  then show ?thesis by (simp add: renewal_delay_def)
qed

lemma schedule_armed:
  assumes "rn_ok s" and "\<not> rn_stopped s" and "rn_unit s = 10 ^ 9"
  shows "filter (\<lambda>a. fst (snd a) = kind) (rn_armed (renewal_schedule kind now now True ttl s))
    = [(rn_fresh s, kind, uint ttl * 10 ^ 9)]"
proof -
  note f = free_kind_ok [OF assms(1), of kind]
  have fresh: "rn_fresh (free_kind kind s) = rn_fresh s" by (simp add: free_kind_def split: option.splits)
  have "rn_armed (renewal_schedule kind now now True ttl s)
      = (rn_fresh s, kind, uint ttl * 10 ^ 9) # rn_armed (free_kind kind s)"
    using assms(2,3) f(8) renewal_delay_second fresh
    by (simp add: renewal_schedule_def Let_def free_kind_def [symmetric])
  moreover have "filter (\<lambda>a. fst (snd a) = kind) (rn_armed (free_kind kind s)) = []"
    using f(2) by (force simp: filter_empty_conv)
  ultimately show ?thesis by simp
qed

lemma schedule_pending [simp]: "rn_pending (renewal_schedule kind answered now expires ttl s) = rn_pending s"
  by (simp add: renewal_schedule_def Let_def split: option.splits)

section \<open>Properties\<close>

abbreviation rn_reachable :: "renewer \<Rightarrow> bool" where
  "rn_reachable s \<equiv> reachable rn_init rn_step s"

definition sample_renewer :: renewer where
  "sample_renewer = renew_wrote 0 (renew_register 0 (renew_fetched 0 (Inr ''token'') (renewal_fired 0
     (renewal_schedule RenewSubscription 0 0 True 25 (newTokenRenewer ''private:c'' (10 ^ 9) 3)))))"

lemma sample_renewer_reachable: "rn_reachable sample_renewer"
proof -
  have start: "rn_reachable (newTokenRenewer ''private:c'' (10 ^ 9) 3)" by (rule reach_init) (auto simp: rn_init_def)
  have steps: "rn_reachable (renewal_schedule k a n e ttl s)" "rn_reachable (renewal_fired i s)"
    "rn_reachable (renew_fetched i r s)" "rn_reachable (renew_register i s)" "rn_reachable (renew_wrote i s)"
    if "rn_reachable s" for k a n e ttl s i r
    using that by (blast intro: reach_step rn_step.intros)+
  show ?thesis unfolding sample_renewer_def by (intro steps start)
qed

lemma sample_renewer_eval:
  "rn_armed sample_renewer = []" "rn_running sample_renewer = []" "rn_stopped sample_renewer = False"
  "rn_pending sample_renewer 3 = Some RenewSubscription" "rn_unit sample_renewer = 10 ^ 9"
  "rn_wg sample_renewer = 0" "rn_written sample_renewer = [subRefreshCommand 3 ''private:c'' ''token'']"
  by (simp_all add: sample_renewer_def newTokenRenewer_def renewal_schedule_def renewal_fired_def renew_fetched_def
      set_phase_def renew_register_def renew_wrote_def callback_done_def renewal_frame_def)

lemma distinct_kinds:
  "distinct (map fst xs) \<Longrightarrow> \<forall>(t, kind, delay) \<in> set xs. f kind = Some t \<Longrightarrow> distinct (map (fst \<circ> snd) xs)"
  by (induction xs) force+

text \<open>C23. However replies, timers, token fetches and the end of the connection interleave, the wait
  group of the renewer counts exactly the armed timers and the callbacks under way (so it never goes
  negative, which would panic), at most one timer of each kind is armed, and none once stopped.\<close>

theorem renewal_work_counted:
  assumes "rn_reachable s"
  shows "rn_wg s = int (length (rn_armed s)) + int (length (rn_running s))
    \<and> distinct (map (fst \<circ> snd) (rn_armed s)) \<and> (rn_stopped s \<longrightarrow> rn_armed s = [])"
proof -
  have ok: "rn_ok s" by (rule renewal.inv_reachable [OF assms])
  then have "distinct (map fst (rn_armed s))" and kinds: "\<forall>(t, kind, delay) \<in> set (rn_armed s). rn_timers s kind = Some t"
    by (auto simp: rn_ok_def)
  then have "distinct (map (fst \<circ> snd) (rn_armed s))" by (rule distinct_kinds)
  with ok show ?thesis by (auto simp: rn_ok_def)
qed

theorem renewal_work_counted_witness: "rn_wg sample_renewer = 0"
  using renewal_work_counted [OF sample_renewer_reachable] by (simp add: sample_renewer_eval)

text \<open>C24. Once \<open>stop\<close> has returned, which waits for the group, the renewer is silent for good: no
  callback runs or will run, and nothing more is written on the connection.\<close>

theorem stopped_renewer_silent:
  assumes "rn_reachable s" and "rn_stopped s" and "rn_wg s = 0" and "rn_step\<^sup>*\<^sup>* s t"
  shows "rn_written t = rn_written s \<and> rn_running t = [] \<and> rn_armed t = [] \<and> rn_wg t = 0"
  using quiet_steps [OF assms(4) waited_quiet [OF renewal.inv_reachable [OF assms(1)] assms(2,3)]] assms(3)
  by (simp add: rn_quiet_def)

theorem stopped_renewer_silent_witness:
  "rn_written (renewal_schedule RenewConnection 0 0 True 9 (renewer_stop (renewer_cancel sample_renewer)))
    = [subRefreshCommand 3 ''private:c'' ''token'']"
proof -
  let ?s = "renewer_stop (renewer_cancel sample_renewer)"
  let ?t = "renewal_schedule RenewConnection 0 0 True 9 ?s"
  have 1: "rn_reachable (renewer_cancel sample_renewer)"
    by (rule reach_step [OF sample_renewer_reachable]) (rule rn_step.intros)
  have 2: "rn_reachable ?s"
    by (rule reach_step [OF 1]) (rule rn_step.intros, simp add: renewer_cancel_def)
  have "rn_stopped ?s \<and> rn_wg ?s = 0 \<and> rn_written ?s = rn_written sample_renewer"
    using sample_renewer_eval
    by (simp add: renewer_stop_def renewer_cancel_def stop_of_kind_def stop_timer_def split: option.splits)
  moreover have "rn_step\<^sup>*\<^sup>* ?s ?t" by (rule r_into_rtranclp) (rule rn_step.intros)
  ultimately show ?thesis using stopped_renewer_silent [OF 2, of ?t] sample_renewer_eval by simp
qed

text \<open>A reply is taken by the renewer exactly when it answers a renewal that was sent and not yet
  answered, and only once; an accepted renewal that expires arms one timer of its kind for the
  lifetime the server gave, replacing any other.\<close>

theorem renewal_reply_once:
  assumes "rn_reachable s" and "(taken, t) = handleReply now message s"
  shows "(taken \<longleftrightarrow> rn_pending s (im_id message) \<noteq> None) \<and> rn_pending t (im_id message) = None
    \<and> (\<forall>kind. rn_pending s (im_id message) = Some kind \<and> im_err message = None \<and> im_expires message
          \<and> \<not> rn_stopped s \<and> rn_unit s = 10 ^ 9
        \<longrightarrow> filter (\<lambda>a. fst (snd a) = kind) (rn_armed t) = [(rn_fresh s, kind, uint (im_ttl message) * 10 ^ 9)])"
proof (intro conjI allI impI)
  fix kind
  let ?s1 = "s\<lparr>rn_pending := (rn_pending s)(im_id message := None)\<rparr>"
  have "rn_ok ?s1" by (rule rn_ok_same [OF renewal.inv_reachable [OF assms(1)]]) simp_all
  then show "filter (\<lambda>a. fst (snd a) = kind) (rn_armed t) = [(rn_fresh s, kind, uint (im_ttl message) * 10 ^ 9)]"
    if "rn_pending s (im_id message) = Some kind \<and> im_err message = None \<and> im_expires message
          \<and> \<not> rn_stopped s \<and> rn_unit s = 10 ^ 9"
    using schedule_armed [of ?s1 kind now "im_ttl message"] that assms(2) by (simp add: handleReply_def)
qed (use assms(2) in \<open>auto simp: handleReply_def Let_def split: option.splits\<close>)

theorem renewal_reply_once_witness:
  "map (snd \<circ> snd) (filter (\<lambda>a. fst (snd a) = RenewSubscription) (rn_armed (snd (handleReply 7
      ((message_of IncomingReply)\<lparr>im_id := 3, im_expires := True, im_ttl := 60\<rparr>) sample_renewer)))) = [60 * 10 ^ 9]"
  using renewal_reply_once [OF sample_renewer_reachable, of _ _ 7
      "(message_of IncomingReply)\<lparr>im_id := 3, im_expires := True, im_ttl := 60\<rparr>", OF prod.collapse]
  by (simp add: sample_renewer_eval message_of_def)

end
