(* ===== verification/SubaccountAccess.thy ===== *)
theory SubaccountAccess
  imports Scalars Timing
begin

text \<open>
  \<open>realtime/resubscribe.go\<close>: whether a subscription the server ended may be subscribed again.
  A subscription has a bounded budget of attempts (\<open>resubscribe_attempt\<close>); a client keeps the
  sub-accounts it saw removed, reads the list of sub-accounts with one shared request at a time,
  and paces both (\<open>subaccount_access\<close>). Clock readings, random numbers, answers of the list
  request and removals seen by other goroutines are arguments. Times are nanoseconds.
\<close>

section \<open>Timing and errors\<close>

definition unsubscribeTemporaryFrom :: u32 where
  "unsubscribeTemporaryFrom = 2500"

definition subaccountChannelPrefixes :: "string list" where
  "subaccountChannelPrefixes = [''private:ledger:balances:'', ''private:ledger:transfers:'',
     ''private:spot:trades:'', ''private:spot:triggers:events:'', ''private:spot:triggers:'',
     ''private:chain:lifecycle:flows:'']"

record resubscribe_timing =
  rs_maxAttempts :: nat
  rs_initialBackoff :: int
  rs_stableAfter :: int
  rs_attemptSpacing :: int
  rs_readInterval :: int

definition defaultResubscribeTiming :: resubscribe_timing where
  "defaultResubscribeTiming = \<lparr>rs_maxAttempts = 6, rs_initialBackoff = 500 * 1000000,
     rs_stableAfter = 60 * 1000000000, rs_attemptSpacing = 200 * 1000000, rs_readInterval = 1000000000\<rparr>"

record server_unsubscribed =
  su_code :: u32
  su_reason :: string

definition unsubscribed_temporary :: "server_unsubscribed \<Rightarrow> bool" where
  "unsubscribed_temporary e \<longleftrightarrow> su_code e \<ge> unsubscribeTemporaryFrom"

definition unsubscribed_stop ::
  "server_unsubscribed \<Rightarrow> string \<Rightarrow> end_reason \<Rightarrow> sdk_error option \<Rightarrow> sdk_error" where
  "unsubscribed_stop e channel reason cause = SubscriptionEndedError channel (su_code e) (su_reason e) reason cause"

section \<open>Channels of a sub-account\<close>

definition cut_prefix :: "string \<Rightarrow> string \<Rightarrow> string option" where
  "cut_prefix s p = (if take (length p) s = p then Some (drop (length p) s) else None)"

definition trim_suffix :: "string \<Rightarrow> string \<Rightarrow> string" where
  "trim_suffix s p = (if length p \<le> length s \<and> drop (length s - length p) s = p
     then take (length s - length p) s else s)"

fun channel_id_loop ::
  "(string \<Rightarrow> u64 res) \<Rightarrow> string \<Rightarrow> string list \<Rightarrow> u64 option" where
  "channel_id_loop parse channel [] = None"
| "channel_id_loop parse channel (prefix # prefixes) = (case cut_prefix channel prefix of
       None \<Rightarrow> channel_id_loop parse channel prefixes
     | Some rest0 \<Rightarrow>
         (let rest = trim_suffix rest0 '':proto'' in
          if rest = [] \<or> CHR '':'' \<in> set rest then None
          else case parse rest of Inl _ \<Rightarrow> None | Inr i \<Rightarrow> Some i))"

text \<open>\<open>parse\<close> is \<open>IDToInt\<close> with the label \<open>account_id\<close>.\<close>

definition subaccountChannelID :: "(string \<Rightarrow> u64 res) \<Rightarrow> string \<Rightarrow> u64 option" where
  "subaccountChannelID parse channel = channel_id_loop parse channel subaccountChannelPrefixes"

section \<open>The budget of a subscription\<close>

record resubscribe_attempt =
  ra_ended :: server_unsubscribed
  ra_backoff :: reconnect_backoff
  ra_attempts :: nat
  ra_ready :: bool
  ra_readyAt :: int
  ra_last :: "sdk_error option"

definition attempt_noteReady :: "int \<Rightarrow> resubscribe_attempt \<Rightarrow> resubscribe_attempt" where
  "attempt_noteReady now a = a\<lparr>ra_ready := True, ra_readyAt := now, ra_last := None\<rparr>"

definition attempt_note :: "sdk_error \<Rightarrow> resubscribe_attempt \<Rightarrow> resubscribe_attempt" where
  "attempt_note err a = (case err of ServerUnsubscribedError _ _ \<Rightarrow> a | _ \<Rightarrow> a\<lparr>ra_last := Some err\<rparr>)"

definition attemptAfter ::
  "resubscribe_timing \<Rightarrow> resubscribe_attempt option \<Rightarrow> server_unsubscribed \<Rightarrow> int \<Rightarrow> resubscribe_attempt" where
  "attemptAfter timing current ended now =
     (let fresh = \<lparr>ra_ended = ended, ra_backoff = \<lparr>rb_cap = 0, rb_initial = rs_initialBackoff timing\<rparr>,
                   ra_attempts = 0, ra_ready = False, ra_readyAt = 0, ra_last = None\<rparr>
      in case current of
           None \<Rightarrow> fresh
         | Some a \<Rightarrow> if ra_ready a \<and> now - ra_readyAt a \<ge> rs_stableAfter timing then fresh
                     else a\<lparr>ra_ended := ended, ra_ready := False\<rparr>)"

section \<open>Waiting to resume\<close>

text \<open>
  One turn of the loop of \<open>awaitResume\<close> as its environment sees it: whether a removal of the
  sub-account has been seen at each of the four places that ask, the random number of the
  backoff, whether the two sleeps ended by the clock (rather than the context), and the answer
  of the shared read with the context after it. \<open>nil\<close> is returned both to subscribe and
  because the context ended, which the caller's loop tells apart; here they are two results.
\<close>

record resume_turn =
  tn_removedFirst :: bool
  tn_random :: u64
  tn_slept :: bool
  tn_removedSlept :: bool
  tn_listed :: "u64 list res"
  tn_ctxEnded :: bool
  tn_removedRead :: bool
  tn_slotSlept :: bool
  tn_removedSlot :: bool

datatype resume_result = Subscribe | ContextDone | Stop sdk_error

text \<open>\<open>Some\<close> result when the turn returns, \<open>None\<close> when the loop continues.\<close>

definition resume_turn ::
  "resubscribe_timing \<Rightarrow> string \<Rightarrow> u64 \<Rightarrow> resume_turn \<Rightarrow> resubscribe_attempt \<Rightarrow> resume_result option \<times> resubscribe_attempt" where
  "resume_turn timing channel i tn a =
     (let stop = (\<lambda>reason cause. Some (Stop (unsubscribed_stop (ra_ended a) channel reason cause)));
          (delay, b) = backoff_next (tn_random tn) (ra_backoff a);
          a1 = a\<lparr>ra_attempts := ra_attempts a + 1, ra_backoff := b\<rparr>
      in if tn_removedFirst tn then (stop SubscriptionEndAccessRemoved None, a)
         else if ra_attempts a \<ge> rs_maxAttempts timing then (stop SubscriptionEndRetriesExhausted (ra_last a), a)
         else if \<not> tn_slept tn then (Some ContextDone, a1)
         else if tn_removedSlept tn then (stop SubscriptionEndAccessRemoved None, a1)
         else if tn_ctxEnded tn then (Some ContextDone, a1)
         else case tn_listed tn of
             Inl err \<Rightarrow>
               if as_auth err then (stop SubscriptionEndListRefused (Some err), a1)
               else (None, a1\<lparr>ra_last := Some err\<rparr>)
           | Inr listed \<Rightarrow>
               if tn_removedRead tn then (stop SubscriptionEndAccessRemoved None, a1)
               else if i \<notin> set listed then (stop SubscriptionEndNotListed None, a1)
               else if \<not> tn_slotSlept tn then (Some ContextDone, a1)
               else if tn_removedSlot tn then (stop SubscriptionEndAccessRemoved None, a1)
               else (Some Subscribe, a1))"

lemma resume_turn_continues:
  "resume_turn timing channel i tn a = (None, a') \<Longrightarrow>
    ra_attempts a < rs_maxAttempts timing \<and> ra_attempts a' = ra_attempts a + 1 \<and> ra_ended a' = ra_ended a"
  by (auto simp: resume_turn_def Let_def split: prod.splits if_splits sum.splits)

lemma resume_turn_attempts:
  "resume_turn timing channel i tn a = (r, a') \<Longrightarrow> ra_attempts a \<le> rs_maxAttempts timing \<Longrightarrow>
    ra_attempts a' \<le> rs_maxAttempts timing \<and> ra_attempts a \<le> ra_attempts a'
    \<and> ra_ended a' = ra_ended a \<and> ra_ready a' = ra_ready a"
  by (auto simp: resume_turn_def Let_def split: prod.splits if_splits sum.splits)

text \<open>The loop, with the number of the turn that returned.\<close>

function await_loop ::
  "resubscribe_timing \<Rightarrow> string \<Rightarrow> u64 \<Rightarrow> (nat \<Rightarrow> resume_turn) \<Rightarrow> nat \<Rightarrow> resubscribe_attempt
    \<Rightarrow> resume_result \<times> resubscribe_attempt \<times> nat" where
  "await_loop timing channel i turns k a = (case resume_turn timing channel i (turns k) a of
       (Some r, a') \<Rightarrow> (r, a', k)
     | (None, a') \<Rightarrow> await_loop timing channel i turns (Suc k) a')"
  by pat_completeness auto

termination
  by (relation "measure (\<lambda>(timing, channel, i, turns, k, a). rs_maxAttempts timing - ra_attempts a)")
    (auto dest!: resume_turn_continues [OF sym])

declare await_loop.simps [simp del]

definition awaitResume ::
  "resubscribe_timing \<Rightarrow> (string \<Rightarrow> u64 res) \<Rightarrow> bool \<Rightarrow> string \<Rightarrow> (nat \<Rightarrow> resume_turn) \<Rightarrow> resubscribe_attempt
    \<Rightarrow> resume_result \<times> resubscribe_attempt \<times> nat" where
  "awaitResume timing parse canSign channel turns a = (case subaccountChannelID parse channel of
       Some i \<Rightarrow>
         if canSign then await_loop timing channel i turns 0 a
         else (Stop (unsubscribed_stop (ra_ended a) channel SubscriptionEndNotResubscribable None), a, 0)
     | None \<Rightarrow> (Stop (unsubscribed_stop (ra_ended a) channel SubscriptionEndNotResubscribable None), a, 0))"

lemma await_loop_result:
  assumes "await_loop timing channel i turns k a = (r, a', n)" and "ra_attempts a \<le> rs_maxAttempts timing"
  shows "k \<le> n" and "ra_attempts a + (n - k) \<le> ra_attempts a'" and "ra_attempts a' \<le> rs_maxAttempts timing"
    and "\<exists>b. resume_turn timing channel i (turns n) b = (Some r, a') \<and> ra_attempts b = ra_attempts a + (n - k)
      \<and> ra_ended b = ra_ended a"
    and "\<forall>j. k \<le> j \<and> j < n \<longrightarrow> (\<exists>err. tn_listed (turns j) = Inl err \<and> \<not> as_auth err)"
    and "ra_ended a' = ra_ended a" and "ra_ready a' = ra_ready a"
proof -
  have "k \<le> n \<and> ra_attempts a + (n - k) \<le> ra_attempts a' \<and> ra_attempts a' \<le> rs_maxAttempts timing
    \<and> (\<exists>b. resume_turn timing channel i (turns n) b = (Some r, a') \<and> ra_attempts b = ra_attempts a + (n - k)
        \<and> ra_ended b = ra_ended a)
    \<and> (\<forall>j. k \<le> j \<and> j < n \<longrightarrow> (\<exists>err. tn_listed (turns j) = Inl err \<and> \<not> as_auth err))
    \<and> ra_ended a' = ra_ended a \<and> ra_ready a' = ra_ready a"
    using assms
  proof (induction timing channel i turns k a rule: await_loop.induct)
    case (1 timing channel i turns k a)
    obtain q a1 where t: "resume_turn timing channel i (turns k) a = (q, a1)" by fastforce
    show ?case
    proof (cases q)
      case None
      note c = resume_turn_continues [OF t [unfolded None]]
      from 1 t None have "await_loop timing channel i turns (Suc k) a1 = (r, a', n)"
        by (simp add: await_loop.simps [of timing channel i turns k])
      with 1(1) [OF t [symmetric] None] c have ih: "Suc k \<le> n" "ra_attempts a1 + (n - Suc k) \<le> ra_attempts a'"
        "ra_attempts a' \<le> rs_maxAttempts timing"
        "\<exists>b. resume_turn timing channel i (turns n) b = (Some r, a') \<and> ra_attempts b = ra_attempts a1 + (n - Suc k)
          \<and> ra_ended b = ra_ended a1"
        "\<forall>j. Suc k \<le> j \<and> j < n \<longrightarrow> (\<exists>err. tn_listed (turns j) = Inl err \<and> \<not> as_auth err)"
        "ra_ended a' = ra_ended a1" "ra_ready a' = ra_ready a1" by auto
      from t None have "\<exists>err. tn_listed (turns k) = Inl err \<and> \<not> as_auth err"
        by (auto simp: resume_turn_def Let_def split: prod.splits if_splits sum.splits)
      then have "\<forall>j. k \<le> j \<and> j < n \<longrightarrow> (\<exists>err. tn_listed (turns j) = Inl err \<and> \<not> as_auth err)"
        using ih(5) by (metis Suc_leI le_neq_implies_less)
      moreover have "ra_ready a1 = ra_ready a" using resume_turn_attempts [OF t] 1(3) by simp
      ultimately show ?thesis using ih c by auto
    next
      case (Some q')
      with 1 t have "q' = r" "a1 = a'" "n = k" by (simp_all add: await_loop.simps [of timing channel i turns k])
      with t Some resume_turn_attempts [OF t] 1(3) show ?thesis by auto
    qed
  qed
  then show "k \<le> n" "ra_attempts a + (n - k) \<le> ra_attempts a'" "ra_attempts a' \<le> rs_maxAttempts timing"
    "\<exists>b. resume_turn timing channel i (turns n) b = (Some r, a') \<and> ra_attempts b = ra_attempts a + (n - k)
      \<and> ra_ended b = ra_ended a"
    "\<forall>j. k \<le> j \<and> j < n \<longrightarrow> (\<exists>err. tn_listed (turns j) = Inl err \<and> \<not> as_auth err)"
    "ra_ended a' = ra_ended a" "ra_ready a' = ra_ready a" by blast+
qed

section \<open>What a client knows of access\<close>

text \<open>Updates of the sub-accounts channel, as id and removed flag; \<open>None\<close> is an update that does
  not decode.\<close>

definition noteUpdate :: "(u64 \<times> bool) option \<Rightarrow> u64 set \<Rightarrow> u64 set" where
  "noteUpdate update removed = (case update of
       None \<Rightarrow> removed
     | Some (i, gone) \<Rightarrow>
         if i = 0 then removed else if gone then insert i removed else removed - {i})"

definition reserveAttempt :: "resubscribe_timing \<Rightarrow> int \<Rightarrow> int \<Rightarrow> int \<times> int" where
  "reserveAttempt timing now nextAttemptAt =
     (let slot = (if nextAttemptAt < now then now else nextAttemptAt)
      in (slot - now, slot + rs_attemptSpacing timing))"

text \<open>The slots handed out to callers that ask at the given times, from the state \<open>at\<close>.\<close>

primrec attempt_slots :: "resubscribe_timing \<Rightarrow> int \<Rightarrow> int list \<Rightarrow> int list" where
  "attempt_slots timing at [] = []"
| "attempt_slots timing at (now # nows) =
     (let (wait, at') = reserveAttempt timing now at in (now + wait) # attempt_slots timing at' nows)"

lemma attempt_slots_from: "slot \<in> set (attempt_slots timing at nows) \<Longrightarrow> 0 \<le> rs_attemptSpacing timing \<Longrightarrow> at \<le> slot"
  by (induction nows arbitrary: at) (fastforce simp: reserveAttempt_def Let_def split: if_splits)+

lemma attempt_slots_spaced:
  "0 \<le> rs_attemptSpacing timing \<Longrightarrow>
    sorted_wrt (\<lambda>x y. x + rs_attemptSpacing timing \<le> y) (attempt_slots timing at nows)"
proof (induction nows arbitrary: at)
  case (Cons now nows)
  then show ?case using attempt_slots_from [of _ timing _ nows]
    by (fastforce simp: reserveAttempt_def Let_def)
qed simp

lemma length_attempt_slots [simp]: "length (attempt_slots timing at nows) = length nows"
  by (induction nows arbitrary: at) (auto simp: Let_def split: prod.splits)

lemma attempt_slots_later: "k < length nows \<Longrightarrow> nows ! k \<le> attempt_slots timing at nows ! k"
proof (induction nows arbitrary: at k)
  case (Cons now nows)
  then show ?case by (cases k) (auto simp: reserveAttempt_def Let_def)
qed simp

section \<open>The shared read\<close>

text \<open>
  Callers join \<open>ac_next\<close>, the request that has not started, or create it with its goroutine.
  That goroutine waits until the read interval has passed since the last start, then takes
  the request out of \<open>ac_next\<close> and starts it, and in the end hands its answer to all that
  joined. \<open>ac_clock\<close> counts steps: \<open>ac_asked\<close> records when each caller asked and which request
  it joined, \<open>ac_starts\<close> when each request started (step and time, newest first), \<open>ac_answers\<close>
  what it returned. \<open>ac_now\<close> is the clock, which does not go back.
\<close>

record access_reads =
  ac_next :: "nat option"
  ac_lastRead :: "int option"
  ac_wake :: "nat \<Rightarrow> int option"
  ac_fresh :: nat
  ac_clock :: nat
  ac_now :: int
  ac_asked :: "(nat \<times> nat) list"
  ac_starts :: "(nat \<times> nat \<times> int) list"
  ac_answers :: "(nat \<times> u64 list res) list"

definition access_init :: access_reads where
  "access_init = \<lparr>ac_next = None, ac_lastRead = None, ac_wake = \<lambda>_. None, ac_fresh = 0, ac_clock = 0,
     ac_now = 0, ac_asked = [], ac_starts = [], ac_answers = []\<rparr>"

definition access_tick :: "int \<Rightarrow> access_reads \<Rightarrow> access_reads" where
  "access_tick now s = s\<lparr>ac_clock := ac_clock s + 1, ac_now := now\<rparr>"

text \<open>\<open>read\<close> under its lock.\<close>

definition access_read :: "access_reads \<Rightarrow> access_reads" where
  "access_read s = (case ac_next s of
       Some call \<Rightarrow> s\<lparr>ac_asked := (ac_clock s, call) # ac_asked s\<rparr>
     | None \<Rightarrow> s\<lparr>ac_next := Some (ac_fresh s), ac_asked := (ac_clock s, ac_fresh s) # ac_asked s,
                  ac_fresh := ac_fresh s + 1\<rparr>)"

text \<open>\<open>runRead\<close>: the wait it computes, and the start once it is over.\<close>

definition run_read_wait :: "resubscribe_timing \<Rightarrow> nat \<Rightarrow> access_reads \<Rightarrow> access_reads" where
  "run_read_wait timing call s = s\<lparr>ac_wake := (ac_wake s)(call :=
     Some (case ac_lastRead s of None \<Rightarrow> ac_now s | Some t \<Rightarrow> max (ac_now s) (t + rs_readInterval timing)))\<rparr>"

definition run_read_start :: "nat \<Rightarrow> access_reads \<Rightarrow> access_reads" where
  "run_read_start call s = s\<lparr>ac_next := None, ac_lastRead := Some (ac_now s),
     ac_starts := (call, ac_clock s, ac_now s) # ac_starts s\<rparr>"

definition run_read_done :: "nat \<Rightarrow> u64 list res \<Rightarrow> access_reads \<Rightarrow> access_reads" where
  "run_read_done call answer s = s\<lparr>ac_answers := (call, answer) # ac_answers s\<rparr>"

text \<open>A goroutine of a request runs its three parts once each, in this order.\<close>

inductive access_step :: "resubscribe_timing \<Rightarrow> access_reads \<Rightarrow> access_reads \<Rightarrow> bool" for timing where
  ask: "ac_now s \<le> now \<Longrightarrow> access_step timing s (access_read (access_tick now s))"
| wait: "ac_now s \<le> now \<Longrightarrow> call < ac_fresh s \<Longrightarrow> ac_wake s call = None
    \<Longrightarrow> access_step timing s (run_read_wait timing call (access_tick now s))"
| start: "ac_now s \<le> now \<Longrightarrow> ac_wake s call = Some t \<Longrightarrow> t \<le> now \<Longrightarrow> call \<notin> fst ` set (ac_starts s)
    \<Longrightarrow> access_step timing s (run_read_start call (access_tick now s))"
| answered: "ac_now s \<le> now \<Longrightarrow> call \<in> fst ` set (ac_starts s) \<Longrightarrow> call \<notin> fst ` set (ac_answers s)
    \<Longrightarrow> access_step timing s (run_read_done call answer (access_tick now s))"

inductive_cases access_stepE: "access_step timing s t"

text \<open>A request is the one callers join exactly until it starts; its wake-up time is past the
  interval from the last start; what joined it asked before it started.\<close>

abbreviation started_calls :: "access_reads \<Rightarrow> nat set" where
  "started_calls s \<equiv> fst ` set (ac_starts s)"

definition joined_ok :: "access_reads \<Rightarrow> bool" where
  "joined_ok s \<longleftrightarrow> (\<forall>call < ac_fresh s. ac_next s = Some call \<longleftrightarrow> call \<notin> started_calls s)
     \<and> (\<forall>call. ac_next s = Some call \<longrightarrow> call < ac_fresh s)
     \<and> (\<forall>call. ac_wake s call \<noteq> None \<longrightarrow> call < ac_fresh s)
     \<and> (\<forall>call \<in> started_calls s. call < ac_fresh s) \<and> fst ` set (ac_answers s) \<subseteq> started_calls s"

definition wake_ok :: "resubscribe_timing \<Rightarrow> access_reads \<Rightarrow> bool" where
  "wake_ok timing s \<longleftrightarrow> (\<forall>call t last. ac_next s = Some call \<and> ac_wake s call = Some t \<and> ac_lastRead s = Some last
     \<longrightarrow> last + rs_readInterval timing \<le> t)"

definition asked_ok :: "access_reads \<Rightarrow> bool" where
  "asked_ok s \<longleftrightarrow> (\<forall>q \<in> set (ac_asked s). snd q < ac_fresh s \<and> fst q \<le> ac_clock s
     \<and> (\<forall>st \<in> set (ac_starts s). fst st = snd q \<longrightarrow> fst q < fst (snd st)))"

definition starts_ok :: "resubscribe_timing \<Rightarrow> access_reads \<Rightarrow> bool" where
  "starts_ok timing s \<longleftrightarrow> (\<forall>st \<in> set (ac_starts s). fst (snd st) \<le> ac_clock s)
     \<and> ac_lastRead s = (case ac_starts s of [] \<Rightarrow> None | st # _ \<Rightarrow> Some (snd (snd st)))
     \<and> sorted_wrt (\<lambda>later earlier. earlier + rs_readInterval timing \<le> later) (map (snd \<circ> snd) (ac_starts s))"

definition access_ok :: "resubscribe_timing \<Rightarrow> access_reads \<Rightarrow> bool" where
  "access_ok timing s \<longleftrightarrow> 0 \<le> rs_readInterval timing \<and> joined_ok s \<and> wake_ok timing s \<and> asked_ok s \<and> starts_ok timing s"

lemmas access_sections = access_tick_def access_read_def run_read_wait_def run_read_start_def run_read_done_def

lemma joined_ok_start:
  assumes "joined_ok s" and "call < ac_fresh s" and "call \<notin> started_calls s"
  shows "joined_ok (run_read_start call (access_tick now s))"
proof -
  have "ac_next s = Some call" using assms by (auto simp: joined_ok_def)
  then have "\<forall>c < ac_fresh s. c = call \<or> c \<in> started_calls s" using assms(1) by (auto simp: joined_ok_def)
  with assms show ?thesis by (auto simp: joined_ok_def access_sections)
qed

lemma joined_ok_sections:
  "joined_ok s \<Longrightarrow> joined_ok (access_read (access_tick now s))"
  "joined_ok s \<Longrightarrow> call < ac_fresh s \<Longrightarrow> joined_ok (run_read_wait timing call (access_tick now s))"
  "joined_ok s \<Longrightarrow> call \<in> started_calls s \<Longrightarrow> joined_ok (run_read_done call answer (access_tick now s))"
  by (auto simp: joined_ok_def access_sections less_Suc_eq split: option.splits)

lemma wake_ok_read:
  assumes "wake_ok timing s" and "joined_ok s"
  shows "wake_ok timing (access_read (access_tick now s))"
proof (cases "ac_next s")
  case None
  have "ac_wake s (ac_fresh s) = None" using assms(2) unfolding joined_ok_def by (metis less_irrefl)
  with None show ?thesis by (simp add: wake_ok_def access_sections)
qed (use assms(1) in \<open>simp add: wake_ok_def access_sections\<close>)

lemma wake_ok_wait:
  "wake_ok timing s \<Longrightarrow> wake_ok timing (run_read_wait timing call (access_tick now s))"
  by (simp add: wake_ok_def access_sections) blast

lemma wake_ok_sections:
  "wake_ok timing (run_read_start call (access_tick now s))"
  "wake_ok timing s \<Longrightarrow> wake_ok timing (run_read_done call answer (access_tick now s))"
  by (simp_all add: wake_ok_def access_sections)

lemma asked_ok_read:
  assumes "asked_ok s" and "joined_ok s"
  shows "asked_ok (access_read (access_tick now s))"
proof (cases "ac_next s")
  case None
  have "fst st \<noteq> ac_fresh s" if "st \<in> set (ac_starts s)" for st
    using assms(2) that by (auto simp: joined_ok_def)
  with None assms(1) show ?thesis by (auto simp: asked_ok_def access_sections less_Suc_eq le_SucI)
next
  case (Some call)
  then have call: "call < ac_fresh s" using assms(2) by (simp add: joined_ok_def)
  with Some assms(2) have "call \<notin> started_calls s" unfolding joined_ok_def by blast
  then have "fst st \<noteq> call" if "st \<in> set (ac_starts s)" for st using that by auto
  with Some call assms(1) show ?thesis by (auto simp: asked_ok_def access_sections le_SucI)
qed

lemma asked_ok_sections:
  "asked_ok s \<Longrightarrow> asked_ok (run_read_wait timing call (access_tick now s))"
  "asked_ok s \<Longrightarrow> asked_ok (run_read_start call (access_tick now s))"
  "asked_ok s \<Longrightarrow> asked_ok (run_read_done call answer (access_tick now s))"
  by (auto simp: asked_ok_def access_sections le_SucI less_Suc_eq_le)

lemma starts_ok_start:
  assumes "access_ok timing s" and "ac_wake s call = Some t" and "t \<le> now" and "call \<notin> started_calls s"
  shows "starts_ok timing (run_read_start call (access_tick now s))"
proof -
  have next_call: "ac_next s = Some call" using assms by (auto simp: access_ok_def joined_ok_def)
  have "last + rs_readInterval timing \<le> now" if "last \<in> set (map (snd \<circ> snd) (ac_starts s))" for last
  proof (cases "ac_starts s")
    case (Cons st sts)
    with assms next_call have "snd (snd st) + rs_readInterval timing \<le> t"
      by (simp add: access_ok_def wake_ok_def starts_ok_def)
    moreover have "last \<le> snd (snd st)" using that Cons assms(1) by (force simp: access_ok_def starts_ok_def)
    ultimately show ?thesis using assms(3) by simp
  qed (use that in simp)
  with assms(1) show ?thesis by (simp add: access_ok_def starts_ok_def access_sections le_SucI)
qed

lemma starts_ok_sections:
  "starts_ok timing s \<Longrightarrow> starts_ok timing (access_read (access_tick now s))"
  "starts_ok timing s \<Longrightarrow> starts_ok timing (run_read_wait timing' call (access_tick now s))"
  "starts_ok timing s \<Longrightarrow> starts_ok timing (run_read_done call answer (access_tick now s))"
  by (simp_all add: starts_ok_def access_sections le_SucI split: option.splits)

lemma access_ok_init: "0 \<le> rs_readInterval timing \<Longrightarrow> access_ok timing access_init"
  by (simp add: access_ok_def joined_ok_def wake_ok_def asked_ok_def starts_ok_def access_init_def)

lemma access_ok_step:
  assumes "access_ok timing s" and "access_step timing s t"
  shows "access_ok timing t"
  using assms(2)
proof cases
  case (ask now)
  with assms(1) show ?thesis
    by (simp add: access_ok_def joined_ok_sections joined_ok_start wake_ok_read wake_ok_wait wake_ok_sections asked_ok_read asked_ok_sections starts_ok_sections)
next
  case (wait now call)
  with assms(1) show ?thesis
    by (simp add: access_ok_def joined_ok_sections joined_ok_start wake_ok_read wake_ok_wait wake_ok_sections asked_ok_read asked_ok_sections starts_ok_sections)
next
  case (start now call t')
  with assms(1) have "call < ac_fresh s" by (auto simp: access_ok_def joined_ok_def)
  with start assms(1) starts_ok_start [OF assms(1)] show ?thesis
    by (simp add: access_ok_def joined_ok_sections joined_ok_start wake_ok_read wake_ok_wait wake_ok_sections asked_ok_read asked_ok_sections)
next
  case (answered now call answer)
  with assms(1) show ?thesis
    by (simp add: access_ok_def joined_ok_sections joined_ok_start wake_ok_read wake_ok_wait wake_ok_sections asked_ok_read asked_ok_sections starts_ok_sections)
qed

text \<open>The intervals of the program, as the timing a client has.\<close>

interpretation shared_read: invariant_system "\<lambda>s. s = access_init" "access_step defaultResubscribeTiming"
  "access_ok defaultResubscribeTiming"
  by unfold_locales (auto simp: defaultResubscribeTiming_def intro: access_ok_init access_ok_step)

section \<open>The listed sub-accounts\<close>

text \<open>The decoded body: each entry's id and role as the JSON scalar they are, and its flag.\<close>

datatype json_scalar = JsonString string | JsonNumber string | JsonOther

record listed_entry =
  le_id :: json_scalar
  le_role :: json_scalar
  le_removed :: bool

definition listedSubaccountID :: "(string \<Rightarrow> u64 res) \<Rightarrow> json_scalar \<Rightarrow> u64 option" where
  "listedSubaccountID parse v = (case v of
       JsonString s \<Rightarrow> (case parse_uint s of
           Some i \<Rightarrow> Some i
         | None \<Rightarrow> (case parse s of Inl _ \<Rightarrow> None | Inr i \<Rightarrow> Some i))
     | JsonNumber s \<Rightarrow> parse_uint s
     | JsonOther \<Rightarrow> None)"

definition hasSubaccountRole :: "json_scalar \<Rightarrow> bool" where
  "hasSubaccountRole role = (case role of
       JsonString s \<Rightarrow> s \<noteq> [] \<and> s \<noteq> ''SUBACCOUNT_ROLE_UNSPECIFIED''
     | JsonNumber s \<Rightarrow> s \<noteq> ''0''
     | JsonOther \<Rightarrow> False)"

fun listed_loop :: "(string \<Rightarrow> u64 res) \<Rightarrow> listed_entry list \<Rightarrow> u64 list \<Rightarrow> u64 list res" where
  "listed_loop parse [] listed = Inr listed"
| "listed_loop parse (entry # entries) listed = (case listedSubaccountID parse (le_id entry) of
       None \<Rightarrow> Inl (RealtimeError ''list sub-accounts: invalid sub-account id'')
     | Some i \<Rightarrow> listed_loop parse entries
         (if \<not> le_removed entry \<and> hasSubaccountRole (le_role entry) then i # listed else listed))"

definition fetchListedSubaccounts ::
  "(string \<Rightarrow> u64 res) \<Rightarrow> listed_entry list option res \<Rightarrow> u64 list res" where
  "fetchListedSubaccounts parse response = (case response of
       Inl err \<Rightarrow> Inl err
     | Inr None \<Rightarrow> Inl (RealtimeError ''list sub-accounts: invalid response'')
     | Inr (Some entries) \<Rightarrow> listed_loop parse entries [])"

lemma listed_loop_Inr:
  "listed_loop parse entries acc = Inr listed \<Longrightarrow>
    set listed = set acc \<union> {i. \<exists>entry \<in> set entries. listedSubaccountID parse (le_id entry) = Some i
      \<and> \<not> le_removed entry \<and> hasSubaccountRole (le_role entry)}
    \<and> (\<forall>entry \<in> set entries. listedSubaccountID parse (le_id entry) \<noteq> None)"
proof (induction entries arbitrary: acc)
  case (Cons entry entries)
  then obtain i where i: "listedSubaccountID parse (le_id entry) = Some i" by (auto split: option.splits)
  with Cons.prems have "listed_loop parse entries
      (if \<not> le_removed entry \<and> hasSubaccountRole (le_role entry) then i # acc else acc) = Inr listed" by simp
  from Cons.IH [OF this] i show ?case by (auto split: if_splits)
qed simp

section \<open>Properties\<close>

definition sample_turns :: "nat \<Rightarrow> resume_turn" where
  "sample_turns k = \<lparr>tn_removedFirst = False, tn_random = 7, tn_slept = True, tn_removedSlept = False,
     tn_listed = (if k = 0 then Inl (RealtimeError ''list sub-accounts: HTTP 500'') else Inr [4, 5]),
     tn_ctxEnded = False, tn_removedRead = False, tn_slotSlept = True, tn_removedSlot = False\<rparr>"

definition sample_attempt :: resubscribe_attempt where
  "sample_attempt = attemptAfter defaultResubscribeTiming None \<lparr>su_code = 2000, su_reason = ''expired''\<rparr> 0"

lemma sample_resume:
  "\<exists>a. awaitResume defaultResubscribeTiming (\<lambda>_. Inr 5) True ''private:spot:trades:F:proto'' sample_turns sample_attempt
    = (Subscribe, a, 1)"
proof -
  let ?r = "awaitResume defaultResubscribeTiming (\<lambda>_. Inr 5) True ''private:spot:trades:F:proto'' sample_turns sample_attempt"
  have "fst ?r = Subscribe" "snd (snd ?r) = 1" by code_simp+
  then show ?thesis by (intro exI [of _ "fst (snd ?r)"]) (simp add: prod_eq_iff)
qed

text \<open>C22. A subscription the server ended is subscribed again only with access: for a sub-account
  channel of a client that can sign, whose sub-account was on the list a fresh read returned in the
  same turn, no removal of it having been seen at any of the four places that ask, and at the cost
  of one attempt of a budget that is never exceeded.\<close>

theorem resume_needs_access:
  assumes "awaitResume timing parse canSign channel turns a = (Subscribe, a', n)"
    and "ra_attempts a \<le> rs_maxAttempts timing"
  shows "\<exists>i listed. subaccountChannelID parse channel = Some i \<and> canSign \<and> tn_listed (turns n) = Inr listed
    \<and> i \<in> set listed \<and> \<not> tn_removedFirst (turns n) \<and> \<not> tn_removedSlept (turns n)
    \<and> \<not> tn_removedRead (turns n) \<and> \<not> tn_removedSlot (turns n)
    \<and> ra_attempts a < ra_attempts a' \<and> ra_attempts a' \<le> rs_maxAttempts timing"
proof -
  from assms(1) obtain i where i: "subaccountChannelID parse channel = Some i" "canSign"
    and l: "await_loop timing channel i turns 0 a = (Subscribe, a', n)"
    by (auto simp: awaitResume_def split: option.splits if_splits)
  note r = await_loop_result [OF l assms(2)]
  from r(4) obtain b where b: "resume_turn timing channel i (turns n) b = (Some Subscribe, a')"
    "ra_attempts b = ra_attempts a + n" by auto
  then show ?thesis using i r(3)
    by (auto simp: resume_turn_def Let_def split: prod.splits if_splits sum.splits)
qed

theorem resume_needs_access_witness:
  "\<exists>listed. tn_listed (sample_turns 1) = Inr listed \<and> 5 \<in> set listed"
proof -
  from sample_resume obtain a where
    r: "awaitResume defaultResubscribeTiming (\<lambda>_. Inr 5) True ''private:spot:trades:F:proto'' sample_turns sample_attempt
      = (Subscribe, a, 1)" by blast
  have "ra_attempts sample_attempt \<le> rs_maxAttempts defaultResubscribeTiming"
    "subaccountChannelID (\<lambda>_. Inr 5) ''private:spot:trades:F:proto'' = Some 5" by code_simp+
  with resume_needs_access [OF r] show ?thesis by fastforce
qed

text \<open>Waiting to resume ends, within the budget: each turn but the last failed for a reason other
  than a refusal and cost one attempt, and it gives up as exhausted only with every attempt spent.\<close>

theorem resume_within_budget:
  assumes "awaitResume timing parse canSign channel turns a = (r, a', n)" and "ra_attempts a \<le> rs_maxAttempts timing"
  shows "ra_attempts a + n \<le> ra_attempts a' \<and> ra_attempts a' \<le> rs_maxAttempts timing
    \<and> (\<forall>j < n. \<exists>err. tn_listed (turns j) = Inl err \<and> \<not> as_auth err)
    \<and> (\<forall>ch c reason cause. r = Stop (SubscriptionEndedError ch c reason SubscriptionEndRetriesExhausted cause)
        \<longrightarrow> ra_attempts a' = rs_maxAttempts timing)"
proof (cases "\<exists>i. subaccountChannelID parse channel = Some i \<and> canSign")
  case True
  then obtain i where l: "await_loop timing channel i turns 0 a = (r, a', n)"
    using assms(1) by (auto simp: awaitResume_def)
  note q = await_loop_result [OF l assms(2)]
  from q(4) obtain b where "resume_turn timing channel i (turns n) b = (Some r, a')" by auto
  then have "\<forall>ch c reason cause. r = Stop (SubscriptionEndedError ch c reason SubscriptionEndRetriesExhausted cause)
        \<longrightarrow> rs_maxAttempts timing \<le> ra_attempts a'"
    by (auto simp: resume_turn_def Let_def unsubscribed_stop_def split: prod.splits if_splits sum.splits)
  with q(2,3,5) show ?thesis by fastforce
next
  case False
  with assms show ?thesis by (auto simp: awaitResume_def unsubscribed_stop_def split: option.splits if_splits)
qed

theorem resume_within_budget_witness:
  "\<exists>err. tn_listed (sample_turns 0) = Inl err \<and> \<not> as_auth err"
proof -
  from sample_resume obtain a where
    r: "awaitResume defaultResubscribeTiming (\<lambda>_. Inr 5) True ''private:spot:trades:F:proto'' sample_turns sample_attempt
      = (Subscribe, a, 1)" by blast
  have "ra_attempts sample_attempt \<le> rs_maxAttempts defaultResubscribeTiming" by code_simp
  with resume_within_budget [OF r] show ?thesis by blast
qed

text \<open>In every interleaving of callers and reads, the answer a caller gets is of a request that
  started after the caller asked, and requests start at least a second apart.\<close>

theorem shared_read_fresh:
  assumes "reachable (\<lambda>s. s = access_init) (access_step defaultResubscribeTiming) s"
  shows "sorted_wrt (\<lambda>later earlier. earlier + 1000000000 \<le> later) (map (snd \<circ> snd) (ac_starts s))
    \<and> ((asked, call) \<in> set (ac_asked s) \<and> call \<in> fst ` set (ac_answers s)
        \<longrightarrow> (\<exists>started t. (call, started, t) \<in> set (ac_starts s) \<and> asked < started))"
proof (intro conjI impI)
  have ok: "access_ok defaultResubscribeTiming s" by (rule shared_read.inv_reachable [OF assms])
  then have "starts_ok defaultResubscribeTiming s" unfolding access_ok_def by blast
  then have "sorted_wrt (\<lambda>later earlier. earlier + rs_readInterval defaultResubscribeTiming \<le> later) (map (snd \<circ> snd) (ac_starts s))"
    unfolding starts_ok_def by blast
  then show "sorted_wrt (\<lambda>later earlier. earlier + 1000000000 \<le> later) (map (snd \<circ> snd) (ac_starts s))"
    by (simp add: defaultResubscribeTiming_def)
  assume q: "(asked, call) \<in> set (ac_asked s) \<and> call \<in> fst ` set (ac_answers s)"
  have "joined_ok s" using ok unfolding access_ok_def by blast
  then have "fst ` set (ac_answers s) \<subseteq> fst ` set (ac_starts s)" unfolding joined_ok_def by blast
  then have "call \<in> fst ` set (ac_starts s)" using conjunct2 [OF q] by (rule subsetD)
  then obtain st where st: "st \<in> set (ac_starts s)" "fst st = call" by force
  have "\<forall>p \<in> set (ac_asked s). \<forall>st \<in> set (ac_starts s). fst st = snd p \<longrightarrow> fst p < fst (snd st)"
    using ok unfolding access_ok_def asked_ok_def by blast
  with conjunct1 [OF q] st have "asked < fst (snd st)" by fastforce
  moreover obtain started t where "st = (call, started, t)" using st(2) by (metis prod.collapse)
  ultimately show "\<exists>started t. (call, started, t) \<in> set (ac_starts s) \<and> asked < started" using st(1) by auto
qed

definition sample_reads :: access_reads where
  "sample_reads = run_read_done 0 (Inr [5]) (access_tick 3 (run_read_start 0 (access_tick 2
     (run_read_wait defaultResubscribeTiming 0 (access_tick 1 (access_read (access_tick 1 access_init)))))))"

theorem shared_read_fresh_witness:
  "\<exists>started t. (0, started, t) \<in> set (ac_starts sample_reads) \<and> 1 < started"
proof -
  let ?s1 = "access_read (access_tick 1 access_init)"
  let ?s2 = "run_read_wait defaultResubscribeTiming 0 (access_tick 1 ?s1)"
  let ?s3 = "run_read_start 0 (access_tick 2 ?s2)"
  let ?r = "reachable (\<lambda>s. s = access_init) (access_step defaultResubscribeTiming)"
  have 0: "?r access_init" by (rule reach_init) simp
  have 1: "?r ?s1" by (rule reach_step [OF 0 access_step.ask]) (simp add: access_init_def)
  have 2: "?r ?s2" by (rule reach_step [OF 1 access_step.wait]) (simp_all add: access_init_def access_sections)
  have 3: "?r ?s3" by (rule reach_step [OF 2 access_step.start [where t = 1]]) (simp_all add: access_init_def access_sections)
  have 4: "?r sample_reads" unfolding sample_reads_def
    by (rule reach_step [OF 3 access_step.answered]) (simp_all add: access_init_def access_sections)
  have "(1, 0) \<in> set (ac_asked sample_reads)" "0 \<in> fst ` set (ac_answers sample_reads)"
    by (simp_all add: sample_reads_def access_init_def access_sections)
  with shared_read_fresh [OF 4, of 1 0] show ?thesis by blast
qed

text \<open>However often the subscriptions of one client ask, their attempts get slots at least the
  spacing apart, each no earlier than its request.\<close>

theorem attempts_paced:
  assumes "0 \<le> rs_attemptSpacing timing"
  shows "sorted_wrt (\<lambda>x y. x + rs_attemptSpacing timing \<le> y) (attempt_slots timing at nows)
    \<and> (\<forall>k < length nows. nows ! k \<le> attempt_slots timing at nows ! k)"
  using attempt_slots_spaced [OF assms] attempt_slots_later by blast

theorem attempts_paced_witness:
  "sorted_wrt (\<lambda>x y. x + 200000000 \<le> y) (attempt_slots defaultResubscribeTiming 0 [5, 6, 7])"
proof -
  have "rs_attemptSpacing defaultResubscribeTiming = 200000000" by (simp add: defaultResubscribeTiming_def)
  with attempts_paced [of defaultResubscribeTiming 0 "[5, 6, 7]"] show ?thesis by simp
qed

end
