(* ===== verification/ChannelClient.thy ===== *)
theory ChannelClient
  imports GoText Renewal SubaccountAccess Subscriptions
begin

text \<open>
  The channel client of \<open>realtime/client.go\<close>: what a client keeps of its subscriptions, the
  handshake of one connection, the loop that serves it (\<open>runSubscriptionOnce\<close>) and the worker of a
  subscription, which connects again or ends it (\<open>subscribeProto\<close>). What the socket, the token
  endpoints, the clock, the decoder of a channel and the consumer do are arguments.
\<close>

section \<open>The client\<close>

definition trim_right_char :: "char \<Rightarrow> string \<Rightarrow> string" where
  "trim_right_char c s = rev (dropWhile (\<lambda>x. x = c) (rev s))"

definition normalizeWSURL :: "string \<Rightarrow> string" where
  "normalizeWSURL wsURL = (let url = trim_right_char CHR ''/'' wsURL in
     if has_suffix url ''/connection/websocket'' then url else url @ ''/connection/websocket'')"

definition isPrivateChannel :: "string \<Rightarrow> bool" where
  "isPrivateChannel channel \<longleftrightarrow> take 8 channel = ''private:''"

text \<open>\<open>cl_subs\<close> lists the close functions tracked, \<open>None\<close> for one replaced by a function that does
  nothing; \<open>cl_closeRun\<close> lists the subscriptions that \<open>Close\<close> closed.\<close>

record realtime_client =
  cl_subs :: "nat option list"
  cl_closed :: bool
  cl_closeRun :: "nat list"

definition newClient :: realtime_client where
  "newClient = \<lparr>cl_subs = [], cl_closed = False, cl_closeRun = []\<rparr>"

definition client_Close :: "realtime_client \<Rightarrow> realtime_client" where
  "client_Close c = c\<lparr>cl_closed := True, cl_subs := [],
     cl_closeRun := cl_closeRun c @ map the (filter (\<lambda>e. e \<noteq> None) (cl_subs c))\<rparr>"

text \<open>\<open>trackSubscriptionLocked\<close>; the index is what \<open>untrack\<close> captured.\<close>

definition trackSubscription :: "nat \<Rightarrow> realtime_client \<Rightarrow> nat \<times> realtime_client" where
  "trackSubscription sub c = (length (cl_subs c), c\<lparr>cl_subs := cl_subs c @ [Some sub]\<rparr>)"

definition untrack :: "nat \<Rightarrow> realtime_client \<Rightarrow> realtime_client" where
  "untrack idx c = (if idx < length (cl_subs c) then c\<lparr>cl_subs := (cl_subs c)[idx := None]\<rparr> else c)"

definition ErrClientClosed :: sdk_error where
  "ErrClientClosed = RealtimeError ''Realtime client is closed''"

text \<open>\<open>subscribeProto\<close> up to its goroutine.\<close>

definition subscribe_start ::
  "bool \<Rightarrow> bool \<Rightarrow> string \<Rightarrow> nat \<Rightarrow> realtime_client \<Rightarrow> nat res \<times> realtime_client" where
  "subscribe_start hasCredentials hasApiURL channel sub c =
     (if isPrivateChannel channel \<and> \<not> hasCredentials
      then (Inl (AuthError (''Cannot subscribe to private channel \"'' @ channel @ ''\" without API-key credentials'')), c)
      else if isPrivateChannel channel \<and> \<not> hasApiURL
      then (Inl (RealtimeError ''Realtime private channels require api_url''), c)
      else if cl_closed c then (Inl ErrClientClosed, c)
      else let (idx, c') = trackSubscription sub c in (Inr idx, c'))"

section \<open>The handshake\<close>

text \<open>A read of the socket: it failed with a text (and whether the message was too big), or it
  gave a text or a binary message.\<close>

datatype ws_read = ReadFailed string bool | TextMessage | BinaryMessage "byte list"

text \<open>\<open>pong k\<close> is the error of writing the k-th pong, if it fails.\<close>

fun reply_messages ::
  "u32 \<Rightarrow> (nat \<Rightarrow> string option) \<Rightarrow> incoming_message list
    \<Rightarrow> incoming_message list \<times> nat \<times> incoming_message option
    \<Rightarrow> (incoming_message list \<times> nat \<times> incoming_message option) res" where
  "reply_messages expected pong [] st = Inr st"
| "reply_messages expected pong (m # ms) (pending, pongs, matched) =
     (if im_kind m = IncomingPing
      then (case pong pongs of Some e \<Rightarrow> Inl (RealtimeError e)
             | None \<Rightarrow> reply_messages expected pong ms (pending, Suc pongs, matched))
      else if im_kind m = IncomingReply \<and> im_id m = expected
      then (case im_err m of Some e \<Rightarrow> Inl (centrifugoProtocolError e)
             | None \<Rightarrow> reply_messages expected pong ms (pending, pongs, Some m))
      else if length pending \<ge> 200 then Inl (QueueOverflowError ''realtime setup buffer full'')
      else reply_messages expected pong ms (pending @ [m], pongs, matched))"

text \<open>\<open>readCentrifugoReply\<close> over what it reads; \<open>None\<close> while it still waits. With the reply come
  what is pending, the pongs written and the reads left.\<close>

fun readCentrifugoReply ::
  "u32 \<Rightarrow> (nat \<Rightarrow> string option) \<Rightarrow> incoming_message list \<Rightarrow> nat \<Rightarrow> ws_read list
    \<Rightarrow> (incoming_message \<times> incoming_message list \<times> nat \<times> ws_read list) res option" where
  "readCentrifugoReply expected pong pending pongs [] = None"
| "readCentrifugoReply expected pong pending pongs (r # rs) = (case r of
       ReadFailed text tooBig \<Rightarrow> Some (Inl (RealtimeError text))
     | TextMessage \<Rightarrow> Some (Inl (RealtimeError ''received JSON text reply on protobuf websocket''))
     | BinaryMessage raw \<Rightarrow>
         (case decodeReplies raw of
            Inl err \<Rightarrow> Some (Inl (RealtimeError (error_text err)))
          | Inr incoming \<Rightarrow>
              (case reply_messages expected pong incoming (pending, pongs, None) of
                 Inl err \<Rightarrow> Some (Inl err)
               | Inr (pending', pongs', Some reply) \<Rightarrow> Some (Inr (reply, pending', pongs', rs))
               | Inr (pending', pongs', None) \<Rightarrow> readCentrifugoReply expected pong pending' pongs' rs)))"

definition is_answer :: "u32 \<Rightarrow> incoming_message \<Rightarrow> bool" where
  "is_answer expected m \<longleftrightarrow> im_kind m = IncomingReply \<and> im_id m = expected"

definition held_back :: "u32 \<Rightarrow> incoming_message list \<Rightarrow> incoming_message list" where
  "held_back expected ms = filter (\<lambda>m. im_kind m \<noteq> IncomingPing \<and> \<not> is_answer expected m) ms"

lemma reply_messages_Inr:
  "reply_messages expected pong ms (pending, pongs, matched) = Inr (pending', pongs', matched') \<Longrightarrow>
    length pending \<le> 200 \<Longrightarrow>
    pending' = pending @ held_back expected ms \<and> length pending' \<le> 200
    \<and> pongs' = pongs + length (filter (\<lambda>m. im_kind m = IncomingPing) ms)
    \<and> (\<forall>m \<in> set ms. is_answer expected m \<longrightarrow> im_err m = None)
    \<and> matched' = (case filter (is_answer expected) ms of [] \<Rightarrow> matched | _ \<Rightarrow> Some (last (filter (is_answer expected) ms)))"
proof (induction ms arbitrary: pending pongs matched)
  case (Cons m ms)
  show ?case
  proof (cases "im_kind m = IncomingPing")
    case True
    with Cons.prems have "reply_messages expected pong ms (pending, Suc pongs, matched) = Inr (pending', pongs', matched')"
      by (auto split: option.splits)
    moreover from True have "\<not> is_answer expected m" by (simp add: is_answer_def)
    ultimately show ?thesis using Cons.IH [of pending "Suc pongs" matched] Cons.prems(2) True
      by (auto simp: held_back_def cong: list.case_cong)
  next
    case False
    show ?thesis
    proof (cases "is_answer expected m")
      case True
      with False Cons.prems have e: "im_err m = None"
        and "reply_messages expected pong ms (pending, pongs, Some m) = Inr (pending', pongs', matched')"
        by (auto simp: is_answer_def split: option.splits)
      from Cons.IH [OF this(2) Cons.prems(2)] True False e show ?thesis
        by (auto simp: held_back_def split: list.splits)
    next
      case other: False
      with False Cons.prems have "reply_messages expected pong ms (pending @ [m], pongs, matched) = Inr (pending', pongs', matched')"
        and "length (pending @ [m]) \<le> 200"
        by (auto simp: is_answer_def split: option.splits if_splits)
      from Cons.IH [OF this] other False show ?thesis by (auto simp: held_back_def cong: list.case_cong)
    qed
  qed
qed (simp add: held_back_def)

text \<open>The messages of a list of frames that decode.\<close>

definition frames_messages :: "byte list list \<Rightarrow> incoming_message list" where
  "frames_messages frames = concat (map (\<lambda>raw. case decodeReplies raw of Inl _ \<Rightarrow> [] | Inr ms \<Rightarrow> ms) frames)"

lemma readCentrifugoReply_Inr:
  "readCentrifugoReply expected pong pending pongs reads = Some (Inr (reply, pending', pongs', rest)) \<Longrightarrow>
    length pending \<le> 200 \<Longrightarrow>
    \<exists>frames. reads = map BinaryMessage frames @ rest \<and> pending' = pending @ held_back expected (frames_messages frames)
      \<and> length pending' \<le> 200 \<and> is_answer expected reply \<and> im_err reply = None \<and> reply \<in> set (frames_messages frames)"
proof (induction reads arbitrary: pending pongs)
  case (Cons r rs)
  then obtain raw incoming where r: "r = BinaryMessage raw" "decodeReplies raw = Inr incoming"
    by (auto split: ws_read.splits sum.splits)
  with Cons.prems obtain p1 n1 m1 where
    m: "reply_messages expected pong incoming (pending, pongs, None) = Inr (p1, n1, m1)"
    by (auto split: sum.splits)
  note i = reply_messages_Inr [OF m Cons.prems(2)]
  show ?case
  proof (cases m1)
    case None
    with Cons.prems r m have "readCentrifugoReply expected pong p1 n1 rs = Some (Inr (reply, pending', pongs', rest))" by simp
    from Cons.IH [OF this] i obtain frames where
      "rs = map BinaryMessage frames @ rest" "pending' = p1 @ held_back expected (frames_messages frames)"
      "length pending' \<le> 200" "is_answer expected reply" "im_err reply = None" "reply \<in> set (frames_messages frames)" by auto
    with r i show ?thesis
      by (intro exI [of _ "raw # frames"]) (simp add: frames_messages_def held_back_def)
  next
    case (Some m')
    with Cons.prems r m have e: "reply = m'" "pending' = p1" "rest = rs" by simp_all
    from i Some have f: "filter (is_answer expected) incoming \<noteq> []" "m' = last (filter (is_answer expected) incoming)"
      by (auto split: list.splits)
    then have "m' \<in> set (filter (is_answer expected) incoming)" by (metis last_in_set)
    with e r i show ?thesis
      by (intro exI [of _ "[raw]"]) (auto simp: frames_messages_def)
  qed
qed simp

section \<open>Serving a connection\<close>

text \<open>
  The environment of one connection of a subscription: the channel, its decoder, how an update of
  the sub-accounts channel decodes, the errors of writing pongs, how many items the consumer takes
  before the k-th item is queued, and the clock. \<open>cn_accepted\<close> lists every item queued.
\<close>

record 'a connection_env =
  ce_channel :: string
  ce_decode :: "byte list \<Rightarrow> 'a list res"
  ce_update :: "byte list \<Rightarrow> (u64 \<times> bool) option"
  ce_pong :: "nat \<Rightarrow> string option"
  ce_takes :: "nat \<Rightarrow> nat"
  ce_now :: "nat \<Rightarrow> int"

record 'a connection =
  cn_sub :: "'a rt_subscription"
  cn_renewer :: "renewer option"
  cn_removed :: "u64 set"
  cn_pongs :: nat
  cn_handled :: nat
  cn_accepted :: "'a list"

text \<open>What a turn returns: nothing (the loop goes on) or the error \<open>runSubscriptionOnce\<close> returns,
  \<open>Some None\<close> for \<open>ctx.Err()\<close>, which may be \<open>nil\<close>.\<close>

type_synonym returned = "sdk_error option option"

definition subaccountsChannelPrefix :: string where
  "subaccountsChannelPrefix = ''private:auth:subaccounts:''"

definition consumer_takes :: "nat \<Rightarrow> 'a rt_subscription \<Rightarrow> 'a rt_subscription" where
  "consumer_takes n s = ((\<lambda>q. fst (rt_receive q)) ^^ n) s"

fun enqueue_items :: "'a connection_env \<Rightarrow> 'a list \<Rightarrow> 'a connection \<Rightarrow> 'a connection \<times> returned" where
  "enqueue_items env [] c = (c, None)"
| "enqueue_items env (x # xs) c =
     (let (sub, queued) = rt_enqueue (consumer_takes (ce_takes env (length (cn_accepted c))) (cn_sub c)) x
      in if queued then enqueue_items env xs (c\<lparr>cn_sub := sub, cn_accepted := cn_accepted c @ [x]\<rparr>)
         else (c\<lparr>cn_sub := sub\<rparr>, Some (rt_err sub)))"

definition realtime_reply :: "'a connection_env \<Rightarrow> incoming_message \<Rightarrow> 'a connection \<Rightarrow> 'a connection \<times> returned" where
  "realtime_reply env m c =
     (let (taken, r) = (case cn_renewer c of
              None \<Rightarrow> (False, None)
            | Some s \<Rightarrow> (let (t, s') = handleReply (ce_now env (cn_handled c)) m s in (t, Some s')));
          c1 = c\<lparr>cn_renewer := r\<rparr>
      in if taken then (c1, None)
         else case im_err m of None \<Rightarrow> (c1, None) | Some e \<Rightarrow> (c1, Some (Some (centrifugoProtocolError e))))"

definition on_message :: "'a connection_env \<Rightarrow> incoming_message \<Rightarrow> 'a connection \<Rightarrow> 'a connection \<times> returned" where
  "on_message env m c0 =
     (let c = c0\<lparr>cn_handled := cn_handled c0 + 1\<rparr>
      in case im_kind m of
           IncomingPing \<Rightarrow> (case ce_pong env (cn_pongs c) of
               Some e \<Rightarrow> (c, Some (Some (RealtimeError e)))
             | None \<Rightarrow> (c\<lparr>cn_pongs := cn_pongs c + 1\<rparr>, None))
         | IncomingPublication \<Rightarrow>
             (let c1 = (if take (length subaccountsChannelPrefix) (ce_channel env) = subaccountsChannelPrefix
                        then c\<lparr>cn_removed := noteUpdate (ce_update env (im_data m)) (cn_removed c)\<rparr> else c)
              in case ce_decode env (im_data m) of
                   Inl err \<Rightarrow> (c1, Some (Some (TerminalError (RealtimeError (''invalid realtime publication: '' @ error_text err)))))
                 | Inr items \<Rightarrow> enqueue_items env items c1)
         | IncomingUnsubscribe \<Rightarrow>
             if im_channel m = [] \<or> im_channel m = ce_channel env
             then (c, Some (Some (ServerUnsubscribedError (im_code m) (im_reason m)))) else (c, None)
         | IncomingReply \<Rightarrow> realtime_reply env m c)"

fun on_messages :: "'a connection_env \<Rightarrow> incoming_message list \<Rightarrow> 'a connection \<Rightarrow> 'a connection \<times> returned" where
  "on_messages env [] c = (c, None)"
| "on_messages env (m # ms) c = (case on_message env m c of
       (c', None) \<Rightarrow> on_messages env ms c'
     | (c', Some r) \<Rightarrow> (c', Some r))"

text \<open>The loop over what it reads; \<open>None\<close> stands for a turn that finds the context ended.\<close>

fun serve :: "'a connection_env \<Rightarrow> ws_read option list \<Rightarrow> 'a connection \<Rightarrow> 'a connection \<times> returned" where
  "serve env [] c = (c, None)"
| "serve env (r # rs) c = (case r of
       None \<Rightarrow> (c, Some None)
     | Some (ReadFailed text tooBig) \<Rightarrow>
         (c, Some (Some (if tooBig then TerminalError (RealtimeError (''realtime message exceeds '' @ itoa (int MaxRealtimeMessageBytes) @ '' bytes''))
                         else RealtimeError text)))
     | Some TextMessage \<Rightarrow> (c, Some (Some (TerminalError (RealtimeError ''received JSON text frame on protobuf websocket''))))
     | Some (BinaryMessage raw) \<Rightarrow>
         (case decodeReplies raw of
            Inl err \<Rightarrow> (c, Some (Some (TerminalError (RealtimeError (''invalid realtime protobuf frame: '' @ error_text err)))))
          | Inr incoming \<Rightarrow>
              (case on_messages env incoming c of
                 (c', None) \<Rightarrow> serve env rs c'
               | (c', Some e) \<Rightarrow> (c', Some e))))"

text \<open>
  One run of a connection. \<open>hs_dial\<close> is the failure of the dial; the tokens are the answers of
  the token endpoints (of a private channel); the reads are those of the two replies. The result
  before the loop: the error, or the replies, when each came, and what is pending.
\<close>

record handshake =
  hs_dial :: "string option"
  hs_subprotocol :: bool
  hs_connToken :: "string res"
  hs_connectWrite :: "string option"
  hs_connectedAt :: int
  hs_subToken :: "string res"
  hs_subscribeWrite :: "string option"
  hs_subscribedAt :: int
  hs_reads :: "ws_read list"

definition centrifugo_exchange ::
  "string option \<Rightarrow> u32 \<Rightarrow> (nat \<Rightarrow> string option) \<Rightarrow> incoming_message list \<Rightarrow> nat \<Rightarrow> ws_read list
    \<Rightarrow> (incoming_message \<times> incoming_message list \<times> nat \<times> ws_read list) res option" where
  "centrifugo_exchange write i pong pending pongs reads = (case write of
       Some e \<Rightarrow> Some (Inl (RealtimeError e))
     | None \<Rightarrow> readCentrifugoReply i pong pending pongs reads)"

text \<open>Sequencing of what may fail and of what may still wait.\<close>

definition bind_wait :: "'x res option \<Rightarrow> ('x \<Rightarrow> 'y res option) \<Rightarrow> 'y res option" where
  "bind_wait r f = (case r of None \<Rightarrow> None | Some (Inl e) \<Rightarrow> Some (Inl e) | Some (Inr x) \<Rightarrow> f x)"

lemma bind_wait_Inr_iff:
  "bind_wait r f = Some (Inr y) \<longleftrightarrow> (\<exists>x. r = Some (Inr x) \<and> f x = Some (Inr y))"
  by (auto simp: bind_wait_def split: option.splits sum.splits)

definition run_handshake ::
  "'a connection_env \<Rightarrow> handshake
    \<Rightarrow> (incoming_message \<times> incoming_message \<times> incoming_message list \<times> nat \<times> ws_read list) res option" where
  "run_handshake env hs =
     (case hs_dial hs of
        Some e \<Rightarrow> Some (Inl (RealtimeError e))
      | None \<Rightarrow>
          if \<not> hs_subprotocol hs
          then Some (Inl (RealtimeError ''server did not negotiate centrifuge-protobuf websocket subprotocol''))
          else bind_wait (Some (if isPrivateChannel (ce_channel env) then hs_connToken hs else Inr [])) (\<lambda>token.
               bind_wait (centrifugo_exchange (hs_connectWrite hs) 1 (ce_pong env) [] 0 (hs_reads hs))
                 (\<lambda>(connected, pending, pongs, reads).
               bind_wait (Some (if isPrivateChannel (ce_channel env) then hs_subToken hs else Inr [])) (\<lambda>subToken.
               bind_wait (centrifugo_exchange (hs_subscribeWrite hs) 2 (ce_pong env) pending pongs reads)
                 (\<lambda>(subscribed, pending', pongs', reads').
               Some (Inr (connected, subscribed, pending', pongs', reads')))))))"

definition start_renewer ::
  "'a connection_env \<Rightarrow> handshake \<Rightarrow> int \<Rightarrow> incoming_message \<Rightarrow> incoming_message \<Rightarrow> renewer option" where
  "start_renewer env hs unit connected subscribed =
     (if isPrivateChannel (ce_channel env)
      then Some (renewal_schedule RenewSubscription (hs_subscribedAt hs) (hs_subscribedAt hs) (im_expires subscribed) (im_ttl subscribed)
            (renewal_schedule RenewConnection (hs_connectedAt hs) (hs_subscribedAt hs) (im_expires connected) (im_ttl connected)
              (newTokenRenewer (ce_channel env) unit 3)))
      else None)"

text \<open>\<open>runSubscriptionOnce\<close>: the loop first takes what is pending, unless the context has ended.\<close>

definition runSubscriptionOnce ::
  "'a connection_env \<Rightarrow> handshake \<Rightarrow> int \<Rightarrow> bool \<Rightarrow> ws_read option list \<Rightarrow> 'a rt_subscription \<Rightarrow> u64 set
    \<Rightarrow> ('a connection \<times> returned) res option" where
  "runSubscriptionOnce env hs unit ctxEnded reads sub removed =
     bind_wait (run_handshake env hs) (\<lambda>(connected, subscribed, pending, pongs, rest).
       let c = \<lparr>cn_sub = sub, cn_renewer = start_renewer env hs unit connected subscribed, cn_removed = removed,
                cn_pongs = pongs, cn_handled = 0, cn_accepted = []\<rparr>
       in Some (Inr (if ctxEnded then (c, Some None)
            else case on_messages env pending c of
                (c', None) \<Rightarrow> serve env (map Some rest @ reads) c'
              | (c', Some r) \<Rightarrow> (c', Some r))))"

section \<open>What is delivered\<close>

text \<open>The items of the publications among messages, in order.\<close>

definition published :: "'a connection_env \<Rightarrow> incoming_message list \<Rightarrow> 'a list" where
  "published env ms = concat (map (\<lambda>m. if im_kind m = IncomingPublication
     then (case ce_decode env (im_data m) of Inl _ \<Rightarrow> [] | Inr items \<Rightarrow> items) else []) ms)"

lemma enqueue_items_accepted:
  "enqueue_items env items c = (c', r) \<Longrightarrow>
    \<exists>k. cn_accepted c' = cn_accepted c @ take k items \<and> (r = None \<longrightarrow> length items \<le> k)"
proof (induction items arbitrary: c)
  case (Cons x xs)
  obtain sub queued where q: "rt_enqueue (consumer_takes (ce_takes env (length (cn_accepted c))) (cn_sub c)) x = (sub, queued)"
    by fastforce
  show ?case
  proof (cases queued)
    case True
    with Cons.prems q have "enqueue_items env xs (c\<lparr>cn_sub := sub, cn_accepted := cn_accepted c @ [x]\<rparr>) = (c', r)" by simp
    from Cons.IH [OF this] obtain k where "cn_accepted c' = (cn_accepted c @ [x]) @ take k xs"
      "r = None \<longrightarrow> length xs \<le> k" by auto
    then show ?thesis by (intro exI [of _ "Suc k"]) simp
  next
    case False
    with Cons.prems q show ?thesis by (intro exI [of _ 0]) auto
  qed
qed auto

lemma on_message_accepted:
  assumes "on_message env m c = (c', r)"
  shows "\<exists>k. cn_accepted c' = cn_accepted c @ take k (published env [m])
    \<and> (r = None \<longrightarrow> length (published env [m]) \<le> k)"
proof (cases "im_kind m = IncomingPublication \<and> (\<exists>items. ce_decode env (im_data m) = Inr items)")
  case True
  then obtain items where i: "im_kind m = IncomingPublication" "ce_decode env (im_data m) = Inr items" by blast
  from i assms obtain c1 where "enqueue_items env items c1 = (c', r)" "cn_accepted c1 = cn_accepted c"
    by (auto simp: on_message_def Let_def split: if_splits)
  with enqueue_items_accepted [of env items c1 c' r] i show ?thesis by (simp add: published_def)
next
  case False
  with assms have "cn_accepted c' = cn_accepted c"
    by (auto simp: on_message_def realtime_reply_def Let_def split: incoming_kind.splits option.splits if_splits sum.splits prod.splits)
  moreover from False have "published env [m] = []" by (auto simp: published_def split: sum.splits)
  ultimately show ?thesis by simp
qed

lemma published_Cons: "published env (m # ms) = published env [m] @ published env ms"
  by (simp add: published_def)

lemma published_append: "published env (ms @ ns) = published env ms @ published env ns"
  by (simp add: published_def)

lemma on_messages_accepted:
  "on_messages env ms c = (c', r) \<Longrightarrow>
    \<exists>k. cn_accepted c' = cn_accepted c @ take k (published env ms) \<and> (r = None \<longrightarrow> length (published env ms) \<le> k)"
proof (induction ms arbitrary: c)
  case (Cons m ms)
  obtain c1 r1 where m: "on_message env m c = (c1, r1)" by fastforce
  from on_message_accepted [OF m] obtain k where
    k: "cn_accepted c1 = cn_accepted c @ take k (published env [m])" "r1 = None \<longrightarrow> length (published env [m]) \<le> k" by blast
  show ?case
  proof (cases r1)
    case None
    with Cons.prems m have "on_messages env ms c1 = (c', r)" by simp
    from Cons.IH [OF this] obtain j where
      j: "cn_accepted c' = cn_accepted c1 @ take j (published env ms)" "r = None \<longrightarrow> length (published env ms) \<le> j" by blast
    with k None show ?thesis
      by (intro exI [of _ "length (published env [m]) + j"]) (simp add: published_Cons [of env m ms])
  next
    case (Some e)
    with Cons.prems m have "c' = c1" "r = Some e" by simp_all
    with k show ?thesis
      by (intro exI [of _ "min k (length (published env [m]))"]) (simp add: published_Cons [of env m ms] min_def)
  qed
qed (simp add: published_def)

text \<open>The messages of the frames among reads.\<close>

definition received :: "ws_read option list \<Rightarrow> incoming_message list" where
  "received reads = frames_messages (concat (map (\<lambda>r. case r of Some (BinaryMessage raw) \<Rightarrow> [raw] | _ \<Rightarrow> []) reads))"

lemma frames_messages_append: "frames_messages (xs @ ys) = frames_messages xs @ frames_messages ys"
  by (simp add: frames_messages_def)

lemma received_simps:
  "received [] = []"
  "received (r # rs) = received [r] @ received rs"
  "decodeReplies raw = Inr ms \<Longrightarrow> received [Some (BinaryMessage raw)] = ms"
  "received (map Some (map BinaryMessage frames @ rest)) = frames_messages frames @ received (map Some rest)"
  by (simp_all add: received_def frames_messages_append frames_messages_def comp_def)

lemma received_append: "received (xs @ ys) = received xs @ received ys"
  by (simp add: received_def frames_messages_append)

lemma serve_accepted:
  "serve env rs c = (c', r) \<Longrightarrow>
    \<exists>k. cn_accepted c' = cn_accepted c @ take k (published env (received rs))
      \<and> (r = None \<longrightarrow> length (published env (received rs)) \<le> k)"
proof (induction rs arbitrary: c)
  case (Cons x xs)
  show ?case
  proof (cases "\<exists>raw ms. x = Some (BinaryMessage raw) \<and> decodeReplies raw = Inr ms")
    case True
    then obtain raw ms where x: "x = Some (BinaryMessage raw)" "decodeReplies raw = Inr ms" by blast
    obtain c1 r1 where m: "on_messages env ms c = (c1, r1)" by fastforce
    from x have rec: "published env (received (x # xs)) = published env ms @ published env (received xs)"
      unfolding received_simps(2) [of x xs] by (simp add: received_simps(3) published_append)
    from on_messages_accepted [OF m] obtain k where
      k: "cn_accepted c1 = cn_accepted c @ take k (published env ms)" "r1 = None \<longrightarrow> length (published env ms) \<le> k" by blast
    show ?thesis
    proof (cases r1)
      case None
      with Cons.prems x m have "serve env xs c1 = (c', r)" by simp
      from Cons.IH [OF this] obtain j where
        "cn_accepted c' = cn_accepted c1 @ take j (published env (received xs))"
        "r = None \<longrightarrow> length (published env (received xs)) \<le> j" by blast
      with k None show ?thesis
        by (intro exI [of _ "length (published env ms) + j"]) (simp add: rec)
    next
      case (Some e)
      with Cons.prems x m have "c' = c1" "r = Some e" by simp_all
      with k show ?thesis
        by (intro exI [of _ "min k (length (published env ms))"]) (simp add: rec min_def)
    qed
  next
    case False
    with Cons.prems have "c' = c" "r \<noteq> None"
      by (auto split: option.splits ws_read.splits sum.splits)
    then show ?thesis by (intro exI [of _ 0]) auto
  qed
qed (simp add: received_simps published_def)

text \<open>What a handshake sets aside carries no item.\<close>

lemma published_held_back: "published env (held_back i ms) = published env ms"
  by (induction ms) (auto simp: held_back_def published_def is_answer_def)

lemma run_handshake_pending:
  assumes "run_handshake env hs = Some (Inr (connected, subscribed, pending, pongs, rest))"
  shows "\<exists>frames. hs_reads hs = map BinaryMessage frames @ rest
    \<and> published env pending = published env (frames_messages frames) \<and> length pending \<le> 200"
proof -
  from assms obtain p1 n1 reads1 where
    a: "readCentrifugoReply 1 (ce_pong env) [] 0 (hs_reads hs) = Some (Inr (connected, p1, n1, reads1))" and
    b: "readCentrifugoReply 2 (ce_pong env) p1 n1 reads1 = Some (Inr (subscribed, pending, pongs, rest))"
    by (auto simp: run_handshake_def bind_wait_Inr_iff centrifugo_exchange_def split: option.splits if_splits)
  from readCentrifugoReply_Inr [OF a] obtain f1 where
    f1: "hs_reads hs = map BinaryMessage f1 @ reads1" "p1 = held_back 1 (frames_messages f1)" "length p1 \<le> 200" by auto
  from readCentrifugoReply_Inr [OF b f1(3)] obtain f2 where
    f2: "reads1 = map BinaryMessage f2 @ rest" "pending = p1 @ held_back 2 (frames_messages f2)" "length pending \<le> 200" by auto
  have "published env pending = published env (frames_messages (f1 @ f2))"
    by (simp add: f1(2) f2(2) published_append published_held_back frames_messages_append)
  with f1(1) f2(1,3) show ?thesis by (intro exI [of _ "f1 @ f2"]) simp
qed

section \<open>What an end without error means\<close>

lemma enqueue_items_nil:
  "enqueue_items env items c = (c', Some None) \<Longrightarrow> rt_closed (cn_sub c') \<and> rt_err (cn_sub c') = None"
proof (induction items arbitrary: c)
  case (Cons x xs)
  obtain sub queued where q: "rt_enqueue (consumer_takes (ce_takes env (length (cn_accepted c))) (cn_sub c)) x = (sub, queued)"
    by fastforce
  show ?case
  proof (cases queued)
    case True
    with Cons.prems q Cons.IH show ?thesis by simp
  next
    case False
    with q have "rt_closed sub" by (auto simp: rt_defs split: if_splits option.splits)
    with False Cons.prems q show ?thesis by auto
  qed
qed simp

lemma on_messages_nil:
  "on_messages env ms c = (c', Some None) \<Longrightarrow> rt_closed (cn_sub c') \<and> rt_err (cn_sub c') = None"
proof (induction ms arbitrary: c)
  case (Cons m ms)
  obtain c1 r1 where m: "on_message env m c = (c1, r1)" by fastforce
  show ?case
  proof (cases r1)
    case None
    with Cons.prems m Cons.IH [of c1] show ?thesis by simp
  next
    case (Some e)
    with Cons.prems m have "on_message env m c = (c', Some None)" by simp
    then obtain items d where "enqueue_items env items d = (c', Some None)"
      by (auto simp: on_message_def realtime_reply_def Let_def
          split: incoming_kind.splits option.splits if_splits sum.splits prod.splits)
    then show ?thesis by (rule enqueue_items_nil)
  qed
qed simp

lemma serve_nil:
  "serve env rs c = (c', Some None) \<Longrightarrow> None \<in> set rs \<or> (rt_closed (cn_sub c') \<and> rt_err (cn_sub c') = None)"
proof (induction rs arbitrary: c)
  case (Cons r rs)
  show ?case
  proof (cases "\<exists>raw ms. r = Some (BinaryMessage raw) \<and> decodeReplies raw = Inr ms")
    case True
    then obtain raw ms where x: "r = Some (BinaryMessage raw)" "decodeReplies raw = Inr ms" by blast
    obtain c1 r1 where m: "on_messages env ms c = (c1, r1)" by fastforce
    show ?thesis
    proof (cases r1)
      case None
      with Cons.prems x m have "serve env rs c1 = (c', Some None)" by simp
      from Cons.IH [OF this] show ?thesis by auto
    next
      case (Some e)
      with Cons.prems x m have "on_messages env ms c = (c', Some None)" by simp
      then show ?thesis using on_messages_nil by blast
    qed
  next
    case False
    with Cons.prems show ?thesis by (auto split: option.splits ws_read.splits sum.splits)
  qed
qed simp

section \<open>Closing a client\<close>

text \<open>A run of a client: subscriptions that ask to be tracked, subscriptions that end, and \<open>Close\<close>.\<close>

datatype client_event = ClientSubscribe bool bool string nat | ClientUntrack nat | ClientClose

definition client_event :: "client_event \<Rightarrow> realtime_client \<Rightarrow> realtime_client" where
  "client_event e c = (case e of
       ClientSubscribe creds api channel sub \<Rightarrow> snd (subscribe_start creds api channel sub c)
     | ClientUntrack idx \<Rightarrow> untrack idx c
     | ClientClose \<Rightarrow> client_Close c)"

definition client_run :: "client_event list \<Rightarrow> realtime_client \<Rightarrow> realtime_client" where
  "client_run es c = fold client_event es c"

text \<open>The subscriptions that started and whose index was not let go later, from index \<open>n\<close> on.\<close>

definition starts_sub :: "client_event \<Rightarrow> nat option" where
  "starts_sub e = (case e of ClientSubscribe creds api channel sub \<Rightarrow>
       if isPrivateChannel channel \<and> \<not> (creds \<and> api) then None else Some sub
     | _ \<Rightarrow> None)"

fun open_subs :: "client_event list \<Rightarrow> nat option list \<Rightarrow> nat option list" where
  "open_subs [] subs = subs"
| "open_subs (e # es) subs = open_subs es (case starts_sub e of
       Some sub \<Rightarrow> subs @ [Some sub]
     | None \<Rightarrow> (case e of ClientUntrack idx \<Rightarrow> subs[idx := None] | _ \<Rightarrow> subs))"

lemma client_run_open:
  "ClientClose \<notin> set es \<Longrightarrow> \<not> cl_closed c \<Longrightarrow>
    client_run es c = c\<lparr>cl_subs := open_subs es (cl_subs c)\<rparr>"
proof (induction es arbitrary: c)
  case (Cons e es)
  have "client_event e c = c\<lparr>cl_subs := (case starts_sub e of Some sub \<Rightarrow> cl_subs c @ [Some sub]
      | None \<Rightarrow> (case e of ClientUntrack idx \<Rightarrow> (cl_subs c)[idx := None] | _ \<Rightarrow> cl_subs c))\<rparr>"
    using Cons.prems by (auto simp: client_event_def starts_sub_def subscribe_start_def trackSubscription_def untrack_def
        list_update_beyond split: client_event.splits)
  with Cons.IH [of "client_event e c"] Cons.prems show ?case by (simp add: client_run_def)
qed (simp add: client_run_def)

lemma client_closed_stays:
  "cl_closed c \<Longrightarrow> cl_subs c = [] \<Longrightarrow> cl_closed (client_event e c) \<and> cl_subs (client_event e c) = []
    \<and> cl_closeRun (client_event e c) = cl_closeRun c"
  by (auto simp: client_event_def subscribe_start_def client_Close_def untrack_def split: client_event.splits)

lemma client_run_closed:
  "cl_closed c \<Longrightarrow> cl_subs c = [] \<Longrightarrow> cl_closed (client_run es c) \<and> cl_subs (client_run es c) = []
    \<and> cl_closeRun (client_run es c) = cl_closeRun c"
  unfolding client_run_def by (induction es arbitrary: c) (simp_all add: client_closed_stays)

section \<open>Properties\<close>

text \<open>C21. What a connection queues for its consumer is, in order and once each, the items of the
  publications it received, those held back while the handshake still ran included; only a
  connection that ended may have left a tail of them out.\<close>

theorem connection_delivers:
  assumes "runSubscriptionOnce env hs unit ctxEnded reads sub removed = Some (Inr (c, r))"
  shows "\<exists>k. cn_accepted c = take k (published env (received (map Some (hs_reads hs) @ reads)))
    \<and> (r = None \<longrightarrow> cn_accepted c = published env (received (map Some (hs_reads hs) @ reads)))"
proof -
  from assms obtain connected subscribed pending pongs rest where
    h: "run_handshake env hs = Some (Inr (connected, subscribed, pending, pongs, rest))" and
    body: "(let c0 = \<lparr>cn_sub = sub, cn_renewer = start_renewer env hs unit connected subscribed, cn_removed = removed,
                cn_pongs = pongs, cn_handled = 0, cn_accepted = []\<rparr>
       in if ctxEnded then (c0, Some None)
            else case on_messages env pending c0 of
                (c', None) \<Rightarrow> serve env (map Some rest @ reads) c'
              | (c', Some r) \<Rightarrow> (c', Some r)) = (c, r)"
    unfolding runSubscriptionOnce_def bind_wait_Inr_iff by (auto simp: Let_def)
  define c0 where "c0 = \<lparr>cn_sub = sub, cn_renewer = start_renewer env hs unit connected subscribed, cn_removed = removed,
                cn_pongs = pongs, cn_handled = 0, cn_accepted = []\<rparr>"
  obtain c1 r1 where m: "on_messages env pending c0 = (c1, r1)" by fastforce
  from run_handshake_pending [OF h] obtain frames where
    f: "hs_reads hs = map BinaryMessage frames @ rest" "published env pending = published env (frames_messages frames)" by blast
  have all: "published env (received (map Some (hs_reads hs) @ reads))
      = published env pending @ published env (received (map Some rest @ reads))"
    unfolding received_append f(1) received_simps(4) by (simp add: f(2) published_append)
  from on_messages_accepted [OF m] have acc: "\<exists>k. cn_accepted c1 = take k (published env pending)
    \<and> (r1 = None \<longrightarrow> length (published env pending) \<le> k)" by (simp add: c0_def)
  consider "ctxEnded" | e where "\<not> ctxEnded" "r1 = Some e" | "\<not> ctxEnded" "r1 = None" by (cases r1) auto
  then show ?thesis
  proof cases
    case 1
    with body have "cn_accepted c = []" "r = Some None" by (auto simp: Let_def)
    then show ?thesis by (intro exI [of _ 0]) simp
  next
    case 2
    with body m have "c = c1" "r = Some e" by (simp_all add: c0_def Let_def)
    with acc obtain k where "cn_accepted c = take k (published env pending)" "r \<noteq> None" by auto
    then show ?thesis by (intro exI [of _ "min k (length (published env pending))"]) (auto simp: all min_def)
  next
    case 3
    with body m have s: "serve env (map Some rest @ reads) c1 = (c, r)" by (simp add: c0_def Let_def)
    from acc 3 have "cn_accepted c1 = published env pending" by auto
    with serve_accepted [OF s] obtain j where
      "cn_accepted c = published env pending @ take j (published env (received (map Some rest @ reads)))"
      "r = None \<longrightarrow> length (published env (received (map Some rest @ reads))) \<le> j" by auto
    then show ?thesis
      by (intro exI [of _ "length (published env pending) + j"]) (auto simp: all)
  qed
qed

text \<open>\<open>Close\<close> closes exactly the subscriptions that started and did not end before, in the order
  they started, whatever happens later closes no other, and a subscription asked for after it
  is refused.\<close>

theorem client_close_complete:
  assumes "ClientClose \<notin> set before" and "c = client_run (before @ ClientClose # later) newClient"
  shows "cl_closeRun c = map the (filter (\<lambda>e. e \<noteq> None) (open_subs before []))
    \<and> fst (subscribe_start True True channel sub c) = Inl ErrClientClosed"
proof -
  let ?open = "client_run before newClient"
  have o: "?open = newClient\<lparr>cl_subs := open_subs before []\<rparr>"
    using client_run_open [OF assms(1), of newClient] by (simp add: newClient_def)
  have run: "c = client_run later (client_Close ?open)"
    by (simp add: assms(2) client_run_def client_event_def)
  from client_run_closed [of "client_Close ?open" later, folded run] o show ?thesis
    by (simp add: subscribe_start_def client_Close_def newClient_def)
qed

theorem client_close_complete_witness:
  "cl_closeRun (client_run ([ClientSubscribe False False ''book'' 7, ClientSubscribe True True ''private:x'' 8,
      ClientUntrack 0, ClientSubscribe False True ''private:y'' 9] @ ClientClose # [ClientSubscribe True True ''book'' 3]) newClient) = [8]"
  using client_close_complete [OF _ refl, of "[ClientSubscribe False False ''book'' 7, ClientSubscribe True True ''private:x'' 8,
      ClientUntrack 0, ClientSubscribe False True ''private:y'' 9]" "[ClientSubscribe True True ''book'' 3]"]
  by (simp add: starts_sub_def isPrivateChannel_def)

text \<open>A server that sends a publication before it answers the subscription.\<close>

definition sample_env :: "byte connection_env" where
  "sample_env = \<lparr>ce_channel = ''book'', ce_decode = Inr, ce_update = \<lambda>_. None, ce_pong = \<lambda>_. None,
     ce_takes = \<lambda>_. 0, ce_now = \<lambda>_. 0\<rparr>"

definition sample_frame :: "server_message list \<Rightarrow> byte list" where
  "sample_frame ms = concat (map encode_record ms)"

definition sample_frames :: "server_message list list" where
  "sample_frames = [[ServerReply 1 None None, ServerPublication ''book'' [[7]]], [ServerPing, ServerReply 2 None None]]"

definition sample_live :: "server_message list" where
  "sample_live = [ServerPublication ''book'' [[8, 9], [10]]]"

definition sample_handshake :: handshake where
  "sample_handshake = \<lparr>hs_dial = None, hs_subprotocol = True, hs_connToken = Inr [], hs_connectWrite = None,
     hs_connectedAt = 0, hs_subToken = Inr [], hs_subscribeWrite = None, hs_subscribedAt = 0,
     hs_reads = map (BinaryMessage \<circ> sample_frame) sample_frames\<rparr>"

lemma sample_decoded:
  assumes "ms \<in> set (sample_live # sample_frames)"
  shows "decodeReplies (sample_frame ms) = Inr (concat (map seen_messages ms))"
proof -
  have "length (sample_frame ms) \<le> 100" using assms
    by (auto simp: sample_live_def sample_frames_def) (code_simp, code_simp, code_simp)
  moreover have "\<forall>m \<in> set ms. sendable m" using assms by (auto simp: sample_live_def sample_frames_def)
  ultimately show ?thesis
    using decodeReplies_encode [of ms] by (simp add: sample_frame_def MaxRealtimeMessageBytes_def)
qed

theorem connection_delivers_witness:
  "\<exists>c r. runSubscriptionOnce sample_env sample_handshake 1 False [Some (BinaryMessage (sample_frame sample_live))]
      (newSubscription 10) {} = Some (Inr (c, r)) \<and> cn_accepted c = [7, 8, 9, 10]"
proof -
  have d: "decodeReplies (sample_frame [ServerReply 1 None None, ServerPublication ''book'' [[7]]]) =
      Inr (concat (map seen_messages [ServerReply 1 None None, ServerPublication ''book'' [[7]]]))"
    "decodeReplies (sample_frame [ServerPing, ServerReply 2 None None]) =
      Inr (concat (map seen_messages [ServerPing, ServerReply 2 None None]))"
    "decodeReplies (sample_frame [ServerPublication ''book'' [[8, 9], [10]]]) =
      Inr (concat (map seen_messages [ServerPublication ''book'' [[8, 9], [10]]]))"
    by (rule sample_decoded, simp add: sample_frames_def sample_live_def)+
  have run: "\<exists>c. runSubscriptionOnce sample_env sample_handshake 1 False [Some (BinaryMessage (sample_frame sample_live))]
      (newSubscription 10) {} = Some (Inr (c, None))"
    by (simp add: d runSubscriptionOnce_def sample_handshake_def sample_frames_def sample_live_def run_handshake_def
        centrifugo_exchange_def bind_wait_def seen_messages_def message_of_def sample_env_def on_message_def isPrivateChannel_def
        newSubscription_def rt_enqueue_def consumer_takes_def subaccountsChannelPrefix_def Let_def)
  then obtain c where c: "runSubscriptionOnce sample_env sample_handshake 1 False
      [Some (BinaryMessage (sample_frame sample_live))] (newSubscription 10) {} = Some (Inr (c, None))" by blast
  have "published sample_env (received (map Some (hs_reads sample_handshake)
      @ [Some (BinaryMessage (sample_frame sample_live))])) = [7, 8, 9, 10]"
    by (simp add: received_def frames_messages_def sample_handshake_def sample_frames_def sample_live_def d
        published_def seen_messages_def message_of_def sample_env_def)
  with connection_delivers [OF c] c show ?thesis by auto
qed

end
