(* ===== verification/ChannelWorker.thy ===== *)
theory ChannelWorker
  imports ChannelClient
begin

text \<open>
  The worker of a channel subscription, the goroutine of \<open>subscribeProto\<close> (\<open>realtime/client.go\<close>):
  it connects, serves, and after every connection decides between another one, a wait for
  permission to resume, and the end. The steps are its turns, interleaved with what the consumer
  and the client do to the subscription.
\<close>

section \<open>State\<close>

text \<open>
  Where the worker is: at the head of its loop, in \<open>runSubscriptionOnce\<close> before and after
  \<open>onReady\<close>, in \<open>awaitResume\<close>, in its backoff, on its way out, and gone. \<open>wk_ready\<close> is what was
  sent to \<open>readyCh\<close>, \<open>wk_ctx\<close> that the caller's context ended. Three fields only record:
  \<open>wk_connected\<close> counts the handshakes, \<open>wk_resumed\<close> the times \<open>awaitResume\<close> let the worker connect on
  the budget it has, and \<open>wk_allowed\<close> that it did so after the last connection.
\<close>

datatype worker_phase = AtHead | Connecting | Serving | Resuming | Sleeping | Ending | Finished

record 'a channel_worker =
  wk_sub :: "'a rt_subscription"
  wk_phase :: worker_phase
  wk_ctx :: bool
  wk_ready :: "sdk_error option option"
  wk_handshakes :: u64
  wk_backoff :: reconnect_backoff
  wk_resume :: "resubscribe_attempt option"
  wk_connected :: nat
  wk_resumed :: nat
  wk_allowed :: bool

definition worker_start :: "int \<Rightarrow> 'a channel_worker" where
  "worker_start maxQueue = \<lparr>wk_sub = newSubscription maxQueue, wk_phase = AtHead, wk_ctx = False, wk_ready = None,
     wk_handshakes = 0, wk_backoff = \<lparr>rb_cap = 0, rb_initial = 0\<rparr>, wk_resume = None, wk_connected = 0,
     wk_resumed = 0, wk_allowed = False\<rparr>"

definition runCtx_ended :: "'a channel_worker \<Rightarrow> bool" where
  "runCtx_ended w \<longleftrightarrow> wk_ctx w \<or> rt_canceled (wk_sub w)"

definition sendReady :: "sdk_error option \<Rightarrow> 'a channel_worker \<Rightarrow> 'a channel_worker" where
  "sendReady err w = (case wk_ready w of None \<Rightarrow> w\<lparr>wk_ready := Some err\<rparr> | Some _ \<Rightarrow> w)"

definition worker_ending :: "'a channel_worker \<Rightarrow> 'a channel_worker" where
  "worker_ending w = w\<lparr>wk_phase := Ending\<rparr>"

definition worker_fail :: "sdk_error \<Rightarrow> 'a channel_worker \<Rightarrow> 'a channel_worker" where
  "worker_fail err w = worker_ending (w\<lparr>wk_sub := rt_fail err (wk_sub w)\<rparr>)"

section \<open>The turns\<close>

definition worker_begin :: "'a channel_worker \<Rightarrow> 'a channel_worker" where
  "worker_begin w = (if runCtx_ended w then worker_ending w else w\<lparr>wk_phase := Connecting\<rparr>)"

text \<open>The callback \<open>onReady\<close>.\<close>

definition worker_onReady :: "int \<Rightarrow> 'a channel_worker \<Rightarrow> 'a channel_worker" where
  "worker_onReady now w =
     (let n = wk_handshakes w + 1
      in sendReady None (w\<lparr>wk_backoff := backoff_reset (wk_backoff w), wk_handshakes := n,
           wk_sub := rt_noteHandshakeReady (n = 1) (wk_sub w),
           wk_resume := map_option (attempt_noteReady now) (wk_resume w),
           wk_connected := wk_connected w + 1, wk_phase := Serving\<rparr>))"

definition is_terminal :: "sdk_error \<Rightarrow> bool" where
  "is_terminal err \<longleftrightarrow> (case err of TerminalError _ \<Rightarrow> True | _ \<Rightarrow> False)"

definition server_ended :: "sdk_error \<Rightarrow> server_unsubscribed option" where
  "server_ended err = (case err of ServerUnsubscribedError c r \<Rightarrow>
       (let e = \<lparr>su_code = c, su_reason = r\<rparr> in if unsubscribed_temporary e then None else Some e)
     | _ \<Rightarrow> None)"

text \<open>From the check of a pending resume on; \<open>rnd\<close> is the random number of the backoff.\<close>

definition worker_retry :: "bool \<Rightarrow> string \<Rightarrow> u64 \<Rightarrow> sdk_error \<Rightarrow> 'a channel_worker \<Rightarrow> 'a channel_worker" where
  "worker_retry reconnect channel rnd err w =
     (let ordinary =
        (if wk_ready w = None then worker_ending (sendReady (Some err) w)
         else if \<not> reconnect then worker_fail err w
         else w\<lparr>wk_sub := rt_notifyError err (wk_sub w), wk_backoff := snd (backoff_next rnd (wk_backoff w)),
                wk_phase := Sleeping\<rparr>)
      in case wk_resume w of
           None \<Rightarrow> ordinary
         | Some a \<Rightarrow>
             if ra_ready a then ordinary
             else let a' = attempt_note err a; w' = w\<lparr>wk_resume := Some a'\<rparr>
                  in if as_auth err
                     then worker_fail (unsubscribed_stop (ra_ended a') channel SubscriptionEndTokenRefused (Some err)) w'
                     else w'\<lparr>wk_phase := Resuming\<rparr>)"

text \<open>What follows the return of \<open>runSubscriptionOnce\<close>.\<close>

definition worker_returned ::
  "resubscribe_timing \<Rightarrow> bool \<Rightarrow> string \<Rightarrow> int \<Rightarrow> u64 \<Rightarrow> sdk_error option \<Rightarrow> 'a channel_worker \<Rightarrow> 'a channel_worker" where
  "worker_returned timing reconnect channel now rnd r w0 =
     (let w = w0\<lparr>wk_allowed := False\<rparr>
      in case r of
           None \<Rightarrow> worker_ending w
         | Some err \<Rightarrow>
             if runCtx_ended w then worker_ending w
             else if rt_err (wk_sub w) \<noteq> None then worker_ending w
             else if is_terminal err then worker_fail err w
             else case server_ended err of
                 None \<Rightarrow> worker_retry reconnect channel rnd err w
               | Some ended \<Rightarrow>
                   if \<not> reconnect
                   then worker_fail (unsubscribed_stop ended channel SubscriptionEndNotResubscribable None) w
                   else let a = attemptAfter timing (wk_resume w) ended now
                        in worker_retry reconnect channel rnd err
                             (w\<lparr>wk_resume := Some a, wk_resumed := (if ra_attempts a = 0 then 0 else wk_resumed w)\<rparr>))"

text \<open>What follows \<open>awaitResume\<close>.\<close>

definition worker_resumed :: "resume_result \<times> resubscribe_attempt \<Rightarrow> 'a channel_worker \<Rightarrow> 'a channel_worker" where
  "worker_resumed result w = (case result of (r, a) \<Rightarrow>
     let w' = w\<lparr>wk_resume := Some a\<rparr> in
     (case r of
        Stop err \<Rightarrow> worker_fail err w'
      | ContextDone \<Rightarrow> w'\<lparr>wk_phase := AtHead\<rparr>
      | Subscribe \<Rightarrow> w'\<lparr>wk_phase := AtHead, wk_resumed := wk_resumed w + 1, wk_allowed := True\<rparr>))"

definition worker_slept :: "'a channel_worker \<Rightarrow> 'a channel_worker" where
  "worker_slept w = w\<lparr>wk_phase := AtHead\<rparr>"

text \<open>The deferred calls; the channel is closed last.\<close>

definition worker_finish :: "'a channel_worker \<Rightarrow> 'a channel_worker" where
  "worker_finish w = (let w1 = sendReady (Some (RealtimeError ''realtime subscription ended before handshake'')) w
     in w1\<lparr>wk_sub := rt_markFinished (wk_sub w1), wk_phase := Finished\<rparr>)"

text \<open>\<open>subscribeProto\<close> once it has its answer; a refused subscription is cancelled.\<close>

definition subscribe_result :: "'a channel_worker \<Rightarrow> 'a channel_worker" where
  "subscribe_result w = (case wk_ready w of
       Some (Some err) \<Rightarrow> w\<lparr>wk_sub := (wk_sub w)\<lparr>rt_canceled := True\<rparr>\<rparr>
     | _ \<Rightarrow> w)"

definition subscribe_abandoned :: "'a channel_worker \<Rightarrow> 'a channel_worker" where
  "subscribe_abandoned w = w\<lparr>wk_ctx := True, wk_sub := (wk_sub w)\<lparr>rt_canceled := True\<rparr>\<rparr>"

abbreviation on_sub :: "('a rt_subscription \<Rightarrow> 'a rt_subscription) \<Rightarrow> 'a channel_worker \<Rightarrow> 'a channel_worker" where
  "on_sub f w \<equiv> w\<lparr>wk_sub := f (wk_sub w)\<rparr>"

text \<open>
  \<open>returned\<close> is what \<open>runSubscriptionOnce\<close> can return: no error only once the context ended or the
  queue was closed without one (lemmas \<open>serve_nil\<close> and \<open>on_messages_nil\<close>), and the end by the
  server only from a connection that serves. \<open>awaitResume\<close> gives up without a reason only because
  the context ended.
\<close>

inductive worker_step ::
  "resubscribe_timing \<Rightarrow> (string \<Rightarrow> u64 res) \<Rightarrow> bool \<Rightarrow> bool \<Rightarrow> string \<Rightarrow> 'a channel_worker \<Rightarrow> 'a channel_worker \<Rightarrow> bool"
  for timing parse canSign reconnect channel where
  head: "wk_phase w = AtHead \<Longrightarrow> worker_step timing parse canSign reconnect channel w (worker_begin w)"
| onReady: "wk_phase w = Connecting \<Longrightarrow> worker_step timing parse canSign reconnect channel w (worker_onReady now w)"
| returned: "wk_phase w \<in> {Connecting, Serving}
    \<Longrightarrow> (r = None \<longrightarrow> runCtx_ended w \<or> (rt_closed (wk_sub w) \<and> rt_err (wk_sub w) = None))
    \<Longrightarrow> (\<forall>c t. r = Some (ServerUnsubscribedError c t) \<longrightarrow> wk_phase w = Serving)
    \<Longrightarrow> worker_step timing parse canSign reconnect channel w (worker_returned timing reconnect channel now rnd r w)"
| resumed: "wk_phase w = Resuming \<Longrightarrow> wk_resume w = Some a
    \<Longrightarrow> awaitResume timing parse canSign channel turns a = (r, a', n)
    \<Longrightarrow> (r = ContextDone \<longrightarrow> runCtx_ended w)
    \<Longrightarrow> worker_step timing parse canSign reconnect channel w (worker_resumed (r, a') w)"
| slept: "wk_phase w = Sleeping \<Longrightarrow> worker_step timing parse canSign reconnect channel w (worker_slept w)"
| sleep_ended: "wk_phase w = Sleeping \<Longrightarrow> runCtx_ended w
    \<Longrightarrow> worker_step timing parse canSign reconnect channel w (worker_ending w)"
| finish: "wk_phase w = Ending \<Longrightarrow> worker_step timing parse canSign reconnect channel w (worker_finish w)"
| result: "worker_step timing parse canSign reconnect channel w (subscribe_result w)"
| abandoned: "worker_step timing parse canSign reconnect channel w (subscribe_abandoned w)"
| ctx: "worker_step timing parse canSign reconnect channel w (w\<lparr>wk_ctx := True\<rparr>)"
| enqueue: "wk_phase w = Serving \<Longrightarrow>
    worker_step timing parse canSign reconnect channel w (on_sub (\<lambda>s. fst (rt_enqueue s x)) w)"
| renewal_error: "wk_phase w = Serving \<Longrightarrow>
    worker_step timing parse canSign reconnect channel w (on_sub (rt_notifyError err) w)"
| receive: "worker_step timing parse canSign reconnect channel w (on_sub (\<lambda>s. fst (rt_receive s)) w)"
| close: "worker_step timing parse canSign reconnect channel w (on_sub rt_Close w)"
| setOnError: "worker_step timing parse canSign reconnect channel w (on_sub (rt_SetOnError cb) w)"
| takeResubscribed: "worker_step timing parse canSign reconnect channel w (on_sub (\<lambda>s. fst (rt_TakeResubscribed s)) w)"

section \<open>Invariants\<close>

text \<open>Whatever ends a subscription leaves a trace.\<close>

definition ended_why :: "'a channel_worker \<Rightarrow> bool" where
  "ended_why w \<longleftrightarrow> wk_ctx w \<or> rt_closeOnce (wk_sub w) \<or> rt_err (wk_sub w) \<noteq> None \<or> (\<exists>e. wk_ready w = Some (Some e))"

definition end_ok :: "'a channel_worker \<Rightarrow> bool" where
  "end_ok w \<longleftrightarrow> (wk_phase w \<in> {Ending, Finished} \<or> rt_closed (wk_sub w) \<or> rt_canceled (wk_sub w) \<longrightarrow> ended_why w)"

fun within_budget :: "resubscribe_timing \<Rightarrow> resubscribe_attempt option \<Rightarrow> nat \<Rightarrow> bool" where
  "within_budget timing None k \<longleftrightarrow> k = 0"
| "within_budget timing (Some a) k \<longleftrightarrow> k \<le> ra_attempts a \<and> ra_attempts a \<le> rs_maxAttempts timing"

definition budget_ok :: "resubscribe_timing \<Rightarrow> 'a channel_worker \<Rightarrow> bool" where
  "budget_ok timing w \<longleftrightarrow> within_budget timing (wk_resume w) (wk_resumed w)"

definition pending_resume :: "'a channel_worker \<Rightarrow> bool" where
  "pending_resume w \<longleftrightarrow> (case wk_resume w of None \<Rightarrow> False | Some a \<Rightarrow> \<not> ra_ready a)"

definition allowed_ok :: "'a channel_worker \<Rightarrow> bool" where
  "allowed_ok w \<longleftrightarrow>
     (wk_phase w = AtHead \<and> pending_resume w \<longrightarrow> wk_allowed w \<or> runCtx_ended w)
     \<and> (wk_phase w = Connecting \<and> pending_resume w \<longrightarrow> wk_allowed w)
     \<and> (wk_phase w \<in> {Serving, Sleeping} \<longrightarrow> \<not> pending_resume w)
     \<and> (wk_phase w = Resuming \<longrightarrow> pending_resume w)"

definition count_ok :: "'a channel_worker \<Rightarrow> bool" where
  "count_ok w \<longleftrightarrow> wk_handshakes w = word_of_nat (wk_connected w)
     \<and> (wk_connected w < 2 ^ 64 \<longrightarrow> rt_resubscribes (wk_sub w) = word_of_nat (wk_connected w - 1))
     \<and> (wk_connected w = 0 \<longrightarrow> wk_ready w \<noteq> Some None \<and> wk_resume w = None \<and> wk_phase w \<notin> {Serving, Sleeping, Resuming})
     \<and> (0 < wk_connected w \<longrightarrow> wk_ready w = Some None)
     \<and> (wk_ready w \<noteq> None \<and> wk_connected w = 0 \<longrightarrow> wk_phase w \<in> {Ending, Finished})"

definition worker_ok :: "resubscribe_timing \<Rightarrow> 'a channel_worker \<Rightarrow> bool" where
  "worker_ok timing w \<longleftrightarrow> end_ok w \<and> budget_ok timing w \<and> allowed_ok w \<and> count_ok w"

text \<open>What the operations of a subscription change of what matters to its worker.\<close>

lemma rt_report_effects [simp]:
  "rt_err (rt_notifyError e s) = rt_err s" "rt_closed (rt_notifyError e s) = rt_closed s"
  "rt_canceled (rt_notifyError e s) = rt_canceled s" "rt_closeOnce (rt_notifyError e s) = rt_closeOnce s"
  "rt_resubscribes (rt_notifyError e s) = rt_resubscribes s"
  "rt_err (rt_SetOnError cb s) = rt_err s" "rt_closed (rt_SetOnError cb s) = rt_closed s"
  "rt_canceled (rt_SetOnError cb s) = rt_canceled s" "rt_closeOnce (rt_SetOnError cb s) = rt_closeOnce s"
  "rt_resubscribes (rt_SetOnError cb s) = rt_resubscribes s"
  by (auto simp: rt_defs Let_def split: option.splits)

lemma rt_end_effects [simp]:
  "rt_err (rt_fail e s) = Some (case rt_err s of None \<Rightarrow> e | Some e' \<Rightarrow> e')" "rt_closed (rt_fail e s)"
  "rt_canceled (rt_fail e s) = rt_canceled s" "rt_closeOnce (rt_fail e s) = rt_closeOnce s"
  "rt_resubscribes (rt_fail e s) = rt_resubscribes s"
  "rt_err (rt_Close s) = rt_err s" "rt_closeOnce (rt_Close s)" "rt_resubscribes (rt_Close s) = rt_resubscribes s"
  "rt_canceled s \<Longrightarrow> rt_canceled (rt_Close s)"
  "rt_err (rt_markFinished s) = rt_err s" "rt_canceled (rt_markFinished s) = rt_canceled s"
  "rt_closeOnce (rt_markFinished s) = rt_closeOnce s" "rt_resubscribes (rt_markFinished s) = rt_resubscribes s"
  by (auto simp: rt_defs Let_def split: option.splits)

lemma rt_consumer_effects [simp]:
  "rt_err (fst (rt_receive s)) = rt_err s" "rt_closed (fst (rt_receive s)) = rt_closed s"
  "rt_canceled (fst (rt_receive s)) = rt_canceled s" "rt_closeOnce (fst (rt_receive s)) = rt_closeOnce s"
  "rt_resubscribes (fst (rt_receive s)) = rt_resubscribes s"
  "rt_err (fst (rt_TakeResubscribed s)) = rt_err s" "rt_closed (fst (rt_TakeResubscribed s)) = rt_closed s"
  "rt_canceled (fst (rt_TakeResubscribed s)) = rt_canceled s"
  "rt_closeOnce (fst (rt_TakeResubscribed s)) = rt_closeOnce s"
  "rt_resubscribes (fst (rt_TakeResubscribed s)) = rt_resubscribes s"
  by (auto simp: rt_defs split: list.splits)

lemma rt_ready_effects [simp]:
  "rt_err (rt_noteHandshakeReady f s) = rt_err s" "rt_closed (rt_noteHandshakeReady f s) = rt_closed s"
  "rt_canceled (rt_noteHandshakeReady f s) = rt_canceled s" "rt_closeOnce (rt_noteHandshakeReady f s) = rt_closeOnce s"
  "rt_resubscribes (rt_noteHandshakeReady f s) = (if f then rt_resubscribes s else rt_resubscribes s + 1)"
  by (auto simp: rt_defs)

lemma rt_enqueue_effects [simp]:
  "rt_closeOnce (fst (rt_enqueue s x)) = rt_closeOnce s"
  "rt_resubscribes (fst (rt_enqueue s x)) = rt_resubscribes s"
  by (auto simp: rt_defs split: option.splits)

lemma rt_enqueue_ended:
  "rt_err s \<noteq> None \<Longrightarrow> rt_err (fst (rt_enqueue s x)) \<noteq> None"
  "rt_canceled s \<Longrightarrow> rt_canceled (fst (rt_enqueue s x))"
  "rt_closed (fst (rt_enqueue s x)) \<or> rt_canceled (fst (rt_enqueue s x)) \<Longrightarrow>
    rt_closed s \<or> rt_canceled s \<or> rt_err (fst (rt_enqueue s x)) \<noteq> None"
  by (auto simp: rt_defs split: option.splits if_splits)

lemmas worker_turns = worker_begin_def worker_onReady_def worker_returned_def worker_retry_def worker_resumed_def
  worker_slept_def worker_finish_def worker_ending_def worker_fail_def sendReady_def subscribe_result_def
  subscribe_abandoned_def runCtx_ended_def

section \<open>Every end has a reason\<close>

lemma ended_why_turns:
  "ended_why (worker_fail e w)" "wk_ctx w \<Longrightarrow> ended_why (worker_ending w)"
  "ended_why w \<Longrightarrow> ended_why (worker_ending w)"
  "wk_ready w = None \<Longrightarrow> ended_why (worker_ending (sendReady (Some e) w))"
  by (auto simp: ended_why_def worker_turns)

lemma end_ok_open:
  "end_ok w \<Longrightarrow> \<not> ended_why w \<Longrightarrow> wk_phase w \<notin> {Ending, Finished} \<and> \<not> rt_closed (wk_sub w) \<and> \<not> runCtx_ended w"
  by (auto simp: end_ok_def runCtx_ended_def ended_why_def)

text \<open>The four outcomes of \<open>worker_retry\<close> and of \<open>worker_returned\<close>.\<close>

lemma worker_retry_cases:
  obtains (first) "\<not> pending_resume w" "wk_ready w = None"
      "worker_retry reconnect channel rnd err w = worker_ending (sendReady (Some err) w)"
    | (failed) e where "\<not> pending_resume w" "wk_ready w \<noteq> None" "worker_retry reconnect channel rnd err w = worker_fail e w"
    | (sleeping) "\<not> pending_resume w" "wk_ready w \<noteq> None" "reconnect" "worker_retry reconnect channel rnd err w =
        w\<lparr>wk_sub := rt_notifyError err (wk_sub w), wk_backoff := snd (backoff_next rnd (wk_backoff w)), wk_phase := Sleeping\<rparr>"
    | (refused) a e where "wk_resume w = Some a" "\<not> ra_ready a"
      "worker_retry reconnect channel rnd err w = worker_fail e (w\<lparr>wk_resume := Some (attempt_note err a)\<rparr>)"
    | (resuming) a where "wk_resume w = Some a" "\<not> ra_ready a"
      "worker_retry reconnect channel rnd err w = w\<lparr>wk_resume := Some (attempt_note err a), wk_phase := Resuming\<rparr>"
proof (cases "pending_resume w")
  case True
  then obtain a where a: "wk_resume w = Some a" "\<not> ra_ready a" by (auto simp: pending_resume_def split: option.splits)
  then show thesis by (cases "as_auth err") (auto simp: worker_retry_def Let_def intro: that)
next
  case False
  then have "worker_retry reconnect channel rnd err w =
    (if wk_ready w = None then worker_ending (sendReady (Some err) w)
     else if \<not> reconnect then worker_fail err w
     else w\<lparr>wk_sub := rt_notifyError err (wk_sub w), wk_backoff := snd (backoff_next rnd (wk_backoff w)), wk_phase := Sleeping\<rparr>)"
    by (auto simp: worker_retry_def pending_resume_def Let_def split: option.splits)
  with False show thesis by (metis that(1-3))
qed

lemma worker_returned_cases:
  obtains (over) "r = None \<or> runCtx_ended w \<or> rt_err (wk_sub w) \<noteq> None"
      "worker_returned timing reconnect channel now rnd r w = worker_ending (w\<lparr>wk_allowed := False\<rparr>)"
    | (failed) e where "worker_returned timing reconnect channel now rnd r w = worker_fail e (w\<lparr>wk_allowed := False\<rparr>)"
    | (disconnected) err where "r = Some err" "\<not> runCtx_ended w" "rt_err (wk_sub w) = None" "server_ended err = None"
      "worker_returned timing reconnect channel now rnd r w = worker_retry reconnect channel rnd err (w\<lparr>wk_allowed := False\<rparr>)"
    | (unsubscribed) err ended a where "r = Some err" "\<not> runCtx_ended w" "rt_err (wk_sub w) = None"
      "server_ended err = Some ended" "reconnect" "a = attemptAfter timing (wk_resume w) ended now"
      "worker_returned timing reconnect channel now rnd r w = worker_retry reconnect channel rnd err
         (w\<lparr>wk_allowed := False, wk_resume := Some a, wk_resumed := (if ra_attempts a = 0 then 0 else wk_resumed w)\<rparr>)"
proof (cases "r = None \<or> runCtx_ended w \<or> rt_err (wk_sub w) \<noteq> None")
  case True
  then show thesis by (intro that(1)) (auto simp: worker_returned_def runCtx_ended_def Let_def split: option.splits)
next
  case False
  then obtain err where r: "r = Some err" "\<not> runCtx_ended w" "rt_err (wk_sub w) = None" by auto
  show thesis
  proof (cases "is_terminal err")
    case True
    with r show thesis by (intro that(2)) (simp add: worker_returned_def runCtx_ended_def)
  next
    case nt: False
    show thesis
    proof (cases "server_ended err")
      case None
      with r nt show thesis by (intro that(3)) (auto simp: worker_returned_def runCtx_ended_def)
    next
      case (Some ended)
      with r nt show thesis
        by (cases reconnect) (auto simp: worker_returned_def runCtx_ended_def Let_def intro: that(2,4))
    qed
  qed
qed

lemma end_ok_turns [simp]:
  "end_ok (worker_fail e w)" "ended_why w \<Longrightarrow> end_ok w"
  by (simp_all add: end_ok_def ended_why_turns)

lemma ended_why_fields [simp]:
  "ended_why (w\<lparr>wk_allowed := b\<rparr>) = ended_why w" "ended_why (w\<lparr>wk_resume := x\<rparr>) = ended_why w"
  "ended_why (w\<lparr>wk_resumed := k\<rparr>) = ended_why w" "ended_why (w\<lparr>wk_phase := p\<rparr>) = ended_why w"
  by (simp_all add: ended_why_def)

text \<open>A worker whose subscription is open, wherever it goes.\<close>

definition open_worker :: "'a channel_worker \<Rightarrow> bool" where
  "open_worker w \<longleftrightarrow> \<not> rt_closed (wk_sub w) \<and> \<not> rt_canceled (wk_sub w)"

lemma end_ok_retry:
  assumes "open_worker w"
  shows "end_ok (worker_retry reconnect channel rnd err w)"
  using worker_retry_cases [of w reconnect channel rnd err]
  by cases (use assms in \<open>auto simp: open_worker_def end_ok_def ended_why_turns\<close>)

lemma ended_why_retry: "ended_why w \<Longrightarrow> ended_why (worker_retry reconnect channel rnd err w)"
  using worker_retry_cases [of w reconnect channel rnd err]
  by cases (simp_all add: ended_why_turns, simp_all add: ended_why_def)

lemma end_ok_returned:
  assumes "end_ok w" and "r = None \<longrightarrow> runCtx_ended w \<or> (rt_closed (wk_sub w) \<and> rt_err (wk_sub w) = None)"
  shows "end_ok (worker_returned timing reconnect channel now rnd r w)"
  using worker_returned_cases [of r w timing reconnect channel now rnd]
proof cases
  case over
  then have "ended_why w" using assms by (auto simp: end_ok_def runCtx_ended_def ended_why_def)
  with over show ?thesis by (simp add: ended_why_turns)
next
  case disconnected
  then show ?thesis using end_ok_open [OF assms(1)]
    by (cases "ended_why w") (auto simp: ended_why_retry end_ok_retry open_worker_def runCtx_ended_def)
next
  case unsubscribed
  then show ?thesis using end_ok_open [OF assms(1)]
    by (cases "ended_why w") (auto simp: ended_why_retry end_ok_retry open_worker_def runCtx_ended_def)
qed simp

lemma sendReady_effects [simp]:
  "wk_sub (sendReady r w) = wk_sub w" "wk_ctx (sendReady r w) = wk_ctx w" "wk_phase (sendReady r w) = wk_phase w"
  "wk_resume (sendReady r w) = wk_resume w" "wk_connected (sendReady r w) = wk_connected w"
  "wk_handshakes (sendReady r w) = wk_handshakes w" "wk_resumed (sendReady r w) = wk_resumed w"
  "wk_allowed (sendReady r w) = wk_allowed w"
  "wk_ready (sendReady r w) = (case wk_ready w of None \<Rightarrow> Some r | Some q \<Rightarrow> Some q)"
  by (simp_all add: sendReady_def split: option.splits)

lemma ended_why_finish: "ended_why w \<Longrightarrow> ended_why (worker_finish w)"
  by (auto simp: worker_finish_def ended_why_def Let_def)

lemma ended_why_onReady: "ended_why w \<Longrightarrow> ended_why (worker_onReady now w)"
  by (auto simp: worker_onReady_def ended_why_def Let_def)

lemma end_ok_onReady: "end_ok w \<Longrightarrow> wk_phase w = Connecting \<Longrightarrow> end_ok (worker_onReady now w)"
  by (cases "ended_why w") (simp_all add: ended_why_onReady, simp add: end_ok_def worker_onReady_def Let_def)

lemma end_ok_resumed: "end_ok w \<Longrightarrow> end_ok (worker_resumed (q, a) w)"
  by (cases q) (simp_all add: worker_resumed_def, simp_all add: end_ok_def)

lemma end_ok_head: "end_ok w \<Longrightarrow> end_ok (worker_begin w)"
  by (simp add: worker_begin_def worker_ending_def runCtx_ended_def end_ok_def) (auto simp: ended_why_def)

lemma end_ok_own_turns:
  assumes "end_ok w"
  shows "wk_phase w = Sleeping \<Longrightarrow> end_ok (worker_slept w)" and "runCtx_ended w \<Longrightarrow> end_ok (worker_ending w)"
    and "wk_phase w = Ending \<Longrightarrow> end_ok (worker_finish w)"
  using assms ended_why_finish [of w] end_ok_head [of w]
  by (simp_all add: worker_slept_def worker_begin_def end_ok_def)

lemma end_ok_others:
  assumes "end_ok w"
  shows "end_ok (subscribe_result w)" and "end_ok (subscribe_abandoned w)" and "end_ok (w\<lparr>wk_ctx := True\<rparr>)"
    and "end_ok (on_sub rt_Close w)" and "end_ok (on_sub (rt_SetOnError cb) w)" and "end_ok (on_sub (rt_notifyError err) w)"
    and "end_ok (on_sub (\<lambda>s. fst (rt_receive s)) w)" and "end_ok (on_sub (\<lambda>s. fst (rt_TakeResubscribed s)) w)"
  using assms by (auto simp: subscribe_result_def subscribe_abandoned_def end_ok_def ended_why_def split: option.splits)

lemma end_ok_enqueue:
  assumes "end_ok w"
  shows "end_ok (on_sub (\<lambda>s. fst (rt_enqueue s x)) w)"
  using assms rt_enqueue_ended [of "wk_sub w" x] by (auto simp: end_ok_def ended_why_def)

lemma end_ok_step:
  assumes "end_ok w" and "worker_step timing parse canSign reconnect channel w t"
  shows "end_ok t"
  using assms(2)
  by cases (use assms(1) in \<open>simp_all add: end_ok_returned end_ok_head end_ok_onReady end_ok_resumed end_ok_own_turns end_ok_others end_ok_enqueue\<close>)

section \<open>The budget, the permission and the counts\<close>

lemma awaitResume_result:
  assumes "awaitResume timing parse canSign channel turns a = (r, a', n)" and "ra_attempts a \<le> rs_maxAttempts timing"
  shows "ra_attempts a' \<le> rs_maxAttempts timing" and "ra_attempts a \<le> ra_attempts a'"
    and "r = Subscribe \<Longrightarrow> ra_attempts a < ra_attempts a'" and "ra_ready a' = ra_ready a"
proof -
  have "ra_attempts a' \<le> rs_maxAttempts timing \<and> ra_attempts a \<le> ra_attempts a'
    \<and> (r = Subscribe \<longrightarrow> ra_attempts a < ra_attempts a') \<and> ra_ready a' = ra_ready a"
  proof (cases "\<exists>i. subaccountChannelID parse channel = Some i \<and> canSign")
    case True
    then obtain i where "await_loop timing channel i turns 0 a = (r, a', n)"
      using assms(1) by (auto simp: awaitResume_def)
    note l = await_loop_result [OF this assms(2)]
    from l(4) obtain b where b: "resume_turn timing channel i (turns n) b = (Some r, a')" "ra_attempts b = ra_attempts a + n"
      by auto
    from b(1) have "r = Subscribe \<longrightarrow> ra_attempts a' = ra_attempts b + 1"
      by (auto simp: resume_turn_def Let_def split: prod.splits if_splits sum.splits)
    with l b(2) show ?thesis by auto
  next
    case False
    with assms show ?thesis by (auto simp: awaitResume_def split: option.splits)
  qed
  then show "ra_attempts a' \<le> rs_maxAttempts timing" "ra_attempts a \<le> ra_attempts a'"
    "r = Subscribe \<Longrightarrow> ra_attempts a < ra_attempts a'" "ra_ready a' = ra_ready a" by blast+
qed

lemma attempt_fields [simp]:
  "ra_attempts (attempt_note e a) = ra_attempts a" "ra_ready (attempt_note e a) = ra_ready a"
  "ra_attempts (attempt_noteReady now a) = ra_attempts a" "ra_ready (attempt_noteReady now a)"
  by (auto simp: attempt_note_def attempt_noteReady_def split: sdk_error.splits)

lemma attemptAfter_fields [simp]:
  "\<not> ra_ready (attemptAfter timing cur e now)"
  "ra_attempts (attemptAfter timing None e now) = 0"
  by (auto simp: attemptAfter_def Let_def split: option.splits)

lemma attemptAfter_attempts:
  "ra_attempts (attemptAfter timing (Some a) e now) \<in> {0, ra_attempts a}"
  by (auto simp: attemptAfter_def Let_def)

lemma worker_fail_fields [simp]:
  "wk_resume (worker_fail e w) = wk_resume w" "wk_resumed (worker_fail e w) = wk_resumed w"
  "wk_phase (worker_fail e w) = Ending" "wk_ready (worker_fail e w) = wk_ready w"
  "wk_connected (worker_fail e w) = wk_connected w" "wk_handshakes (worker_fail e w) = wk_handshakes w"
  "rt_resubscribes (wk_sub (worker_fail e w)) = rt_resubscribes (wk_sub w)"
  "wk_resume (worker_ending w) = wk_resume w" "wk_resumed (worker_ending w) = wk_resumed w"
  "wk_phase (worker_ending w) = Ending" "wk_ready (worker_ending w) = wk_ready w"
  "wk_connected (worker_ending w) = wk_connected w" "wk_handshakes (worker_ending w) = wk_handshakes w"
  "wk_sub (worker_ending w) = wk_sub w"
  by (simp_all add: worker_fail_def worker_ending_def)

lemma budget_ok_cong:
  "wk_resume t = wk_resume w \<Longrightarrow> wk_resumed t = wk_resumed w \<Longrightarrow> budget_ok timing w \<Longrightarrow> budget_ok timing t"
  by (simp add: budget_ok_def)

lemma budget_ok_retry:
  "budget_ok timing w \<Longrightarrow> budget_ok timing (worker_retry reconnect channel rnd err w)"
  using worker_retry_cases [of w reconnect channel rnd err]
  by cases (simp_all add: budget_ok_def)

lemma budget_ok_returned:
  assumes "budget_ok timing w"
  shows "budget_ok timing (worker_returned timing reconnect channel now rnd r w)"
  using worker_returned_cases [of r w timing reconnect channel now rnd]
proof cases
  case (unsubscribed err ended a)
  have "budget_ok timing (w\<lparr>wk_allowed := False, wk_resume := Some a, wk_resumed := (if ra_attempts a = 0 then 0 else wk_resumed w)\<rparr>)"
  proof (cases "wk_resume w")
    case None
    with unsubscribed show ?thesis by (simp add: budget_ok_def)
  next
    case (Some b)
    with unsubscribed attemptAfter_attempts [of timing b ended now] assms show ?thesis by (auto simp: budget_ok_def)
  qed
  with unsubscribed show ?thesis by (simp add: budget_ok_retry)
next
  case (disconnected err)
  have "budget_ok timing (w\<lparr>wk_allowed := False\<rparr>)" using assms by (rule budget_ok_cong [rotated 2]) simp_all
  with disconnected show ?thesis by (simp add: budget_ok_retry)
qed (use assms in \<open>simp_all add: budget_ok_def\<close>)

lemma budget_ok_resumed:
  assumes "budget_ok timing w" and "wk_resume w = Some a" and "awaitResume timing parse canSign channel turns a = (r, a', n)"
  shows "budget_ok timing (worker_resumed (r, a') w)"
  using assms awaitResume_result [OF assms(3)] by (cases r) (auto simp: budget_ok_def worker_resumed_def)

lemma worker_quiet_fields:
  "wk_resume (worker_begin w) = wk_resume w" "wk_resumed (worker_begin w) = wk_resumed w"
  "wk_resume (worker_slept w) = wk_resume w" "wk_resumed (worker_slept w) = wk_resumed w"
  "wk_resume (worker_finish w) = wk_resume w" "wk_resumed (worker_finish w) = wk_resumed w"
  "wk_resume (subscribe_result w) = wk_resume w" "wk_resumed (subscribe_result w) = wk_resumed w"
  "wk_resume (subscribe_abandoned w) = wk_resume w" "wk_resumed (subscribe_abandoned w) = wk_resumed w"
  by (simp_all add: worker_begin_def worker_slept_def worker_finish_def subscribe_result_def subscribe_abandoned_def Let_def
      split: option.splits)

lemma budget_ok_onReady: "budget_ok timing w \<Longrightarrow> budget_ok timing (worker_onReady now w)"
  by (cases "wk_resume w") (auto simp: budget_ok_def worker_onReady_def Let_def)

lemma budget_ok_step:
  assumes "budget_ok timing w" and "worker_step timing parse canSign reconnect channel w t"
  shows "budget_ok timing t"
  using assms(2)
proof cases
  case (returned r now rnd)
  with assms(1) show ?thesis by (simp add: budget_ok_returned)
next
  case (resumed a turns r a' n)
  with assms(1) show ?thesis by (simp add: budget_ok_resumed)
next
  case (onReady now)
  with assms(1) show ?thesis by (simp add: budget_ok_onReady)
qed (rule budget_ok_cong [OF _ _ assms(1)], simp_all add: worker_quiet_fields)+

lemma pending_resume_simps [simp]:
  "wk_resume w = None \<Longrightarrow> \<not> pending_resume w" "wk_resume w = Some a \<Longrightarrow> pending_resume w \<longleftrightarrow> \<not> ra_ready a"
  by (simp_all add: pending_resume_def)

lemma allowed_ok_ended: "wk_phase w \<in> {Ending, Finished} \<Longrightarrow> allowed_ok w"
  by (auto simp: allowed_ok_def)

lemma allowed_ok_retry: "allowed_ok (worker_retry reconnect channel rnd err w)"
  using worker_retry_cases [of w reconnect channel rnd err]
  by cases (auto simp: allowed_ok_def pending_resume_def)

lemma allowed_ok_returned: "allowed_ok (worker_returned timing reconnect channel now rnd r w)"
  using worker_returned_cases [of r w timing reconnect channel now rnd]
  by cases (simp_all add: allowed_ok_retry allowed_ok_ended)

lemma allowed_ok_onReady: "allowed_ok (worker_onReady now w)"
  by (cases "wk_resume w") (auto simp: allowed_ok_def worker_onReady_def Let_def pending_resume_def)

lemma allowed_ok_head:
  assumes "allowed_ok w" and "wk_phase w = AtHead"
  shows "allowed_ok (worker_begin w)"
  using assms by (auto simp: allowed_ok_def worker_begin_def pending_resume_def)

lemma allowed_ok_resumed:
  assumes "allowed_ok w" and "q = ContextDone \<Longrightarrow> runCtx_ended w"
  shows "allowed_ok (worker_resumed (q, a) w)"
  using assms by (cases q) (auto simp: allowed_ok_def worker_resumed_def runCtx_ended_def)

lemma allowed_ok_slept:
  "allowed_ok w \<Longrightarrow> wk_phase w = Sleeping \<Longrightarrow> allowed_ok (worker_slept w)"
  by (auto simp: allowed_ok_def worker_slept_def pending_resume_def)

lemma allowed_ok_cong:
  "allowed_ok w \<Longrightarrow> wk_phase t = wk_phase w \<Longrightarrow> wk_resume t = wk_resume w \<Longrightarrow> wk_allowed t = wk_allowed w
    \<Longrightarrow> (runCtx_ended w \<longrightarrow> runCtx_ended t) \<Longrightarrow> allowed_ok t"
  by (auto simp: allowed_ok_def pending_resume_def)

lemma allowed_ok_others:
  assumes "allowed_ok w"
  shows "allowed_ok (subscribe_result w)" "allowed_ok (subscribe_abandoned w)" "allowed_ok (w\<lparr>wk_ctx := True\<rparr>)"
    "allowed_ok (on_sub (rt_SetOnError cb) w)" "allowed_ok (on_sub (rt_notifyError err) w)"
    "allowed_ok (on_sub rt_Close w)" "allowed_ok (on_sub (\<lambda>s. fst (rt_enqueue s x)) w)"
    "allowed_ok (on_sub (\<lambda>s. fst (rt_receive s)) w)" "allowed_ok (on_sub (\<lambda>s. fst (rt_TakeResubscribed s)) w)"
  by (rule allowed_ok_cong [OF assms];
      auto simp: subscribe_result_def subscribe_abandoned_def runCtx_ended_def rt_enqueue_ended split: option.splits)+

lemma allowed_ok_step:
  assumes "allowed_ok w" and "worker_step timing parse canSign reconnect channel w t"
  shows "allowed_ok t"
  using assms(2)
  by cases (use assms(1) in \<open>simp_all add: allowed_ok_returned allowed_ok_onReady allowed_ok_head allowed_ok_resumed
      allowed_ok_slept allowed_ok_others allowed_ok_ended worker_finish_def Let_def\<close>)

lemma count_ok_cong:
  "count_ok w \<Longrightarrow> wk_handshakes t = wk_handshakes w \<Longrightarrow> wk_connected t = wk_connected w
    \<Longrightarrow> rt_resubscribes (wk_sub t) = rt_resubscribes (wk_sub w) \<Longrightarrow> wk_ready t = wk_ready w
    \<Longrightarrow> (wk_connected w = 0 \<Longrightarrow> wk_resume t = wk_resume w)
    \<Longrightarrow> (wk_connected w = 0 \<Longrightarrow> wk_phase t \<notin> {Serving, Sleeping, Resuming} \<and> (wk_ready w \<noteq> None \<longrightarrow> wk_phase t \<in> {Ending, Finished}))
    \<Longrightarrow> count_ok t"
  by (simp add: count_ok_def)

lemma count_ok_onReady:
  assumes "count_ok w" and "wk_phase w = Connecting"
  shows "count_ok (worker_onReady now w)"
proof -
  have small: "wk_handshakes w + 1 = 1 \<longleftrightarrow> wk_connected w = 0" if "wk_connected w < 2 ^ 64"
  proof -
    have "wk_handshakes w = 0 \<longleftrightarrow> wk_connected w = 0"
      using assms(1) that nat_dvd_not_less [of "wk_connected w" "2 ^ 64"]
      by (cases "wk_connected w = 0") (auto simp: count_ok_def word_of_nat_eq_0_iff)
    then show ?thesis by simp
  qed
  have resub: "rt_resubscribes (wk_sub (worker_onReady now w)) = word_of_nat (wk_connected w)" if "wk_connected w < 2 ^ 64"
    using assms(1) small [OF that] that by (cases "wk_connected w") (auto simp: count_ok_def worker_onReady_def Let_def)
  have "wk_ready w = (if wk_connected w = 0 then None else Some None)"
    using assms by (auto simp: count_ok_def)
  with assms resub show ?thesis by (auto simp: count_ok_def worker_onReady_def Let_def)
qed

lemma count_ok_retry:
  assumes "count_ok w" and "wk_phase w \<in> {Connecting, Serving}" and "pending_resume w \<longrightarrow> 0 < wk_connected w"
  shows "count_ok (worker_retry reconnect channel rnd err w)"
  using worker_retry_cases [of w reconnect channel rnd err]
  by cases (use assms in \<open>auto simp: count_ok_def\<close>)

lemma server_ended_unsubscribed: "server_ended err = Some e \<Longrightarrow> \<exists>c t. err = ServerUnsubscribedError c t"
  by (auto simp: server_ended_def split: sdk_error.splits)

lemma count_ok_returned:
  assumes "count_ok w" and "wk_phase w \<in> {Connecting, Serving}"
    and "\<forall>c t. r = Some (ServerUnsubscribedError c t) \<longrightarrow> wk_phase w = Serving"
  shows "count_ok (worker_returned timing reconnect channel now rnd r w)"
proof -
  have quiet: "count_ok (w\<lparr>wk_allowed := False\<rparr>)" by (rule count_ok_cong [OF assms(1)]) (use assms in \<open>auto simp: count_ok_def\<close>)
  have pending: "pending_resume w \<longrightarrow> 0 < wk_connected w" using assms(1) by (auto simp: count_ok_def)
  have ready: "wk_connected w = 0 \<Longrightarrow> wk_ready w = None" using assms(1,2) by (auto simp: count_ok_def)
  show ?thesis
    using worker_returned_cases [of r w timing reconnect channel now rnd]
  proof cases
    case disconnected
    with quiet assms(2) pending show ?thesis by (simp add: count_ok_retry pending_resume_def)
  next
    case (unsubscribed err ended a)
    from server_ended_unsubscribed [OF unsubscribed(4)] unsubscribed(1) assms(1,3) have "0 < wk_connected w"
      by (auto simp: count_ok_def)
    moreover from this have "count_ok (w\<lparr>wk_allowed := False, wk_resume := Some a,
        wk_resumed := (if ra_attempts a = 0 then 0 else wk_resumed w)\<rparr>)"
      by (intro count_ok_cong [OF assms(1)]) simp_all
    ultimately show ?thesis using unsubscribed assms(2) by (simp add: count_ok_retry)
  next
    case (failed e)
    with ready show ?thesis by (auto intro!: count_ok_cong [OF assms(1)] simp: worker_fail_def worker_ending_def)
  next
    case over
    with ready show ?thesis by (auto intro!: count_ok_cong [OF assms(1)] simp: worker_ending_def)
  qed
qed

lemma count_ok_resumed:
  assumes "count_ok w" and "wk_phase w = Resuming"
  shows "count_ok (worker_resumed (q, a) w)"
proof -
  have "0 < wk_connected w" using assms by (auto simp: count_ok_def)
  then show ?thesis by (cases q) (auto intro!: count_ok_cong [OF assms(1)] simp: worker_resumed_def worker_fail_def worker_ending_def)
qed

lemma count_ok_turns:
  assumes "count_ok w"
  shows "wk_phase w = AtHead \<Longrightarrow> count_ok (worker_begin w)" "wk_phase w = Sleeping \<Longrightarrow> count_ok (worker_slept w)"
    "wk_phase w = Sleeping \<Longrightarrow> count_ok (worker_ending w)" "wk_phase w = Ending \<Longrightarrow> count_ok (worker_finish w)"
  using assms by (auto simp: count_ok_def worker_begin_def worker_slept_def worker_ending_def worker_finish_def Let_def split: option.splits)

lemma count_ok_others:
  assumes "count_ok w"
  shows "count_ok (subscribe_result w)" "count_ok (subscribe_abandoned w)" "count_ok (w\<lparr>wk_ctx := True\<rparr>)"
    "count_ok (on_sub (rt_SetOnError cb) w)" "count_ok (on_sub (rt_notifyError err) w)"
    "count_ok (on_sub rt_Close w)" "count_ok (on_sub (\<lambda>s. fst (rt_enqueue s x)) w)"
    "count_ok (on_sub (\<lambda>s. fst (rt_receive s)) w)" "count_ok (on_sub (\<lambda>s. fst (rt_TakeResubscribed s)) w)"
  by (rule count_ok_cong [OF assms]; use assms in \<open>auto simp: subscribe_result_def subscribe_abandoned_def count_ok_def
      split: option.splits\<close>)+

lemma count_ok_step:
  assumes "count_ok w" and "worker_step timing parse canSign reconnect channel w t"
  shows "count_ok t"
  using assms(2)
proof cases
  case (returned r now rnd)
  with assms(1) count_ok_returned [OF assms(1), of r] show ?thesis by simp
qed (use assms(1) in \<open>simp_all add: count_ok_onReady count_ok_resumed count_ok_turns count_ok_others\<close>)

lemma worker_ok_start: "worker_ok timing (worker_start n)"
  by (simp add: worker_ok_def end_ok_def budget_ok_def allowed_ok_def count_ok_def worker_start_def newSubscription_def pending_resume_def)

lemma worker_ok_step:
  assumes "worker_ok timing w" and "worker_step timing parse canSign reconnect channel w t"
  shows "worker_ok timing t"
  using assms(1) end_ok_step [OF _ assms(2)] budget_ok_step [OF _ assms(2)] allowed_ok_step [OF _ assms(2)]
    count_ok_step [OF _ assms(2)]
  by (simp add: worker_ok_def)

interpretation cw: invariant_system "\<lambda>w. \<exists>n. w = worker_start n"
  "worker_step defaultResubscribeTiming parse canSign reconnect channel" "worker_ok defaultResubscribeTiming"
  for parse canSign reconnect channel
  by unfold_locales (auto intro: worker_ok_start worker_ok_step)

abbreviation reachable_worker ::
  "(string \<Rightarrow> u64 res) \<Rightarrow> bool \<Rightarrow> bool \<Rightarrow> string \<Rightarrow> 'a channel_worker \<Rightarrow> bool" where
  "reachable_worker parse canSign reconnect channel \<equiv>
     reachable (\<lambda>w. \<exists>n. w = worker_start n) (worker_step defaultResubscribeTiming parse canSign reconnect channel)"

lemmas reachable_worker_ok = cw.inv_reachable [unfolded worker_ok_def]

section \<open>A sample run\<close>

text \<open>A subscription to the trades of sub-account 5 that connects, is ended by the server (code 2000,
  not temporary), finds the sub-account listed, and connects again.\<close>

definition sample_turn :: resume_turn where
  "sample_turn = \<lparr>tn_removedFirst = False, tn_random = 0, tn_slept = True, tn_removedSlept = False, tn_listed = Inr [5],
     tn_ctxEnded = False, tn_removedRead = False, tn_slotSlept = True, tn_removedSlot = False\<rparr>"

definition sample_channel :: string where
  "sample_channel = ''private:spot:trades:5:proto''"

definition sample_ended :: "byte channel_worker" where
  "sample_ended = worker_returned defaultResubscribeTiming True sample_channel 10 0 (Some (ServerUnsubscribedError 2000 ''access''))
     (worker_onReady 5 (worker_begin (worker_start 10)))"

definition ended_attempt :: resubscribe_attempt where
  "ended_attempt = attemptAfter defaultResubscribeTiming None \<lparr>su_code = 2000, su_reason = ''access''\<rparr> 10"

definition sample_resumed :: "byte channel_worker" where
  "sample_resumed = worker_begin (worker_resumed (Subscribe, snd (resume_turn defaultResubscribeTiming sample_channel 5 sample_turn ended_attempt)) sample_ended)"

lemma sample_await:
  "awaitResume defaultResubscribeTiming (\<lambda>_. Inr 5) True sample_channel (\<lambda>_. sample_turn) ended_attempt =
     (Subscribe, snd (resume_turn defaultResubscribeTiming sample_channel 5 sample_turn ended_attempt), 0)"
proof -
  have i: "subaccountChannelID (\<lambda>_. Inr 5) sample_channel = Some 5" by code_simp
  have t: "fst (resume_turn defaultResubscribeTiming sample_channel 5 sample_turn ended_attempt) = Some Subscribe" by code_simp
  show ?thesis using t
    by (auto simp: awaitResume_def i await_loop.simps [of _ _ _ _ 0] split: prod.splits option.splits)
qed

lemma sample_phases:
  "wk_phase (worker_begin (worker_start 10) :: byte channel_worker) = Connecting"
  "wk_phase (worker_onReady 5 (worker_begin (worker_start 10)) :: byte channel_worker) = Serving"
  "wk_phase sample_ended = Resuming" "wk_resume sample_ended = Some ended_attempt"
  "wk_phase sample_resumed = Connecting" "wk_resumed sample_resumed = 1"
  "map_option ra_ready (wk_resume sample_resumed) = Some False"
  by code_simp+

lemma sample_resumed_reachable: "reachable_worker (\<lambda>_. Inr 5) True True sample_channel sample_resumed"
proof -
  let ?step = "worker_step defaultResubscribeTiming (\<lambda>_. Inr 5) True True sample_channel"
  let ?r = "reachable_worker (\<lambda>_. Inr 5) True True sample_channel"
  have 0: "?r (worker_start 10 :: byte channel_worker)" by (rule reach_init) blast
  have 1: "?r (worker_begin (worker_start 10) :: byte channel_worker)"
    by (rule reach_step [OF 0 worker_step.head]) (simp add: worker_start_def)
  have 2: "?r (worker_onReady 5 (worker_begin (worker_start 10)) :: byte channel_worker)"
    by (rule reach_step [OF 1 worker_step.onReady]) (rule sample_phases)
  have 3: "?r sample_ended" unfolding sample_ended_def
    by (rule reach_step [OF 2 worker_step.returned]) (simp_all add: sample_phases)
  have "?step sample_ended (worker_resumed (Subscribe, snd (resume_turn defaultResubscribeTiming sample_channel 5 sample_turn ended_attempt)) sample_ended)"
    by (rule worker_step.resumed [OF sample_phases(3,4) sample_await]) simp
  from reach_step [OF 3 this] have 4: "?r (worker_resumed (Subscribe, snd (resume_turn defaultResubscribeTiming sample_channel 5 sample_turn ended_attempt)) sample_ended)" .
  show ?thesis unfolding sample_resumed_def
    by (rule reach_step [OF 4 worker_step.head]) (simp add: worker_resumed_def)
qed

section \<open>Properties\<close>

text \<open>C19. A subscription whose worker is gone says why: the call that made it failed, its context
  ended, the consumer or the client closed it, or it has an error.\<close>

theorem worker_never_silent:
  assumes "reachable_worker parse canSign reconnect channel w" and "wk_phase w = Finished"
  shows "(\<exists>e. wk_ready w = Some (Some e)) \<or> wk_ctx w \<or> rt_closeOnce (wk_sub w) \<or> (\<exists>e. rt_err (wk_sub w) = Some e)"
  using reachable_worker_ok [OF assms(1)] assms(2) by (auto simp: end_ok_def ended_why_def)

text \<open>C20. After the server ended a subscription for good, the worker connects again only when
  \<open>awaitResume\<close> said so since, and at most six times before the budget is renewed.\<close>

theorem resumes_with_permission:
  assumes "reachable_worker parse canSign reconnect channel w" and "wk_phase w = Connecting"
    and "wk_resume w = Some a" and "\<not> ra_ready a"
  shows "wk_allowed w \<and> wk_resumed w \<le> ra_attempts a \<and> ra_attempts a \<le> 6"
  using reachable_worker_ok [OF assms(1)] assms(2-)
  by (auto simp: allowed_ok_def budget_ok_def defaultResubscribeTiming_def)

theorem resumes_with_permission_witness:
  "\<exists>a. wk_resume sample_resumed = Some a \<and> wk_allowed sample_resumed \<and> wk_resumed sample_resumed = 1 \<and> ra_attempts a \<le> 6"
proof -
  obtain a where a: "wk_resume sample_resumed = Some a" "\<not> ra_ready a" using sample_phases(7) by auto
  from resumes_with_permission [OF sample_resumed_reachable sample_phases(5) a] a sample_phases(6) show ?thesis by simp
qed

text \<open>The consumer can see every gap: the count of resubscriptions is the count of handshakes
  after the first, and only a subscription that connected once ever connects again.\<close>

theorem gaps_counted:
  assumes "reachable_worker parse canSign reconnect channel w" and "wk_connected w < 2 ^ 64"
  shows "unat (rt_resubscribes (wk_sub w)) = wk_connected w - 1
    \<and> (wk_phase w \<in> {Sleeping, Resuming} \<longrightarrow> 0 < wk_connected w)"
  using reachable_worker_ok [OF assms(1)] assms(2)
  by (auto simp: count_ok_def unsigned_of_nat take_bit_nat_eq_self)

theorem gaps_counted_witness:
  "unat (rt_resubscribes (wk_sub (worker_onReady 20 sample_resumed))) = 1"
proof -
  have r: "reachable_worker (\<lambda>_. Inr 5) True True sample_channel (worker_onReady 20 sample_resumed)"
    by (rule reach_step [OF sample_resumed_reachable worker_step.onReady]) (rule sample_phases)
  have "wk_connected (worker_onReady 20 sample_resumed) = 2" by code_simp
  with gaps_counted [OF r] show ?thesis by simp
qed

text \<open>A subscription closed by its consumer while it waits to resume.\<close>

theorem worker_never_silent_witness:
  "\<exists>w :: byte channel_worker. reachable_worker (\<lambda>_. Inr 5) True True sample_channel w \<and> wk_phase w = Finished \<and> wk_ready w = Some None
    \<and> (wk_ctx w \<or> rt_closeOnce (wk_sub w) \<or> (\<exists>e. rt_err (wk_sub w) = Some e))"
proof -
  let ?r = "reachable_worker (\<lambda>_. Inr 5) True True sample_channel"
  let ?closed = "on_sub rt_Close sample_resumed"
  have 1: "?r ?closed" by (rule reach_step [OF sample_resumed_reachable worker_step.close])
  let ?over = "worker_returned defaultResubscribeTiming True sample_channel 11 0 None ?closed"
  have 2: "?r ?over"
    by (rule reach_step [OF 1 worker_step.returned [where r = None]]) (use sample_phases(5) in \<open>simp_all, code_simp\<close>)
  have 3: "?r (worker_finish ?over)"
    by (rule reach_step [OF 2 worker_step.finish]) (simp add: worker_returned_def)
  have f: "wk_phase (worker_finish ?over) = Finished" by (simp add: worker_finish_def Let_def)
  have "wk_ready (worker_finish ?over) = Some None" by code_simp
  with worker_never_silent [OF 3 f] 3 f show ?thesis by auto
qed

end
