(* ===== verification/RiskEncode.thy ===== *)
theory RiskEncode
  imports OrderKeys
begin

text \<open>
  \<open>codecs/attached_risk.go\<close> with the checks it shares with orders and triggers (\<open>codecs/triggers.go\<close>,
  \<open>codecs/proto_helpers.go\<close>): the risk legs attached to an order, from the caller's input to the wire.
  A wire \<open>oneof\<close> is a datatype, an unset message \<open>None\<close>. Ticks are the values of Go \<open>int64\<close>s and basis
  points those of \<open>int32\<close>s; the code compares them only.
\<close>

section \<open>Enumerations\<close>

datatype order_side = SIDE_UNSPECIFIED | BUY | SELL

datatype trigger_price_source = TRIGGER_PRICE_SOURCE_UNSPECIFIED | LAST_PRICE | INDEX_PRICE | MARK_PRICE

definition orderSideToProto :: "(string \<times> order_side) list" where
  "orderSideToProto = [(''buy'', BUY), (''sell'', SELL)]"

definition OrderSideName :: "order_side \<Rightarrow> string" where
  "OrderSideName v = (case v of BUY \<Rightarrow> ''buy'' | SELL \<Rightarrow> ''sell'' | SIDE_UNSPECIFIED \<Rightarrow> [])"

definition TriggerPriceSourceName :: "trigger_price_source \<Rightarrow> string" where
  "TriggerPriceSourceName v = (case v of LAST_PRICE \<Rightarrow> ''last'' | INDEX_PRICE \<Rightarrow> ''index'' | MARK_PRICE \<Rightarrow> ''mark''
     | TRIGGER_PRICE_SOURCE_UNSPECIFIED \<Rightarrow> [])"

definition triggerPriceSourceToProtoMap :: "(string \<times> trigger_price_source) list" where
  "triggerPriceSourceToProtoMap = [(''last'', LAST_PRICE), (''index'', INDEX_PRICE), (''mark'', MARK_PRICE)]"

definition triggerPriceSourceToProto :: "string \<Rightarrow> string \<Rightarrow> trigger_price_source res" where
  "triggerPriceSourceToProto label fieldName =
     (if label = [] then Inr TRIGGER_PRICE_SOURCE_UNSPECIFIED
      else case map_of triggerPriceSourceToProtoMap (to_lower label) of
          None \<Rightarrow> Inl (ValidationError (fieldName @ '' must be last, index, or mark''))
        | Some source \<Rightarrow> Inr source)"

section \<open>Bounds on basis points\<close>

definition MaxSlippageBpsLimit :: int where
  "MaxSlippageBpsLimit = 10000"

definition MaxSellingSlippageBps :: int where
  "MaxSellingSlippageBps = MaxSlippageBpsLimit - 1"

definition validateBpsAtMost :: "string \<Rightarrow> int \<Rightarrow> bool \<Rightarrow> int \<Rightarrow> unit res" where
  "validateBpsAtMost field bps allowClear maxBps =
     (if allowClear \<and> bps = 0 then Inr ()
      else if bps < 1 \<or> bps > maxBps
      then Inl (ValidationError (field @ '' must be between 1 and '' @ itoa maxBps))
      else Inr ())"

definition validateBps :: "string \<Rightarrow> int \<Rightarrow> bool \<Rightarrow> unit res" where
  "validateBps field bps allowClear = validateBpsAtMost field bps allowClear MaxSlippageBpsLimit"

definition validateSlippageBps :: "int \<Rightarrow> bool \<Rightarrow> unit res" where
  "validateSlippageBps bps allowClear = validateBps ''max_slippage_bps'' bps allowClear"

definition positivePriceTicks :: "price_input \<Rightarrow> string \<Rightarrow> string \<Rightarrow> int res" where
  "positivePriceTicks p fieldName symbol =
     bind_res (ResolvePriceTicks p fieldName symbol) (\<lambda>ticks.
       if ticks \<le> 0 then Inl (ValidationError (fieldName @ '' must be positive'')) else Inr ticks)"

section \<open>The caller's input\<close>

record risk_leg_input =
  rl_triggerPrice :: price_input
  rl_limitPrice :: "price_input option"
  rl_triggerPriceSource :: string

record trailing_stop_input =
  ti_distanceTicks :: "int option"
  ti_distanceBps :: "int option"
  ti_maxSlippageTicks :: "int option"
  ti_maxSlippageBps :: "int option"
  ti_activationPrice :: "price_input option"
  ti_limitPrice :: "price_input option"
  ti_triggerPriceSource :: string

record attached_risk_input =
  ar_takeProfit :: "risk_leg_input option"
  ar_stopLoss :: "risk_leg_input option"
  ar_trailingStop :: "trailing_stop_input option"
  ar_oco :: bool

text \<open>An optional input that is present and set.\<close>

definition set_price :: "price_input option \<Rightarrow> price_input option" where
  "set_price p = (case p of Some i \<Rightarrow> if price_IsSet i then Some i else None | None \<Rightarrow> None)"

definition set_qty :: "qty_input option \<Rightarrow> qty_input option" where
  "set_qty q = (case q of Some i \<Rightarrow> if qty_IsSet i then Some i else None | None \<Rightarrow> None)"

section \<open>The wire\<close>

datatype risk_execution = RiskMarketIoc | RiskLimitGtc int

record risk_leg_policy =
  lp_triggerPriceTicks :: int
  lp_triggerPriceSource :: trigger_price_source
  lp_child :: risk_execution

datatype trailing_distance = TrailingDistanceTicks int | TrailingDistanceBps int

datatype max_slippage = MaxSlippageTicks int | MaxSlippageBps int

record trailing_stop_policy =
  tp_trailingDistance :: trailing_distance
  tp_maxSlippage :: "max_slippage option"
  tp_activationPriceTicks :: int
  tp_limitPriceTicks :: int
  tp_triggerPriceSource :: trigger_price_source

datatype stop_leg = StopLoss risk_leg_policy | TrailingStop trailing_stop_policy

record risk_policy =
  rp_takeProfit :: "risk_leg_policy option"
  rp_stopLeg :: "stop_leg option"
  rp_oco :: bool

section \<open>Encoding\<close>

definition riskLegToProto :: "risk_leg_input \<Rightarrow> string \<Rightarrow> string \<Rightarrow> risk_leg_policy res" where
  "riskLegToProto leg fieldName symbol =
     bind_res (positivePriceTicks (rl_triggerPrice leg) (fieldName @ ''.trigger_price'') symbol) (\<lambda>trigger.
     bind_res (triggerPriceSourceToProto (rl_triggerPriceSource leg) (fieldName @ ''.trigger_price_source'')) (\<lambda>source.
     case rl_limitPrice leg of
       None \<Rightarrow> Inr \<lparr>lp_triggerPriceTicks = trigger, lp_triggerPriceSource = source, lp_child = RiskMarketIoc\<rparr>
     | Some limitPrice \<Rightarrow>
         bind_res (positivePriceTicks limitPrice (fieldName @ ''.limit_price'') symbol) (\<lambda>limit.
         Inr \<lparr>lp_triggerPriceTicks = trigger, lp_triggerPriceSource = source, lp_child = RiskLimitGtc limit\<rparr>)))"

definition trailingLimitError :: "string \<Rightarrow> string \<Rightarrow> string \<Rightarrow> string \<Rightarrow> sdk_error" where
  "trailingLimitError fieldName code ruleID msg =
     (let path = fieldName @ ''.limit_price_ticks'';
          path' = (if has_prefix fieldName ''attached_risk.'' then ''order.'' @ path else path)
      in ViolationError msg code path' ruleID)"

text \<open>The three parts of \<open>trailingStopToProto\<close> that choose a field, in its order.\<close>

definition trailing_distance_of :: "trailing_stop_input \<Rightarrow> string \<Rightarrow> trailing_distance res" where
  "trailing_distance_of i fieldName = (case (ti_distanceTicks i, ti_distanceBps i) of
       (Some ticks, _) \<Rightarrow>
         if ticks \<le> 0 then Inl (ValidationError (fieldName @ ''.distance_ticks must be positive''))
         else Inr (TrailingDistanceTicks ticks)
     | (None, Some bps) \<Rightarrow>
         bind_res (validateBps (fieldName @ ''.distance_bps'') bps False) (\<lambda>_. Inr (TrailingDistanceBps bps))
     | (None, None) \<Rightarrow> Inl (ValidationError (fieldName @ '' requires exactly one of distance_ticks or distance_bps'')))"

definition trailing_slippage_of :: "trailing_stop_input \<Rightarrow> string \<Rightarrow> max_slippage option res" where
  "trailing_slippage_of i fieldName = (case (ti_maxSlippageTicks i, ti_maxSlippageBps i) of
       (Some ticks, _) \<Rightarrow>
         if ticks \<le> 0 then Inl (ValidationError (fieldName @ ''.max_slippage_ticks must be positive''))
         else Inr (Some (MaxSlippageTicks ticks))
     | (None, Some bps) \<Rightarrow>
         bind_res (validateBpsAtMost (fieldName @ ''.max_slippage_bps'') bps False MaxSellingSlippageBps)
           (\<lambda>_. Inr (Some (MaxSlippageBps bps)))
     | (None, None) \<Rightarrow> Inr None)"

definition trailing_limit_of :: "trailing_stop_input \<Rightarrow> string \<Rightarrow> string \<Rightarrow> int \<Rightarrow> int res" where
  "trailing_limit_of i fieldName symbol activation = (case set_price (ti_limitPrice i) of
       None \<Rightarrow> Inr 0
     | Some limitPrice \<Rightarrow>
         bind_res (ResolvePriceTicks limitPrice (fieldName @ ''.limit_price'') symbol) (\<lambda>ticks.
           if ticks = 0 \<and> has_prefix fieldName ''attached_risk.'' then Inr 0
           else if ticks \<le> 0
           then Inl (trailingLimitError fieldName ''ERROR_CODE_TRIGGER_BUY_REQUIRES_LIMIT'' ''buy_required''
             (fieldName @ ''.limit_price must be positive: it is the maximum price the buy-back pays, required when the parent order sells; leave it unset when the parent order buys''))
           else if activation > ticks
           then Inl (trailingLimitError fieldName ''ERROR_CODE_BAD_PRICE'' ''buy_at_least_activation''
             (fieldName @ ''.limit_price must be at least activation_price''))
           else Inr ticks))"

definition trailingStopToProto :: "trailing_stop_input \<Rightarrow> string \<Rightarrow> string \<Rightarrow> trailing_stop_policy res" where
  "trailingStopToProto i fieldName symbol =
     (if (ti_distanceTicks i = None) = (ti_distanceBps i = None)
      then Inl (ValidationError (fieldName @ '' requires exactly one of distance_ticks or distance_bps''))
      else if ti_maxSlippageTicks i \<noteq> None \<and> ti_maxSlippageBps i \<noteq> None
      then Inl (ValidationError (fieldName @ '' allows at most one of max_slippage_ticks or max_slippage_bps''))
      else
        bind_res (trailing_distance_of i fieldName) (\<lambda>distance.
        bind_res (trailing_slippage_of i fieldName) (\<lambda>slippage.
        bind_res (case set_price (ti_activationPrice i) of
            None \<Rightarrow> Inr 0
          | Some p \<Rightarrow> positivePriceTicks p (fieldName @ ''.activation_price'') symbol) (\<lambda>activation.
        bind_res (trailing_limit_of i fieldName symbol activation) (\<lambda>limit.
        bind_res (triggerPriceSourceToProto (ti_triggerPriceSource i) (fieldName @ ''.trigger_price_source'')) (\<lambda>source.
        Inr \<lparr>tp_trailingDistance = distance, tp_maxSlippage = slippage, tp_activationPriceTicks = activation,
             tp_limitPriceTicks = limit, tp_triggerPriceSource = source\<rparr>))))))"

definition stop_leg_of :: "attached_risk_input \<Rightarrow> string \<Rightarrow> string \<Rightarrow> stop_leg option res" where
  "stop_leg_of i fieldName symbol = (case (ar_stopLoss i, ar_trailingStop i) of
       (Some leg, _) \<Rightarrow> bind_res (riskLegToProto leg (fieldName @ ''.stop_loss'') symbol) (\<lambda>p. Inr (Some (StopLoss p)))
     | (None, Some t) \<Rightarrow>
         bind_res (trailingStopToProto t (fieldName @ ''.trailing_stop'') symbol) (\<lambda>p. Inr (Some (TrailingStop p)))
     | (None, None) \<Rightarrow> Inr None)"

definition RiskPolicyToProto :: "attached_risk_input option \<Rightarrow> string \<Rightarrow> string \<Rightarrow> risk_policy option res" where
  "RiskPolicyToProto input fieldName symbol = (case input of
       None \<Rightarrow> Inr None
     | Some i \<Rightarrow>
         (let hasStop = (ar_stopLoss i \<noteq> None \<or> ar_trailingStop i \<noteq> None) in
          if ar_stopLoss i \<noteq> None \<and> ar_trailingStop i \<noteq> None
          then Inl (ValidationError (fieldName @ '' allows at most one of stop_loss or trailing_stop''))
          else if ar_takeProfit i = None \<and> \<not> hasStop
          then Inl (ValidationError (fieldName @ '' requires take_profit and/or a stop leg''))
          else if ar_oco i \<and> (ar_takeProfit i = None \<or> \<not> hasStop)
          then Inl (ValidationError (fieldName @ ''.oco requires take_profit and exactly one stop leg (stop_loss or trailing_stop)''))
          else
            bind_res (case ar_takeProfit i of
                None \<Rightarrow> Inr None
              | Some leg \<Rightarrow> bind_res (riskLegToProto leg (fieldName @ ''.take_profit'') symbol) (\<lambda>p. Inr (Some p))) (\<lambda>takeProfit.
            bind_res (stop_leg_of i fieldName symbol) (\<lambda>stopLeg.
            Inr (Some \<lparr>rp_takeProfit = takeProfit, rp_stopLeg = stopLeg, rp_oco = ar_oco i\<rparr>)))))"

definition GetTrailingStop :: "risk_policy option \<Rightarrow> trailing_stop_policy option" where
  "GetTrailingStop policy = (case policy of None \<Rightarrow> None | Some p \<Rightarrow>
     (case rp_stopLeg p of Some (TrailingStop t) \<Rightarrow> Some t | _ \<Rightarrow> None))"

definition validateTrailingLimitForSide :: "risk_policy option \<Rightarrow> order_side \<Rightarrow> string \<Rightarrow> unit res" where
  "validateTrailingLimitForSide policy side fieldName = (case GetTrailingStop policy of
       None \<Rightarrow> Inr ()
     | Some trailing \<Rightarrow>
         if side = SELL \<and> tp_limitPriceTicks trailing = 0
         then Inl (trailingLimitError (fieldName @ ''.trailing_stop'') ''ERROR_CODE_TRIGGER_BUY_REQUIRES_LIMIT'' ''buy_required''
           (fieldName @ ''.trailing_stop.limit_price is required when the parent order sells: the maximum price its buy-back pays''))
         else if side = BUY \<and> tp_limitPriceTicks trailing \<noteq> 0
         then Inl (trailingLimitError (fieldName @ ''.trailing_stop'') ''ERROR_CODE_BAD_PRICE'' ''sell_unset''
           (fieldName @ ''.trailing_stop.limit_price must be unset when the parent order buys''))
         else Inr ())"

section \<open>Well-formed policies\<close>

text \<open>What the server requires of a policy whatever the order it protects.\<close>

definition leg_ok :: "risk_leg_policy \<Rightarrow> bool" where
  "leg_ok p \<longleftrightarrow> 0 < lp_triggerPriceTicks p \<and> (case lp_child p of RiskMarketIoc \<Rightarrow> True | RiskLimitGtc ticks \<Rightarrow> 0 < ticks)"

definition distance_ok :: "trailing_distance \<Rightarrow> bool" where
  "distance_ok d \<longleftrightarrow> (case d of TrailingDistanceTicks t \<Rightarrow> 0 < t | TrailingDistanceBps b \<Rightarrow> 1 \<le> b \<and> b \<le> 10000)"

definition slippage_ok :: "int \<Rightarrow> max_slippage option \<Rightarrow> bool" where
  "slippage_ok maxBps s \<longleftrightarrow> (case s of None \<Rightarrow> True | Some (MaxSlippageTicks t) \<Rightarrow> 0 < t
     | Some (MaxSlippageBps b) \<Rightarrow> 1 \<le> b \<and> b \<le> maxBps)"

definition trailing_ok :: "trailing_stop_policy \<Rightarrow> bool" where
  "trailing_ok t \<longleftrightarrow> distance_ok (tp_trailingDistance t) \<and> slippage_ok 9999 (tp_maxSlippage t)
     \<and> 0 \<le> tp_activationPriceTicks t \<and> 0 \<le> tp_limitPriceTicks t
     \<and> (tp_limitPriceTicks t \<noteq> 0 \<longrightarrow> tp_activationPriceTicks t \<le> tp_limitPriceTicks t)"

definition stop_leg_ok :: "stop_leg \<Rightarrow> bool" where
  "stop_leg_ok l \<longleftrightarrow> (case l of StopLoss p \<Rightarrow> leg_ok p | TrailingStop t \<Rightarrow> trailing_ok t)"

definition policy_ok :: "risk_policy \<Rightarrow> bool" where
  "policy_ok p \<longleftrightarrow> (rp_takeProfit p \<noteq> None \<or> rp_stopLeg p \<noteq> None)
     \<and> (rp_oco p \<longrightarrow> rp_takeProfit p \<noteq> None \<and> rp_stopLeg p \<noteq> None)
     \<and> pred_option leg_ok (rp_takeProfit p) \<and> pred_option stop_leg_ok (rp_stopLeg p)"

lemma validateBpsAtMost_Inr [simp]:
  "validateBpsAtMost f b False m = Inr () \<longleftrightarrow> 1 \<le> b \<and> b \<le> m"
  "validateBpsAtMost f b True m = Inr () \<longleftrightarrow> b = 0 \<or> 1 \<le> b \<and> b \<le> m"
  by (auto simp: validateBpsAtMost_def)

lemma bind_unit_Inr_iff: "bind_res (r :: unit res) f = Inr y \<longleftrightarrow> r = Inr () \<and> f () = Inr y"
  by (cases r) auto

lemma positivePriceTicks_Inr:
  "positivePriceTicks p f symbol = Inr t \<longleftrightarrow> ResolvePriceTicks p f symbol = Inr t \<and> 0 < t"
  by (cases "ResolvePriceTicks p f symbol") (auto simp: positivePriceTicks_def)

lemma riskLegToProto_ok: "riskLegToProto leg f symbol = Inr p \<Longrightarrow> leg_ok p"
  by (auto simp: riskLegToProto_def bind_res_Inr_iff positivePriceTicks_Inr leg_ok_def split: option.splits)

lemma trailing_limit_Inr:
  "trailing_limit_of i f symbol activation = Inr l \<Longrightarrow> l = 0 \<or> 0 < l \<and> activation \<le> l"
  by (auto simp: trailing_limit_of_def bind_res_Inr_iff split: option.splits if_splits)

lemma trailingStopToProto_ok:
  assumes "trailingStopToProto i f symbol = Inr t"
  shows "trailing_ok t"
proof -
  from assms obtain d s a l src where
    d: "trailing_distance_of i f = Inr d" and s: "trailing_slippage_of i f = Inr s"
    and a: "(case set_price (ti_activationPrice i) of None \<Rightarrow> Inr 0
      | Some p \<Rightarrow> positivePriceTicks p (f @ ''.activation_price'') symbol) = Inr a"
    and l: "trailing_limit_of i f symbol a = Inr l"
    and t: "t = \<lparr>tp_trailingDistance = d, tp_maxSlippage = s, tp_activationPriceTicks = a, tp_limitPriceTicks = l, tp_triggerPriceSource = src\<rparr>"
    by (auto simp: trailingStopToProto_def bind_res_Inr_iff split: if_splits)
  from d have "distance_ok d"
    by (auto simp: trailing_distance_of_def distance_ok_def validateBps_def bind_unit_Inr_iff MaxSlippageBpsLimit_def
        split: option.splits if_splits)
  moreover from s have "slippage_ok 9999 s"
    by (auto simp: trailing_slippage_of_def slippage_ok_def bind_unit_Inr_iff MaxSellingSlippageBps_def MaxSlippageBpsLimit_def
        split: option.splits if_splits)
  moreover from a have "0 \<le> a" by (auto simp: positivePriceTicks_Inr split: option.splits)
  ultimately show ?thesis using trailing_limit_Inr [OF l] t by (auto simp: trailing_ok_def)
qed

lemma RiskPolicyToProto_ok:
  assumes "RiskPolicyToProto input f symbol = Inr (Some p)"
  shows "policy_ok p"
  using assms
  by (auto simp: RiskPolicyToProto_def stop_leg_of_def bind_res_Inr_iff policy_ok_def stop_leg_ok_def
      riskLegToProto_ok trailingStopToProto_ok Let_def split: option.splits if_splits)

lemma RiskPolicyToProto_None: "RiskPolicyToProto input f symbol = Inr None \<longleftrightarrow> input = None"
  by (auto simp: RiskPolicyToProto_def bind_res_Inr_iff Let_def split: option.splits if_splits)

text \<open>The names of the enumerations are read back.\<close>

lemma to_lower_names [simp]: "to_lower ''buy'' = ''buy''" "to_lower ''sell'' = ''sell''"
  "to_lower ''last'' = ''last''" "to_lower ''index'' = ''index''" "to_lower ''mark'' = ''mark''"
  by code_simp+

lemma side_name_read: "side \<noteq> SIDE_UNSPECIFIED \<Longrightarrow> map_of orderSideToProto (to_lower (OrderSideName side)) = Some side"
  by (cases side) (simp_all add: orderSideToProto_def OrderSideName_def lower_char_def)

lemma source_name_read: "triggerPriceSourceToProto (TriggerPriceSourceName source) f = Inr source"
  by (cases source) (simp_all add: triggerPriceSourceToProto_def triggerPriceSourceToProtoMap_def TriggerPriceSourceName_def lower_char_def)

end
