(* ===== verification/OrderEncode.thy ===== *)
theory OrderEncode
  imports RiskEncode
begin

text \<open>
  \<open>codecs/orders.go\<close>: the encoding of create, preview, modify and cancel requests. The clock reading,
  the reading of an RFC 3339 text by Go's \<open>time.Parse\<close> (an instant in nanoseconds, UTC), base58 and the
  random bytes of a generated request id are arguments. Instants and durations are nanoseconds.
\<close>

section \<open>The request and the wire\<close>

record create_order_request =
  cr_symbol :: "string option"
  cr_symbolID :: "u32 option"
  cr_side :: string
  cr_orderType :: string
  cr_tif :: "string option"
  cr_qty :: qty_input
  cr_maxQuoteDebit :: qty_input
  cr_price :: "price_input option"
  cr_subAccountID :: "string option"
  cr_clientOrderID :: "string option"
  cr_postOnly :: bool
  cr_expiresAt :: "string option"
  cr_attachedRisk :: "attached_risk_input option"
  cr_marketClientRefPrice :: "price_input option"
  cr_feeAsset :: "string option"
  cr_maxSlippageTicks :: "int option"
  cr_maxSlippageBps :: "int option"
  cr_selfTradePreventionMode :: "string option"

datatype fee_asset = FEE_ASSET_UNSPECIFIED | QUOTE | BASE

datatype stp_mode = STP_UNSPECIFIED | EXPIRE_MAKER | EXPIRE_TAKER | EXPIRE_BOTH

datatype modify_behavior = MODIFY_BEHAVIOR_UNSPECIFIED | AMEND_OR_REPLACE | AMEND_ONLY | REPLACE_ONLY

datatype order_sizing = BaseQtyScaled int | MaxQuoteDebitScaled int

text \<open>The constructors' fields: reference price and slippage cap of a market order; price, post-only
  and expiry of the limit orders.\<close>

datatype order_execution =
    MarketIoc int "max_slippage option"
  | LimitIoc int
  | LimitFok int
  | LimitGtd int bool int
  | LimitGtc int bool

record order_intent =
  oi_symbolId :: u32
  oi_side :: order_side
  oi_feeAsset :: fee_asset
  oi_sizing :: order_sizing
  oi_clientOrderId :: string
  oi_selfTradePreventionMode :: stp_mode
  oi_execution :: order_execution
  oi_attachedRisk :: "risk_policy option"

definition feeAssetToProto :: "(string \<times> fee_asset) list" where
  "feeAssetToProto = [(''quote'', QUOTE), (''base'', BASE)]"

definition selfTradePreventionModeToProto :: "(string \<times> stp_mode) list" where
  "selfTradePreventionModeToProto =
     [(''expire_taker'', EXPIRE_TAKER), (''expire_maker'', EXPIRE_MAKER), (''expire_both'', EXPIRE_BOTH)]"

definition modifyBehaviorToProto :: "(string \<times> modify_behavior) list" where
  "modifyBehaviorToProto =
     [(''amend_or_replace'', AMEND_OR_REPLACE), (''amend_only'', AMEND_ONLY), (''replace_only'', REPLACE_ONLY)]"

section \<open>Expiry\<close>

definition gtdMinOffset :: int where
  "gtdMinOffset = 1000000000"

definition gtdMaxOffset :: int where
  "gtdMaxOffset = 30 * 24 * 3600 * 1000000000"

definition parseGTDExpireAt :: "(string \<Rightarrow> int option) \<Rightarrow> string \<Rightarrow> int \<Rightarrow> int res" where
  "parseGTDExpireAt parse_time text0 now =
     (let text = trim_space text0 in
      if text = [] then Inl (ValidationError (''tif='' @ squoted ''gtd'' @ '' requires expires_at''))
      else case parse_time text of
          None \<Rightarrow> Inl (ValidationError ''expires_at must be an RFC3339 UTC timestamp'')
        | Some parsed \<Rightarrow>
            if parsed - now < gtdMinOffset \<or> parsed - now > gtdMaxOffset
            then Inl (ValidationError ''expires_at must be between 1 second and 30 days after validation'')
            else Inr parsed)"

section \<open>The intent, field by field\<close>

definition ParseOptionalSubaccountID ::
  "(byte list \<Rightarrow> string) \<Rightarrow> (string \<Rightarrow> byte list option) \<Rightarrow> string option \<Rightarrow> u64 option res" where
  "ParseOptionalSubaccountID enc dec text = (case text of None \<Rightarrow> Inr None
     | Some s \<Rightarrow> if s = [] then Inr None
         else bind_res (IDToInt enc dec s ''sub_account_id'') (\<lambda>parsed. Inr (Some parsed)))"

definition order_sizing_of ::
  "create_order_request \<Rightarrow> order_side \<Rightarrow> int \<Rightarrow> int \<Rightarrow> string \<Rightarrow> order_sizing res" where
  "order_sizing_of req side quantityScale quoteQuantityScale symbol =
     (if qty_IsSet (cr_qty req) = qty_IsSet (cr_maxQuoteDebit req)
      then Inl (ValidationError ''orders.create requires exactly one of qty or max_quote_debit_scaled'')
      else if qty_IsSet (cr_qty req)
      then bind_res (ResolveQtyScaled (cr_qty req) quantityScale ''qty'' symbol (cr_symbolID req))
        (\<lambda>qty. Inr (BaseQtyScaled qty))
      else if side \<noteq> BUY
      then Inl (ValidationError ''max_quote_debit_scaled is only valid for buy orders'')
      else bind_res (ResolveQuoteQtyScaled (cr_maxQuoteDebit req) quoteQuantityScale ''max_quote_debit_scaled'' symbol (cr_symbolID req))
        (\<lambda>budget. Inr (MaxQuoteDebitScaled budget)))"

definition order_fee_asset_of :: "create_order_request \<Rightarrow> order_side \<Rightarrow> fee_asset res" where
  "order_fee_asset_of req side = (case cr_feeAsset req of
       None \<Rightarrow> Inr QUOTE
     | Some text \<Rightarrow> (case map_of feeAssetToProto (to_lower text) of
           None \<Rightarrow> Inl (ValidationError ''fee_asset must be quote or base'')
         | Some feeAsset \<Rightarrow>
             if feeAsset = BASE \<and> side \<noteq> BUY
             then Inl (ValidationError ''fee_asset=base is only valid for buy orders'')
             else Inr feeAsset))"

definition stp_mode_of :: "string option \<Rightarrow> stp_mode res" where
  "stp_mode_of text = (case text of
       None \<Rightarrow> Inr STP_UNSPECIFIED
     | Some t \<Rightarrow> (case map_of selfTradePreventionModeToProto (to_lower t) of
           None \<Rightarrow> Inl (ValidationError ''self_trade_prevention_mode must be expire_taker, expire_maker, or expire_both'')
         | Some mode \<Rightarrow> Inr mode))"

definition order_price_of :: "create_order_request \<Rightarrow> string \<Rightarrow> int option res" where
  "order_price_of req symbol = (case set_price (cr_price req) of
       None \<Rightarrow> Inr None
     | Some p \<Rightarrow> bind_res (ResolvePriceTicks p ''price'' symbol) (\<lambda>ticks. Inr (Some ticks)))"

definition order_tif_of :: "create_order_request \<Rightarrow> string res" where
  "order_tif_of req = (case cr_tif req of
       None \<Rightarrow> Inr []
     | Some text \<Rightarrow> (let tif = to_lower text in
         if tif \<notin> {''gtc'', ''ioc'', ''fok'', ''gtd''}
         then Inl (ValidationError (''tif must be one of '' @ squoted ''gtc'' @ '', '' @ squoted ''ioc'' @ '', '' @ squoted ''fok'' @ '', or '' @ squoted ''gtd'')) else Inr tif))"

definition applyMarketMaxSlippage :: "order_side \<Rightarrow> int option \<Rightarrow> int option \<Rightarrow> max_slippage option res" where
  "applyMarketMaxSlippage side ticks bps = (case (ticks, bps) of
       (Some _, Some _) \<Rightarrow> Inl (ValidationError ''market_ioc allows at most one of max_slippage_ticks or max_slippage_bps'')
     | (Some t, None) \<Rightarrow>
         if t \<le> 0 then Inl (ValidationError ''max_slippage_ticks must be positive'') else Inr (Some (MaxSlippageTicks t))
     | (None, Some b) \<Rightarrow>
         bind_res (validateBpsAtMost ''max_slippage_bps'' b False (if side = SELL then MaxSellingSlippageBps else MaxSlippageBpsLimit))
           (\<lambda>_. Inr (Some (MaxSlippageBps b)))
     | (None, None) \<Rightarrow> Inr None)"

definition market_execution_of ::
  "create_order_request \<Rightarrow> order_side \<Rightarrow> string \<Rightarrow> string \<Rightarrow> int option \<Rightarrow> order_execution res" where
  "market_execution_of req side symbol tif price =
     (if tif = ''gtd'' then Inl (ValidationError (''tif='' @ squoted ''gtd'' @ '' is only valid for limit orders''))
      else if cr_postOnly req then Inl (ValidationError ''post_only is not supported for market orders'')
      else if price \<noteq> None
      then Inl (ValidationError ''price is not valid for market orders; use market_client_ref_price for a reservation reference'')
      else
        bind_res (case set_price (cr_marketClientRefPrice req) of
            None \<Rightarrow> Inr 0
          | Some p \<Rightarrow> ResolvePriceTicks p ''market_client_ref_price'' symbol) (\<lambda>ref.
        bind_res (applyMarketMaxSlippage side (cr_maxSlippageTicks req) (cr_maxSlippageBps req)) (\<lambda>slippage.
        Inr (MarketIoc ref slippage))))"

definition limit_execution_of ::
  "(string \<Rightarrow> int option) \<Rightarrow> int \<Rightarrow> create_order_request \<Rightarrow> string \<Rightarrow> int option \<Rightarrow> order_execution res" where
  "limit_execution_of parse_time now req tif price =
     (if cr_maxSlippageTicks req \<noteq> None \<or> cr_maxSlippageBps req \<noteq> None
      then Inl (ValidationError ''max_slippage_ticks and max_slippage_bps are only valid for market orders'')
      else case price of
          None \<Rightarrow> Inl (ValidationError ''limit orders require price'')
        | Some ticks \<Rightarrow>
            if tif = ''ioc''
            then (if cr_postOnly req then Inl (ValidationError ''post_only is not supported for ioc limit orders'')
                  else Inr (LimitIoc ticks))
            else if tif = ''fok''
            then (if cr_postOnly req then Inl (ValidationError ''post_only is not supported for fok limit orders'')
                  else Inr (LimitFok ticks))
            else if tif = ''gtd''
            then bind_res (parseGTDExpireAt parse_time (case cr_expiresAt req of None \<Rightarrow> [] | Some t \<Rightarrow> t) now)
              (\<lambda>expireAt. Inr (LimitGtd ticks (cr_postOnly req) expireAt))
            else Inr (LimitGtc ticks (cr_postOnly req)))"

definition OrderIntentToProto ::
  "(string \<Rightarrow> int option) \<Rightarrow> int \<Rightarrow> create_order_request \<Rightarrow> int \<Rightarrow> int \<Rightarrow> order_intent res" where
  "OrderIntentToProto parse_time now req quantityScale quoteQuantityScale =
     (let symbolID = (case cr_symbolID req of None \<Rightarrow> 0 | Some i \<Rightarrow> i);
          orderType = to_lower (cr_orderType req);
          symbol = (case cr_symbol req of None \<Rightarrow> [] | Some s \<Rightarrow> s)
      in if symbolID = 0
      then Inl (ValidationError ''orders.create requires a resolved non-zero symbol_id'')
      else case map_of orderSideToProto (to_lower (cr_side req)) of
        None \<Rightarrow> Inl (ValidationError (''side must be '' @ squoted ''buy'' @ '' or '' @ squoted ''sell''))
      | Some side \<Rightarrow>
        if orderType \<noteq> ''limit'' \<and> orderType \<noteq> ''market''
        then Inl (ValidationError (''order_type must be '' @ squoted ''limit'' @ '' or '' @ squoted ''market''))
        else
        bind_res (order_sizing_of req side quantityScale quoteQuantityScale symbol) (\<lambda>sizing.
        bind_res (optionalClientID (cr_clientOrderID req) ''client_order_id'') (\<lambda>clientOrderID.
        bind_res (order_fee_asset_of req side) (\<lambda>feeAsset.
        bind_res (stp_mode_of (cr_selfTradePreventionMode req)) (\<lambda>mode.
        bind_res (order_price_of req symbol) (\<lambda>price.
        bind_res (order_tif_of req) (\<lambda>tif.
        if (case cr_expiresAt req of None \<Rightarrow> False | Some t \<Rightarrow> trim_space t \<noteq> []) \<and> tif \<noteq> ''gtd''
        then Inl (ValidationError ''expires_at is only valid for limit GTD orders'')
        else
        bind_res (if orderType = ''market'' then market_execution_of req side symbol tif price
                  else limit_execution_of parse_time now req tif price) (\<lambda>execution.
        if qty_IsSet (cr_maxQuoteDebit req) \<and> orderType = ''limit'' \<and> tif \<noteq> ''ioc''
        then Inl (ValidationError ''max_quote_debit_scaled is only valid for buy market or limit IOC orders'')
        else
        bind_res (RiskPolicyToProto (cr_attachedRisk req) ''attached_risk'' symbol) (\<lambda>risk.
        bind_res (validateTrailingLimitForSide risk side ''attached_risk'') (\<lambda>_.
        Inr \<lparr>oi_symbolId = symbolID, oi_side = side, oi_feeAsset = feeAsset, oi_sizing = sizing,
             oi_clientOrderId = (case clientOrderID of None \<Rightarrow> [] | Some c \<Rightarrow> c),
             oi_selfTradePreventionMode = mode, oi_execution = execution, oi_attachedRisk = risk\<rparr>))))))))))"

section \<open>Requests\<close>

text \<open>Create and preview send the same message.\<close>

record create_order_message =
  cm_subaccountId :: "u64 option"
  cm_order :: order_intent

definition optional_subaccount ::
  "(byte list \<Rightarrow> string) \<Rightarrow> (string \<Rightarrow> byte list option) \<Rightarrow> string option \<Rightarrow> u64 option res" where
  "optional_subaccount enc dec subAccountID = (case subAccountID of None \<Rightarrow> Inr None
     | Some text \<Rightarrow> bind_res (IDToInt enc dec text ''sub_account_id'') (\<lambda>sub. Inr (Some sub)))"

definition CreateOrderToProto ::
  "(byte list \<Rightarrow> string) \<Rightarrow> (string \<Rightarrow> byte list option) \<Rightarrow> (string \<Rightarrow> int option) \<Rightarrow> int
    \<Rightarrow> create_order_request \<Rightarrow> int \<Rightarrow> int \<Rightarrow> create_order_message res" where
  "CreateOrderToProto enc dec parse_time now req quantityScale quoteQuantityScale =
     bind_res (OrderIntentToProto parse_time now req quantityScale quoteQuantityScale) (\<lambda>intent.
     bind_res (optional_subaccount enc dec (cr_subAccountID req)) (\<lambda>sub.
     Inr \<lparr>cm_subaccountId = sub, cm_order = intent\<rparr>))"

definition PreviewOrderToProto ::
  "(byte list \<Rightarrow> string) \<Rightarrow> (string \<Rightarrow> byte list option) \<Rightarrow> (string \<Rightarrow> int option) \<Rightarrow> int
    \<Rightarrow> create_order_request \<Rightarrow> int \<Rightarrow> int \<Rightarrow> create_order_message res" where
  "PreviewOrderToProto enc dec parse_time now req quantityScale quoteQuantityScale =
     bind_res (OrderIntentToProto parse_time now req quantityScale quoteQuantityScale) (\<lambda>intent.
     bind_res (optional_subaccount enc dec (cr_subAccountID req)) (\<lambda>sub.
     Inr \<lparr>cm_subaccountId = sub, cm_order = intent\<rparr>))"

record modify_order_message =
  mm_requestId :: string
  mm_symbolId :: u32
  mm_key :: wire_key
  mm_subaccountId :: "u64 option"
  mm_newPriceTicks :: "int option"
  mm_newQtyScaled :: "int option"
  mm_newAttachedRisk :: "risk_policy option"
  mm_behavior :: modify_behavior
  mm_newClientOrderId :: string

definition new_price_of :: "price_input option \<Rightarrow> string \<Rightarrow> int option res" where
  "new_price_of newPrice symbol = (case set_price newPrice of
       None \<Rightarrow> Inr None
     | Some p \<Rightarrow> bind_res (ResolvePriceTicks p ''new_price'' symbol) (\<lambda>ticks. Inr (Some ticks)))"

definition new_qty_of :: "qty_input option \<Rightarrow> int \<Rightarrow> string \<Rightarrow> u32 option \<Rightarrow> int option res" where
  "new_qty_of newQty quantityScale symbol symbolID = (case set_qty newQty of
       None \<Rightarrow> Inr None
     | Some q \<Rightarrow> bind_res (ResolveQtyScaled q quantityScale ''new_qty'' symbol symbolID) (\<lambda>qty. Inr (Some qty)))"

definition ModifyOrderToProto ::
  "(byte list \<Rightarrow> string) \<Rightarrow> (string \<Rightarrow> byte list option) \<Rightarrow> byte list \<Rightarrow> string \<Rightarrow> u32 \<Rightarrow> order_key
    \<Rightarrow> string option \<Rightarrow> string option \<Rightarrow> price_input option \<Rightarrow> qty_input option \<Rightarrow> attached_risk_input option
    \<Rightarrow> string option \<Rightarrow> string option \<Rightarrow> int \<Rightarrow> modify_order_message res" where
  "ModifyOrderToProto enc dec rnd symbol symbolID key subAccountID requestID newPrice newQty newAttachedRisk
       behavior newClientOrderID quantityScale =
     (if symbolID = 0 then Inl (ValidationError ''modify requires a resolved non-zero symbol_id'')
      else if set_price newPrice = None \<and> set_qty newQty = None \<and> newAttachedRisk = None
      then Inl (ValidationError ''modify requires new_price, new_qty, and/or new_attached_risk'')
      else
        bind_res (coalesceRequestID requestID ''mod'' rnd) (\<lambda>resolvedRequestID.
        bind_res (ApplyOrderKeyToModify enc dec key) (\<lambda>wireKey.
        bind_res (optional_subaccount enc dec subAccountID) (\<lambda>sub.
        bind_res (new_price_of newPrice symbol) (\<lambda>price.
        bind_res (new_qty_of newQty quantityScale symbol (Some symbolID)) (\<lambda>qty.
        bind_res (RiskPolicyToProto newAttachedRisk ''new_attached_risk'' symbol) (\<lambda>risk.
        bind_res (case behavior of None \<Rightarrow> Inr MODIFY_BEHAVIOR_UNSPECIFIED
            | Some text \<Rightarrow> (case map_of modifyBehaviorToProto (to_lower text) of
                  None \<Rightarrow> Inl (ValidationError ''behavior must be amend_or_replace, amend_only, or replace_only'')
                | Some b \<Rightarrow> Inr b)) (\<lambda>b.
        bind_res (optionalClientID newClientOrderID ''new_client_order_id'') (\<lambda>newID.
        Inr \<lparr>mm_requestId = resolvedRequestID, mm_symbolId = symbolID, mm_key = wireKey, mm_subaccountId = sub,
             mm_newPriceTicks = price, mm_newQtyScaled = qty, mm_newAttachedRisk = risk, mm_behavior = b,
             mm_newClientOrderId = (case newID of None \<Rightarrow> [] | Some c \<Rightarrow> c)\<rparr>)))))))))"

section \<open>Cancelling many orders\<close>

definition maxCancelAllSymbolIDs :: nat where
  "maxCancelAllSymbolIDs = 100"

fun unique_ids :: "u32 list \<Rightarrow> u32 list \<Rightarrow> u32 list res" where
  "unique_ids unique [] = Inr unique"
| "unique_ids unique (i # ids) =
     (if i = 0 then Inl (ValidationError ''cancel_all symbol_ids must be positive'')
      else if i \<in> set unique then unique_ids unique ids
      else unique_ids (unique @ [i]) ids)"

record cancel_all_message =
  ca_requestId :: string
  ca_dryRun :: bool
  ca_symbolIds :: "u32 list"
  ca_subaccountId :: "u64 option"
  ca_side :: order_side

definition optional_side :: "string option \<Rightarrow> order_side res" where
  "optional_side text = (case text of
       None \<Rightarrow> Inr SIDE_UNSPECIFIED
     | Some t \<Rightarrow> (case map_of orderSideToProto (to_lower t) of
           None \<Rightarrow> Inl (ValidationError ''side must be buy or sell'')
         | Some s \<Rightarrow> Inr s))"

definition CancelAllOrdersToProto ::
  "(byte list \<Rightarrow> string) \<Rightarrow> (string \<Rightarrow> byte list option) \<Rightarrow> byte list \<Rightarrow> string option \<Rightarrow> u32 list \<Rightarrow> string option
    \<Rightarrow> bool \<Rightarrow> string option \<Rightarrow> cancel_all_message res" where
  "CancelAllOrdersToProto enc dec rnd subAccountID symbolIDs side dryRun requestID =
     bind_res (coalesceRequestID requestID ''cancel-all'' rnd) (\<lambda>resolvedRequestID.
     bind_res (unique_ids [] symbolIDs) (\<lambda>unique.
     if length unique > maxCancelAllSymbolIDs
     then Inl (ValidationError ''cancel_all accepts at most 100 symbol_ids'')
     else
       bind_res (optional_subaccount enc dec subAccountID) (\<lambda>sub.
       bind_res (optional_side side) (\<lambda>s.
       Inr \<lparr>ca_requestId = resolvedRequestID, ca_dryRun = dryRun, ca_symbolIds = unique, ca_subaccountId = sub,
            ca_side = s\<rparr>))))"

record cancel_after_message =
  cf_requestId :: string
  cf_timeoutSec :: u32
  cf_subaccountId :: "u64 option"
  cf_symbolId :: u32
  cf_side :: order_side

definition CancelAllAfterToProto ::
  "(byte list \<Rightarrow> string) \<Rightarrow> (string \<Rightarrow> byte list option) \<Rightarrow> byte list \<Rightarrow> string option \<Rightarrow> int \<Rightarrow> u32 option
    \<Rightarrow> string option \<Rightarrow> string option \<Rightarrow> cancel_after_message res" where
  "CancelAllAfterToProto enc dec rnd subAccountID timeoutSec symbolID side requestID =
     bind_res (coalesceRequestID requestID ''cancel-after'' rnd) (\<lambda>resolvedRequestID.
     if timeoutSec < 0 \<or> timeoutSec > 4294967295
     then Inl (ValidationError (''cancel_all_after timeout_sec '' @ itoa timeoutSec @ '' is outside 0..'' @ itoa 4294967295))
     else
       bind_res (optional_subaccount enc dec subAccountID) (\<lambda>sub.
       bind_res (optional_side side) (\<lambda>s.
       Inr \<lparr>cf_requestId = resolvedRequestID, cf_timeoutSec = word_of_int timeoutSec, cf_subaccountId = sub,
            cf_symbolId = (case symbolID of None \<Rightarrow> 0 | Some i \<Rightarrow> i), cf_side = s\<rparr>)))"

section \<open>Well-formed intents\<close>

text \<open>What the contract requires of an intent, at the time it was encoded.\<close>

definition execution_ok :: "int \<Rightarrow> order_side \<Rightarrow> order_execution \<Rightarrow> bool" where
  "execution_ok now side e \<longleftrightarrow> (case e of
       MarketIoc ref slippage \<Rightarrow> slippage_ok (if side = SELL then 9999 else 10000) slippage
     | LimitGtd p postOnly expireAt \<Rightarrow> now + gtdMinOffset \<le> expireAt \<and> expireAt \<le> now + gtdMaxOffset
     | _ \<Rightarrow> True)"

definition sizing_ok :: "order_side \<Rightarrow> order_execution \<Rightarrow> order_sizing \<Rightarrow> bool" where
  "sizing_ok side e s \<longleftrightarrow> (case s of BaseQtyScaled q \<Rightarrow> True
     | MaxQuoteDebitScaled b \<Rightarrow> 0 < b \<and> side = BUY \<and> (case e of MarketIoc _ _ \<Rightarrow> True | LimitIoc _ \<Rightarrow> True | _ \<Rightarrow> False))"

definition risk_ok_for :: "order_side \<Rightarrow> risk_policy option \<Rightarrow> bool" where
  "risk_ok_for side p \<longleftrightarrow> pred_option policy_ok p
     \<and> (case GetTrailingStop p of None \<Rightarrow> True | Some t \<Rightarrow> (tp_limitPriceTicks t \<noteq> 0 \<longleftrightarrow> side = SELL))"

definition intent_ok :: "int \<Rightarrow> order_intent \<Rightarrow> bool" where
  "intent_ok now i \<longleftrightarrow> oi_symbolId i \<noteq> 0 \<and> oi_side i \<noteq> SIDE_UNSPECIFIED
     \<and> (oi_feeAsset i = QUOTE \<or> oi_feeAsset i = BASE \<and> oi_side i = BUY)
     \<and> (oi_clientOrderId i = [] \<or> valid_id 36 (oi_clientOrderId i))
     \<and> execution_ok now (oi_side i) (oi_execution i)
     \<and> sizing_ok (oi_side i) (oi_execution i) (oi_sizing i)
     \<and> risk_ok_for (oi_side i) (oi_attachedRisk i)"

section \<open>What inputs denote\<close>

definition price_denotes :: "price_input \<Rightarrow> int \<Rightarrow> bool" where
  "price_denotes p n \<longleftrightarrow> (if pi_hasTicks p then n = pt_ticks (pi_ticks p)
     else decimal_is (trim_space (pi_decimal p)) n 9 \<and> 0 \<le> n \<and> n \<le> int64Max)"

definition qty_denotes :: "qty_input \<Rightarrow> int \<Rightarrow> int \<Rightarrow> bool" where
  "qty_denotes q scale n \<longleftrightarrow> 0 < n \<and> (if qi_hasScaled q then n = qs_scaled (qi_scaled q)
     else decimal_is (trim_space (qi_decimal q)) n scale)"

lemma resolved_price: "ResolvePriceTicks p f symbol = Inr n \<Longrightarrow> price_denotes p n"
  by (auto simp: ResolvePriceTicks_def price_denotes_def bind_res_Inr_iff ParsePriceTicks_iff is_int64_def int64Min_def
      split: if_splits)

lemma resolved_qty:
  assumes "ResolveQtyScaled q scale f symbol symbolID = Inr n" and "qi_hasScaled q \<or> scale \<noteq> 18"
  shows "qty_denotes q scale n"
proof (cases "qi_hasScaled q")
  case True
  with assms(1) show ?thesis by (auto simp: ResolveQtyScaled_def qty_denotes_def bind_res_Inr_iff split: if_splits)
next
  case False
  with assms obtain u where u: "ParseQtyScaled (qi_decimal q) scale f = Inr u" "n = wrap64 u"
    by (auto simp: ResolveQtyScaled_def bind_res_Inr_iff split: if_splits)
  with False assms(2) have "decimal_is (trim_space (qi_decimal q)) u scale" "0 < u" "u \<le> int64Max"
    by (auto simp: ParseQtyScaled_iff qty_limit_def)
  with u(2) False show ?thesis by (simp add: qty_denotes_def is_int64_def int64Min_def)
qed

lemma resolved_quote:
  assumes "ResolveQuoteQtyScaled q scale f symbol symbolID = Inr n"
  shows "qty_denotes q scale n"
proof (cases "qi_hasScaled q")
  case True
  with assms show ?thesis by (auto simp: ResolveQuoteQtyScaled_def qty_denotes_def bind_res_Inr_iff split: if_splits)
next
  case False
  with assms obtain u where u: "ParseQtyScaled (qi_decimal q) scale f = Inr u" "n = wrap64 u" "0 < n"
    by (auto simp: ResolveQuoteQtyScaled_def bind_res_Inr_iff split: if_splits)
  then have d: "decimal_is (trim_space (qi_decimal q)) u scale" "0 < u" "u \<le> Uint64Max"
    by (auto simp: ParseQtyScaled_iff qty_limit_def int64_defs split: if_splits)
  have "u \<le> int64Max"
  proof (rule ccontr)
    assume "\<not> u \<le> int64Max"
    with d(3) have "wrap64 u = u - 18446744073709551616" by (intro wrap64_above) (simp_all add: int64_defs)
    with d(3) u(2,3) show False by (simp add: int64_defs)
  qed
  with d u False show ?thesis by (simp add: qty_denotes_def is_int64_def int64Min_def)
qed

section \<open>The intent taken apart\<close>

lemma OrderIntentToProto_Inr:
  assumes "OrderIntentToProto parse_time now req quantityScale quoteQuantityScale = Inr i"
  obtains symbolID symbol side sizing cid fee mode price tif execution risk where
    "cr_symbolID req = Some symbolID" "symbolID \<noteq> 0" "map_of orderSideToProto (to_lower (cr_side req)) = Some side"
    "symbol = (case cr_symbol req of None \<Rightarrow> [] | Some s \<Rightarrow> s)"
    "to_lower (cr_orderType req) = ''limit'' \<or> to_lower (cr_orderType req) = ''market''"
    "order_sizing_of req side quantityScale quoteQuantityScale symbol = Inr sizing"
    "optionalClientID (cr_clientOrderID req) ''client_order_id'' = Inr cid"
    "order_fee_asset_of req side = Inr fee" "stp_mode_of (cr_selfTradePreventionMode req) = Inr mode"
    "order_price_of req symbol = Inr price" "order_tif_of req = Inr tif"
    "(case cr_expiresAt req of None \<Rightarrow> False | Some t \<Rightarrow> trim_space t \<noteq> []) \<longrightarrow> tif = ''gtd''"
    "(if to_lower (cr_orderType req) = ''market'' then market_execution_of req side symbol tif price
      else limit_execution_of parse_time now req tif price) = Inr execution"
    "qty_IsSet (cr_maxQuoteDebit req) \<and> to_lower (cr_orderType req) = ''limit'' \<longrightarrow> tif = ''ioc''"
    "RiskPolicyToProto (cr_attachedRisk req) ''attached_risk'' symbol = Inr risk"
    "validateTrailingLimitForSide risk side ''attached_risk'' = Inr ()"
    "i = \<lparr>oi_symbolId = symbolID, oi_side = side, oi_feeAsset = fee, oi_sizing = sizing,
         oi_clientOrderId = (case cid of None \<Rightarrow> [] | Some c \<Rightarrow> c), oi_selfTradePreventionMode = mode,
         oi_execution = execution, oi_attachedRisk = risk\<rparr>"
proof (cases "cr_symbolID req")
  case (Some symbolID)
  show thesis
    using assms unfolding OrderIntentToProto_def Let_def
    by (elim refuse_InrE lookup_InrE bind_res_InrE) (rule that, use Some in auto)
next
  case None
  with assms show thesis by (simp add: OrderIntentToProto_def)
qed

text \<open>The kind of order an execution stands for, its time in force, price, post-only flag and expiry.\<close>

definition exec_type :: "order_execution \<Rightarrow> string" where
  "exec_type e = (case e of MarketIoc _ _ \<Rightarrow> ''market'' | _ \<Rightarrow> ''limit'')"

definition exec_tif :: "order_execution \<Rightarrow> string" where
  "exec_tif e = (case e of MarketIoc _ _ \<Rightarrow> ''ioc'' | LimitIoc _ \<Rightarrow> ''ioc'' | LimitFok _ \<Rightarrow> ''fok''
     | LimitGtd _ _ _ \<Rightarrow> ''gtd'' | LimitGtc _ _ \<Rightarrow> ''gtc'')"

definition exec_price :: "order_execution \<Rightarrow> int option" where
  "exec_price e = (case e of MarketIoc _ _ \<Rightarrow> None | LimitIoc p \<Rightarrow> Some p | LimitFok p \<Rightarrow> Some p
     | LimitGtd p _ _ \<Rightarrow> Some p | LimitGtc p _ \<Rightarrow> Some p)"

definition exec_postOnly :: "order_execution \<Rightarrow> bool" where
  "exec_postOnly e = (case e of LimitGtd _ b _ \<Rightarrow> b | LimitGtc _ b \<Rightarrow> b | _ \<Rightarrow> False)"

lemmas exec_defs = exec_type_def exec_tif_def exec_price_def exec_postOnly_def

lemma parseGTDExpireAt_Inr:
  "parseGTDExpireAt parse_time text now = Inr t \<Longrightarrow>
    parse_time (trim_space text) = Some t \<and> now + gtdMinOffset \<le> t \<and> t \<le> now + gtdMaxOffset"
  by (auto simp: parseGTDExpireAt_def Let_def split: if_splits option.splits)

lemma market_execution_Inr:
  assumes "market_execution_of req side symbol tif price = Inr e"
  obtains ref slippage where "e = MarketIoc ref slippage" "tif \<noteq> ''gtd''" "\<not> cr_postOnly req" "price = None"
    "(case set_price (cr_marketClientRefPrice req) of None \<Rightarrow> Inr 0
      | Some p \<Rightarrow> ResolvePriceTicks p ''market_client_ref_price'' symbol) = Inr ref"
    "applyMarketMaxSlippage side (cr_maxSlippageTicks req) (cr_maxSlippageBps req) = Inr slippage"
  using assms unfolding market_execution_of_def
  by (elim refuse_InrE bind_res_InrE) (rule that, auto)

lemma limit_execution_Inr:
  assumes "limit_execution_of parse_time now req tif price = Inr e"
  obtains ticks where "price = Some ticks" "cr_maxSlippageTicks req = None" "cr_maxSlippageBps req = None"
    "e = LimitIoc ticks \<and> tif = ''ioc'' \<and> \<not> cr_postOnly req \<or> e = LimitFok ticks \<and> tif = ''fok'' \<and> \<not> cr_postOnly req
     \<or> (\<exists>x. e = LimitGtd ticks (cr_postOnly req) x \<and> tif = ''gtd''
          \<and> parseGTDExpireAt parse_time (case cr_expiresAt req of None \<Rightarrow> [] | Some t \<Rightarrow> t) now = Inr x)
     \<or> e = LimitGtc ticks (cr_postOnly req) \<and> tif \<notin> {''ioc'', ''fok'', ''gtd''}"
proof -
  from assms obtain ticks where t: "price = Some ticks" "cr_maxSlippageTicks req = None" "cr_maxSlippageBps req = None"
    unfolding limit_execution_of_def by (elim refuse_InrE lookup_InrE) auto
  show thesis
    by (rule that [OF t]) (use assms t in \<open>auto simp: limit_execution_of_def bind_res_Inr_iff split: if_splits\<close>)
qed

lemma applyMarketMaxSlippage_ok:
  "applyMarketMaxSlippage side ticks bps = Inr s \<Longrightarrow> slippage_ok (if side = SELL then 9999 else 10000) s"
  by (auto simp: applyMarketMaxSlippage_def slippage_ok_def bind_unit_Inr_iff MaxSellingSlippageBps_def MaxSlippageBpsLimit_def
      split: option.splits if_splits)

lemma order_fee_asset_ok: "order_fee_asset_of req side = Inr fee \<Longrightarrow> fee = QUOTE \<or> fee = BASE \<and> side = BUY"
  by (auto simp: order_fee_asset_of_def feeAssetToProto_def split: option.splits if_splits)

lemma optionalClientID_ok: "optionalClientID v f = Inr (Some c) \<Longrightarrow> valid_id 36 c"
  by (auto simp: optionalClientID_def bind_res_Inr_iff validateCorrelationID_iff clientIDMaxLen_def split: option.splits if_splits)

lemma validateTrailingLimit_ok:
  assumes "validateTrailingLimitForSide risk side f = Inr ()" and "side \<noteq> SIDE_UNSPECIFIED"
  shows "case GetTrailingStop risk of None \<Rightarrow> True | Some t \<Rightarrow> (tp_limitPriceTicks t \<noteq> 0 \<longleftrightarrow> side = SELL)"
  using assms by (cases side) (auto simp: validateTrailingLimitForSide_def split: option.splits if_splits)

lemma side_specified: "map_of orderSideToProto x = Some side \<Longrightarrow> side \<noteq> SIDE_UNSPECIFIED \<and> x = OrderSideName side"
  by (auto simp: orderSideToProto_def OrderSideName_def split: if_splits)

section \<open>Properties\<close>


section \<open>A request and its intent\<close>

definition no_qty :: qty_input where
  "no_qty = \<lparr>qi_decimal = [], qi_hasDec = False, qi_scaled = zeroQtyScaled, qi_hasScaled = False\<rparr>"

definition sample_request :: create_order_request where
  "sample_request = \<lparr>cr_symbol = Some ''BTC'', cr_symbolID = Some 7, cr_side = ''BUY'', cr_orderType = ''limit'',
     cr_tif = Some ''GTD'', cr_qty = QtyFromDecimal ''1.5'', cr_maxQuoteDebit = no_qty,
     cr_price = Some (PriceFromTicks \<lparr>pt_ticks = 20, pt_symbol = []\<rparr>), cr_subAccountID = None, cr_clientOrderID = Some '' c-1 '',
     cr_postOnly = True, cr_expiresAt = Some ''T'', cr_attachedRisk = None, cr_marketClientRefPrice = None,
     cr_feeAsset = Some ''base'', cr_maxSlippageTicks = None, cr_maxSlippageBps = None,
     cr_selfTradePreventionMode = None\<rparr>"

definition sample_intent :: order_intent where
  "sample_intent = \<lparr>oi_symbolId = 7, oi_side = BUY, oi_feeAsset = BASE, oi_sizing = BaseQtyScaled 150,
     oi_clientOrderId = ''c-1'', oi_selfTradePreventionMode = STP_UNSPECIFIED,
     oi_execution = LimitGtd 20 True 60000000000, oi_attachedRisk = None\<rparr>"

lemma sample_request_fields:
  "cr_symbol sample_request = Some ''BTC''" "cr_symbolID sample_request = Some 7" "cr_side sample_request = ''BUY''"
  "cr_orderType sample_request = ''limit''" "qty_IsSet (cr_maxQuoteDebit sample_request) = False"
  "cr_clientOrderID sample_request = Some '' c-1 ''" "cr_postOnly sample_request = True"
  "cr_expiresAt sample_request = Some ''T''" "cr_attachedRisk sample_request = None"
  "cr_maxSlippageTicks sample_request = None" "cr_maxSlippageBps sample_request = None"
  "cr_selfTradePreventionMode sample_request = None" "trim_space ''T'' = ''T''"
  by code_simp+

lemma sample_intent_fields:
  "order_sizing_of sample_request BUY 2 2 ''BTC'' = Inr (BaseQtyScaled 150)"
  "optionalClientID (Some '' c-1 '') ''client_order_id'' = Inr (Some ''c-1'')"
  "order_fee_asset_of sample_request BUY = Inr BASE" "order_price_of sample_request ''BTC'' = Inr (Some 20)"
  "order_tif_of sample_request = Inr ''gtd''" "to_lower ''BUY'' = ''buy''" "to_lower ''limit'' = ''limit''"
  "parseGTDExpireAt (\<lambda>_. Some 60000000000) ''T'' 0 = Inr 60000000000"
  by code_simp+

lemma sample_intent_sent:
  "OrderIntentToProto (\<lambda>_. Some 60000000000) 0 sample_request 2 2 = Inr sample_intent"
  using sample_intent_fields
  by (simp add: OrderIntentToProto_def sample_request_fields sample_intent_def orderSideToProto_def stp_mode_of_def
      limit_execution_of_def RiskPolicyToProto_def validateTrailingLimitForSide_def GetTrailingStop_def)


text \<open>The expiry that was asked for.\<close>

definition expiry_text :: "create_order_request \<Rightarrow> string" where
  "expiry_text req = (case cr_expiresAt req of None \<Rightarrow> [] | Some t \<Rightarrow> trim_space t)"

definition exec_expiry_ok :: "(string \<Rightarrow> int option) \<Rightarrow> create_order_request \<Rightarrow> order_execution \<Rightarrow> bool" where
  "exec_expiry_ok parse_time req e \<longleftrightarrow> (case e of LimitGtd _ _ x \<Rightarrow> parse_time (expiry_text req) = Some x
     | _ \<Rightarrow> expiry_text req = [])"

definition sizing_denotes :: "create_order_request \<Rightarrow> int \<Rightarrow> int \<Rightarrow> order_sizing \<Rightarrow> bool" where
  "sizing_denotes req quantityScale quoteQuantityScale s \<longleftrightarrow> (case s of
       BaseQtyScaled n \<Rightarrow> qty_IsSet (cr_qty req) \<and> qty_denotes (cr_qty req) quantityScale n
     | MaxQuoteDebitScaled n \<Rightarrow> qty_IsSet (cr_maxQuoteDebit req) \<and> qty_denotes (cr_maxQuoteDebit req) quoteQuantityScale n)"

definition price_sent :: "price_input option \<Rightarrow> int option \<Rightarrow> bool" where
  "price_sent p n \<longleftrightarrow> (case set_price p of None \<Rightarrow> n = None | Some i \<Rightarrow> \<exists>t. n = Some t \<and> price_denotes i t)"

definition qty_sent :: "qty_input option \<Rightarrow> int \<Rightarrow> int option \<Rightarrow> bool" where
  "qty_sent q scale n \<longleftrightarrow> (case set_qty q of None \<Rightarrow> n = None | Some i \<Rightarrow> \<exists>t. n = Some t \<and> qty_denotes i scale t)"

lemma order_sizing_denotes:
  assumes "order_sizing_of req side qs qqs symbol = Inr s" and "qi_hasScaled (cr_qty req) \<or> qs \<noteq> 18"
  shows "sizing_denotes req qs qqs s"
  using assms resolved_qty [OF _ assms(2)] resolved_quote
  by (auto simp: order_sizing_of_def sizing_denotes_def bind_res_Inr_iff split: if_splits)

lemma order_price_sent: "order_price_of req symbol = Inr p \<Longrightarrow> price_sent (cr_price req) p"
  by (auto simp: order_price_of_def price_sent_def bind_res_Inr_iff resolved_price split: option.splits)

lemma order_tif_Inr:
  "order_tif_of req = Inr tif \<Longrightarrow> (case cr_tif req of None \<Rightarrow> tif = []
     | Some t \<Rightarrow> tif = to_lower t \<and> tif \<in> {''gtc'', ''ioc'', ''fok'', ''gtd''})"
  by (auto simp: order_tif_of_def Let_def split: option.splits if_splits)

lemma trim_space_Nil [simp]: "trim_space [] = []"
  by code_simp

lemma limit_execution_as_asked:
  assumes "limit_execution_of parse_time now req tif price = Inr e" and "order_tif_of req = Inr tif"
    and "expiry_text req \<noteq> [] \<longrightarrow> tif = ''gtd''"
  shows "exec_type e = ''limit'' \<and> exec_price e = price \<and> exec_postOnly e = cr_postOnly req
    \<and> exec_tif e = (case cr_tif req of None \<Rightarrow> ''gtc'' | Some t \<Rightarrow> to_lower t) \<and> exec_expiry_ok parse_time req e"
  using assms order_tif_Inr [OF assms(2)]
  by (elim limit_execution_Inr)
    (auto simp: exec_defs exec_expiry_ok_def expiry_text_def dest!: parseGTDExpireAt_Inr split: option.splits)

text \<open>The intent sent says what the caller asked for: its symbol, side, type, time in force,
  post-only flag, price, expiry and size, each number denoting exactly the decimal that was given.\<close>

theorem order_as_asked:
  assumes "OrderIntentToProto parse_time now req quantityScale quoteQuantityScale = Inr i"
    and "qi_hasScaled (cr_qty req) \<or> quantityScale \<noteq> 18"
  shows "cr_symbolID req = Some (oi_symbolId i) \<and> to_lower (cr_side req) = OrderSideName (oi_side i)
    \<and> to_lower (cr_orderType req) = exec_type (oi_execution i)
    \<and> sizing_denotes req quantityScale quoteQuantityScale (oi_sizing i)
    \<and> price_sent (cr_price req) (exec_price (oi_execution i))
    \<and> exec_postOnly (oi_execution i) = cr_postOnly req \<and> exec_expiry_ok parse_time req (oi_execution i)
    \<and> (exec_type (oi_execution i) = ''limit''
        \<longrightarrow> exec_tif (oi_execution i) = (case cr_tif req of None \<Rightarrow> ''gtc'' | Some t \<Rightarrow> to_lower t))"
proof (rule OrderIntentToProto_Inr [OF assms(1)])
  fix symbolID symbol side sizing cid fee mode price tif execution risk
  assume a: "cr_symbolID req = Some symbolID" "map_of orderSideToProto (to_lower (cr_side req)) = Some side"
    "to_lower (cr_orderType req) = ''limit'' \<or> to_lower (cr_orderType req) = ''market''"
    "order_sizing_of req side quantityScale quoteQuantityScale symbol = Inr sizing"
    "order_price_of req symbol = Inr price" "order_tif_of req = Inr tif"
    "(case cr_expiresAt req of None \<Rightarrow> False | Some t \<Rightarrow> trim_space t \<noteq> []) \<longrightarrow> tif = ''gtd''"
    "(if to_lower (cr_orderType req) = ''market'' then market_execution_of req side symbol tif price
      else limit_execution_of parse_time now req tif price) = Inr execution"
    and i: "i = \<lparr>oi_symbolId = symbolID, oi_side = side, oi_feeAsset = fee, oi_sizing = sizing,
         oi_clientOrderId = (case cid of None \<Rightarrow> [] | Some c \<Rightarrow> c), oi_selfTradePreventionMode = mode,
         oi_execution = execution, oi_attachedRisk = risk\<rparr>"
  have expiry: "expiry_text req \<noteq> [] \<longrightarrow> tif = ''gtd''"
    using a(7) by (auto simp: expiry_text_def split: option.splits)
  have "to_lower (cr_orderType req) = exec_type execution \<and> exec_price execution = price
    \<and> exec_postOnly execution = cr_postOnly req \<and> exec_expiry_ok parse_time req execution
    \<and> (exec_type execution = ''limit''
        \<longrightarrow> exec_tif execution = (case cr_tif req of None \<Rightarrow> ''gtc'' | Some t \<Rightarrow> to_lower t))"
  proof (cases "to_lower (cr_orderType req) = ''market''")
    case True
    with a(8) have "market_execution_of req side symbol tif price = Inr execution" by simp
    then show ?thesis using True expiry by (elim market_execution_Inr) (auto simp: exec_defs exec_expiry_ok_def)
  next
    case False
    with a(3,8) have "limit_execution_of parse_time now req tif price = Inr execution" by simp
    from limit_execution_as_asked [OF this a(6) expiry] False a(3) show ?thesis by auto
  qed
  with side_specified [OF a(2)] order_price_sent [OF a(5)] order_sizing_denotes [OF a(4) assms(2)] a(1)
  show ?thesis by (simp add: i)
qed

theorem order_as_asked_witness: "sizing_denotes sample_request 2 2 (oi_sizing sample_intent)"
  by (rule order_as_asked [OF sample_intent_sent, THEN conjunct2, THEN conjunct2, THEN conjunct2, THEN conjunct1]) code_simp

text \<open>A modification sends exactly the changes that were asked for, at least one: a new price, a new
  quantity and new risk legs are set in the message exactly when they were given, with the values
  they denote, and the order is the one its key names.\<close>

theorem modify_as_asked:
  assumes "ModifyOrderToProto enc dec rnd symbol symbolID key sub requestID newPrice newQty newRisk behavior newID scale = Inr m"
    and "(case newQty of None \<Rightarrow> True | Some q \<Rightarrow> qi_hasScaled q \<or> scale \<noteq> 18)"
  shows "price_sent newPrice (mm_newPriceTicks m) \<and> qty_sent newQty scale (mm_newQtyScaled m)
    \<and> (mm_newAttachedRisk m = None \<longleftrightarrow> newRisk = None) \<and> pred_option policy_ok (mm_newAttachedRisk m)
    \<and> \<not> (mm_newPriceTicks m = None \<and> mm_newQtyScaled m = None \<and> mm_newAttachedRisk m = None)
    \<and> mm_symbolId m = symbolID \<and> ApplyOrderKeyToModify enc dec key = Inr (mm_key m)"
proof -
  from assms(1) obtain price qty risk where
    p: "new_price_of newPrice symbol = Inr price" and q: "new_qty_of newQty scale symbol (Some symbolID) = Inr qty"
    and r: "RiskPolicyToProto newRisk ''new_attached_risk'' symbol = Inr risk"
    and key: "ApplyOrderKeyToModify enc dec key = Inr (mm_key m)"
    and some: "\<not> (set_price newPrice = None \<and> set_qty newQty = None \<and> newRisk = None)"
    and m: "mm_newPriceTicks m = price" "mm_newQtyScaled m = qty" "mm_newAttachedRisk m = risk" "mm_symbolId m = symbolID"
    unfolding ModifyOrderToProto_def by (elim refuse_InrE bind_res_InrE) auto
  from p have price: "price_sent newPrice price" and "price = None \<longleftrightarrow> set_price newPrice = None"
    by (auto simp: new_price_of_def price_sent_def bind_res_Inr_iff resolved_price split: option.splits)
  moreover from q assms(2) have "qty_sent newQty scale qty" and "qty = None \<longleftrightarrow> set_qty newQty = None"
    by (auto simp: new_qty_of_def qty_sent_def bind_res_Inr_iff resolved_qty set_qty_def split: option.splits if_splits)
  moreover from r have "risk = None \<longleftrightarrow> newRisk = None" by (metis RiskPolicyToProto_None Inr_inject)
  moreover from r have "pred_option policy_ok risk" using RiskPolicyToProto_ok by (cases risk) auto
  ultimately show ?thesis using some key by (simp add: m)
qed

definition sample_modify :: modify_order_message where
  "sample_modify = \<lparr>mm_requestId = ''r'', mm_symbolId = 7, mm_key = WireClientOrderId ''c'', mm_subaccountId = None,
     mm_newPriceTicks = Some 20, mm_newQtyScaled = None, mm_newAttachedRisk = None,
     mm_behavior = AMEND_ONLY, mm_newClientOrderId = []\<rparr>"

lemma sample_modify_fields:
  "coalesceRequestID (Some ''r'') ''mod'' [] = Inr ''r''"
  "ApplyOrderKeyToModify (\<lambda>_. []) (\<lambda>_. None) (OrderKeyByClientID ''c'') = Inr (WireClientOrderId ''c'')"
  "new_price_of (Some (PriceFromTicks \<lparr>pt_ticks = 20, pt_symbol = []\<rparr>)) [] = Inr (Some 20)"
  "set_price (Some (PriceFromTicks \<lparr>pt_ticks = 20, pt_symbol = []\<rparr>)) \<noteq> None" "to_lower ''amend_only'' = ''amend_only''"
  by code_simp+

lemma sample_modify_sent:
  "ModifyOrderToProto (\<lambda>_. []) (\<lambda>_. None) [] [] 7 (OrderKeyByClientID ''c'') None (Some ''r'')
     (Some (PriceFromTicks \<lparr>pt_ticks = 20, pt_symbol = []\<rparr>)) None None (Some ''amend_only'') None 2 = Inr sample_modify"
  using sample_modify_fields
  by (simp add: ModifyOrderToProto_def sample_modify_def new_qty_of_def set_qty_def RiskPolicyToProto_def
      modifyBehaviorToProto_def optional_subaccount_def optionalClientID_def)

theorem modify_as_asked_witness: "price_sent (Some (PriceFromTicks \<lparr>pt_ticks = 20, pt_symbol = []\<rparr>)) (mm_newPriceTicks sample_modify)"
  by (rule modify_as_asked [OF sample_modify_sent, THEN conjunct1]) simp

lemma unique_ids_Inr:
  "unique_ids u ids = Inr r \<Longrightarrow> distinct u \<Longrightarrow> 0 \<notin> set u
    \<Longrightarrow> distinct r \<and> set r = set u \<union> set ids \<and> 0 \<notin> set r"
  by (induction u ids rule: unique_ids.induct) (auto split: if_splits)

text \<open>A cancel-all request names every symbol that was given, once each and at most 100, none of
  them zero; it is not widened to all symbols unless none was given.\<close>

theorem cancel_all_symbols:
  assumes "CancelAllOrdersToProto enc dec rnd sub ids side dryRun requestID = Inr m"
  shows "set (ca_symbolIds m) = set ids \<and> distinct (ca_symbolIds m) \<and> 0 \<notin> set (ca_symbolIds m)
    \<and> length (ca_symbolIds m) \<le> 100 \<and> ca_dryRun m = dryRun \<and> (ca_symbolIds m = [] \<longleftrightarrow> ids = [])
    \<and> (case side of None \<Rightarrow> ca_side m = SIDE_UNSPECIFIED | Some s \<Rightarrow> ca_side m \<noteq> SIDE_UNSPECIFIED \<and> to_lower s = OrderSideName (ca_side m))"
proof -
  from assms obtain unique s where u: "unique_ids [] ids = Inr unique" "length unique \<le> 100" and s: "optional_side side = Inr s"
    and m: "ca_symbolIds m = unique" "ca_dryRun m = dryRun" "ca_side m = s"
    unfolding CancelAllOrdersToProto_def maxCancelAllSymbolIDs_def by (elim refuse_InrE bind_res_InrE) auto
  from unique_ids_Inr [OF u(1)] have "distinct unique" "set unique = set ids" "0 \<notin> set unique" by auto
  moreover from this(2) have "unique = [] \<longleftrightarrow> ids = []" by (cases unique; cases ids) auto
  moreover from s have "case side of None \<Rightarrow> s = SIDE_UNSPECIFIED | Some t \<Rightarrow> s \<noteq> SIDE_UNSPECIFIED \<and> to_lower t = OrderSideName s"
    using side_specified by (fastforce simp: optional_side_def split: option.splits)
  ultimately show ?thesis using u(2) by (simp add: m split: option.splits)
qed

theorem cancel_all_symbols_witness:
  "\<exists>m. CancelAllOrdersToProto (\<lambda>_. []) (\<lambda>_. None) [] None [3, 5, 3] (Some ''Sell'') True (Some ''r'') = Inr m
    \<and> set (ca_symbolIds m) = {3, 5}"
proof -
  let ?m = "\<lparr>ca_requestId = ''r'', ca_dryRun = True, ca_symbolIds = [3, 5], ca_subaccountId = None, ca_side = SELL\<rparr>"
  have s: "CancelAllOrdersToProto (\<lambda>_. []) (\<lambda>_. None) [] None [3, 5, 3] (Some ''Sell'') True (Some ''r'') = Inr ?m" by code_simp
  from cancel_all_symbols [OF this] have "set (ca_symbolIds ?m) = set [3, 5, 3]" by blast
  with s show ?thesis by (intro exI [of _ ?m]) auto
qed

text \<open>The timeout of a cancel-all-after switch is sent unchanged: a value outside the 32 bits of
  the wire is refused, so the switch is neither armed with a wrapped timeout nor disabled by one.\<close>

theorem cancel_after_exact:
  "CancelAllAfterToProto enc dec rnd sub timeoutSec symbolID side requestID = Inr m \<longrightarrow>
     uint (cf_timeoutSec m) = timeoutSec \<and> (cf_timeoutSec m = 0 \<longleftrightarrow> timeoutSec = 0)"
proof
  assume "CancelAllAfterToProto enc dec rnd sub timeoutSec symbolID side requestID = Inr m"
  then have "\<not> (timeoutSec < 0 \<or> timeoutSec > 4294967295)" and m: "cf_timeoutSec m = word_of_int timeoutSec"
    unfolding CancelAllAfterToProto_def by (elim bind_res_InrE refuse_InrE; auto)+
  then have "uint (word_of_int timeoutSec :: u32) = timeoutSec" by (simp add: uint_word_of_int)
  then show "uint (cf_timeoutSec m) = timeoutSec \<and> (cf_timeoutSec m = 0 \<longleftrightarrow> timeoutSec = 0)"
    unfolding m by (metis uint_0_iff)
qed

theorem cancel_after_exact_witness:
  "\<exists>m. CancelAllAfterToProto (\<lambda>_. []) (\<lambda>_. None) [] None 30 None None (Some ''r'') = Inr m \<and> uint (cf_timeoutSec m) = 30"
proof -
  let ?m = "\<lparr>cf_requestId = ''r'', cf_timeoutSec = 30, cf_subaccountId = None, cf_symbolId = 0, cf_side = SIDE_UNSPECIFIED\<rparr>"
  have s: "CancelAllAfterToProto (\<lambda>_. []) (\<lambda>_. None) [] None 30 None None (Some ''r'') = Inr ?m" by code_simp
  with cancel_after_exact have "uint (cf_timeoutSec ?m) = 30" by blast
  with s show ?thesis by blast
qed

end
