(* ===== verification/OrderBatches.thy ===== *)
theory OrderBatches
  imports OrderEncode
begin

text \<open>
  \<open>codecs/orders_batch.go\<close>: batches of creations, cancellations and replacements. Each item is encoded
  by the encoder of the single request; the clock is read once per item, so the readings are a
  function of the item's position. A batch's sub-account is read as \<open>ParseOptionalSubaccountID\<close> does:
  an empty text is none.
\<close>

section \<open>Sizes\<close>

definition MaxBatchOrderItems :: nat where
  "MaxBatchOrderItems = 20"

definition validateBatchSize :: "string \<Rightarrow> nat \<Rightarrow> unit res" where
  "validateBatchSize operation lenItems =
     (if lenItems = 0 then Inl (ValidationError (operation @ '' requires at least one item''))
      else if lenItems > MaxBatchOrderItems
      then Inl (ValidationError (operation @ '' accepts at most '' @ dec_nat MaxBatchOrderItems @ '' items''))
      else Inr ())"

lemma validateBatchSize_Inr: "validateBatchSize f n = Inr u \<longleftrightarrow> 1 \<le> n \<and> n \<le> 20"
  by (auto simp: validateBatchSize_def MaxBatchOrderItems_def)

section \<open>Creating\<close>

record order_scales =
  os_Base :: int
  os_Quote :: int

text \<open>Go's \<open>%q\<close> of an identifier: the allowed characters need no escape.\<close>

definition dquoted :: "string \<Rightarrow> string" where
  "dquoted s = [char_of (34 :: nat)] @ s @ [char_of (34 :: nat)]"

text \<open>The loop over the items: the scales in force are those of the item once any were given, and the
  client ids seen so far are kept.\<close>

fun create_items ::
  "(string \<Rightarrow> int option) \<Rightarrow> (nat \<Rightarrow> int) \<Rightarrow> int \<Rightarrow> int \<Rightarrow> order_scales list \<Rightarrow> nat \<Rightarrow> string list
    \<Rightarrow> create_order_request list \<Rightarrow> order_intent list res" where
  "create_items parse_time now q qq itemScales i seen [] = Inr []"
| "create_items parse_time now q qq itemScales i seen (item # items) =
     (if cr_subAccountID item \<noteq> None
      then Inl (ValidationError ''batch_create item sub_account_id is unsupported; use the batch-level subAccountID'')
      else
        let quantityScale = (if itemScales \<noteq> [] then os_Base (itemScales ! i) else q);
            quoteQuantityScale = (if itemScales \<noteq> [] then os_Quote (itemScales ! i) else qq) in
        bind_res (OrderIntentToProto parse_time (now i) item quantityScale quoteQuantityScale) (\<lambda>encoded.
        if oi_clientOrderId encoded \<noteq> [] \<and> oi_clientOrderId encoded \<in> set seen
        then Inl (ValidationError (''batch_create contains duplicate client_order_id '' @ dquoted (oi_clientOrderId encoded)))
        else
          bind_res (create_items parse_time now quantityScale quoteQuantityScale itemScales (Suc i)
            (if oi_clientOrderId encoded \<noteq> [] then oi_clientOrderId encoded # seen else seen) items) (\<lambda>rest.
          Inr (encoded # rest))))"

record batch_create_message =
  bc_requestId :: string
  bc_subaccountId :: "u64 option"
  bc_items :: "order_intent list"

definition BatchCreateOrdersToProto ::
  "(byte list \<Rightarrow> string) \<Rightarrow> (string \<Rightarrow> byte list option) \<Rightarrow> (string \<Rightarrow> int option) \<Rightarrow> (nat \<Rightarrow> int) \<Rightarrow> byte list
    \<Rightarrow> create_order_request list \<Rightarrow> string option \<Rightarrow> string option \<Rightarrow> bool \<Rightarrow> int \<Rightarrow> int \<Rightarrow> order_scales list
    \<Rightarrow> batch_create_message res" where
  "BatchCreateOrdersToProto enc dec parse_time now rnd items subAccountID requestID allowPartial
       quantityScale quoteQuantityScale itemScales =
     bind_res (validateBatchSize ''batch_create'' (length items)) (\<lambda>_.
     bind_res (coalesceRequestID requestID ''batch-create'' rnd) (\<lambda>resolvedRequestID.
     bind_res (ParseOptionalSubaccountID enc dec subAccountID) (\<lambda>sub.
     if itemScales \<noteq> [] \<and> length itemScales \<noteq> length items
     then Inl (ValidationError ''batch_create requires scales for every item'')
     else
       bind_res (create_items parse_time now quantityScale quoteQuantityScale itemScales 0 [] items) (\<lambda>encoded.
       Inr \<lparr>bc_requestId = resolvedRequestID, bc_subaccountId = sub, bc_items = encoded\<rparr>))))"

section \<open>Cancelling\<close>

record batch_cancel_item =
  bx_Key :: order_key
  bx_SymbolID :: "u32 option"

text \<open>The wire item has both identifiers; zero and the empty text mean unset.\<close>

record wire_cancel_item =
  wc_orderId :: u64
  wc_clientOrderId :: string
  wc_symbolId :: u32

definition BatchCancelItemToProto ::
  "(byte list \<Rightarrow> string) \<Rightarrow> (string \<Rightarrow> byte list option) \<Rightarrow> batch_cancel_item \<Rightarrow> wire_cancel_item res" where
  "BatchCancelItemToProto enc dec item =
     (if \<not> key_IsSet (bx_Key item)
      then Inl (ValidationError ''each batch cancel item requires an OrderKey (OrderKeyByID or OrderKeyByClientID)'')
      else
        let symbolId = (case bx_SymbolID item of None \<Rightarrow> 0 | Some i \<Rightarrow> i) in
        case key_OrderID (bx_Key item) of
          Some orderID \<Rightarrow> bind_res (IDToInt enc dec orderID ''order_id'') (\<lambda>id.
            Inr \<lparr>wc_orderId = id, wc_clientOrderId = [], wc_symbolId = symbolId\<rparr>)
        | None \<Rightarrow> let clientOrderID = (case key_ClientOrderID (bx_Key item) of Some c \<Rightarrow> c | None \<Rightarrow> []) in
            bind_res (requiredClientID clientOrderID ''client_order_id'') (\<lambda>validated.
            Inr \<lparr>wc_orderId = 0, wc_clientOrderId = validated, wc_symbolId = symbolId\<rparr>))"

text \<open>Appending the encoding of every item, the first error ending the loop.\<close>

primrec encode_items :: "('a \<Rightarrow> 'b res) \<Rightarrow> 'a list \<Rightarrow> 'b list res" where
  "encode_items f [] = Inr []"
| "encode_items f (x # xs) = bind_res (f x) (\<lambda>y. bind_res (encode_items f xs) (\<lambda>ys. Inr (y # ys)))"

record batch_cancel_message =
  bx_requestId :: string
  bx_subaccountId :: "u64 option"
  bx_items :: "wire_cancel_item list"

definition BatchCancelOrdersToProto ::
  "(byte list \<Rightarrow> string) \<Rightarrow> (string \<Rightarrow> byte list option) \<Rightarrow> byte list \<Rightarrow> batch_cancel_item list
    \<Rightarrow> string option \<Rightarrow> string option \<Rightarrow> batch_cancel_message res" where
  "BatchCancelOrdersToProto enc dec rnd items subAccountID requestID =
     bind_res (validateBatchSize ''batch_cancel'' (length items)) (\<lambda>_.
     bind_res (coalesceRequestID requestID ''batch-cancel'' rnd) (\<lambda>resolvedRequestID.
     bind_res (ParseOptionalSubaccountID enc dec subAccountID) (\<lambda>sub.
     bind_res (encode_items (BatchCancelItemToProto enc dec) items) (\<lambda>encoded.
     Inr \<lparr>bx_requestId = resolvedRequestID, bx_subaccountId = sub, bx_items = encoded\<rparr>))))"

section \<open>Replacing\<close>

record batch_replace_item =
  br_Key :: order_key
  br_NewPrice :: "price_input option"
  br_NewQty :: "qty_input option"
  br_NewClientOrderID :: "string option"
  br_NewAttachedRisk :: "attached_risk_input option"

record order_identity =
  id_Symbol :: string
  id_SymbolID :: "u32 option"

record wire_replace_item =
  wr_key :: wire_key
  wr_newPriceTicks :: "int option"
  wr_newQtyScaled :: "int option"
  wr_newAttachedRisk :: "risk_policy option"
  wr_newClientOrderId :: string

definition replace_key ::
  "(byte list \<Rightarrow> string) \<Rightarrow> (string \<Rightarrow> byte list option) \<Rightarrow> order_key \<Rightarrow> wire_key res" where
  "replace_key enc dec key = (case key_OrderID key of
       Some orderID \<Rightarrow> bind_res (IDToInt enc dec orderID ''order_id'') (\<lambda>id. Inr (WireOrderId id))
     | None \<Rightarrow> let clientOrderID = (case key_ClientOrderID key of Some c \<Rightarrow> c | None \<Rightarrow> []) in
         bind_res (requiredClientID clientOrderID ''client_order_id'') (\<lambda>v. Inr (WireClientOrderId v)))"

definition BatchReplaceItemToProto ::
  "(byte list \<Rightarrow> string) \<Rightarrow> (string \<Rightarrow> byte list option) \<Rightarrow> batch_replace_item \<Rightarrow> int \<Rightarrow> order_identity list
    \<Rightarrow> wire_replace_item res" where
  "BatchReplaceItemToProto enc dec item quantityScale destination =
     (let identity = (case destination of [] \<Rightarrow> \<lparr>id_Symbol = [], id_SymbolID = None\<rparr> | d # _ \<Rightarrow> d) in
      if \<not> key_IsSet (br_Key item)
      then Inl (ValidationError ''each batch item requires an OrderKey (OrderKeyByID or OrderKeyByClientID)'')
      else if set_price (br_NewPrice item) = None \<and> set_qty (br_NewQty item) = None \<and> br_NewAttachedRisk item = None
      then Inl (ValidationError ''each batch item requires new_price, new_qty, and/or new_attached_risk'')
      else
        bind_res (replace_key enc dec (br_Key item)) (\<lambda>wireKey.
        bind_res (new_price_of (br_NewPrice item) (id_Symbol identity)) (\<lambda>price.
        bind_res (new_qty_of (br_NewQty item) quantityScale (id_Symbol identity) (id_SymbolID identity)) (\<lambda>qty.
        bind_res (RiskPolicyToProto (br_NewAttachedRisk item) ''new_attached_risk'' (id_Symbol identity)) (\<lambda>risk.
        bind_res (optionalClientID (br_NewClientOrderID item) ''new_client_order_id'') (\<lambda>newID.
        Inr \<lparr>wr_key = wireKey, wr_newPriceTicks = price, wr_newQtyScaled = qty, wr_newAttachedRisk = risk,
             wr_newClientOrderId = (case newID of None \<Rightarrow> [] | Some c \<Rightarrow> c)\<rparr>))))))"

record batch_replace_message =
  bm_symbolId :: u32
  bm_requestId :: string
  bm_subaccountId :: "u64 option"
  bm_items :: "wire_replace_item list"

definition BatchReplaceOrdersToProto ::
  "(byte list \<Rightarrow> string) \<Rightarrow> (string \<Rightarrow> byte list option) \<Rightarrow> byte list \<Rightarrow> batch_replace_item list \<Rightarrow> u32
    \<Rightarrow> string option \<Rightarrow> string option \<Rightarrow> int \<Rightarrow> string list \<Rightarrow> batch_replace_message res" where
  "BatchReplaceOrdersToProto enc dec rnd items symbolID subAccountID requestID quantityScale symbol =
     bind_res (validateBatchSize ''batch_replace'' (length items)) (\<lambda>_.
     if symbolID = 0 then Inl (ValidationError ''batch_replace requires a resolved symbol_id'')
     else
       bind_res (coalesceRequestID requestID ''batch-replace'' rnd) (\<lambda>resolvedRequestID.
       bind_res (ParseOptionalSubaccountID enc dec subAccountID) (\<lambda>sub.
       bind_res (encode_items (\<lambda>item. BatchReplaceItemToProto enc dec item quantityScale
           [\<lparr>id_Symbol = (case symbol of [] \<Rightarrow> [] | s # _ \<Rightarrow> s), id_SymbolID = Some symbolID\<rparr>]) items) (\<lambda>encoded.
       Inr \<lparr>bm_symbolId = symbolID, bm_requestId = resolvedRequestID, bm_subaccountId = sub, bm_items = encoded\<rparr>))))"

section \<open>Items of a batch\<close>

definition batch_scales :: "int \<Rightarrow> int \<Rightarrow> order_scales list \<Rightarrow> nat \<Rightarrow> int \<times> int" where
  "batch_scales q qq itemScales i =
     (if itemScales = [] then (q, qq) else (os_Base (itemScales ! i), os_Quote (itemScales ! i)))"

lemma encode_items_Inr:
  "encode_items f xs = Inr ys \<longleftrightarrow> list_all2 (\<lambda>x y. f x = Inr y) xs ys"
  by (induction xs arbitrary: ys) (auto simp: bind_res_Inr_iff list_all2_Cons1)

lemma create_items_Inr:
  "create_items parse_time now q qq sc i seen items = Inr out \<Longrightarrow>
     length out = length items
     \<and> (\<forall>k < length items. cr_subAccountID (items ! k) = None
          \<and> OrderIntentToProto parse_time (now (i + k)) (items ! k) (fst (batch_scales q qq sc (i + k)))
              (snd (batch_scales q qq sc (i + k))) = Inr (out ! k))
     \<and> distinct (filter (\<lambda>c. c \<noteq> []) (map oi_clientOrderId out))
     \<and> set (filter (\<lambda>c. c \<noteq> []) (map oi_clientOrderId out)) \<inter> set seen = {}"
proof (induction parse_time now q qq sc i seen items arbitrary: out rule: create_items.induct)
  case (2 parse_time now q qq sc i seen item items)
  let ?q = "if sc \<noteq> [] then os_Base (sc ! i) else q" and ?qq = "if sc \<noteq> [] then os_Quote (sc ! i) else qq"
  from 2(2) obtain e rest where no_sub: "cr_subAccountID item = None"
    and e: "OrderIntentToProto parse_time (now i) item ?q ?qq = Inr e"
    and fresh: "oi_clientOrderId e \<noteq> [] \<longrightarrow> oi_clientOrderId e \<notin> set seen"
    and rest: "create_items parse_time now ?q ?qq sc (Suc i)
      (if oi_clientOrderId e \<noteq> [] then oi_clientOrderId e # seen else seen) items = Inr rest"
    and out: "out = e # rest"
    unfolding create_items.simps Let_def by (elim refuse_InrE bind_res_InrE) auto
  have scales: "batch_scales ?q ?qq sc j = batch_scales q qq sc j" for j by (simp add: batch_scales_def)
  have here: "fst (batch_scales q qq sc i) = ?q" "snd (batch_scales q qq sc i) = ?qq" by (simp_all add: batch_scales_def)
  have sub: "\<not> cr_subAccountID item \<noteq> None" and fresh': "\<not> (oi_clientOrderId e \<noteq> [] \<and> oi_clientOrderId e \<in> set seen)"
    using no_sub fresh by auto
  note ih = 2(1) [OF sub refl refl e fresh' rest]
  have ih: "length rest = length items
     \<and> (\<forall>k < length items. cr_subAccountID (items ! k) = None
          \<and> OrderIntentToProto parse_time (now (Suc i + k)) (items ! k) (fst (batch_scales q qq sc (Suc i + k)))
              (snd (batch_scales q qq sc (Suc i + k))) = Inr (rest ! k))
     \<and> distinct (filter (\<lambda>c. c \<noteq> []) (map oi_clientOrderId rest))
     \<and> set (filter (\<lambda>c. c \<noteq> []) (map oi_clientOrderId rest))
         \<inter> set (if oi_clientOrderId e \<noteq> [] then oi_clientOrderId e # seen else seen) = {}"
    using ih unfolding scales .
  have each: "cr_subAccountID ((item # items) ! k) = None
      \<and> OrderIntentToProto parse_time (now (i + k)) ((item # items) ! k) (fst (batch_scales q qq sc (i + k)))
              (snd (batch_scales q qq sc (i + k))) = Inr (out ! k)" if "k < length (item # items)" for k
  proof (cases k)
    case 0
    then show ?thesis using no_sub e here out by simp
  next
    case (Suc j)
    with that have "j < length items" by simp
    with ih Suc out show ?thesis by simp
  qed
  from ih have len: "length out = length (item # items)" by (simp add: out)
  have ids: "distinct (filter (\<lambda>c. c \<noteq> []) (map oi_clientOrderId out))
      \<and> set (filter (\<lambda>c. c \<noteq> []) (map oi_clientOrderId out)) \<inter> set seen = {}"
    using ih fresh by (cases "oi_clientOrderId e = []") (auto simp: out)
  show ?case using each len ids by blast
qed simp

section \<open>Properties\<close>

text \<open>A batch of creations sends, in order, for every item exactly the intent a single creation of it
  would send with the scales of that item; there are 1 to 20 of them, all under the batch's
  sub-account, and no two carry the same client order id.\<close>

theorem batch_create_itemwise:
  assumes "BatchCreateOrdersToProto enc dec parse_time now rnd items sub requestID partial q qq scales = Inr m"
  shows "length (bc_items m) = length items \<and> 1 \<le> length items \<and> length items \<le> 20
    \<and> (\<forall>k < length items. cr_subAccountID (items ! k) = None
         \<and> CreateOrderToProto enc dec parse_time (now k) (items ! k) (fst (batch_scales q qq scales k)) (snd (batch_scales q qq scales k))
             = Inr \<lparr>cm_subaccountId = None, cm_order = bc_items m ! k\<rparr>)
    \<and> distinct (filter (\<lambda>c. c \<noteq> []) (map oi_clientOrderId (bc_items m)))"
proof -
  from assms obtain u out where size: "validateBatchSize ''batch_create'' (length items) = Inr u"
    and out: "create_items parse_time now q qq scales 0 [] items = Inr out" and m: "bc_items m = out"
    unfolding BatchCreateOrdersToProto_def by (elim bind_res_InrE refuse_InrE) auto
  from create_items_Inr [OF out] size show ?thesis
    by (simp add: m validateBatchSize_Inr CreateOrderToProto_def optional_subaccount_def)
qed

definition sample_batch :: batch_create_message where
  "sample_batch = \<lparr>bc_requestId = ''r'', bc_subaccountId = None, bc_items = [sample_intent]\<rparr>"

lemma sample_batch_sent:
  "BatchCreateOrdersToProto (\<lambda>_. []) (\<lambda>_. None) (\<lambda>_. Some 60000000000) (\<lambda>_. 0) [] [sample_request] None (Some ''r'')
     False 2 2 [] = Inr sample_batch"
proof -
  have r: "coalesceRequestID (Some ''r'') ''batch-create'' [] = Inr ''r''" by code_simp
  have "cr_subAccountID sample_request = None" by (simp add: sample_request_def)
  then have "create_items (\<lambda>_. Some 60000000000) (\<lambda>_. 0) 2 2 [] 0 [] [sample_request] = Inr [sample_intent]"
    by (simp add: sample_intent_sent)
  with r show ?thesis
    by (simp add: BatchCreateOrdersToProto_def validateBatchSize_def MaxBatchOrderItems_def ParseOptionalSubaccountID_def sample_batch_def)
qed

theorem batch_create_itemwise_witness: "length (bc_items sample_batch) = length [sample_request]"
  by (rule batch_create_itemwise [OF sample_batch_sent, THEN conjunct1])

text \<open>C37. A batch of replacements sends for every item, in order, exactly the changes a single
  modification of the same order would send, and fails when one of those would.\<close>

theorem batch_replace_itemwise:
  assumes "BatchReplaceOrdersToProto enc dec rnd items symbolID sub requestID scale [symbol] = Inr m"
    and "coalesceRequestID rid ''mod'' rnd = Inr r"
  shows "list_all2 (\<lambda>item w. ModifyOrderToProto enc dec rnd symbol symbolID (br_Key item) None rid (br_NewPrice item)
        (br_NewQty item) (br_NewAttachedRisk item) None (br_NewClientOrderID item) scale
      = Inr \<lparr>mm_requestId = r, mm_symbolId = symbolID, mm_key = wr_key w, mm_subaccountId = None,
          mm_newPriceTicks = wr_newPriceTicks w, mm_newQtyScaled = wr_newQtyScaled w,
          mm_newAttachedRisk = wr_newAttachedRisk w, mm_behavior = MODIFY_BEHAVIOR_UNSPECIFIED,
          mm_newClientOrderId = wr_newClientOrderId w\<rparr>) items (bm_items m)
    \<and> length (bm_items m) = length items \<and> length items \<le> 20 \<and> bm_symbolId m = symbolID"
proof -
  let ?id = "[\<lparr>id_Symbol = symbol, id_SymbolID = Some symbolID\<rparr>]"
  from assms(1) obtain u out where size: "validateBatchSize ''batch_replace'' (length items) = Inr u" and nz: "symbolID \<noteq> 0"
    and out: "encode_items (\<lambda>item. BatchReplaceItemToProto enc dec item scale ?id) items = Inr out"
    and m: "bm_items m = out" "bm_symbolId m = symbolID"
    unfolding BatchReplaceOrdersToProto_def by (elim bind_res_InrE refuse_InrE) auto
  have single: "ModifyOrderToProto enc dec rnd symbol symbolID (br_Key item) None rid (br_NewPrice item)
        (br_NewQty item) (br_NewAttachedRisk item) None (br_NewClientOrderID item) scale
      = Inr \<lparr>mm_requestId = r, mm_symbolId = symbolID, mm_key = wr_key w, mm_subaccountId = None,
          mm_newPriceTicks = wr_newPriceTicks w, mm_newQtyScaled = wr_newQtyScaled w,
          mm_newAttachedRisk = wr_newAttachedRisk w, mm_behavior = MODIFY_BEHAVIOR_UNSPECIFIED,
          mm_newClientOrderId = wr_newClientOrderId w\<rparr>"
    if "BatchReplaceItemToProto enc dec item scale ?id = Inr w" for item w
  proof -
    from that have set: "key_IsSet (br_Key item)"
      and some: "\<not> (set_price (br_NewPrice item) = None \<and> set_qty (br_NewQty item) = None \<and> br_NewAttachedRisk item = None)"
      unfolding BatchReplaceItemToProto_def Let_def by (elim refuse_InrE; simp)+
    have key: "ApplyOrderKeyToModify enc dec (br_Key item) = replace_key enc dec (br_Key item)"
      using set by (simp add: ApplyOrderKeyToModify_def replace_key_def requireOrderKey_def)
    from that show ?thesis
      unfolding BatchReplaceItemToProto_def Let_def
      by (elim refuse_InrE bind_res_InrE)
        (use some nz assms(2) key in \<open>auto simp: ModifyOrderToProto_def optional_subaccount_def\<close>)
  qed
  from out have "list_all2 (\<lambda>item w. BatchReplaceItemToProto enc dec item scale ?id = Inr w) items out"
    by (simp add: encode_items_Inr)
  with single have "list_all2 (\<lambda>item w. ModifyOrderToProto enc dec rnd symbol symbolID (br_Key item) None rid (br_NewPrice item)
        (br_NewQty item) (br_NewAttachedRisk item) None (br_NewClientOrderID item) scale
      = Inr \<lparr>mm_requestId = r, mm_symbolId = symbolID, mm_key = wr_key w, mm_subaccountId = None,
          mm_newPriceTicks = wr_newPriceTicks w, mm_newQtyScaled = wr_newQtyScaled w,
          mm_newAttachedRisk = wr_newAttachedRisk w, mm_behavior = MODIFY_BEHAVIOR_UNSPECIFIED,
          mm_newClientOrderId = wr_newClientOrderId w\<rparr>) items out"
    by (rule list_all2_mono [rotated])
  with size show ?thesis by (auto simp: m validateBatchSize_Inr list_all2_lengthD)
qed

definition sample_replace :: batch_replace_item where
  "sample_replace = \<lparr>br_Key = OrderKeyByClientID ''c'', br_NewPrice = Some (PriceFromTicks \<lparr>pt_ticks = 20, pt_symbol = []\<rparr>),
     br_NewQty = None, br_NewClientOrderID = None, br_NewAttachedRisk = None\<rparr>"

definition sample_replaced :: wire_replace_item where
  "sample_replaced = \<lparr>wr_key = WireClientOrderId ''c'', wr_newPriceTicks = Some 20, wr_newQtyScaled = None,
     wr_newAttachedRisk = None, wr_newClientOrderId = []\<rparr>"

theorem batch_replace_itemwise_witness:
  "length (bm_items \<lparr>bm_symbolId = 7, bm_requestId = ''b'', bm_subaccountId = None, bm_items = [sample_replaced]\<rparr>)
     = length [sample_replace]"
proof -
  have f: "coalesceRequestID (Some ''r'') ''mod'' [] = Inr ''r''" "coalesceRequestID (Some ''b'') ''batch-replace'' [] = Inr ''b''"
    "set_price (br_NewPrice sample_replace) \<noteq> None" "set_qty (br_NewQty sample_replace) = None"
    "key_IsSet (br_Key sample_replace)" "br_NewAttachedRisk sample_replace = None"
    "br_NewClientOrderID sample_replace = None" "br_NewQty sample_replace = None"
    "replace_key (\<lambda>_. []) (\<lambda>_. None) (br_Key sample_replace) = Inr (WireClientOrderId ''c'')"
    "new_price_of (br_NewPrice sample_replace) ''BTC'' = Inr (Some 20)"
    by code_simp+
  have "BatchReplaceOrdersToProto (\<lambda>_. []) (\<lambda>_. None) [] [sample_replace] 7 None (Some ''b'') 2 [''BTC'']
      = Inr \<lparr>bm_symbolId = 7, bm_requestId = ''b'', bm_subaccountId = None, bm_items = [sample_replaced]\<rparr>"
    using f by (simp add: BatchReplaceOrdersToProto_def BatchReplaceItemToProto_def Let_def validateBatchSize_def MaxBatchOrderItems_def
        ParseOptionalSubaccountID_def sample_replaced_def new_qty_of_def set_qty_def RiskPolicyToProto_def optionalClientID_def)
  from batch_replace_itemwise [OF this f(1)] show ?thesis by blast
qed

end
