(* ===== verification/TriggerEncode.thy ===== *)
theory TriggerEncode
  imports OrderEncode
begin

text \<open>
  \<open>codecs/triggers.go\<close>: the encoding of trigger creations and patches. The positional parameters of
  \<open>CreateTriggerToProto\<close> are the fields of one record, its options another. Ticks, durations and levels
  are the values of Go's integers; the code compares them only. The random bytes of a generated id are an
  argument.
\<close>

section \<open>Input\<close>

record create_trigger_options =
  to_FeeAsset :: "string option"
  to_SelfTradePreventionMode :: "string option"
  to_TrailingDistanceTicks :: "int option"
  to_TrailingDistanceBps :: "int option"
  to_ActivationPrice :: "price_input option"
  to_MaxSlippageTicks :: "int option"
  to_MaxSlippageBps :: "int option"
  to_TwapDurationMs :: "int option"
  to_TwapSliceIntervalMs :: "int option"
  to_LadderPriceMin :: "price_input option"
  to_LadderPriceMax :: "price_input option"
  to_LadderLevels :: "int option"
  to_LadderDistribution :: "string option"

record create_trigger_input =
  tg_symbolID :: u32
  tg_symbol :: string
  tg_triggerType :: string
  tg_triggerPrice :: "price_input option"
  tg_side :: string
  tg_qty :: qty_input
  tg_orderType :: string
  tg_limitPrice :: "price_input option"
  tg_triggerPriceSource :: string
  tg_tif :: string
  tg_subAccountID :: "string option"
  tg_clientTriggerID :: "string option"
  tg_postOnly :: bool
  tg_quantityScale :: int
  tg_opts :: create_trigger_options

datatype trigger_type = STOP_LOSS | TAKE_PROFIT | TRAILING_STOP | TWAP | LADDER

definition triggerTypeToProto :: "(string \<times> trigger_type) list" where
  "triggerTypeToProto = [(''stop_loss'', STOP_LOSS), (''take_profit'', TAKE_PROFIT), (''trailing_stop'', TRAILING_STOP),
     (''twap'', TWAP), (''ladder'', LADDER)]"

definition triggerFeeAssetToProto :: "(string \<times> fee_asset) list" where
  "triggerFeeAssetToProto = [(''quote'', QUOTE), (''base'', BASE), (''received'', BASE)]"

section \<open>The wire\<close>

datatype conditional_child =
    ChildMarketIoc "max_slippage option"
  | ChildLimitIoc int
  | ChildLimitFok int
  | ChildLimitGtc int bool

record conditional_trigger =
  ct_triggerPriceTicks :: int
  ct_side :: order_side
  ct_child :: conditional_child
  ct_triggerPriceSource :: trigger_price_source

record trailing_stop_trigger =
  ts_side :: order_side
  ts_triggerPriceSource :: trigger_price_source
  ts_limitPriceTicks :: int
  ts_trailingDistance :: trailing_distance
  ts_activationPriceTicks :: int
  ts_maxSlippage :: "max_slippage option"

datatype twap_execution = TwapMarketIoc "max_slippage option" | TwapLimitGtc int

record twap_trigger =
  tw_side :: order_side
  tw_durationMs :: int
  tw_sliceIntervalMs :: int
  tw_execution :: twap_execution

record ladder_trigger =
  la_side :: order_side
  la_postOnly :: bool
  la_priceMinTicks :: int
  la_priceMaxTicks :: int
  la_levels :: int

datatype trigger_strategy =
    StrategyStopLoss conditional_trigger
  | StrategyTakeProfit conditional_trigger
  | StrategyTrailingStop trailing_stop_trigger
  | StrategyTwap twap_trigger
  | StrategyLadder ladder_trigger

record trigger_intent =
  tn_symbolId :: u32
  tn_qtyScaled :: int
  tn_clientTriggerId :: string
  tn_feeAsset :: fee_asset
  tn_selfTradePreventionMode :: stp_mode
  tn_strategy :: trigger_strategy

record create_trigger_message =
  tm_trigger :: trigger_intent
  tm_subaccountId :: "u64 option"

section \<open>Which options a strategy takes\<close>

text \<open>\<open>strings.EqualFold\<close> against a lower-case ASCII word: the letters outside ASCII that fold to one are
  the long s (bytes C5 BF) and the Kelvin sign (E2 84 AA).\<close>

fun fold_ascii :: "string \<Rightarrow> string" where
  "fold_ascii (a # b # cs) =
     (if a = char_of (197 :: nat) \<and> b = char_of (191 :: nat) then CHR ''s'' # fold_ascii cs
      else if a = char_of (226 :: nat) \<and> b = char_of (132 :: nat) \<and> cs \<noteq> [] \<and> hd cs = char_of (170 :: nat)
      then CHR ''k'' # fold_ascii (tl cs)
      else lower_char a # fold_ascii (b # cs))"
| "fold_ascii [a] = [lower_char a]"
| "fold_ascii [] = []"

definition equal_fold :: "string \<Rightarrow> string \<Rightarrow> bool" where
  "equal_fold s word \<longleftrightarrow> fold_ascii s = word"

text \<open>The table of options and the one strategy that takes each.\<close>

definition option_table :: "create_trigger_options \<Rightarrow> (bool \<times> string \<times> string) list" where
  "option_table opts =
     [(to_TrailingDistanceTicks opts \<noteq> None, ''trailing_distance_ticks'', ''trailing_stop''),
      (to_TrailingDistanceBps opts \<noteq> None, ''trailing_distance_bps'', ''trailing_stop''),
      (set_price (to_ActivationPrice opts) \<noteq> None, ''activation_price'', ''trailing_stop''),
      (to_TwapDurationMs opts \<noteq> None, ''twap_duration_ms'', ''twap''),
      (to_TwapSliceIntervalMs opts \<noteq> None, ''twap_slice_interval_ms'', ''twap''),
      (set_price (to_LadderPriceMin opts) \<noteq> None, ''ladder_price_min'', ''ladder''),
      (set_price (to_LadderPriceMax opts) \<noteq> None, ''ladder_price_max'', ''ladder''),
      (to_LadderLevels opts \<noteq> None, ''ladder_levels'', ''ladder''),
      (to_LadderDistribution opts \<noteq> None, ''ladder_distribution'', ''ladder'')]"

fun check_options :: "string \<Rightarrow> (bool \<times> string \<times> string) list \<Rightarrow> unit res" where
  "check_options kind [] = Inr ()"
| "check_options kind ((present, name, supported) # options) =
     (if present \<and> kind \<noteq> supported
      then Inl (ValidationError (name @ '' applies only to '' @ supported))
      else check_options kind options)"

definition check_source :: "string \<Rightarrow> string \<Rightarrow> unit res" where
  "check_source kind source =
     (if kind = ''twap'' \<or> kind = ''ladder''
      then bind_res (triggerPriceSourceToProto source ''trigger_price_source'') (\<lambda>parsed.
        if parsed \<noteq> TRIGGER_PRICE_SOURCE_UNSPECIFIED
        then Inl (ValidationError ''trigger_price_source applies only to stop_loss, take_profit or trailing_stop'')
        else Inr ())
      else Inr ())"

definition check_tif :: "string \<Rightarrow> string \<Rightarrow> string \<Rightarrow> unit res" where
  "check_tif kind orderType tif =
     (if tif \<noteq> [] \<and> tif \<noteq> ''gtc'' \<and> tif \<noteq> ''ioc'' \<and> tif \<noteq> ''fok''
      then Inl (ValidationError ''tif must be gtc, ioc or fok'')
      else if kind = ''ladder'' \<or> kind = ''twap'' \<and> orderType = ''limit''
      then (if tif \<noteq> [] \<and> tif \<noteq> ''gtc''
            then Inl (ValidationError ''tif must be gtc for ladder or twap limit slices'') else Inr ())
      else if (kind = ''trailing_stop'' \<or> orderType = ''market'') \<and> tif = ''fok''
      then Inl (ValidationError ''tif=fok applies only to stop_loss or take_profit limit children'')
      else Inr ())"

definition validateTriggerOptionApplicability :: "string \<Rightarrow> create_trigger_input \<Rightarrow> unit res" where
  "validateTriggerOptionApplicability kind p =
     (let opts = tg_opts p; orderType = to_lower (tg_orderType p) in
      bind_res (check_options kind (option_table opts)) (\<lambda>_.
      if set_price (tg_triggerPrice p) \<noteq> None \<and> kind \<noteq> ''stop_loss'' \<and> kind \<noteq> ''take_profit''
      then Inl (ValidationError ''trigger_price applies only to stop_loss or take_profit'')
      else bind_res (check_source kind (tg_triggerPriceSource p)) (\<lambda>_.
      if \<not> (orderType = ''market'' \<or> orderType = ''limit'' \<or> orderType = [] \<and> (kind = ''trailing_stop'' \<or> kind = ''ladder''))
      then Inl (ValidationError ''order_type must be limit or market'')
      else if tg_postOnly p \<and> (kind = ''trailing_stop'' \<or> kind = ''twap'')
      then Inl (ValidationError ''post_only applies only to limit GTC stops or ladder'')
      else if set_price (tg_limitPrice p) \<noteq> None \<and> (kind = ''ladder'' \<or> kind \<noteq> ''trailing_stop'' \<and> orderType = ''market'')
      then Inl (ValidationError ''limit_price applies only to limit children or a buy trailing_stop'')
      else if (kind = ''ladder'' \<or> kind = ''twap'' \<and> orderType = ''limit'')
          \<and> (to_MaxSlippageTicks opts \<noteq> None \<or> to_MaxSlippageBps opts \<noteq> None)
      then Inl (ValidationError ''max_slippage_ticks and max_slippage_bps apply only to market children or trailing_stop'')
      else bind_res (check_tif kind orderType (to_lower (tg_tif p))) (\<lambda>_.
      if kind = ''trailing_stop'' \<and> equal_fold (tg_side p) ''sell'' \<and> orderType = ''limit''
      then Inl (ValidationError ''order_type=limit applies only to buy trailing_stop children'')
      else Inr ()))))"

section \<open>The strategies\<close>

text \<open>\<open>createSlippageCap\<close> with the choice its callers make from its two results.\<close>

definition createSlippageCap :: "int option \<Rightarrow> int option \<Rightarrow> int \<Rightarrow> (int option \<times> int option) res" where
  "createSlippageCap ticks bps maxBps =
     (if ticks \<noteq> None \<and> bps \<noteq> None
      then Inl (ValidationError ''set at most one of max_slippage_ticks or max_slippage_bps'')
      else if (case ticks of None \<Rightarrow> False | Some t \<Rightarrow> t \<le> 0)
      then Inl (ValidationError ''max_slippage_ticks must be positive'')
      else if (case bps of None \<Rightarrow> False | Some b \<Rightarrow> b < 1 \<or> b > maxBps)
      then Inl (ValidationError (''max_slippage_bps must be between 1 and '' @ itoa maxBps))
      else Inr (ticks, bps))"

definition cap_of :: "int option \<times> int option \<Rightarrow> max_slippage option" where
  "cap_of c = (case c of (Some t, _) \<Rightarrow> Some (MaxSlippageTicks t) | (None, Some b) \<Rightarrow> Some (MaxSlippageBps b)
     | (None, None) \<Rightarrow> None)"

definition conditionalChildToProto ::
  "string \<Rightarrow> string \<Rightarrow> price_input option \<Rightarrow> string \<Rightarrow> bool \<Rightarrow> order_side \<Rightarrow> int option \<Rightarrow> int option
    \<Rightarrow> conditional_child res" where
  "conditionalChildToProto orderType tif limitPrice symbol postOnly side maxSlippageTicks maxSlippageBps =
     (if to_lower orderType = ''market''
      then (if postOnly then Inl (ValidationError ''post_only is only valid for limit GTC executions'')
            else bind_res (createSlippageCap maxSlippageTicks maxSlippageBps
                (if side = SELL then MaxSellingSlippageBps else MaxSlippageBpsLimit)) (\<lambda>cap.
              Inr (ChildMarketIoc (cap_of cap))))
      else if to_lower orderType = ''limit''
      then (if maxSlippageTicks \<noteq> None \<or> maxSlippageBps \<noteq> None
            then Inl (ValidationError ''max_slippage_ticks and max_slippage_bps apply only to market children; a limit child is bounded by limit_price'')
            else case set_price limitPrice of
              None \<Rightarrow> Inl (ValidationError ''limit trigger requires limit_price'')
            | Some limit \<Rightarrow> bind_res (ResolvePriceTicks limit ''limit_price'' symbol) (\<lambda>ticks.
                if to_lower tif = ''ioc''
                then (if postOnly then Inl (ValidationError ''post_only is only valid for limit GTC executions'')
                      else Inr (ChildLimitIoc ticks))
                else if to_lower tif = ''fok''
                then (if postOnly then Inl (ValidationError ''post_only is only valid for limit GTC executions'')
                      else Inr (ChildLimitFok ticks))
                else Inr (ChildLimitGtc ticks postOnly)))
      else Inl (ValidationError ''order_type must be limit or market''))"

definition trigger_side :: "string \<Rightarrow> order_side res" where
  "trigger_side side = (case map_of orderSideToProto (to_lower side) of
       None \<Rightarrow> Inl (ValidationError ''side must be buy or sell'')
     | Some s \<Rightarrow> Inr s)"

text \<open>An optional price that is zero when unset.\<close>

definition ticks_or_zero :: "price_input option \<Rightarrow> string \<Rightarrow> string \<Rightarrow> int res" where
  "ticks_or_zero p fieldName symbol = (case set_price p of
       None \<Rightarrow> Inr 0
     | Some i \<Rightarrow> ResolvePriceTicks i fieldName symbol)"

definition conditional_strategy :: "create_trigger_input \<Rightarrow> conditional_trigger res" where
  "conditional_strategy p =
     bind_res (trigger_side (tg_side p)) (\<lambda>side.
     bind_res (ticks_or_zero (tg_triggerPrice p) ''trigger_price'' (tg_symbol p)) (\<lambda>triggerTicks.
     bind_res (conditionalChildToProto (tg_orderType p) (tg_tif p) (tg_limitPrice p) (tg_symbol p) (tg_postOnly p) side
         (to_MaxSlippageTicks (tg_opts p)) (to_MaxSlippageBps (tg_opts p))) (\<lambda>child.
     bind_res (triggerPriceSourceToProto (tg_triggerPriceSource p) ''trigger_price_source'') (\<lambda>source.
     Inr \<lparr>ct_triggerPriceTicks = triggerTicks, ct_side = side, ct_child = child, ct_triggerPriceSource = source\<rparr>))))"

definition trailing_max_price :: "create_trigger_input \<Rightarrow> order_side \<Rightarrow> int res" where
  "trailing_max_price p side = (case set_price (tg_limitPrice p) of
       None \<Rightarrow> if side = BUY
         then Inl (ValidationError ''trailing_stop with side=buy requires limit_price, the maximum price the child pays'')
         else Inr 0
     | Some limit \<Rightarrow> if side = SELL
         then Inl (ValidationError ''trailing_stop with side=sell does not accept limit_price; only a buy has a maximum price'')
         else bind_res (ResolvePriceTicks limit ''limit_price'' (tg_symbol p)) (\<lambda>ticks.
           if ticks \<le> 0 then Inl (ValidationError ''limit_price must be positive'') else Inr ticks))"

definition create_distance :: "create_trigger_options \<Rightarrow> trailing_distance res" where
  "create_distance opts = (case to_TrailingDistanceTicks opts of
       Some t \<Rightarrow> Inr (TrailingDistanceTicks t)
     | None \<Rightarrow> (case to_TrailingDistanceBps opts of
           Some b \<Rightarrow> bind_res (validateBps ''trailing_distance_bps'' b False) (\<lambda>_. Inr (TrailingDistanceBps b))
         | None \<Rightarrow> Inl (ValidationError ''trailing_stop requires trailing_distance_ticks or trailing_distance_bps'')))"

definition trailing_strategy :: "create_trigger_input \<Rightarrow> trailing_stop_trigger res" where
  "trailing_strategy p = (let opts = tg_opts p in
     if to_TrailingDistanceTicks opts \<noteq> None \<and> to_TrailingDistanceBps opts \<noteq> None
     then Inl (ValidationError ''set at most one of trailing_distance_ticks or trailing_distance_bps'')
     else
       bind_res (trigger_side (tg_side p)) (\<lambda>side.
       bind_res (triggerPriceSourceToProto (tg_triggerPriceSource p) ''trigger_price_source'') (\<lambda>source.
       bind_res (trailing_max_price p side) (\<lambda>limit.
       bind_res (create_distance opts) (\<lambda>distance.
       bind_res (ticks_or_zero (to_ActivationPrice opts) ''activation_price'' (tg_symbol p)) (\<lambda>activation.
       if limit > 0 \<and> activation > limit
       then Inl (ValidationError ''trailing_stop limit_price must be at least activation_price'')
       else
       bind_res (createSlippageCap (to_MaxSlippageTicks opts) (to_MaxSlippageBps opts) MaxSellingSlippageBps) (\<lambda>cap.
       Inr \<lparr>ts_side = side, ts_triggerPriceSource = source, ts_limitPriceTicks = limit, ts_trailingDistance = distance,
            ts_activationPriceTicks = activation, ts_maxSlippage = cap_of cap\<rparr>)))))))"

definition twap_cap :: "create_trigger_options \<Rightarrow> max_slippage option res" where
  "twap_cap opts =
     (case (to_MaxSlippageTicks opts, to_MaxSlippageBps opts) of
        (Some _, Some _) \<Rightarrow> Inl (ValidationError ''twap market_ioc allows at most one of max_slippage_ticks or max_slippage_bps'')
      | (Some t, None) \<Rightarrow> Inr (Some (MaxSlippageTicks t))
      | (None, Some b) \<Rightarrow> bind_res (validateSlippageBps b False) (\<lambda>_. Inr (Some (MaxSlippageBps b)))
      | (None, None) \<Rightarrow> Inr None)"

definition twap_execution_of :: "create_trigger_input \<Rightarrow> twap_execution res" where
  "twap_execution_of p =
     (if to_lower (tg_orderType p) = ''market''
      then bind_res (twap_cap (tg_opts p)) (\<lambda>cap. Inr (TwapMarketIoc cap))
      else if to_lower (tg_orderType p) = ''limit''
      then (case set_price (tg_limitPrice p) of
          None \<Rightarrow> Inl (ValidationError ''twap limit slices require limit_price'')
        | Some limit \<Rightarrow> bind_res (ResolvePriceTicks limit ''limit_price'' (tg_symbol p)) (\<lambda>ticks. Inr (TwapLimitGtc ticks)))
      else Inl (ValidationError ''order_type must be limit or market''))"

definition twap_strategy :: "create_trigger_input \<Rightarrow> twap_trigger res" where
  "twap_strategy p =
     bind_res (trigger_side (tg_side p)) (\<lambda>side.
     bind_res (twap_execution_of p) (\<lambda>execution.
     Inr \<lparr>tw_side = side, tw_durationMs = (case to_TwapDurationMs (tg_opts p) of None \<Rightarrow> 0 | Some d \<Rightarrow> d),
          tw_sliceIntervalMs = (case to_TwapSliceIntervalMs (tg_opts p) of None \<Rightarrow> 0 | Some d \<Rightarrow> d),
          tw_execution = execution\<rparr>))"

definition ladder_strategy :: "create_trigger_input \<Rightarrow> ladder_trigger res" where
  "ladder_strategy p = (let opts = tg_opts p in
     bind_res (trigger_side (tg_side p)) (\<lambda>side.
     if (case to_LadderDistribution opts of None \<Rightarrow> False | Some d \<Rightarrow> to_lower d \<noteq> [] \<and> to_lower d \<noteq> ''linear'')
     then Inl (ValidationError ''ladder only supports linear distribution'')
     else
       bind_res (ticks_or_zero (to_LadderPriceMin opts) ''ladder_price_min'' (tg_symbol p)) (\<lambda>lo.
       bind_res (ticks_or_zero (to_LadderPriceMax opts) ''ladder_price_max'' (tg_symbol p)) (\<lambda>hi.
       if set_price (to_LadderPriceMin opts) \<noteq> None \<and> set_price (to_LadderPriceMax opts) \<noteq> None \<and> lo \<ge> hi
       then Inl (ValidationError ''ladder_price_min must be strictly less than ladder_price_max'')
       else Inr \<lparr>la_side = side, la_postOnly = tg_postOnly p, la_priceMinTicks = lo, la_priceMaxTicks = hi,
            la_levels = (case to_LadderLevels opts of None \<Rightarrow> 0 | Some n \<Rightarrow> n)\<rparr>))))"

definition trigger_strategy_of :: "string \<Rightarrow> create_trigger_input \<Rightarrow> trigger_strategy res" where
  "trigger_strategy_of typeKey p =
     (if typeKey = ''stop_loss'' then bind_res (conditional_strategy p) (\<lambda>t. Inr (StrategyStopLoss t))
      else if typeKey = ''take_profit'' then bind_res (conditional_strategy p) (\<lambda>t. Inr (StrategyTakeProfit t))
      else if typeKey = ''trailing_stop'' then bind_res (trailing_strategy p) (\<lambda>t. Inr (StrategyTrailingStop t))
      else if typeKey = ''twap'' then bind_res (twap_strategy p) (\<lambda>t. Inr (StrategyTwap t))
      else bind_res (ladder_strategy p) (\<lambda>t. Inr (StrategyLadder t)))"

section \<open>Creating and patching\<close>

definition newTriggerRequestID :: "byte list \<Rightarrow> string" where
  "newTriggerRequestID b = ''trg-'' @ hex_encode b"

definition client_trigger_id :: "string option \<Rightarrow> byte list \<Rightarrow> string res" where
  "client_trigger_id clientTriggerID rnd = (case clientTriggerID of
       None \<Rightarrow> Inr (newTriggerRequestID rnd)
     | Some c \<Rightarrow> if c = [] then Inr (newTriggerRequestID rnd) else requiredClientID c ''client_trigger_id'')"

definition trigger_fee_asset :: "create_trigger_options \<Rightarrow> fee_asset res" where
  "trigger_fee_asset opts = (case to_FeeAsset opts of
       None \<Rightarrow> Inr FEE_ASSET_UNSPECIFIED
     | Some text \<Rightarrow> (case map_of triggerFeeAssetToProto (to_lower text) of
           None \<Rightarrow> Inl (ValidationError ''fee_asset must be quote or base'')
         | Some asset \<Rightarrow> Inr asset))"

definition type_key :: "string \<Rightarrow> string" where
  "type_key triggerType = to_lower (map (\<lambda>c. if c = CHR ''-'' then CHR ''_'' else c) triggerType)"

definition CreateTriggerToProto ::
  "(byte list \<Rightarrow> string) \<Rightarrow> (string \<Rightarrow> byte list option) \<Rightarrow> byte list \<Rightarrow> create_trigger_input
    \<Rightarrow> create_trigger_message res" where
  "CreateTriggerToProto enc dec rnd p =
     (if tg_symbolID p = 0 then Inl (ValidationError ''triggers.create requires a resolved non-zero symbol_id'')
      else case map_of triggerTypeToProto (type_key (tg_triggerType p)) of
        None \<Rightarrow> Inl (ValidationError ''trigger_type must be stop_loss, take_profit, trailing_stop, twap, or ladder'')
      | Some _ \<Rightarrow>
        bind_res (validateTriggerOptionApplicability (type_key (tg_triggerType p)) p) (\<lambda>_.
        bind_res (ResolveQtyScaled (tg_qty p) (tg_quantityScale p) ''qty'' (tg_symbol p) (Some (tg_symbolID p))) (\<lambda>qtyScaled.
        bind_res (client_trigger_id (tg_clientTriggerID p) rnd) (\<lambda>clientTriggerId.
        bind_res (trigger_fee_asset (tg_opts p)) (\<lambda>feeAsset.
        bind_res (stp_mode_of (to_SelfTradePreventionMode (tg_opts p))) (\<lambda>mode.
        bind_res (trigger_strategy_of (type_key (tg_triggerType p)) p) (\<lambda>strategy.
        bind_res (optional_subaccount enc dec (tg_subAccountID p)) (\<lambda>sub.
        Inr \<lparr>tm_trigger = \<lparr>tn_symbolId = tg_symbolID p, tn_qtyScaled = qtyScaled, tn_clientTriggerId = clientTriggerId,
             tn_feeAsset = feeAsset, tn_selfTradePreventionMode = mode, tn_strategy = strategy\<rparr>, tm_subaccountId = sub\<rparr>))))))))"

record modify_trigger_options =
  mo_TriggerPrice :: "price_input option"
  mo_TrailingDistanceTicks :: "int option"
  mo_TrailingDistanceBps :: "int option"
  mo_ActivationPrice :: "price_input option"
  mo_MaxSlippageTicks :: "int option"
  mo_MaxSlippageBps :: "int option"

record modify_trigger_message =
  mt_triggerId :: u64
  mt_symbolId :: u32
  mt_subaccountId :: "u64 option"
  mt_triggerPriceTicks :: "int option"
  mt_trailingDistance :: "trailing_distance option"
  mt_activationPriceTicks :: "int option"
  mt_maxSlippage :: "max_slippage option"

definition patch_price :: "price_input option \<Rightarrow> string \<Rightarrow> int option res" where
  "patch_price p fieldName = (case set_price p of
       None \<Rightarrow> Inr None
     | Some i \<Rightarrow> bind_res (ResolvePriceTicks i fieldName []) (\<lambda>ticks. Inr (Some ticks)))"

definition patch_distance :: "modify_trigger_options \<Rightarrow> trailing_distance option res" where
  "patch_distance opts = (case mo_TrailingDistanceBps opts of
       Some b \<Rightarrow> bind_res (validateBps ''trailing_distance_bps'' b False) (\<lambda>_. Inr (Some (TrailingDistanceBps b)))
     | None \<Rightarrow> Inr (map_option TrailingDistanceTicks (mo_TrailingDistanceTicks opts)))"

definition patch_slippage :: "modify_trigger_options \<Rightarrow> max_slippage option res" where
  "patch_slippage opts =
     bind_res (case mo_MaxSlippageTicks opts of
         None \<Rightarrow> Inr None
       | Some t \<Rightarrow> if t < 0 then Inl (ValidationError ''max_slippage_ticks must not be negative; send 0 to clear the cap'')
           else Inr (Some (MaxSlippageTicks t))) (\<lambda>ticks.
     case mo_MaxSlippageBps opts of
       None \<Rightarrow> Inr ticks
     | Some b \<Rightarrow> bind_res (validateBpsAtMost ''max_slippage_bps'' b True MaxSellingSlippageBps)
         (\<lambda>_. Inr (Some (MaxSlippageBps b))))"

definition ModifyTriggerToProto ::
  "(byte list \<Rightarrow> string) \<Rightarrow> (string \<Rightarrow> byte list option) \<Rightarrow> string \<Rightarrow> u32 \<Rightarrow> string option \<Rightarrow> modify_trigger_options
    \<Rightarrow> modify_trigger_message res" where
  "ModifyTriggerToProto enc dec triggerID symbolID subAccountID opts =
     (if set_price (mo_TriggerPrice opts) = None \<and> mo_TrailingDistanceTicks opts = None \<and> mo_TrailingDistanceBps opts = None
          \<and> set_price (mo_ActivationPrice opts) = None \<and> mo_MaxSlippageTicks opts = None \<and> mo_MaxSlippageBps opts = None
      then Inl (ValidationError ''modify requires at least one of trigger_price, trailing_distance_ticks, trailing_distance_bps, activation_price, max_slippage_ticks, or max_slippage_bps'')
      else if mo_MaxSlippageTicks opts \<noteq> None \<and> mo_MaxSlippageBps opts \<noteq> None
      then Inl (ValidationError ''set at most one of max_slippage_ticks or max_slippage_bps'')
      else if mo_TrailingDistanceTicks opts \<noteq> None \<and> mo_TrailingDistanceBps opts \<noteq> None
      then Inl (ValidationError ''set at most one of trailing_distance_ticks or trailing_distance_bps'')
      else
        bind_res (IDToInt enc dec triggerID ''trigger_id'') (\<lambda>id.
        bind_res (ParseOptionalSubaccountID enc dec subAccountID) (\<lambda>sub.
        bind_res (patch_price (mo_TriggerPrice opts) ''trigger_price'') (\<lambda>triggerPrice.
        bind_res (patch_distance opts) (\<lambda>distance.
        bind_res (patch_price (mo_ActivationPrice opts) ''activation_price'') (\<lambda>activation.
        bind_res (patch_slippage opts) (\<lambda>slippage.
        Inr \<lparr>mt_triggerId = id, mt_symbolId = symbolID, mt_subaccountId = sub, mt_triggerPriceTicks = triggerPrice,
             mt_trailingDistance = distance, mt_activationPriceTicks = activation, mt_maxSlippage = slippage\<rparr>)))))))"

definition ParseRequiredUint64Decimal ::
  "(byte list \<Rightarrow> string) \<Rightarrow> (string \<Rightarrow> byte list option) \<Rightarrow> string \<Rightarrow> string \<Rightarrow> u64 res" where
  "ParseRequiredUint64Decimal enc dec raw field =
     (let trimmed = trim_space raw in
      if trimmed = [] \<or> \<not> isDecimal trimmed
      then Inl (ValidationError (field @ '' must be a uint64 decimal string''))
      else IDToInt enc dec trimmed field)"

section \<open>Reading a strategy\<close>

definition strategy_kind :: "trigger_strategy \<Rightarrow> string" where
  "strategy_kind s = (case s of StrategyStopLoss _ \<Rightarrow> ''stop_loss'' | StrategyTakeProfit _ \<Rightarrow> ''take_profit''
     | StrategyTrailingStop _ \<Rightarrow> ''trailing_stop'' | StrategyTwap _ \<Rightarrow> ''twap'' | StrategyLadder _ \<Rightarrow> ''ladder'')"

definition strategy_side :: "trigger_strategy \<Rightarrow> order_side" where
  "strategy_side s = (case s of StrategyStopLoss c \<Rightarrow> ct_side c | StrategyTakeProfit c \<Rightarrow> ct_side c
     | StrategyTrailingStop t \<Rightarrow> ts_side t | StrategyTwap t \<Rightarrow> tw_side t | StrategyLadder l \<Rightarrow> la_side l)"

definition strategy_condition :: "trigger_strategy \<Rightarrow> conditional_trigger option" where
  "strategy_condition s = (case s of StrategyStopLoss c \<Rightarrow> Some c | StrategyTakeProfit c \<Rightarrow> Some c | _ \<Rightarrow> None)"

definition strategy_trailing :: "trigger_strategy \<Rightarrow> trailing_stop_trigger option" where
  "strategy_trailing s = (case s of StrategyTrailingStop t \<Rightarrow> Some t | _ \<Rightarrow> None)"

definition strategy_twap :: "trigger_strategy \<Rightarrow> twap_trigger option" where
  "strategy_twap s = (case s of StrategyTwap t \<Rightarrow> Some t | _ \<Rightarrow> None)"

definition strategy_ladder :: "trigger_strategy \<Rightarrow> ladder_trigger option" where
  "strategy_ladder s = (case s of StrategyLadder l \<Rightarrow> Some l | _ \<Rightarrow> None)"

definition child_limit :: "conditional_child \<Rightarrow> int option" where
  "child_limit c = (case c of ChildMarketIoc _ \<Rightarrow> None | ChildLimitIoc p \<Rightarrow> Some p | ChildLimitFok p \<Rightarrow> Some p
     | ChildLimitGtc p _ \<Rightarrow> Some p)"

definition child_tif :: "conditional_child \<Rightarrow> string" where
  "child_tif c = (case c of ChildMarketIoc _ \<Rightarrow> ''ioc'' | ChildLimitIoc _ \<Rightarrow> ''ioc'' | ChildLimitFok _ \<Rightarrow> ''fok''
     | ChildLimitGtc _ _ \<Rightarrow> ''gtc'')"

text \<open>The limit price, slippage cap, time in force, post-only flag and price source a strategy executes with.\<close>

definition strategy_limit :: "trigger_strategy \<Rightarrow> int option" where
  "strategy_limit s = (case s of StrategyStopLoss c \<Rightarrow> child_limit (ct_child c) | StrategyTakeProfit c \<Rightarrow> child_limit (ct_child c)
     | StrategyTrailingStop t \<Rightarrow> if ts_limitPriceTicks t = 0 then None else Some (ts_limitPriceTicks t)
     | StrategyTwap t \<Rightarrow> (case tw_execution t of TwapMarketIoc _ \<Rightarrow> None | TwapLimitGtc p \<Rightarrow> Some p)
     | StrategyLadder _ \<Rightarrow> None)"

definition child_slippage :: "conditional_child \<Rightarrow> max_slippage option" where
  "child_slippage c = (case c of ChildMarketIoc cap \<Rightarrow> cap | _ \<Rightarrow> None)"

definition strategy_slippage :: "trigger_strategy \<Rightarrow> max_slippage option" where
  "strategy_slippage s = (case s of StrategyStopLoss c \<Rightarrow> child_slippage (ct_child c)
     | StrategyTakeProfit c \<Rightarrow> child_slippage (ct_child c) | StrategyTrailingStop t \<Rightarrow> ts_maxSlippage t
     | StrategyTwap t \<Rightarrow> (case tw_execution t of TwapMarketIoc cap \<Rightarrow> cap | TwapLimitGtc _ \<Rightarrow> None)
     | StrategyLadder _ \<Rightarrow> None)"

definition strategy_tif :: "trigger_strategy \<Rightarrow> string" where
  "strategy_tif s = (case s of StrategyStopLoss c \<Rightarrow> child_tif (ct_child c) | StrategyTakeProfit c \<Rightarrow> child_tif (ct_child c)
     | StrategyTrailingStop _ \<Rightarrow> ''ioc''
     | StrategyTwap t \<Rightarrow> (case tw_execution t of TwapMarketIoc _ \<Rightarrow> ''ioc'' | TwapLimitGtc _ \<Rightarrow> ''gtc'')
     | StrategyLadder _ \<Rightarrow> ''gtc'')"

definition child_postOnly :: "conditional_child \<Rightarrow> bool" where
  "child_postOnly c = (case c of ChildLimitGtc _ b \<Rightarrow> b | _ \<Rightarrow> False)"

definition strategy_postOnly :: "trigger_strategy \<Rightarrow> bool" where
  "strategy_postOnly s = (case s of StrategyStopLoss c \<Rightarrow> child_postOnly (ct_child c)
     | StrategyTakeProfit c \<Rightarrow> child_postOnly (ct_child c) | StrategyLadder l \<Rightarrow> la_postOnly l | _ \<Rightarrow> False)"

definition strategy_source :: "trigger_strategy \<Rightarrow> trigger_price_source" where
  "strategy_source s = (case s of StrategyStopLoss c \<Rightarrow> ct_triggerPriceSource c
     | StrategyTakeProfit c \<Rightarrow> ct_triggerPriceSource c | StrategyTrailingStop t \<Rightarrow> ts_triggerPriceSource t
     | _ \<Rightarrow> TRIGGER_PRICE_SOURCE_UNSPECIFIED)"

lemmas strategy_defs = strategy_kind_def strategy_side_def strategy_condition_def strategy_trailing_def
  strategy_twap_def strategy_ladder_def strategy_limit_def strategy_slippage_def strategy_tif_def strategy_postOnly_def
  strategy_source_def child_limit_def child_slippage_def child_tif_def child_postOnly_def

text \<open>A value that was given is there.\<close>

definition kept :: "'a option \<Rightarrow> 'a option \<Rightarrow> bool" where
  "kept given sent \<longleftrightarrow> (given = None \<or> sent = given)"

definition kept_price :: "price_input option \<Rightarrow> int option \<Rightarrow> bool" where
  "kept_price given sent \<longleftrightarrow> (case set_price given of None \<Rightarrow> True
     | Some i \<Rightarrow> (case sent of None \<Rightarrow> False | Some t \<Rightarrow> price_denotes i t))"

lemma kept_price_unset: "set_price p = None \<Longrightarrow> kept_price p n"
  by (simp add: kept_price_def)

lemma ticks_or_zero_kept: "ticks_or_zero p f symbol = Inr t \<Longrightarrow> kept_price p (Some t)"
  by (auto simp: ticks_or_zero_def kept_price_def resolved_price split: option.splits)

text \<open>Each option that was given, in the strategy.\<close>

definition trailing_kept :: "create_trigger_options \<Rightarrow> trailing_stop_trigger option \<Rightarrow> bool" where
  "trailing_kept opts t \<longleftrightarrow> kept (map_option TrailingDistanceTicks (to_TrailingDistanceTicks opts)) (map_option ts_trailingDistance t)
     \<and> kept (map_option TrailingDistanceBps (to_TrailingDistanceBps opts)) (map_option ts_trailingDistance t)
     \<and> kept_price (to_ActivationPrice opts) (map_option ts_activationPriceTicks t)"

definition twap_kept :: "create_trigger_options \<Rightarrow> twap_trigger option \<Rightarrow> bool" where
  "twap_kept opts t \<longleftrightarrow> kept (to_TwapDurationMs opts) (map_option tw_durationMs t)
     \<and> kept (to_TwapSliceIntervalMs opts) (map_option tw_sliceIntervalMs t)"

definition ladder_kept :: "create_trigger_options \<Rightarrow> ladder_trigger option \<Rightarrow> bool" where
  "ladder_kept opts l \<longleftrightarrow> kept_price (to_LadderPriceMin opts) (map_option la_priceMinTicks l)
     \<and> kept_price (to_LadderPriceMax opts) (map_option la_priceMaxTicks l) \<and> kept (to_LadderLevels opts) (map_option la_levels l)
     \<and> (case to_LadderDistribution opts of None \<Rightarrow> True | Some d \<Rightarrow> l \<noteq> None \<and> to_lower d \<in> {[], ''linear''})"

definition execution_kept :: "create_trigger_input \<Rightarrow> trigger_strategy \<Rightarrow> bool" where
  "execution_kept p s \<longleftrightarrow> kept_price (tg_limitPrice p) (strategy_limit s)
     \<and> kept (map_option MaxSlippageTicks (to_MaxSlippageTicks (tg_opts p))) (strategy_slippage s)
     \<and> kept (map_option MaxSlippageBps (to_MaxSlippageBps (tg_opts p))) (strategy_slippage s)
     \<and> (tg_postOnly p \<longrightarrow> strategy_postOnly s)
     \<and> (to_lower (tg_tif p) \<in> {''ioc'', ''fok''} \<longrightarrow> strategy_tif s = to_lower (tg_tif p))"

definition source_kept :: "string \<Rightarrow> trigger_price_source \<Rightarrow> bool" where
  "source_kept text source \<longleftrightarrow> to_lower text = TriggerPriceSourceName source"

lemmas kept_defs = trailing_kept_def twap_kept_def ladder_kept_def execution_kept_def source_kept_def kept_def

lemma source_read: "triggerPriceSourceToProto text f = Inr source \<Longrightarrow> source_kept text source"
  by (auto simp: triggerPriceSourceToProto_def triggerPriceSourceToProtoMap_def source_kept_def TriggerPriceSourceName_def
      split: if_splits)

lemma trigger_side_read: "trigger_side text = Inr side \<Longrightarrow> side \<noteq> SIDE_UNSPECIFIED \<and> to_lower text = OrderSideName side"
  using side_specified by (auto simp: trigger_side_def split: option.splits)

lemma check_options_Inr:
  "check_options kind options = Inr u \<longleftrightarrow> list_all (\<lambda>(present, name, supported). present \<longrightarrow> kind = supported) options"
  by (induction kind options rule: check_options.induct) auto

lemma option_table_Inr:
  assumes "check_options kind (option_table opts) = Inr u"
  shows "kind \<noteq> ''trailing_stop'' \<longrightarrow> trailing_kept opts None" and "kind \<noteq> ''twap'' \<longrightarrow> twap_kept opts None"
    and "kind \<noteq> ''ladder'' \<longrightarrow> ladder_kept opts None"
proof -
  from assms have "list_all (\<lambda>(present, name, supported). present \<longrightarrow> kind = supported) (option_table opts)"
    by (simp only: check_options_Inr)
  then have t: "to_TrailingDistanceTicks opts \<noteq> None \<longrightarrow> kind = ''trailing_stop''"
    "to_TrailingDistanceBps opts \<noteq> None \<longrightarrow> kind = ''trailing_stop''"
    "set_price (to_ActivationPrice opts) \<noteq> None \<longrightarrow> kind = ''trailing_stop''"
    "to_TwapDurationMs opts \<noteq> None \<longrightarrow> kind = ''twap''" "to_TwapSliceIntervalMs opts \<noteq> None \<longrightarrow> kind = ''twap''"
    "set_price (to_LadderPriceMin opts) \<noteq> None \<longrightarrow> kind = ''ladder''"
    "set_price (to_LadderPriceMax opts) \<noteq> None \<longrightarrow> kind = ''ladder''"
    "to_LadderLevels opts \<noteq> None \<longrightarrow> kind = ''ladder''" "to_LadderDistribution opts \<noteq> None \<longrightarrow> kind = ''ladder''"
    unfolding option_table_def by simp_all
  have "trailing_kept opts None" if "kind \<noteq> ''trailing_stop''"
  proof -
    from t(1-3) that have "to_TrailingDistanceTicks opts = None" "to_TrailingDistanceBps opts = None"
      "set_price (to_ActivationPrice opts) = None" by blast+
    then show ?thesis by (simp add: kept_defs kept_price_unset)
  qed
  moreover have "twap_kept opts None" if "kind \<noteq> ''twap''"
  proof -
    from t(4,5) that have "to_TwapDurationMs opts = None" "to_TwapSliceIntervalMs opts = None" by blast+
    then show ?thesis by (simp add: kept_defs)
  qed
  moreover have "ladder_kept opts None" if "kind \<noteq> ''ladder''"
  proof -
    from t(6-9) that have "set_price (to_LadderPriceMin opts) = None" "set_price (to_LadderPriceMax opts) = None"
      "to_LadderLevels opts = None" "to_LadderDistribution opts = None" by blast+
    then show ?thesis by (simp add: kept_defs kept_price_unset)
  qed
  ultimately show "kind \<noteq> ''trailing_stop'' \<longrightarrow> trailing_kept opts None" "kind \<noteq> ''twap'' \<longrightarrow> twap_kept opts None"
    "kind \<noteq> ''ladder'' \<longrightarrow> ladder_kept opts None" by blast+
qed

text \<open>What an accepted combination of options gives.\<close>

lemma applicability_Inr:
  assumes "validateTriggerOptionApplicability kind p = Inr u"
  obtains "kind \<noteq> ''trailing_stop'' \<longrightarrow> trailing_kept (tg_opts p) None" "kind \<noteq> ''twap'' \<longrightarrow> twap_kept (tg_opts p) None"
    "kind \<noteq> ''ladder'' \<longrightarrow> ladder_kept (tg_opts p) None"
    "kind = ''stop_loss'' \<or> kind = ''take_profit'' \<or> set_price (tg_triggerPrice p) = None"
    "kind = ''twap'' \<or> kind = ''ladder'' \<longrightarrow> source_kept (tg_triggerPriceSource p) TRIGGER_PRICE_SOURCE_UNSPECIFIED"
    "\<not> (tg_postOnly p \<and> (kind = ''trailing_stop'' \<or> kind = ''twap''))"
    "\<not> (set_price (tg_limitPrice p) \<noteq> None \<and> (kind = ''ladder'' \<or> kind \<noteq> ''trailing_stop'' \<and> to_lower (tg_orderType p) = ''market''))"
    "\<not> ((kind = ''ladder'' \<or> kind = ''twap'' \<and> to_lower (tg_orderType p) = ''limit'')
        \<and> (to_MaxSlippageTicks (tg_opts p) \<noteq> None \<or> to_MaxSlippageBps (tg_opts p) \<noteq> None))"
    "check_tif kind (to_lower (tg_orderType p)) (to_lower (tg_tif p)) = Inr ()"
proof -
  from assms obtain u1 u2 u3 where a: "check_options kind (option_table (tg_opts p)) = Inr u1"
    "\<not> (set_price (tg_triggerPrice p) \<noteq> None \<and> kind \<noteq> ''stop_loss'' \<and> kind \<noteq> ''take_profit'')"
    "check_source kind (tg_triggerPriceSource p) = Inr u2"
    "\<not> (tg_postOnly p \<and> (kind = ''trailing_stop'' \<or> kind = ''twap''))"
    "\<not> (set_price (tg_limitPrice p) \<noteq> None \<and> (kind = ''ladder'' \<or> kind \<noteq> ''trailing_stop'' \<and> to_lower (tg_orderType p) = ''market''))"
    "\<not> ((kind = ''ladder'' \<or> kind = ''twap'' \<and> to_lower (tg_orderType p) = ''limit'')
        \<and> (to_MaxSlippageTicks (tg_opts p) \<noteq> None \<or> to_MaxSlippageBps (tg_opts p) \<noteq> None))"
    "check_tif kind (to_lower (tg_orderType p)) (to_lower (tg_tif p)) = Inr u3"
    unfolding validateTriggerOptionApplicability_def Let_def by (elim bind_res_InrE refuse_InrE) (rule that)
  from option_table_Inr [OF a(1)] have t: "kind \<noteq> ''trailing_stop'' \<longrightarrow> trailing_kept (tg_opts p) None"
    "kind \<noteq> ''twap'' \<longrightarrow> twap_kept (tg_opts p) None" "kind \<noteq> ''ladder'' \<longrightarrow> ladder_kept (tg_opts p) None" .
  have "kind = ''twap'' \<or> kind = ''ladder'' \<longrightarrow> source_kept (tg_triggerPriceSource p) TRIGGER_PRICE_SOURCE_UNSPECIFIED"
  proof
    assume "kind = ''twap'' \<or> kind = ''ladder''"
    with a(3) have "triggerPriceSourceToProto (tg_triggerPriceSource p) ''trigger_price_source'' = Inr TRIGGER_PRICE_SOURCE_UNSPECIFIED"
      by (auto simp: check_source_def bind_res_Inr_iff split: if_splits)
    then show "source_kept (tg_triggerPriceSource p) TRIGGER_PRICE_SOURCE_UNSPECIFIED" by (rule source_read)
  qed
  moreover have "kind = ''stop_loss'' \<or> kind = ''take_profit'' \<or> set_price (tg_triggerPrice p) = None" using a(2) by blast
  moreover have "check_tif kind (to_lower (tg_orderType p)) (to_lower (tg_tif p)) = Inr ()" using a(7) by simp
  ultimately show thesis by (intro that [OF t _ _ a(4-6)])
qed

text \<open>The executions.\<close>

lemma createSlippageCap_Inr:
  assumes "createSlippageCap ticks bps m = Inr c"
  shows "kept (map_option MaxSlippageTicks ticks) (cap_of c)" and "kept (map_option MaxSlippageBps bps) (cap_of c)"
    and "slippage_ok m (cap_of c)"
  using assms by (auto simp: createSlippageCap_def kept_def cap_of_def slippage_ok_def split: if_splits option.splits)

lemma conditionalChildToProto_Inr:
  assumes "conditionalChildToProto ot tif limit symbol post side ticks bps = Inr c"
    and "\<not> (set_price limit \<noteq> None \<and> to_lower ot = ''market'')"
  shows "kept_price limit (child_limit c)" and "kept (map_option MaxSlippageTicks ticks) (child_slippage c)"
    and "kept (map_option MaxSlippageBps bps) (child_slippage c)" and "post \<longrightarrow> child_postOnly c"
    and "to_lower ot = ''market'' \<and> child_tif c = ''ioc'' \<or> to_lower ot = ''limit'' \<and> (to_lower tif \<in> {''ioc'', ''fok''} \<longrightarrow> child_tif c = to_lower tif)"
    and "slippage_ok (if side = SELL then 9999 else 10000) (child_slippage c)"
proof -
  consider (market) cap where "to_lower ot = ''market''" "\<not> post" "c = ChildMarketIoc (cap_of cap)" "set_price limit = None"
      "createSlippageCap ticks bps (if side = SELL then 9999 else 10000) = Inr cap"
    | (limit) i t where "to_lower ot = ''limit''" "ticks = None" "bps = None" "set_price limit = Some i" "price_denotes i t"
      "c = ChildLimitIoc t \<and> to_lower tif = ''ioc'' \<and> \<not> post \<or> c = ChildLimitFok t \<and> to_lower tif = ''fok'' \<and> \<not> post
        \<or> c = ChildLimitGtc t post \<and> to_lower tif \<notin> {''ioc'', ''fok''}"
  proof (cases "to_lower ot = ''market''")
    case True
    with assms obtain cap where "\<not> post" "c = ChildMarketIoc (cap_of cap)" "set_price limit = None"
      "createSlippageCap ticks bps (if side = SELL then 9999 else 10000) = Inr cap"
      by (auto simp: conditionalChildToProto_def bind_res_Inr_iff MaxSellingSlippageBps_def MaxSlippageBpsLimit_def split: if_splits)
    with True show ?thesis by (intro market)
  next
    case False
    with assms obtain i t where "to_lower ot = ''limit''" "ticks = None" "bps = None" "set_price limit = Some i"
      "ResolvePriceTicks i ''limit_price'' symbol = Inr t"
      "c = ChildLimitIoc t \<and> to_lower tif = ''ioc'' \<and> \<not> post \<or> c = ChildLimitFok t \<and> to_lower tif = ''fok'' \<and> \<not> post
        \<or> c = ChildLimitGtc t post \<and> to_lower tif \<notin> {''ioc'', ''fok''}"
      by (auto simp: conditionalChildToProto_def bind_res_Inr_iff split: if_splits option.splits)
    with resolved_price show ?thesis by (intro limit)
  qed
  then show "kept_price limit (child_limit c)" "kept (map_option MaxSlippageTicks ticks) (child_slippage c)"
    "kept (map_option MaxSlippageBps bps) (child_slippage c)" "post \<longrightarrow> child_postOnly c"
    "to_lower ot = ''market'' \<and> child_tif c = ''ioc'' \<or> to_lower ot = ''limit'' \<and> (to_lower tif \<in> {''ioc'', ''fok''} \<longrightarrow> child_tif c = to_lower tif)"
    "slippage_ok (if side = SELL then 9999 else 10000) (child_slippage c)"
    by (cases; auto simp: kept_price_def kept_def slippage_ok_def child_limit_def child_slippage_def child_postOnly_def child_tif_def
        dest: createSlippageCap_Inr)+
qed

lemma check_tif_Inr:
  assumes "check_tif kind orderType tif = Inr u"
  shows "kind = ''ladder'' \<or> kind = ''twap'' \<and> orderType = ''limit'' \<Longrightarrow> tif \<notin> {''ioc'', ''fok''}"
    and "kind = ''trailing_stop'' \<or> orderType = ''market'' \<Longrightarrow> tif \<noteq> ''fok''"
  using assms by (auto simp: check_tif_def split: if_splits)

text \<open>The four strategies, each under what \<open>validateTriggerOptionApplicability\<close> leaves.\<close>

lemma conditional_kept:
  assumes "conditional_strategy p = Inr c" and "\<not> (set_price (tg_limitPrice p) \<noteq> None \<and> to_lower (tg_orderType p) = ''market'')"
    and "to_lower (tg_orderType p) = ''market'' \<longrightarrow> to_lower (tg_tif p) \<noteq> ''fok''"
  shows "ct_side c \<noteq> SIDE_UNSPECIFIED \<and> to_lower (tg_side p) = OrderSideName (ct_side c)"
    and "kept_price (tg_triggerPrice p) (Some (ct_triggerPriceTicks c))"
    and "execution_kept p (StrategyStopLoss c)" and "execution_kept p (StrategyTakeProfit c)"
    and "source_kept (tg_triggerPriceSource p) (ct_triggerPriceSource c)"
    and "slippage_ok (if ct_side c = SELL then 9999 else 10000) (child_slippage (ct_child c))"
proof -
  from assms(1) obtain side tt child source where c: "trigger_side (tg_side p) = Inr side"
    "ticks_or_zero (tg_triggerPrice p) ''trigger_price'' (tg_symbol p) = Inr tt"
    "conditionalChildToProto (tg_orderType p) (tg_tif p) (tg_limitPrice p) (tg_symbol p) (tg_postOnly p) side
         (to_MaxSlippageTicks (tg_opts p)) (to_MaxSlippageBps (tg_opts p)) = Inr child"
    "triggerPriceSourceToProto (tg_triggerPriceSource p) ''trigger_price_source'' = Inr source"
    and f: "ct_triggerPriceTicks c = tt" "ct_side c = side" "ct_child c = child" "ct_triggerPriceSource c = source"
    unfolding conditional_strategy_def by (elim bind_res_InrE) auto
  note child = conditionalChildToProto_Inr [OF c(3) assms(2)]
  have tif: "to_lower (tg_tif p) \<in> {''ioc'', ''fok''} \<longrightarrow> child_tif child = to_lower (tg_tif p)"
    using child(5) assms(3) by auto
  show "ct_side c \<noteq> SIDE_UNSPECIFIED \<and> to_lower (tg_side p) = OrderSideName (ct_side c)"
    "kept_price (tg_triggerPrice p) (Some (ct_triggerPriceTicks c))"
    "source_kept (tg_triggerPriceSource p) (ct_triggerPriceSource c)"
    "slippage_ok (if ct_side c = SELL then 9999 else 10000) (child_slippage (ct_child c))"
    using trigger_side_read [OF c(1)] ticks_or_zero_kept [OF c(2)] source_read [OF c(4)] child(6) by (simp_all add: f)
  show "execution_kept p (StrategyStopLoss c)" "execution_kept p (StrategyTakeProfit c)"
    using child(1-4) tif
    by (simp_all add: execution_kept_def strategy_limit_def strategy_slippage_def strategy_tif_def strategy_postOnly_def f)
qed

lemma trailing_max_price_Inr:
  assumes "trailing_max_price p side = Inr l" and "side \<noteq> SIDE_UNSPECIFIED"
  shows "kept_price (tg_limitPrice p) (if l = 0 then None else Some l)" and "0 \<le> l" and "l \<noteq> 0 \<longleftrightarrow> side = BUY"
  using assms by (cases side; auto simp: trailing_max_price_def kept_price_def bind_res_Inr_iff resolved_price
      split: option.splits if_splits)+

lemma create_distance_Inr:
  assumes "create_distance opts = Inr d" and "\<not> (to_TrailingDistanceTicks opts \<noteq> None \<and> to_TrailingDistanceBps opts \<noteq> None)"
  shows "kept (map_option TrailingDistanceTicks (to_TrailingDistanceTicks opts)) (Some d)"
    and "kept (map_option TrailingDistanceBps (to_TrailingDistanceBps opts)) (Some d)"
    and "case d of TrailingDistanceTicks _ \<Rightarrow> True | TrailingDistanceBps b \<Rightarrow> 1 \<le> b \<and> b \<le> 10000"
  using assms by (auto simp: create_distance_def kept_def validateBps_def bind_unit_Inr_iff MaxSlippageBpsLimit_def split: option.splits)

lemma trailing_strategy_kept:
  assumes "trailing_strategy p = Inr t" and "\<not> tg_postOnly p" and "to_lower (tg_tif p) \<noteq> ''fok''"
  shows "ts_side t \<noteq> SIDE_UNSPECIFIED \<and> to_lower (tg_side p) = OrderSideName (ts_side t)"
    and "trailing_kept (tg_opts p) (Some t)" and "execution_kept p (StrategyTrailingStop t)"
    and "source_kept (tg_triggerPriceSource p) (ts_triggerPriceSource t)"
    and "(ts_limitPriceTicks t \<noteq> 0 \<longleftrightarrow> ts_side t = BUY) \<and> 0 \<le> ts_limitPriceTicks t
      \<and> (ts_limitPriceTicks t \<noteq> 0 \<longrightarrow> ts_activationPriceTicks t \<le> ts_limitPriceTicks t)
      \<and> slippage_ok 9999 (ts_maxSlippage t)
      \<and> (case ts_trailingDistance t of TrailingDistanceTicks _ \<Rightarrow> True | TrailingDistanceBps b \<Rightarrow> 1 \<le> b \<and> b \<le> 10000)"
proof -
  from assms(1) obtain side source l d a cap where
    one: "\<not> (to_TrailingDistanceTicks (tg_opts p) \<noteq> None \<and> to_TrailingDistanceBps (tg_opts p) \<noteq> None)"
    and c: "trigger_side (tg_side p) = Inr side"
      "triggerPriceSourceToProto (tg_triggerPriceSource p) ''trigger_price_source'' = Inr source"
      "trailing_max_price p side = Inr l" "create_distance (tg_opts p) = Inr d"
      "ticks_or_zero (to_ActivationPrice (tg_opts p)) ''activation_price'' (tg_symbol p) = Inr a"
      "createSlippageCap (to_MaxSlippageTicks (tg_opts p)) (to_MaxSlippageBps (tg_opts p)) MaxSellingSlippageBps = Inr cap"
    and le: "\<not> (l > 0 \<and> a > l)"
    and f: "ts_side t = side" "ts_triggerPriceSource t = source" "ts_limitPriceTicks t = l" "ts_trailingDistance t = d"
      "ts_activationPriceTicks t = a" "ts_maxSlippage t = cap_of cap"
    unfolding trailing_strategy_def Let_def by (elim bind_res_InrE refuse_InrE) auto
  note side = trigger_side_read [OF c(1)]
  note limit = trailing_max_price_Inr [OF c(3) side [THEN conjunct1]] and dist = create_distance_Inr [OF c(4) one]
    and cap = createSlippageCap_Inr [OF c(6)]
  show "ts_side t \<noteq> SIDE_UNSPECIFIED \<and> to_lower (tg_side p) = OrderSideName (ts_side t)"
    "source_kept (tg_triggerPriceSource p) (ts_triggerPriceSource t)"
    using side source_read [OF c(2)] by (simp_all add: f)
  show "trailing_kept (tg_opts p) (Some t)" using dist(1,2) ticks_or_zero_kept [OF c(5)] by (simp add: trailing_kept_def f)
  show "execution_kept p (StrategyTrailingStop t)"
    using limit(1) cap(1,2) assms(2,3)
    by (cases "l = 0") (simp_all add: execution_kept_def strategy_limit_def strategy_slippage_def strategy_tif_def strategy_postOnly_def f)
  show "(ts_limitPriceTicks t \<noteq> 0 \<longleftrightarrow> ts_side t = BUY) \<and> 0 \<le> ts_limitPriceTicks t
      \<and> (ts_limitPriceTicks t \<noteq> 0 \<longrightarrow> ts_activationPriceTicks t \<le> ts_limitPriceTicks t)
      \<and> slippage_ok 9999 (ts_maxSlippage t)
      \<and> (case ts_trailingDistance t of TrailingDistanceTicks _ \<Rightarrow> True | TrailingDistanceBps b \<Rightarrow> 1 \<le> b \<and> b \<le> 10000)"
    using limit(2,3) le dist(3) cap(3) by (auto simp: f MaxSellingSlippageBps_def MaxSlippageBpsLimit_def)
qed

lemma twap_cap_Inr:
  assumes "twap_cap opts = Inr cap"
  shows "kept (map_option MaxSlippageTicks (to_MaxSlippageTicks opts)) cap" and "kept (map_option MaxSlippageBps (to_MaxSlippageBps opts)) cap"
    and "case cap of Some (MaxSlippageBps b) \<Rightarrow> 1 \<le> b \<and> b \<le> 10000 | _ \<Rightarrow> True"
  using assms by (auto simp: twap_cap_def kept_def validateSlippageBps_def validateBps_def bind_unit_Inr_iff MaxSlippageBpsLimit_def
      split: option.splits)

lemma twap_execution_Inr:
  assumes "twap_execution_of p = Inr e"
  obtains (market) cap where "to_lower (tg_orderType p) = ''market''" "twap_cap (tg_opts p) = Inr cap" "e = TwapMarketIoc cap"
    | (limit) i t where "to_lower (tg_orderType p) = ''limit''" "set_price (tg_limitPrice p) = Some i" "price_denotes i t"
      "e = TwapLimitGtc t"
  using assms by (auto simp: twap_execution_of_def bind_res_Inr_iff split: if_splits option.splits intro: resolved_price)

lemma twap_strategy_kept:
  assumes "twap_strategy p = Inr t" and "\<not> tg_postOnly p"
    and "\<not> (set_price (tg_limitPrice p) \<noteq> None \<and> to_lower (tg_orderType p) = ''market'')"
    and "\<not> (to_lower (tg_orderType p) = ''limit'' \<and> (to_MaxSlippageTicks (tg_opts p) \<noteq> None \<or> to_MaxSlippageBps (tg_opts p) \<noteq> None))"
    and "to_lower (tg_orderType p) = ''limit'' \<longrightarrow> to_lower (tg_tif p) \<notin> {''ioc'', ''fok''}"
    and "to_lower (tg_orderType p) = ''market'' \<longrightarrow> to_lower (tg_tif p) \<noteq> ''fok''"
  shows "tw_side t \<noteq> SIDE_UNSPECIFIED \<and> to_lower (tg_side p) = OrderSideName (tw_side t)"
    and "twap_kept (tg_opts p) (Some t)" and "execution_kept p (StrategyTwap t)"
proof -
  from assms(1) obtain side e where c: "trigger_side (tg_side p) = Inr side" "twap_execution_of p = Inr e"
    and t: "t = \<lparr>tw_side = side, tw_durationMs = (case to_TwapDurationMs (tg_opts p) of None \<Rightarrow> 0 | Some d \<Rightarrow> d),
          tw_sliceIntervalMs = (case to_TwapSliceIntervalMs (tg_opts p) of None \<Rightarrow> 0 | Some d \<Rightarrow> d), tw_execution = e\<rparr>"
    unfolding twap_strategy_def by (elim bind_res_InrE) auto
  show "tw_side t \<noteq> SIDE_UNSPECIFIED \<and> to_lower (tg_side p) = OrderSideName (tw_side t)"
    using trigger_side_read [OF c(1)] by (simp add: t)
  show "twap_kept (tg_opts p) (Some t)" by (simp add: twap_kept_def kept_def t split: option.splits)
  show "execution_kept p (StrategyTwap t)"
    using c(2)
  proof (cases rule: twap_execution_Inr)
    case (market cap)
    with twap_cap_Inr [OF market(2)] assms(2,3,6) show ?thesis
      by (simp add: execution_kept_def strategy_limit_def strategy_slippage_def strategy_tif_def strategy_postOnly_def t kept_price_unset)
  next
    case (limit i x)
    with assms(2,4,5) show ?thesis
      by (auto simp: execution_kept_def strategy_limit_def strategy_slippage_def strategy_tif_def strategy_postOnly_def t kept_price_def kept_def)
  qed
qed

lemma ladder_strategy_kept:
  assumes "ladder_strategy p = Inr l" and "set_price (tg_limitPrice p) = None"
    and "to_MaxSlippageTicks (tg_opts p) = None" "to_MaxSlippageBps (tg_opts p) = None"
    and "to_lower (tg_tif p) \<notin> {''ioc'', ''fok''}"
  shows "la_side l \<noteq> SIDE_UNSPECIFIED \<and> to_lower (tg_side p) = OrderSideName (la_side l)"
    and "ladder_kept (tg_opts p) (Some l)" and "execution_kept p (StrategyLadder l)"
    and "set_price (to_LadderPriceMin (tg_opts p)) \<noteq> None \<and> set_price (to_LadderPriceMax (tg_opts p)) \<noteq> None
      \<longrightarrow> la_priceMinTicks l < la_priceMaxTicks l"
proof -
  from assms(1) obtain side lo hi where c: "trigger_side (tg_side p) = Inr side"
    "\<not> (case to_LadderDistribution (tg_opts p) of None \<Rightarrow> False | Some d \<Rightarrow> to_lower d \<noteq> [] \<and> to_lower d \<noteq> ''linear'')"
    "ticks_or_zero (to_LadderPriceMin (tg_opts p)) ''ladder_price_min'' (tg_symbol p) = Inr lo"
    "ticks_or_zero (to_LadderPriceMax (tg_opts p)) ''ladder_price_max'' (tg_symbol p) = Inr hi"
    "\<not> (set_price (to_LadderPriceMin (tg_opts p)) \<noteq> None \<and> set_price (to_LadderPriceMax (tg_opts p)) \<noteq> None \<and> lo \<ge> hi)"
    and l: "l = \<lparr>la_side = side, la_postOnly = tg_postOnly p, la_priceMinTicks = lo, la_priceMaxTicks = hi,
            la_levels = (case to_LadderLevels (tg_opts p) of None \<Rightarrow> 0 | Some n \<Rightarrow> n)\<rparr>"
    unfolding ladder_strategy_def Let_def by (elim bind_res_InrE refuse_InrE) auto
  show "la_side l \<noteq> SIDE_UNSPECIFIED \<and> to_lower (tg_side p) = OrderSideName (la_side l)"
    using trigger_side_read [OF c(1)] by (simp add: l)
  show "ladder_kept (tg_opts p) (Some l)"
    using ticks_or_zero_kept [OF c(3)] ticks_or_zero_kept [OF c(4)] c(2)
    by (auto simp: ladder_kept_def kept_def l split: option.splits)
  show "execution_kept p (StrategyLadder l)"
    using assms(2-5)
    by (simp add: execution_kept_def strategy_limit_def strategy_slippage_def strategy_tif_def strategy_postOnly_def l
        kept_price_unset kept_def)
  show "set_price (to_LadderPriceMin (tg_opts p)) \<noteq> None \<and> set_price (to_LadderPriceMax (tg_opts p)) \<noteq> None
      \<longrightarrow> la_priceMinTicks l < la_priceMaxTicks l"
    using c(5) by (auto simp: l)
qed

section \<open>Properties\<close>

text \<open>The strategy an accepted request sends.\<close>

lemma CreateTriggerToProto_Inr:
  assumes "CreateTriggerToProto enc dec rnd p = Inr m"
  obtains ty where "map_of triggerTypeToProto (type_key (tg_triggerType p)) = Some ty"
    "validateTriggerOptionApplicability (type_key (tg_triggerType p)) p = Inr ()"
    "ResolveQtyScaled (tg_qty p) (tg_quantityScale p) ''qty'' (tg_symbol p) (Some (tg_symbolID p)) = Inr (tn_qtyScaled (tm_trigger m))"
    "trigger_strategy_of (type_key (tg_triggerType p)) p = Inr (tn_strategy (tm_trigger m))"
    "tg_symbolID p \<noteq> 0" "tn_symbolId (tm_trigger m) = tg_symbolID p"
  using assms unfolding CreateTriggerToProto_def
  by (elim refuse_InrE lookup_InrE bind_res_InrE) (rule that, auto)

lemma trigger_strategy_cases:
  assumes "map_of triggerTypeToProto kind = Some ty" and "trigger_strategy_of kind p = Inr s"
  obtains (stop) c where "kind = ''stop_loss''" "conditional_strategy p = Inr c" "s = StrategyStopLoss c"
    | (profit) c where "kind = ''take_profit''" "conditional_strategy p = Inr c" "s = StrategyTakeProfit c"
    | (trailing) t where "kind = ''trailing_stop''" "trailing_strategy p = Inr t" "s = StrategyTrailingStop t"
    | (twap) t where "kind = ''twap''" "twap_strategy p = Inr t" "s = StrategyTwap t"
    | (ladder) l where "kind = ''ladder''" "ladder_strategy p = Inr l" "s = StrategyLadder l"
  using assms by (auto simp: triggerTypeToProto_def trigger_strategy_of_def bind_res_Inr_iff split: if_splits)

text \<open>What a strategy owes the request it was encoded from, and the limits it satisfies.\<close>

definition as_requested :: "create_trigger_input \<Rightarrow> trigger_strategy \<Rightarrow> bool" where
  "as_requested p s \<longleftrightarrow> strategy_kind s = type_key (tg_triggerType p)
     \<and> to_lower (tg_side p) = OrderSideName (strategy_side s)
     \<and> kept_price (tg_triggerPrice p) (map_option ct_triggerPriceTicks (strategy_condition s))
     \<and> trailing_kept (tg_opts p) (strategy_trailing s) \<and> twap_kept (tg_opts p) (strategy_twap s)
     \<and> ladder_kept (tg_opts p) (strategy_ladder s)
     \<and> execution_kept p s \<and> source_kept (tg_triggerPriceSource p) (strategy_source s)"

definition strategy_ok :: "trigger_strategy \<Rightarrow> bool" where
  "strategy_ok s \<longleftrightarrow> strategy_side s \<noteq> SIDE_UNSPECIFIED
     \<and> (case strategy_condition s of None \<Rightarrow> True
        | Some c \<Rightarrow> slippage_ok (if ct_side c = SELL then 9999 else 10000) (child_slippage (ct_child c)))
     \<and> (case strategy_trailing s of None \<Rightarrow> True
        | Some t \<Rightarrow> (ts_limitPriceTicks t \<noteq> 0 \<longleftrightarrow> ts_side t = BUY) \<and> 0 \<le> ts_limitPriceTicks t
            \<and> (ts_limitPriceTicks t \<noteq> 0 \<longrightarrow> ts_activationPriceTicks t \<le> ts_limitPriceTicks t)
            \<and> slippage_ok 9999 (ts_maxSlippage t)
            \<and> (case ts_trailingDistance t of TrailingDistanceTicks _ \<Rightarrow> True | TrailingDistanceBps b \<Rightarrow> 1 \<le> b \<and> b \<le> 10000))"

lemma trigger_strategy_kept:
  assumes "CreateTriggerToProto enc dec rnd p = Inr m"
  shows "as_requested p (tn_strategy (tm_trigger m)) \<and> strategy_ok (tn_strategy (tm_trigger m))"
proof -
  define s where "s = tn_strategy (tm_trigger m)"
  define kind where "kind = type_key (tg_triggerType p)"
  from assms obtain ty where ty: "map_of triggerTypeToProto kind = Some ty"
    and v: "validateTriggerOptionApplicability kind p = Inr ()" and s: "trigger_strategy_of kind p = Inr s"
    unfolding s_def kind_def by (rule CreateTriggerToProto_Inr)
  from v show ?thesis
  proof (rule applicability_Inr)
    assume a: "kind \<noteq> ''trailing_stop'' \<longrightarrow> trailing_kept (tg_opts p) None" "kind \<noteq> ''twap'' \<longrightarrow> twap_kept (tg_opts p) None"
      "kind \<noteq> ''ladder'' \<longrightarrow> ladder_kept (tg_opts p) None"
      "kind = ''stop_loss'' \<or> kind = ''take_profit'' \<or> set_price (tg_triggerPrice p) = None"
      "kind = ''twap'' \<or> kind = ''ladder'' \<longrightarrow> source_kept (tg_triggerPriceSource p) TRIGGER_PRICE_SOURCE_UNSPECIFIED"
      "\<not> (tg_postOnly p \<and> (kind = ''trailing_stop'' \<or> kind = ''twap''))"
      "\<not> (set_price (tg_limitPrice p) \<noteq> None \<and> (kind = ''ladder'' \<or> kind \<noteq> ''trailing_stop'' \<and> to_lower (tg_orderType p) = ''market''))"
      "\<not> ((kind = ''ladder'' \<or> kind = ''twap'' \<and> to_lower (tg_orderType p) = ''limit'')
          \<and> (to_MaxSlippageTicks (tg_opts p) \<noteq> None \<or> to_MaxSlippageBps (tg_opts p) \<noteq> None))"
      "check_tif kind (to_lower (tg_orderType p)) (to_lower (tg_tif p)) = Inr ()"
    note tif = check_tif_Inr [OF a(9)]
    from ty s have "as_requested p s \<and> strategy_ok s"
    proof (cases rule: trigger_strategy_cases)
      case (stop c)
      with a(7) have l: "\<not> (set_price (tg_limitPrice p) \<noteq> None \<and> to_lower (tg_orderType p) = ''market'')" by simp
      from conditional_kept [OF stop(2) l] tif(2) a(1-3) stop show ?thesis
        by (simp add: as_requested_def strategy_ok_def strategy_kind_def strategy_side_def strategy_condition_def
            strategy_trailing_def strategy_twap_def strategy_ladder_def strategy_source_def flip: kind_def)
    next
      case (profit c)
      with a(7) have l: "\<not> (set_price (tg_limitPrice p) \<noteq> None \<and> to_lower (tg_orderType p) = ''market'')" by simp
      from conditional_kept [OF profit(2) l] tif(2) a(1-3) profit show ?thesis
        by (simp add: as_requested_def strategy_ok_def strategy_kind_def strategy_side_def strategy_condition_def
            strategy_trailing_def strategy_twap_def strategy_ladder_def strategy_source_def flip: kind_def)
    next
      case (trailing t)
      with a(4,6) tif(2) have n: "\<not> tg_postOnly p" "to_lower (tg_tif p) \<noteq> ''fok''" "set_price (tg_triggerPrice p) = None" by auto
      from trailing_strategy_kept [OF trailing(2) n(1,2)] n(3) a(2,3) trailing show ?thesis
        by (simp add: as_requested_def strategy_ok_def strategy_kind_def strategy_side_def strategy_condition_def
            strategy_trailing_def strategy_twap_def strategy_ladder_def strategy_source_def kept_price_unset flip: kind_def)
    next
      case (twap t)
      with a(4,6-8) have n: "\<not> tg_postOnly p"
        "\<not> (set_price (tg_limitPrice p) \<noteq> None \<and> to_lower (tg_orderType p) = ''market'')"
        "\<not> (to_lower (tg_orderType p) = ''limit'' \<and> (to_MaxSlippageTicks (tg_opts p) \<noteq> None \<or> to_MaxSlippageBps (tg_opts p) \<noteq> None))"
        "set_price (tg_triggerPrice p) = None" by auto
      have f: "to_lower (tg_orderType p) = ''limit'' \<longrightarrow> to_lower (tg_tif p) \<notin> {''ioc'', ''fok''}"
        "to_lower (tg_orderType p) = ''market'' \<longrightarrow> to_lower (tg_tif p) \<noteq> ''fok''" using tif twap(1) by blast+
      from twap_strategy_kept [OF twap(2) n(1-3) f] n(4) a(1,3,5) twap show ?thesis
        by (simp add: as_requested_def strategy_ok_def strategy_kind_def strategy_side_def strategy_condition_def
            strategy_trailing_def strategy_twap_def strategy_ladder_def strategy_source_def kept_price_unset flip: kind_def)
    next
      case (ladder l)
      with a(4,7,8) have n: "set_price (tg_limitPrice p) = None" "to_MaxSlippageTicks (tg_opts p) = None"
        "to_MaxSlippageBps (tg_opts p) = None" "set_price (tg_triggerPrice p) = None" by auto
      have f: "to_lower (tg_tif p) \<notin> {''ioc'', ''fok''}" using tif(1) ladder(1) by blast
      from ladder_strategy_kept [OF ladder(2) n(1-3) f] n(4) a(1,2,5) ladder show ?thesis
        by (simp add: as_requested_def strategy_ok_def strategy_kind_def strategy_side_def strategy_condition_def
            strategy_trailing_def strategy_twap_def strategy_ladder_def strategy_source_def kept_price_unset flip: kind_def)
    qed
    then show ?thesis by (simp add: s_def)
  qed
qed


definition sample_trigger :: create_trigger_input where
  "sample_trigger = \<lparr>tg_symbolID = 7, tg_symbol = ''BTC'', tg_triggerType = ''trailing-stop'', tg_triggerPrice = None,
     tg_side = ''Buy'', tg_qty = QtyFromScaled (zeroQtyScaled\<lparr>qs_scaled := 5\<rparr>), tg_orderType = ''limit'',
     tg_limitPrice = Some (PriceFromTicks \<lparr>pt_ticks = 20, pt_symbol = []\<rparr>), tg_triggerPriceSource = ''mark'', tg_tif = ''ioc'',
     tg_subAccountID = None, tg_clientTriggerID = Some ''t-1'', tg_postOnly = False, tg_quantityScale = 2,
     tg_opts = \<lparr>to_FeeAsset = None, to_SelfTradePreventionMode = None, to_TrailingDistanceTicks = None,
       to_TrailingDistanceBps = Some 250, to_ActivationPrice = None, to_MaxSlippageTicks = Some 3, to_MaxSlippageBps = None,
       to_TwapDurationMs = None, to_TwapSliceIntervalMs = None, to_LadderPriceMin = None, to_LadderPriceMax = None,
       to_LadderLevels = None, to_LadderDistribution = None\<rparr>\<rparr>"

definition sample_trailing :: trailing_stop_trigger where
  "sample_trailing = \<lparr>ts_side = BUY, ts_triggerPriceSource = MARK_PRICE, ts_limitPriceTicks = 20,
     ts_trailingDistance = TrailingDistanceBps 250, ts_activationPriceTicks = 0, ts_maxSlippage = Some (MaxSlippageTicks 3)\<rparr>"

definition sample_trigger_sent :: create_trigger_message where
  "sample_trigger_sent = \<lparr>tm_trigger = \<lparr>tn_symbolId = 7, tn_qtyScaled = 5, tn_clientTriggerId = ''t-1'',
     tn_feeAsset = FEE_ASSET_UNSPECIFIED, tn_selfTradePreventionMode = STP_UNSPECIFIED,
     tn_strategy = StrategyTrailingStop sample_trailing\<rparr>, tm_subaccountId = None\<rparr>"

lemma sample_trigger_fields:
  "tg_symbolID sample_trigger = 7" "type_key (tg_triggerType sample_trigger) = ''trailing_stop''"
  "tg_subAccountID sample_trigger = None" "to_FeeAsset (tg_opts sample_trigger) = None"
  "to_SelfTradePreventionMode (tg_opts sample_trigger) = None" "tg_postOnly sample_trigger = False"
  "set_price (tg_triggerPrice sample_trigger) = None" "to_lower (tg_orderType sample_trigger) = ''limit''"
  "to_lower (tg_tif sample_trigger) = ''ioc''" "equal_fold (tg_side sample_trigger) ''sell'' = False"
  "to_TrailingDistanceTicks (tg_opts sample_trigger) = None"
  "check_options ''trailing_stop'' (option_table (tg_opts sample_trigger)) = Inr ()"
  "ResolveQtyScaled (tg_qty sample_trigger) (tg_quantityScale sample_trigger) ''qty'' (tg_symbol sample_trigger) (Some 7) = Inr 5"
  "client_trigger_id (tg_clientTriggerID sample_trigger) [] = Inr ''t-1''"
  "trigger_side (tg_side sample_trigger) = Inr BUY"
  "triggerPriceSourceToProto (tg_triggerPriceSource sample_trigger) ''trigger_price_source'' = Inr MARK_PRICE"
  "trailing_max_price sample_trigger BUY = Inr 20" "create_distance (tg_opts sample_trigger) = Inr (TrailingDistanceBps 250)"
  "ticks_or_zero (to_ActivationPrice (tg_opts sample_trigger)) ''activation_price'' (tg_symbol sample_trigger) = Inr 0"
  "createSlippageCap (to_MaxSlippageTicks (tg_opts sample_trigger)) (to_MaxSlippageBps (tg_opts sample_trigger)) MaxSellingSlippageBps = Inr (Some 3, None)"
  by code_simp+

lemma sample_trigger_run: "CreateTriggerToProto (\<lambda>_. []) (\<lambda>_. None) [] sample_trigger = Inr sample_trigger_sent"
proof -
  have v: "validateTriggerOptionApplicability ''trailing_stop'' sample_trigger = Inr ()"
    by (simp add: validateTriggerOptionApplicability_def Let_def sample_trigger_fields check_source_def check_tif_def)
  have t: "trailing_strategy sample_trigger = Inr sample_trailing"
    by (simp add: trailing_strategy_def Let_def sample_trigger_fields sample_trailing_def cap_of_def)
  show ?thesis
    by (simp add: CreateTriggerToProto_def sample_trigger_fields triggerTypeToProto_def v t trigger_strategy_of_def
        trigger_fee_asset_def stp_mode_of_def optional_subaccount_def sample_trigger_sent_def)
qed




text \<open>A patch sets exactly the fields that were given, at least one, and leaves the others unset, so that
  the server keeps their values; a cap of zero is sent and clears the cap, and a cap in basis points is at
  most 9999.\<close>

theorem modify_trigger_exact:
  assumes "ModifyTriggerToProto enc dec triggerID symbolID sub opts = Inr m"
  shows "price_sent (mo_TriggerPrice opts) (mt_triggerPriceTicks m) \<and> price_sent (mo_ActivationPrice opts) (mt_activationPriceTicks m)
    \<and> mt_trailingDistance m = (case (mo_TrailingDistanceTicks opts, mo_TrailingDistanceBps opts) of
        (Some t, _) \<Rightarrow> Some (TrailingDistanceTicks t) | (None, Some b) \<Rightarrow> Some (TrailingDistanceBps b) | (None, None) \<Rightarrow> None)
    \<and> mt_maxSlippage m = (case (mo_MaxSlippageTicks opts, mo_MaxSlippageBps opts) of
        (Some t, _) \<Rightarrow> Some (MaxSlippageTicks t) | (None, Some b) \<Rightarrow> Some (MaxSlippageBps b) | (None, None) \<Rightarrow> None)
    \<and> (case mt_maxSlippage m of None \<Rightarrow> True | Some (MaxSlippageTicks t) \<Rightarrow> 0 \<le> t | Some (MaxSlippageBps b) \<Rightarrow> 0 \<le> b \<and> b \<le> 9999)
    \<and> \<not> (mt_triggerPriceTicks m = None \<and> mt_activationPriceTicks m = None \<and> mt_trailingDistance m = None \<and> mt_maxSlippage m = None)
    \<and> IDToInt enc dec triggerID ''trigger_id'' = Inr (mt_triggerId m) \<and> mt_symbolId m = symbolID"
proof -
  from assms obtain tp d a sl where
    some: "\<not> (set_price (mo_TriggerPrice opts) = None \<and> mo_TrailingDistanceTicks opts = None \<and> mo_TrailingDistanceBps opts = None
      \<and> set_price (mo_ActivationPrice opts) = None \<and> mo_MaxSlippageTicks opts = None \<and> mo_MaxSlippageBps opts = None)"
    and one: "\<not> (mo_MaxSlippageTicks opts \<noteq> None \<and> mo_MaxSlippageBps opts \<noteq> None)"
      "\<not> (mo_TrailingDistanceTicks opts \<noteq> None \<and> mo_TrailingDistanceBps opts \<noteq> None)"
    and p: "patch_price (mo_TriggerPrice opts) ''trigger_price'' = Inr tp" "patch_distance opts = Inr d"
      "patch_price (mo_ActivationPrice opts) ''activation_price'' = Inr a" "patch_slippage opts = Inr sl"
      "IDToInt enc dec triggerID ''trigger_id'' = Inr (mt_triggerId m)"
    and m: "mt_triggerPriceTicks m = tp" "mt_trailingDistance m = d" "mt_activationPriceTicks m = a" "mt_maxSlippage m = sl"
      "mt_symbolId m = symbolID"
    unfolding ModifyTriggerToProto_def by (elim bind_res_InrE refuse_InrE) auto
  have price: "price_sent q t \<and> (t = None \<longleftrightarrow> set_price q = None)" if "patch_price q f = Inr t" for q f t
    using that by (auto simp: patch_price_def price_sent_def bind_res_Inr_iff resolved_price split: option.splits)
  have d: "d = (case (mo_TrailingDistanceTicks opts, mo_TrailingDistanceBps opts) of
      (Some t, _) \<Rightarrow> Some (TrailingDistanceTicks t) | (None, Some b) \<Rightarrow> Some (TrailingDistanceBps b) | (None, None) \<Rightarrow> None)"
    using p(2) one(2) by (auto simp: patch_distance_def bind_res_Inr_iff split: option.splits)
  have s: "sl = (case (mo_MaxSlippageTicks opts, mo_MaxSlippageBps opts) of
      (Some t, _) \<Rightarrow> Some (MaxSlippageTicks t) | (None, Some b) \<Rightarrow> Some (MaxSlippageBps b) | (None, None) \<Rightarrow> None)
      \<and> (case sl of None \<Rightarrow> True | Some (MaxSlippageTicks t) \<Rightarrow> 0 \<le> t | Some (MaxSlippageBps b) \<Rightarrow> 0 \<le> b \<and> b \<le> 9999)"
    using p(4) one(1)
    by (auto simp: patch_slippage_def bind_res_Inr_iff bind_unit_Inr_iff MaxSellingSlippageBps_def MaxSlippageBpsLimit_def
        split: option.splits if_splits)
  have "\<not> (tp = None \<and> a = None \<and> d = None \<and> sl = None)"
    using some price [OF p(1)] price [OF p(3)] d s by (auto split: option.splits)
  then show ?thesis using price [OF p(1), THEN conjunct1] price [OF p(3), THEN conjunct1] d s p(5) unfolding m by blast
qed

theorem modify_trigger_exact_witness:
  "\<exists>m. ModifyTriggerToProto (\<lambda>_. ''A'') (\<lambda>s. Some [1]) ''A'' 0 None
      \<lparr>mo_TriggerPrice = None, mo_TrailingDistanceTicks = None, mo_TrailingDistanceBps = None, mo_ActivationPrice = None,
       mo_MaxSlippageTicks = Some 0, mo_MaxSlippageBps = None\<rparr> = Inr m \<and> mt_maxSlippage m = Some (MaxSlippageTicks 0)"
proof -
  let ?o = "\<lparr>mo_TriggerPrice = None, mo_TrailingDistanceTicks = None, mo_TrailingDistanceBps = None, mo_ActivationPrice = None,
       mo_MaxSlippageTicks = Some 0, mo_MaxSlippageBps = None\<rparr>"
  have "IDToInt (\<lambda>_. ''A'') (\<lambda>s. Some [1]) ''A'' ''trigger_id'' = Inr 1" by code_simp
  then have r: "ModifyTriggerToProto (\<lambda>_. ''A'') (\<lambda>s. Some [1]) ''A'' 0 None ?o = Inr \<lparr>mt_triggerId = 1, mt_symbolId = 0,
      mt_subaccountId = None, mt_triggerPriceTicks = None, mt_trailingDistance = None, mt_activationPriceTicks = None,
      mt_maxSlippage = Some (MaxSlippageTicks 0)\<rparr>" (is "_ = Inr ?m")
    by (simp add: ModifyTriggerToProto_def patch_price_def set_price_def patch_distance_def patch_slippage_def ParseOptionalSubaccountID_def)
  from modify_trigger_exact [OF r] have "mt_maxSlippage ?m = Some (MaxSlippageTicks 0)" by simp
  with r show ?thesis by blast
qed

end
