(* ===== verification/ErrorCodes.thy ===== *)
theory ErrorCodes
  imports GoText
begin

text \<open>
  The error codes the generated code names: for every enumeration its table from numbers to names
  (\<open>ErrorCode_name\<close> and its like under \<open>gen\<close>); the reverse table \<open>ErrorCode_value\<close> has the same names. The
  \<open>String\<close> of a number no table names is the number.
\<close>

type_synonym enum_names = "(int \<times> string) list"

definition orderErrorCode_name :: enum_names where
  "orderErrorCode_name =
   [(0, ''ERROR_CODE_UNSPECIFIED''),
    (1, ''ERROR_CODE_BAD_REQUEST''),
    (2, ''ERROR_CODE_INVALID_ARGUMENT''),
    (3, ''ERROR_CODE_INSUFFICIENT_FUNDS''),
    (4, ''ERROR_CODE_UNKNOWN_SYMBOL''),
    (5, ''ERROR_CODE_BAD_PRICE''),
    (6, ''ERROR_CODE_BAD_QTY''),
    (7, ''ERROR_CODE_MIN_NOTIONAL''),
    (8, ''ERROR_CODE_QTY_STEP_SIZE''),
    (9, ''ERROR_CODE_CONFLICT_DUPLICATE_CLIENT_ORDER_ID''),
    (10, ''ERROR_CODE_UNAVAILABLE''),
    (11, ''ERROR_CODE_UNAUTHENTICATED''),
    (12, ''ERROR_CODE_PERMISSION_DENIED''),
    (13, ''ERROR_CODE_NOT_FOUND''),
    (14, ''ERROR_CODE_UPSTREAM_ERROR''),
    (15, ''ERROR_CODE_FEE_ASSET_NOT_ALLOWED''),
    (16, ''ERROR_CODE_PAIR_DISABLED''),
    (17, ''ERROR_CODE_ORDER_UNKNOWN''),
    (18, ''ERROR_CODE_INTERNAL_ERROR''),
    (19, ''ERROR_CODE_SUBACCOUNT_INACTIVE''),
    (20, ''ERROR_CODE_POLICY_MARKET_DENY''),
    (21, ''ERROR_CODE_POLICY_MAX_NOTIONAL''),
    (22, ''ERROR_CODE_POLICY_TRADING_HALTED''),
    (23, ''ERROR_CODE_POLICY_SPOT_TRADE_DENY''),
    (24, ''ERROR_CODE_API_KEY_ROOT_SCOPE_ONLY''),
    (25, ''ERROR_CODE_API_KEY_SUB_SCOPE_ONLY''),
    (26, ''ERROR_CODE_API_KEY_SUBACCOUNT_MISMATCH''),
    (27, ''ERROR_CODE_API_KEY_POLICY_REQUIRED''),
    (28, ''ERROR_CODE_API_KEY_UNKNOWN''),
    (29, ''ERROR_CODE_API_KEY_MARKET_DENY''),
    (30, ''ERROR_CODE_PRICE_TICK_SIZE''),
    (31, ''ERROR_CODE_MIN_QTY''),
    (32, ''ERROR_CODE_POST_ONLY_LIMIT_ONLY''),
    (33, ''ERROR_CODE_BATCH_TOO_LARGE''),
    (34, ''ERROR_CODE_POLICY_MAX_OPEN_ORDERS''),
    (35, ''ERROR_CODE_MODIFICATION_REQUIRES_REPLACE''),
    (36, ''ERROR_CODE_CONFLICT_IDEMPOTENCY_KEY_REUSE''),
    (37, ''ERROR_CODE_MARKET_PRICE_UNAVAILABLE''),
    (50, ''ERROR_CODE_PAIR_NOT_LISTED_YET''),
    (51, ''ERROR_CODE_PAIR_DELISTED''),
    (52, ''ERROR_CODE_PAIR_CANCEL_ONLY''),
    (53, ''ERROR_CODE_PAIR_POST_ONLY''),
    (54, ''ERROR_CODE_PAIR_REDUCE_ONLY''),
    (55, ''ERROR_CODE_RISK_LIMIT''),
    (56, ''ERROR_CODE_MARKET_HALTED''),
    (57, ''ERROR_CODE_ACCOUNT_UNKNOWN''),
    (58, ''ERROR_CODE_POST_ONLY_CROSS''),
    (59, ''ERROR_CODE_REDUCE_ONLY_BLOCKED''),
    (60, ''ERROR_CODE_PRICE_BAND_VIOLATION''),
    (61, ''ERROR_CODE_MARKET_CAP_VIOLATION''),
    (62, ''ERROR_CODE_EMPTY_BOOK''),
    (63, ''ERROR_CODE_FOK_INSUFFICIENT_LIQUIDITY''),
    (64, ''ERROR_CODE_ORDER_ALREADY_TERMINAL''),
    (40, ''ERROR_CODE_TRIGGER_PRICE_INVALID''),
    (41, ''ERROR_CODE_TRIGGER_PRICE_SOURCE_UNSUPPORTED''),
    (42, ''ERROR_CODE_TRAILING_DISTANCE_INVALID''),
    (43, ''ERROR_CODE_TRIGGER_NOT_FOUND''),
    (45, ''ERROR_CODE_TRIGGER_STATUS_INVALID''),
    (46, ''ERROR_CODE_TRIGGER_NOT_MODIFIABLE''),
    (47, ''ERROR_CODE_CONFLICT_DUPLICATE_CLIENT_TRIGGER_ID''),
    (48, ''ERROR_CODE_MAX_SLIPPAGE_INVALID''),
    (65, ''ERROR_CODE_STALE_QUOTE''),
    (66, ''ERROR_CODE_VALIDATION_ERROR''),
    (67, ''ERROR_CODE_OVERLOADED''),
    (68, ''ERROR_CODE_MAX_QUOTE_DEBIT_TOO_SMALL''),
    (69, ''ERROR_CODE_RATE_LIMIT_EXCEEDED''),
    (70, ''ERROR_CODE_SUBACCOUNT_READ_FORBIDDEN''),
    (71, ''ERROR_CODE_POLICY_SPOT_READ_DENY''),
    (72, ''ERROR_CODE_API_KEY_SPOT_READ_DENY''),
    (73, ''ERROR_CODE_CANCEL_REQUEST_EXPIRED''),
    (74, ''ERROR_CODE_MAX_QTY''),
    (75, ''ERROR_CODE_MAX_NOTIONAL''),
    (76, ''ERROR_CODE_QTY_AT_OR_BELOW_FILLED''),
    (77, ''ERROR_CODE_GATEWAY_MISCONFIGURED''),
    (80, ''ERROR_CODE_INVALID_ORDER_ID''),
    (81, ''ERROR_CODE_CHILD_QTY_RAISE_NOT_ALLOWED''),
    (82, ''ERROR_CODE_ATTACHED_RISK_NOT_SUPPORTED''),
    (84, ''ERROR_CODE_SETTLEMENT_BACKLOGGED''),
    (127, ''ERROR_CODE_PRICE_LEVEL_QUANTITY_LIMIT''),
    (200, ''ERROR_CODE_MARKET_QUOTE_STALE''),
    (201, ''ERROR_CODE_MARKET_QUOTE_UNHEALTHY''),
    (202, ''ERROR_CODE_INVALID_TIME_IN_FORCE''),
    (203, ''ERROR_CODE_QUICKSWAP_NOT_PERMITTED''),
    (204, ''ERROR_CODE_DUPLICATE_ORDER_ID''),
    (205, ''ERROR_CODE_MAX_OPEN_ORDERS_TOTAL''),
    (206, ''ERROR_CODE_STP_MODE_NOT_ALLOWED''),
    (207, ''ERROR_CODE_PAIR_BACKLOGGED''),
    (208, ''ERROR_CODE_PRICE_LEVELS_EXHAUSTED''),
    (209, ''ERROR_CODE_CLIENT_ORDER_IDS_EXHAUSTED''),
    (210, ''ERROR_CODE_ORDER_ID_CONFLICT''),
    (211, ''ERROR_CODE_INVALID_SIDE''),
    (212, ''ERROR_CODE_INVALID_ORDER_TYPE''),
    (213, ''ERROR_CODE_INVALID_STP_MODE''),
    (214, ''ERROR_CODE_INVALID_ORDER_FLAGS''),
    (215, ''ERROR_CODE_BATCH_OTHER_ITEM_INVALID''),
    (216, ''ERROR_CODE_REPLACE_ONTO_OWN_ID''),
    (217, ''ERROR_CODE_INVALID_CLIENT_ORDER_ID''),
    (218, ''ERROR_CODE_ORDER_SEQUENCE_EXHAUSTED''),
    (219, ''ERROR_CODE_INVALID_HANDLING_MODE''),
    (220, ''ERROR_CODE_FEE_SCHEDULE_UNAVAILABLE''),
    (221, ''ERROR_CODE_POLICY_UNAVAILABLE''),
    (222, ''ERROR_CODE_CANCEL_ALL_AFTER_TIMEOUT_INVALID''),
    (223, ''ERROR_CODE_CANCEL_SCOPE_TOO_LARGE''),
    (224, ''ERROR_CODE_RATE_LIMIT_POLICY_UNAVAILABLE''),
    (225, ''ERROR_CODE_SYSTEM_RATE_LIMITED''),
    (226, ''ERROR_CODE_ORDER_MODIFY_IN_PROGRESS''),
    (227, ''ERROR_CODE_ORDER_PLACEMENT_PENDING''),
    (228, ''ERROR_CODE_INVALID_MODIFY_BEHAVIOR''),
    (229, ''ERROR_CODE_BATCH_REPLACE_ONLY_REQUIRED''),
    (230, ''ERROR_CODE_BATCH_SINGLE_SYMBOL_REQUIRED''),
    (231, ''ERROR_CODE_REQUEST_RECEIPTS_EXHAUSTED''),
    (232, ''ERROR_CODE_INTENT_ID_INVALID''),
    (233, ''ERROR_CODE_DRY_RUN_INVALID''),
    (234, ''ERROR_CODE_CANCEL_ALL_AFTER_SCOPE_CONFLICT''),
    (235, ''ERROR_CODE_NEW_ACCOUNT_CAPACITY_REACHED''),
    (236, ''ERROR_CODE_TRIGGER_CHILD_PRICE_NOT_MODIFIABLE''),
    (237, ''ERROR_CODE_TRIGGER_GENERATIONS_EXHAUSTED''),
    (238, ''ERROR_CODE_TRIGGER_CONTROL_SHARE_EXHAUSTED''),
    (239, ''ERROR_CODE_TRIGGER_CONTROLS_BUSY''),
    (240, ''ERROR_CODE_TRIGGER_TYPE_NOT_SUPPORTED''),
    (241, ''ERROR_CODE_INVALID_TRIGGER_TYPE''),
    (242, ''ERROR_CODE_TRIGGER_DIRECTION_INVALID''),
    (243, ''ERROR_CODE_TRIGGER_QTY_INVALID''),
    (244, ''ERROR_CODE_TRIGGER_BUY_REQUIRES_LIMIT''),
    (245, ''ERROR_CODE_ACCOUNT_ROUTING_INVALID''),
    (246, ''ERROR_CODE_TRIGGER_LIMIT_EXCEEDED''),
    (247, ''ERROR_CODE_TRIGGER_CONTROL_IN_PROGRESS''),
    (248, ''ERROR_CODE_TRIGGER_PATCH_EMPTY''),
    (249, ''ERROR_CODE_CLIENT_TRIGGER_ID_INVALID''),
    (250, ''ERROR_CODE_TRIGGER_ACTIVATION_PRICE_INVALID''),
    (251, ''ERROR_CODE_SLIPPAGE_TICKS_INVALID''),
    (252, ''ERROR_CODE_SLIPPAGE_BPS_INVALID''),
    (253, ''ERROR_CODE_TRIGGER_CONTROL_OUTCOME_UNKNOWN''),
    (254, ''ERROR_CODE_TRIGGER_CAPACITY_REACHED''),
    (255, ''ERROR_CODE_RESERVATION_CAPACITY_REACHED''),
    (256, ''ERROR_CODE_CLIENT_ORDER_ID_CAPACITY_REACHED''),
    (257, ''ERROR_CODE_ACCOUNT_RESERVATION_LIMIT_REACHED''),
    (258, ''ERROR_CODE_INVALID_TRIGGER_CONTROL''),
    (259, ''ERROR_CODE_TRIGGER_PATCH_NOT_ALLOWED''),
    (260, ''ERROR_CODE_TRIGGER_PATCH_FIELD_UNKNOWN''),
    (261, ''ERROR_CODE_TRIGGER_PATCH_VALUE_UNMASKED''),
    (262, ''ERROR_CODE_TRIGGER_PATCH_PRICE_MODE_INVALID''),
    (263, ''ERROR_CODE_ACCOUNT_ORDERS_SUSPENDED''),
    (264, ''ERROR_CODE_TRAILING_SIDE_NOT_SUPPORTED''),
    (265, ''ERROR_CODE_TRAILING_CHILD_NOT_MARKET''),
    (266, ''ERROR_CODE_TWAP_DURATION_INVALID''),
    (267, ''ERROR_CODE_LIMIT_CHILD_SLIPPAGE_SET''),
    (268, ''ERROR_CODE_SLIPPAGE_BOUNDS_CONFLICT''),
    (269, ''ERROR_CODE_TWAP_INTERVAL_INVALID''),
    (270, ''ERROR_CODE_LADDER_LEVEL_REJECTED''),
    (271, ''ERROR_CODE_LADDER_RANGE_TOO_NARROW''),
    (272, ''ERROR_CODE_LADDER_LEVELS_INVALID''),
    (273, ''ERROR_CODE_ORDER_LIMITS_UNAVAILABLE''),
    (274, ''ERROR_CODE_ORDER_TYPE_NOT_ALLOWED_IN_AUCTION''),
    (275, ''ERROR_CODE_POST_ONLY_NOT_ALLOWED_IN_AUCTION''),
    (276, ''ERROR_CODE_QUICKSWAP_FEE_DETAILS_INCOMPLETE''),
    (277, ''ERROR_CODE_QUICKSWAP_MARKET_NOT_PRICED''),
    (278, ''ERROR_CODE_QUICKSWAP_BROKER_FEE_TERMS_MISMATCH''),
    (279, ''ERROR_CODE_QUICKSWAP_FEE_RECIPIENT_IS_PAYER''),
    (280, ''ERROR_CODE_QUICKSWAP_BROKER_FEE_TERMS_UNAVAILABLE''),
    (281, ''ERROR_CODE_QUICKSWAP_BROKER_ACCOUNT_UNAVAILABLE''),
    (301, ''ERROR_CODE_QUICKSWAP_ACCOUNT_OWNER_UNKNOWN''),
    (282, ''ERROR_CODE_QUICKSWAP_DISABLED''),
    (283, ''ERROR_CODE_QUICKSWAP_ATTACHED_RISK_NOT_ALLOWED''),
    (284, ''ERROR_CODE_QUICKSWAP_ORDER_NOT_MODIFIABLE''),
    (285, ''ERROR_CODE_QUICKSWAP_FEE_TOTAL_TOO_HIGH''),
    (286, ''ERROR_CODE_QUICKSWAP_BROKER_FEE_TERMS_INVALID''),
    (287, ''ERROR_CODE_QUICKSWAP_BROKER_INVALID''),
    (288, ''ERROR_CODE_QUICKSWAP_FEE_SCHEDULE_INVALID''),
    (289, ''ERROR_CODE_QUICKSWAP_MARKET_FEE_INVALID''),
    (290, ''ERROR_CODE_QUICKSWAP_SETUP_INVALID''),
    (291, ''ERROR_CODE_QUICKSWAP_CAPACITY_REACHED''),
    (292, ''ERROR_CODE_ATTACHED_EXIT_WORKING''),
    (293, ''ERROR_CODE_MARKET_TRIGGER_LIMIT_EXCEEDED''),
    (294, ''ERROR_CODE_MARKET_TWAP_LIMIT_EXCEEDED''),
    (295, ''ERROR_CODE_MARKET_LADDER_LIMIT_EXCEEDED''),
    (296, ''ERROR_CODE_CHILD_QTY_EXCEEDS_REMAINING''),
    (297, ''ERROR_CODE_ORDER_CANCEL_OUTCOME_UNKNOWN''),
    (298, ''ERROR_CODE_ORDER_MODIFY_OUTCOME_UNKNOWN''),
    (299, ''ERROR_CODE_ORDER_REPAIRING''),
    (300, ''ERROR_CODE_ACCOUNT_REPAIRING''),
    (302, ''ERROR_CODE_TRIGGER_WOULD_TRIGGER_IMMEDIATELY''),
    (303, ''ERROR_CODE_ORDER_CREATE_OUTCOME_UNKNOWN''),
    (304, ''ERROR_CODE_TRIGGER_CREATE_OUTCOME_UNKNOWN''),
    (305, ''ERROR_CODE_TRIGGER_SYMBOL_MISMATCH''),
    (306, ''ERROR_CODE_MAX_OPEN_ORDERS_PER_PAIR''),
    (307, ''ERROR_CODE_SELF_TRADE_PREVENTED''),
    (86, ''ERROR_CODE_ATTACHED_LEGS_EXCEEDED''),
    (87, ''ERROR_CODE_FEE_ASSET_INVALID''),
    (88, ''ERROR_CODE_FEE_CEILING_INVALID''),
    (89, ''ERROR_CODE_UNSUPPORTED_FIELD_SET''),
    (90, ''ERROR_CODE_TRIGGER_FIRE_LIMIT_REACHED''),
    (91, ''ERROR_CODE_CONDITION_FLAGS_INVALID''),
    (92, ''ERROR_CODE_CONDITION_PARAMETER_SET''),
    (93, ''ERROR_CODE_TWAP_CAPACITY_REACHED''),
    (94, ''ERROR_CODE_CHILD_ORDER_INCONSISTENT'')]"

definition withdrawErrorCode_name :: enum_names where
  "withdrawErrorCode_name =
   [(0, ''ERROR_CODE_UNSPECIFIED''),
    (1, ''ERROR_CODE_INSUFFICIENT_FUNDS''),
    (2, ''ERROR_CODE_INVALID_REQUEST''),
    (3, ''ERROR_CODE_UNAUTHENTICATED''),
    (4, ''ERROR_CODE_PERMISSION_DENIED''),
    (5, ''ERROR_CODE_RATE_LIMIT_EXCEEDED''),
    (6, ''ERROR_CODE_SERVICE_UNAVAILABLE''),
    (7, ''ERROR_CODE_INTERNAL_ERROR''),
    (8, ''ERROR_CODE_INVALID_SUBACCOUNT_ID''),
    (9, ''ERROR_CODE_SUBACCOUNT_NOT_FOUND''),
    (10, ''ERROR_CODE_INVALID_ACTION''),
    (11, ''ERROR_CODE_UNSUPPORTED_LEDGER''),
    (12, ''ERROR_CODE_UNSUPPORTED_ASSET''),
    (13, ''ERROR_CODE_INVALID_AMOUNT''),
    (14, ''ERROR_CODE_INVALID_DESTINATION_CHAIN''),
    (15, ''ERROR_CODE_INVALID_DESTINATION_ADDRESS''),
    (16, ''ERROR_CODE_EXTERNAL_DESTINATION_NOT_WHITELISTED''),
    (17, ''ERROR_CODE_INTERNAL_RECIPIENT_NOT_WHITELISTED''),
    (18, ''ERROR_CODE_AMOUNT_BELOW_MINIMUM''),
    (19, ''ERROR_CODE_AMOUNT_EXCEEDS_SUPPLY''),
    (20, ''ERROR_CODE_SOURCE_SMART_ACCOUNT_UNAVAILABLE''),
    (21, ''ERROR_CODE_SIGNATURE_REQUIRED''),
    (22, ''ERROR_CODE_SIGNATURE_SCHEME_UNSUPPORTED''),
    (23, ''ERROR_CODE_SIGNER_WALLET_INVALID''),
    (24, ''ERROR_CODE_WALLET_BINDING_INVALID''),
    (25, ''ERROR_CODE_WALLET_BINDING_SCOPE_MISMATCH''),
    (26, ''ERROR_CODE_WALLET_BINDING_SIGNER_MISMATCH''),
    (27, ''ERROR_CODE_API_KEY_NOT_FOUND''),
    (28, ''ERROR_CODE_API_KEY_BINDING_INVALID''),
    (29, ''ERROR_CODE_API_KEY_BINDING_SCOPE_MISMATCH''),
    (30, ''ERROR_CODE_API_KEY_BINDING_PUBLIC_KEY_MISMATCH''),
    (31, ''ERROR_CODE_IDEMPOTENCY_CONFLICT''),
    (32, ''ERROR_CODE_FUNDS_LOCK_CONFLICT''),
    (33, ''ERROR_CODE_CAPITAL_VIEW_UNAVAILABLE''),
    (34, ''ERROR_CODE_CHAIN_METADATA_UNAVAILABLE''),
    (35, ''ERROR_CODE_FEE_UNAVAILABLE''),
    (36, ''ERROR_CODE_SUPPLY_UNAVAILABLE''),
    (37, ''ERROR_CODE_STEP_UP_UNAVAILABLE''),
    (38, ''ERROR_CODE_DESTINATION_VALIDATION_UNAVAILABLE''),
    (39, ''ERROR_CODE_ACCOUNT_SHARD_UNAVAILABLE''),
    (40, ''ERROR_CODE_FAILED_PRECONDITION''),
    (41, ''ERROR_CODE_NOT_FOUND''),
    (42, ''ERROR_CODE_CONFLICT''),
    (43, ''ERROR_CODE_INVALID_AUTO_WITHDRAW_SCHEDULE''),
    (44, ''ERROR_CODE_AMOUNT_EXCEEDS_ROUTE_PRECISION'')]"

definition transferErrorCode_name :: enum_names where
  "transferErrorCode_name =
   [(0, ''ERROR_CODE_UNSPECIFIED''),
    (1, ''ERROR_CODE_INSUFFICIENT_FUNDS''),
    (2, ''ERROR_CODE_INVALID_REQUEST''),
    (3, ''ERROR_CODE_UNAUTHENTICATED''),
    (4, ''ERROR_CODE_PERMISSION_DENIED''),
    (5, ''ERROR_CODE_RATE_LIMIT_EXCEEDED''),
    (6, ''ERROR_CODE_SERVICE_UNAVAILABLE''),
    (7, ''ERROR_CODE_INTERNAL_ERROR''),
    (8, ''ERROR_CODE_INVALID_SUBACCOUNT_ID''),
    (9, ''ERROR_CODE_SUBACCOUNT_NOT_FOUND''),
    (10, ''ERROR_CODE_SOURCE_ACCOUNT_INACTIVE''),
    (11, ''ERROR_CODE_UNSUPPORTED_ASSET''),
    (12, ''ERROR_CODE_INVALID_AMOUNT''),
    (13, ''ERROR_CODE_INVALID_DESTINATION''),
    (14, ''ERROR_CODE_DESTINATION_NOT_FOUND''),
    (15, ''ERROR_CODE_DESTINATION_INACTIVE''),
    (16, ''ERROR_CODE_SAME_SOURCE_DESTINATION''),
    (17, ''ERROR_CODE_DESTINATION_NOT_WHITELISTED''),
    (18, ''ERROR_CODE_SMART_ACCOUNT_UNAVAILABLE''),
    (19, ''ERROR_CODE_STEP_UP_UNAVAILABLE''),
    (20, ''ERROR_CODE_IDEMPOTENCY_CONFLICT''),
    (21, ''ERROR_CODE_FUNDS_LOCK_CONFLICT''),
    (22, ''ERROR_CODE_CAPITAL_VIEW_UNAVAILABLE''),
    (23, ''ERROR_CODE_ACCOUNT_SHARD_UNAVAILABLE''),
    (24, ''ERROR_CODE_POLICY_DENIED''),
    (25, ''ERROR_CODE_FAILED_PRECONDITION''),
    (26, ''ERROR_CODE_NOT_FOUND''),
    (27, ''ERROR_CODE_CONFLICT'')]"

definition ledgerErrorCode_name :: enum_names where
  "ledgerErrorCode_name =
   [(0, ''ERROR_CODE_UNSPECIFIED''),
    (1, ''ERROR_CODE_BAD_REQUEST''),
    (2, ''ERROR_CODE_UNAUTHENTICATED''),
    (3, ''ERROR_CODE_PERMISSION_DENIED''),
    (4, ''ERROR_CODE_NOT_FOUND''),
    (5, ''ERROR_CODE_MISSING_ACCOUNT_ID''),
    (6, ''ERROR_CODE_INVALID_ACCOUNT_ID''),
    (7, ''ERROR_CODE_MISSING_WALLET''),
    (8, ''ERROR_CODE_WALLET_RESOLUTION_UNAVAILABLE''),
    (9, ''ERROR_CODE_WALLET_NOT_FOUND''),
    (10, ''ERROR_CODE_UPSTREAM_ERROR''),
    (11, ''ERROR_CODE_INVALID_SUBACCOUNT_ID'')]"

definition authErrorCode_name :: enum_names where
  "authErrorCode_name =
   [(0, ''AUTH_UNSPECIFIED''),
    (1, ''AUTH_USERNAME_INVALID''),
    (2, ''AUTH_USERNAME_TAKEN''),
    (3, ''AUTH_USERNAME_COOLDOWN''),
    (4, ''AUTH_USERNAME_FEATURE_LOCKED''),
    (5, ''AUTH_USERNAME_RESERVED''),
    (6, ''AUTH_INVALID_REQUEST''),
    (7, ''AUTH_AUTHENTICATION_REQUIRED''),
    (8, ''AUTH_SESSION_KIND_NOT_ALLOWED''),
    (9, ''AUTH_WALLET_LOGIN_FAILED''),
    (10, ''AUTH_RESOURCE_NOT_FOUND''),
    (11, ''AUTH_SUBACCOUNT_ACCESS_DENIED''),
    (12, ''AUTH_API_KEY_ACCESS_DENIED''),
    (14, ''AUTH_API_KEY_INVALID_STATUS_TRANSITION''),
    (15, ''AUTH_POLICY_INVALID''),
    (16, ''AUTH_SMART_ACCOUNT_ALREADY_LINKED''),
    (17, ''AUTH_INVITE_ACCESS_DENIED''),
    (18, ''AUTH_INVITE_INVALID_STATE''),
    (19, ''AUTH_MFA_DISABLED''),
    (20, ''AUTH_MFA_NOT_ENROLLED''),
    (21, ''AUTH_MFA_SESSION_INVALID''),
    (22, ''AUTH_MFA_CHALLENGE_NOT_FOUND''),
    (23, ''AUTH_MFA_CHALLENGE_INVALID''),
    (24, ''AUTH_MFA_CHALLENGE_LOCKED''),
    (25, ''AUTH_MFA_OTP_INVALID''),
    (26, ''AUTH_MFA_RECOVERY_INVALID''),
    (27, ''AUTH_MFA_PASSKEY_NOT_AVAILABLE''),
    (28, ''AUTH_MFA_PASSKEY_CREDENTIAL_INVALID''),
    (29, ''AUTH_MFA_PASSKEY_VERIFY_FAILED''),
    (30, ''AUTH_MFA_ENROLLMENT_BINDING_INVALID''),
    (31, ''AUTH_STEP_UP_REQUIRED''),
    (32, ''AUTH_STEP_UP_PROOF_UNAVAILABLE''),
    (33, ''AUTH_STEP_UP_ALREADY_CLAIMED''),
    (34, ''AUTH_POLICY_IN_USE''),
    (35, ''AUTH_POLICY_LOCKED''),
    (36, ''AUTH_POLICY_SCOPE_MISMATCH''),
    (37, ''AUTH_REVISION_CONFLICT''),
    (38, ''AUTH_MFA_ELEVATION_REQUIRED''),
    (39, ''AUTH_MFA_LAST_FACTOR_REQUIRED''),
    (40, ''AUTH_INTERNAL_ERROR''),
    (41, ''AUTH_TERMS_NOT_ACCEPTED''),
    (42, ''AUTH_SOCIAL_VERIFICATION_EXPIRED''),
    (43, ''AUTH_SOCIAL_VERIFICATION_INVALID_STATE''),
    (44, ''AUTH_SUBACCOUNT_CHALLENGE_INVALID''),
    (45, ''AUTH_SOCIAL_ACCOUNT_ALREADY_LINKED''),
    (46, ''AUTH_TEMPORARILY_UNAVAILABLE''),
    (47, ''AUTH_SUBACCOUNT_OWNER_ROLE_LOCKED''),
    (48, ''AUTH_SIGNATURE_INVALID''),
    (49, ''AUTH_TIMESTAMP_SKEW''),
    (50, ''AUTH_MISSING_HEADERS''),
    (51, ''AUTH_KEY_EXPIRED''),
    (52, ''AUTH_KEY_DISABLED''),
    (53, ''AUTH_IP_NOT_ALLOWED''),
    (54, ''AUTH_API_KEY_NOT_ACCEPTED'')]"

definition failureReason_name :: enum_names where
  "failureReason_name =
   [(0, ''REASON_UNSPECIFIED''),
    (1, ''QUOTA_EXCEEDED''),
    (2, ''AUTHORITY_UNAVAILABLE'')]"

definition policyClass_name :: enum_names where
  "policyClass_name =
   [(0, ''CLASS_UNSPECIFIED''),
    (1, ''AUTH_PUBLIC''),
    (2, ''TRADING_PLACE''),
    (3, ''TRADING_CANCEL''),
    (4, ''TRADING_READ''),
    (5, ''ACCOUNT_ADMIN''),
    (6, ''PUBLIC_READ''),
    (7, ''ACCOUNT_SECURITY''),
    (8, ''DEPOSIT_CREATE''),
    (9, ''INTERNAL_TRANSFER''),
    (10, ''WITHDRAW_SUBMIT''),
    (11, ''WITHDRAW_VALIDATE''),
    (12, ''GUARD_SIGN''),
    (13, ''SOCIAL_PROVIDER'')]"

definition limiterScope_name :: enum_names where
  "limiterScope_name =
   [(0, ''SCOPE_UNSPECIFIED''),
    (1, ''CLIENT_IP''),
    (2, ''API_KEY''),
    (3, ''ACCOUNT''),
    (4, ''SUBACCOUNT''),
    (5, ''CONNECTION''),
    (6, ''SERVICE''),
    (7, ''REGION''),
    (8, ''SYMBOL''),
    (9, ''AUTH_SUBJECT'')]"

definition refillModel_name :: enum_names where
  "refillModel_name =
   [(0, ''REFILL_UNSPECIFIED''),
    (1, ''CONTINUOUS''),
    (2, ''FIXED_WINDOW''),
    (3, ''ROLLING_WINDOW'')]"

definition enum_String :: "enum_names \<Rightarrow> int \<Rightarrow> string" where
  "enum_String names code = (case map_of names code of Some name \<Rightarrow> name | None \<Rightarrow> itoa code)"

definition enum_known :: "enum_names \<Rightarrow> string \<Rightarrow> bool" where
  "enum_known names name \<longleftrightarrow> name \<in> snd ` set names"

end
