(* ===== verification/WireErrors.thy ===== *)
theory WireErrors
  imports ErrorCodes Scalars
begin

text \<open>
  \<open>wire/errors.go\<close>, \<open>wire/contract_codes.go\<close> and the classification in \<open>errors/errors.go\<close>: what an answer
  of the server means to the caller of a mutation. A Go error chain is the list of its links, outermost
  first, with the text of the whole; \<open>errors.As\<close> finds the first link of a kind. The generated messages carry
  enum numbers. The Retry-After headers, read by \<open>strconv.ParseFloat\<close>, are an argument.
\<close>

section \<open>SDK errors\<close>

record field_violation =
  fv_FieldPath :: string
  fv_RuleID :: string
  fv_Message :: string

text \<open>\<open>polyester.ratelimit.v1.RateLimitDetail\<close>, and the SDK's copy of it.\<close>

record rate_limit_message =
  rm_reason :: int
  rm_operationId :: string
  rm_policyClass :: int
  rm_scope :: int
  rm_refillModel :: int
  rm_limit :: "u64 option"
  rm_remaining :: "u64 option"
  rm_retryAfterMs :: "u64 option"
  rm_policyVersion :: "u64 option"

record rate_limit_detail =
  rd_Reason :: string
  rd_Limit :: "u64 option"
  rd_Remaining :: "u64 option"
  rd_RetryAfterMs :: "u64 option"
  rd_PolicyVersion :: "u64 option"
  rd_OperationID :: string
  rd_PolicyClass :: string
  rd_Scope :: string
  rd_RefillModel :: string

text \<open>Seconds to wait: the value of a header, or a detail's milliseconds over a thousand.\<close>

datatype 'h retry_after = HeaderSeconds 'h | DetailMs u64

datatype 'h api_error =
    AuthErr string nat string
  | RateLimitErr string string "'h retry_after option" "rate_limit_detail option"
  | ServerErr bool string string nat
  | SkewErr string nat
  | NotImplementedErr string
  | OwnerLockedErr string nat
  | SessionErr string nat
  | ValidationErr string string "field_violation list"
  | ApiErr string string string
  | TransportErr string
  | RouteNotFoundErr
  | ResponseContractErr string string

text \<open>An SDK error with what its \<open>Unwrap\<close> adds to the chain.\<close>

definition sdk_links :: "'h api_error \<Rightarrow> 'h api_error list" where
  "sdk_links e = e # (case e of
       OwnerLockedErr msg _ \<Rightarrow> [ApiErr (if msg = [] then ''the sub-account owner'' @ [CHR 0x27] @ ''s role can'' @ [CHR 0x27] @ ''t be changed'' else msg)
           ''AUTH_SUBACCOUNT_OWNER_ROLE_LOCKED'' []]
     | SessionErr msg _ \<Rightarrow> [ApiErr (if msg = [] then ''interactive session required'' else msg) ''AUTH_SESSION_KIND_NOT_ALLOWED'' []]
     | _ \<Rightarrow> [])"

section \<open>What a failed mutation means\<close>

definition isOutcomeUnknownCode :: "string \<Rightarrow> bool" where
  "isOutcomeUnknownCode code \<longleftrightarrow> has_suffix code ''_OUTCOME_UNKNOWN''"

definition knownAdmissionRefusals :: "string list" where
  "knownAdmissionRefusals = [''QUICKSWAP_ACCOUNT_OWNER_UNKNOWN'',
     ''FEE_SCHEDULE_UNAVAILABLE'', ''POLICY_UNAVAILABLE'', ''RATE_LIMIT_POLICY_UNAVAILABLE'', ''PAIR_BACKLOGGED'',
     ''SETTLEMENT_BACKLOGGED'', ''ORDER_MODIFY_IN_PROGRESS'', ''ORDER_PLACEMENT_PENDING'', ''TRIGGER_CONTROLS_BUSY'',
     ''TRIGGER_CONTROL_IN_PROGRESS'']"

definition isKnownAdmissionRefusal :: "string \<Rightarrow> bool" where
  "isKnownAdmissionRefusal code \<longleftrightarrow> trim_prefix code ''ERROR_CODE_'' \<in> set knownAdmissionRefusals"

definition apiErrorCode :: "'h api_error \<Rightarrow> string" where
  "apiErrorCode e = (case find_map (\<lambda>l. case l of ApiErr _ code _ \<Rightarrow> Some code | _ \<Rightarrow> None) (sdk_links e) of
       Some code \<Rightarrow> code
     | None \<Rightarrow> (case find_map (\<lambda>l. case l of ValidationErr _ code _ \<Rightarrow> Some code | _ \<Rightarrow> None) (sdk_links e) of
           Some code \<Rightarrow> code | None \<Rightarrow> []))"

definition server_unknown :: "'h api_error \<Rightarrow> bool" where
  "server_unknown e \<longleftrightarrow> (case e of
       ServerErr admissionRefused _ code status \<Rightarrow> \<not> (status = 503 \<and> (admissionRefused \<or> isKnownAdmissionRefusal code))
     | _ \<Rightarrow> False)"

definition MutationOutcomeUnknown :: "'h api_error \<Rightarrow> bool" where
  "MutationOutcomeUnknown e \<longleftrightarrow> (case e of TransportErr _ \<Rightarrow> True | _ \<Rightarrow> False) \<or> server_unknown e
     \<or> (case e of ResponseContractErr _ _ \<Rightarrow> True | _ \<Rightarrow> False) \<or> (case e of RouteNotFoundErr \<Rightarrow> True | _ \<Rightarrow> False)
     \<or> isOutcomeUnknownCode (apiErrorCode e)"

definition IsRetryable :: "'h api_error \<Rightarrow> bool" where
  "IsRetryable e \<longleftrightarrow> \<not> MutationOutcomeUnknown e \<and>
     ((case e of TransportErr _ \<Rightarrow> True | RateLimitErr _ _ _ _ \<Rightarrow> True | ServerErr _ _ _ _ \<Rightarrow> True | SkewErr _ _ \<Rightarrow> True | _ \<Rightarrow> False)
      \<or> apiErrorCode e = ''ERROR_CODE_ACCOUNT_REPAIRING'' \<or> apiErrorCode e = ''AUTH_TEMPORARILY_UNAVAILABLE'')"

definition IsOrderAlreadyTerminal :: "'h api_error option \<Rightarrow> bool" where
  "IsOrderAlreadyTerminal e \<longleftrightarrow> (case e of None \<Rightarrow> False | Some x \<Rightarrow> apiErrorCode x = ''ERROR_CODE_ORDER_ALREADY_TERMINAL'')"

definition authCodeName :: "string \<Rightarrow> string" where
  "authCodeName code =
     (if code = ''UNAUTHENTICATED'' then ''AUTH_AUTHENTICATION_REQUIRED''
      else if has_prefix code ''AUTH_'' then code
      else if enum_known authErrorCode_name (''AUTH_'' @ code) \<and> code \<noteq> [] \<and> code \<noteq> ''UNSPECIFIED'' then ''AUTH_'' @ code
      else [])"

definition AuthErrorCode :: "'h api_error \<Rightarrow> string" where
  "AuthErrorCode e = (case find_map (\<lambda>l. case l of SkewErr _ _ \<Rightarrow> Some () | _ \<Rightarrow> None) (sdk_links e) of
       Some _ \<Rightarrow> ''AUTH_TIMESTAMP_SKEW''
     | None \<Rightarrow>
         (let api = (case find_map (\<lambda>l. case l of ApiErr _ code _ \<Rightarrow> Some code | _ \<Rightarrow> None) (sdk_links e) of
                Some code \<Rightarrow> authCodeName code | None \<Rightarrow> [])
          in if api \<noteq> [] then api
             else case find_map (\<lambda>l. case l of AuthErr _ _ code \<Rightarrow> Some code | _ \<Rightarrow> None) (sdk_links e) of
                 Some code \<Rightarrow> authCodeName code | None \<Rightarrow> []))"

definition IsMFAEnrollmentRequired :: "'h api_error \<Rightarrow> bool" where
  "IsMFAEnrollmentRequired e \<longleftrightarrow> AuthErrorCode e = ''AUTH_MFA_NOT_ENROLLED''"

definition IsStepUpRequired :: "'h api_error \<Rightarrow> bool" where
  "IsStepUpRequired e \<longleftrightarrow> AuthErrorCode e = ''AUTH_STEP_UP_REQUIRED''"

definition IsMFAElevationRequired :: "'h api_error \<Rightarrow> bool" where
  "IsMFAElevationRequired e \<longleftrightarrow> AuthErrorCode e = ''AUTH_MFA_ELEVATION_REQUIRED''"

definition IsMFALastFactorRequired :: "'h api_error \<Rightarrow> bool" where
  "IsMFALastFactorRequired e \<longleftrightarrow> AuthErrorCode e = ''AUTH_MFA_LAST_FACTOR_REQUIRED''"

definition IsSubaccountOwnerRoleLocked :: "'h api_error \<Rightarrow> bool" where
  "IsSubaccountOwnerRoleLocked e \<longleftrightarrow> (case e of OwnerLockedErr _ _ \<Rightarrow> True | _ \<Rightarrow> False)"

definition IsSessionRequired :: "'h api_error \<Rightarrow> bool" where
  "IsSessionRequired e \<longleftrightarrow> (case e of SessionErr _ _ \<Rightarrow> True | _ \<Rightarrow> False)"

definition ViolationMetadata :: "field_violation list \<Rightarrow> (string \<times> string) list" where
  "ViolationMetadata violations = concat (map (\<lambda>(i, v).
     let prefix = ''violation.'' @ dec_nat i @ ''.'' in
       [(prefix @ ''field_path'', fv_FieldPath v), (prefix @ ''rule_id'', fv_RuleID v), (prefix @ ''message'', fv_Message v)])
     (enumerate 0 violations))"

section \<open>Answers\<close>

datatype connect_code = CodeCanceled | CodeUnknown | CodeInvalidArgument | CodeDeadlineExceeded | CodeNotFound
  | CodeAlreadyExists | CodePermissionDenied | CodeResourceExhausted | CodeFailedPrecondition | CodeAborted
  | CodeOutOfRange | CodeUnimplemented | CodeInternal | CodeUnavailable | CodeDataLoss | CodeUnauthenticated

definition connect_code_String :: "connect_code \<Rightarrow> string" where
  "connect_code_String c = (case c of CodeCanceled \<Rightarrow> ''canceled'' | CodeUnknown \<Rightarrow> ''unknown''
     | CodeInvalidArgument \<Rightarrow> ''invalid_argument'' | CodeDeadlineExceeded \<Rightarrow> ''deadline_exceeded'' | CodeNotFound \<Rightarrow> ''not_found''
     | CodeAlreadyExists \<Rightarrow> ''already_exists'' | CodePermissionDenied \<Rightarrow> ''permission_denied''
     | CodeResourceExhausted \<Rightarrow> ''resource_exhausted'' | CodeFailedPrecondition \<Rightarrow> ''failed_precondition''
     | CodeAborted \<Rightarrow> ''aborted'' | CodeOutOfRange \<Rightarrow> ''out_of_range'' | CodeUnimplemented \<Rightarrow> ''unimplemented''
     | CodeInternal \<Rightarrow> ''internal'' | CodeUnavailable \<Rightarrow> ''unavailable'' | CodeDataLoss \<Rightarrow> ''data_loss''
     | CodeUnauthenticated \<Rightarrow> ''unauthenticated'')"

text \<open>A \<open>buf.validate\<close> field path: field names with optional subscripts.\<close>

datatype subscript = NoSubscript | SubIndex u64 | SubBool bool | SubInt int | SubUint u64 | SubString string

record order_detail =
  od_code :: int
  od_rateLimit :: "rate_limit_message option"
  od_violations :: "field_violation list"
  od_existingOrderId :: "u64 option"

record request_violation =
  rv_field :: "(string \<times> subscript) list"
  rv_ruleId :: string
  rv_message :: string

datatype service_detail =
    AuthDetail int string
  | RateDetail rate_limit_message
  | OrderDetail order_detail
  | ValidateDetail "request_violation list"
  | WithdrawDetail int
  | LedgerDetail int
  | TransferDetail int
  | OtherDetail

text \<open>A Connect error; a detail that does not decode is \<open>None\<close>.\<close>

record connect_error =
  ce_Code :: connect_code
  ce_Message :: string
  ce_Details :: "service_detail option list"

datatype 'h err_link = SdkLink "'h api_error" | ContextLink | ConnectLink connect_error | OtherLink

record 'h go_error =
  ge_text :: string
  ge_links :: "'h err_link list"

section \<open>Contract codes\<close>

definition IsPlaceholderCode :: "string \<Rightarrow> bool" where
  "IsPlaceholderCode code \<longleftrightarrow> code \<in> {''UNSPECIFIED'', ''ERROR_CODE_UNSPECIFIED'', ''AUTH_UNSPECIFIED''}"

text \<open>\<open>proto.Size\<close> of a rate limit detail is zero: no field is set.\<close>

definition rate_limit_empty :: "rate_limit_message \<Rightarrow> bool" where
  "rate_limit_empty m \<longleftrightarrow> rm_reason m = 0 \<and> rm_operationId m = [] \<and> rm_policyClass m = 0 \<and> rm_scope m = 0 \<and> rm_refillModel m = 0
     \<and> rm_limit m = None \<and> rm_remaining m = None \<and> rm_retryAfterMs m = None \<and> rm_policyVersion m = None"

definition isPlaceholderDetail :: "service_detail \<Rightarrow> bool" where
  "isPlaceholderDetail d = (case d of
       AuthDetail code _ \<Rightarrow> code = 0
     | OrderDetail o' \<Rightarrow> od_code o' = 0 \<and> (case od_rateLimit o' of None \<Rightarrow> True | Some m \<Rightarrow> rate_limit_empty m)
     | WithdrawDetail code \<Rightarrow> code = 0
     | TransferDetail code \<Rightarrow> code = 0
     | LedgerDetail code \<Rightarrow> code = 0
     | RateDetail m \<Rightarrow> rate_limit_empty m
     | ValidateDetail vs \<Rightarrow> vs = []
     | OtherDetail \<Rightarrow> False)"

definition unnamed_label :: "enum_names \<Rightarrow> int \<Rightarrow> string" where
  "unnamed_label names code = (if map_of names code \<noteq> None then [] else enum_String names code)"

definition futureCodeLabel :: "service_detail \<Rightarrow> string" where
  "futureCodeLabel d = (case d of
       AuthDetail code _ \<Rightarrow> unnamed_label authErrorCode_name code
     | OrderDetail o' \<Rightarrow> unnamed_label orderErrorCode_name (od_code o')
     | WithdrawDetail code \<Rightarrow> unnamed_label withdrawErrorCode_name code
     | TransferDetail code \<Rightarrow> unnamed_label transferErrorCode_name code
     | LedgerDetail code \<Rightarrow> unnamed_label ledgerErrorCode_name code
     | _ \<Rightarrow> [])"

definition hasFutureCode :: "service_detail \<Rightarrow> bool" where
  "hasFutureCode d \<longleftrightarrow> futureCodeLabel d \<noteq> []"

text \<open>An encoded detail, decoded by \<open>decodeServiceDetail\<close> when its type is one of the seven and its bytes parse.\<close>

definition CarriesContractCode :: "service_detail option \<Rightarrow> bool" where
  "CarriesContractCode detail = (case detail of None \<Rightarrow> False
     | Some d \<Rightarrow> \<not> isPlaceholderDetail d \<and> \<not> hasFutureCode d)"

definition FutureCodeLabel :: "service_detail option \<Rightarrow> string" where
  "FutureCodeLabel detail = (case detail of None \<Rightarrow> [] | Some d \<Rightarrow> futureCodeLabel d)"

definition restOnlyCodes :: "string list" where
  "restOnlyCodes = [''API_KEY_ACTION_DENY'', ''API_KEY_POLICY_NOT_FOUND'', ''INVALID_BEFORE_TS_NS'', ''INVALID_DEPTH'',
     ''INVALID_END_TIME'', ''INVALID_LIMIT'', ''INVALID_OFFSET'', ''INVALID_ORDER_STATUS'', ''INVALID_PAGE_TOKEN'',
     ''INVALID_START_TIME'', ''INVALID_SYMBOL'', ''INVALID_TRIGGER_ID'', ''INVALID_TRIGGER_STATUS'', ''ORDER_ID_REQUIRED'',
     ''REQUEST_TOO_LARGE'', ''ROLE_ACTION_DENY'', ''ROLE_SPOT_TRADE_DENY'', ''SERVER_ERROR'', ''SUBACCOUNT_POLICY_DENY'',
     ''TRAILING_STOP_ORDER_TYPE_UNSUPPORTED'', ''TRIGGER_ID_REQUIRED'']"

definition IsRecognisedRESTCode :: "string \<Rightarrow> bool" where
  "IsRecognisedRESTCode code \<longleftrightarrow> \<not> (code = [] \<or> IsPlaceholderCode code) \<and>
     (code \<in> set restOnlyCodes \<or> has_suffix code ''_OUTCOME_UNKNOWN''
      \<or> list_ex (\<lambda>name. list_ex (\<lambda>names. enum_known names name)
            [orderErrorCode_name, withdrawErrorCode_name, transferErrorCode_name, ledgerErrorCode_name]) [code, ''ERROR_CODE_'' @ code]
      \<or> list_ex (enum_known authErrorCode_name) [code, ''AUTH_'' @ code])"

definition routeNotFoundMessages :: "string list" where
  "routeNotFoundMessages = [''not found'', ''404 page not found'', ''404 not found'']"

definition IsRouteNotFoundMessage :: "string \<Rightarrow> bool" where
  "IsRouteNotFoundMessage message \<longleftrightarrow> to_lower (trim_space message) \<in> set routeNotFoundMessages"

definition TimestampSkewCode :: string where
  "TimestampSkewCode = ''TIMESTAMP_SKEW''"

definition emptyErrorMessage :: string where
  "emptyErrorMessage = ''request failed without server error details''"

definition connectHTTPStatus :: "connect_code \<Rightarrow> nat" where
  "connectHTTPStatus c = (case c of CodeUnauthenticated \<Rightarrow> 401 | CodePermissionDenied \<Rightarrow> 403 | CodeInvalidArgument \<Rightarrow> 400 | _ \<Rightarrow> 0)"

definition isAuthLikeErrorCode :: "string \<Rightarrow> bool" where
  "isAuthLikeErrorCode code \<longleftrightarrow> contains code ''UNAUTHENTICATED'' \<or> contains code ''PERMISSION'' \<or> contains code ''API_KEY''
     \<or> contains code ''WALLET_BINDING'' \<or> contains code ''POLICY''"

definition orderErrorCodeFromName :: "string \<Rightarrow> string" where
  "orderErrorCodeFromName code = (if enum_known orderErrorCode_name (''ERROR_CODE_'' @ code) then ''ERROR_CODE_'' @ code else code)"

definition upper_letter :: "char \<Rightarrow> bool" where
  "upper_letter c \<longleftrightarrow> 65 \<le> (of_char c :: nat) \<and> (of_char c :: nat) \<le> 90"

definition isServiceCodeMessage :: "string \<Rightarrow> bool" where
  "isServiceCodeMessage msg = (case msg of [] \<Rightarrow> False
     | c # cs \<Rightarrow> upper_letter c \<and> list_all (\<lambda>r. upper_letter r \<or> is_digit r \<or> r = CHR ''_'') cs)"

definition retryableAdmissionCodes :: "string list" where
  "retryableAdmissionCodes = [''OVERLOADED'', ''SYSTEM_RATE_LIMITED'',
     ''RATE_LIMIT_EXCEEDED'', ''PRICE_LEVELS_EXHAUSTED'', ''CLIENT_ORDER_IDS_EXHAUSTED'', ''CLIENT_ORDER_ID_CAPACITY_REACHED'',
     ''MARKET_LADDER_LIMIT_EXCEEDED'', ''MARKET_TRIGGER_LIMIT_EXCEEDED'', ''MARKET_TWAP_LIMIT_EXCEEDED'',
     ''NEW_ACCOUNT_CAPACITY_REACHED'', ''REQUEST_RECEIPTS_EXHAUSTED'', ''RESERVATION_CAPACITY_REACHED'', ''TRIGGER_CAPACITY_REACHED'',
     ''TRIGGER_CONTROL_SHARE_EXHAUSTED'', ''TWAP_CAPACITY_REACHED'']"

definition isRetryableAdmissionCode :: "string \<Rightarrow> bool" where
  "isRetryableAdmissionCode code \<longleftrightarrow> trim_prefix code ''ERROR_CODE_'' \<in> set retryableAdmissionCodes"

definition specificAdmissionRefusals :: "string list" where
  "specificAdmissionRefusals = [''FEE_SCHEDULE_UNAVAILABLE'', ''POLICY_UNAVAILABLE'',
     ''RATE_LIMIT_POLICY_UNAVAILABLE'', ''PAIR_BACKLOGGED'', ''SETTLEMENT_BACKLOGGED'', ''ORDER_MODIFY_IN_PROGRESS'',
     ''ORDER_PLACEMENT_PENDING'', ''TRIGGER_CONTROLS_BUSY'', ''TRIGGER_CONTROL_IN_PROGRESS'', ''QUICKSWAP_ACCOUNT_OWNER_UNKNOWN'']"

definition isSpecificAdmissionRefusal :: "string \<Rightarrow> bool" where
  "isSpecificAdmissionRefusal code \<longleftrightarrow> trim_prefix code ''ERROR_CODE_'' \<in> set specificAdmissionRefusals"

definition finalResourceCodes :: "string list" where
  "finalResourceCodes = [''ORDER_SEQUENCE_EXHAUSTED'', ''TRIGGER_FIRE_LIMIT_REACHED'',
     ''QUICKSWAP_CAPACITY_REACHED'', ''ACCOUNT_RESERVATION_LIMIT_REACHED'', ''TRIGGER_LIMIT_EXCEEDED'']"

definition isFinalResourceCode :: "string \<Rightarrow> bool" where
  "isFinalResourceCode code \<longleftrightarrow> trim_prefix code ''ERROR_CODE_'' \<in> set finalResourceCodes"

definition isServerFailureCode :: "connect_code \<Rightarrow> bool" where
  "isServerFailureCode code \<longleftrightarrow> code \<in> {CodeInternal, CodeUnknown, CodeDataLoss, CodeCanceled, CodeUnavailable, CodeDeadlineExceeded}"

definition apiKeyRefusalCodes :: "string list" where
  "apiKeyRefusalCodes = [''AUTH_SIGNATURE_INVALID'', ''AUTH_MISSING_HEADERS'', ''AUTH_KEY_EXPIRED'', ''AUTH_KEY_DISABLED'',
     ''AUTH_IP_NOT_ALLOWED'', ''AUTH_API_KEY_NOT_ACCEPTED'']"

definition IsCloudflareBrowserBan :: "string \<Rightarrow> bool" where
  "IsCloudflareBrowserBan body \<longleftrightarrow> (let lower = to_lower body in
     contains lower ''error code: 1010'' \<or> contains lower ''error code 1010''
     \<or> contains lower ''attention required'' \<and> contains lower ''cloudflare'')"

definition Cloudflare1010Message :: "string \<Rightarrow> string" where
  "Cloudflare1010Message userAgent =
     ''Request blocked by edge WAF (Cloudflare error 1010: browser signature banned). '' @
     ''This is not an API authentication failure. '' @
     ''Retry with User-Agent '' @ userAgent @ '' (set automatically by this SDK).''"

section \<open>Details\<close>

text \<open>The enum names of a rate limit detail; an unknown number is kept with a label.\<close>

definition labelled_name :: "enum_names \<Rightarrow> int \<Rightarrow> string \<Rightarrow> string" where
  "labelled_name names raw unknownPrefix = (case map_of names raw of Some name \<Rightarrow> name
     | None \<Rightarrow> unknownPrefix @ ''('' @ itoa raw @ '')'')"

definition rateLimitDetailFromProto :: "rate_limit_message \<Rightarrow> rate_limit_detail" where
  "rateLimitDetailFromProto m = \<lparr>rd_Reason = labelled_name failureReason_name (rm_reason m) ''UNKNOWN_FAILURE_REASON'',
     rd_Limit = rm_limit m, rd_Remaining = rm_remaining m, rd_RetryAfterMs = rm_retryAfterMs m,
     rd_PolicyVersion = rm_policyVersion m, rd_OperationID = rm_operationId m,
     rd_PolicyClass = labelled_name policyClass_name (rm_policyClass m) ''UNKNOWN_POLICY_CLASS'',
     rd_Scope = labelled_name limiterScope_name (rm_scope m) ''UNKNOWN_LIMITER_SCOPE'',
     rd_RefillModel = labelled_name refillModel_name (rm_refillModel m) ''UNKNOWN_REFILL_MODEL''\<rparr>"

definition RetryAfterSeconds :: "rate_limit_detail option \<Rightarrow> 'h retry_after option" where
  "RetryAfterSeconds d = (case d of None \<Rightarrow> None | Some x \<Rightarrow> map_option DetailMs (rd_RetryAfterMs x))"

definition rateLimitError :: "string \<Rightarrow> string \<Rightarrow> rate_limit_detail option \<Rightarrow> 'h option \<Rightarrow> 'h api_error" where
  "rateLimitError msg code detail headerRetry =
     RateLimitErr msg code
       (case RetryAfterSeconds detail of Some seconds \<Rightarrow> Some seconds | None \<Rightarrow> map_option HeaderSeconds headerRetry) detail"

text \<open>Go's quoting of a string is an argument.\<close>

definition render_subscript :: "(string \<Rightarrow> string) \<Rightarrow> subscript \<Rightarrow> string" where
  "render_subscript quote s = (case s of NoSubscript \<Rightarrow> []
     | SubIndex n \<Rightarrow> ''['' @ itoa (uint n) @ '']''
     | SubBool b \<Rightarrow> ''['' @ (if b then ''true'' else ''false'') @ '']''
     | SubInt n \<Rightarrow> ''['' @ itoa n @ '']''
     | SubUint n \<Rightarrow> ''['' @ itoa (uint n) @ '']''
     | SubString t \<Rightarrow> ''['' @ quote t @ '']'')"

fun render_path :: "(string \<Rightarrow> string) \<Rightarrow> string \<Rightarrow> (string \<times> subscript) list \<Rightarrow> string" where
  "render_path quote b [] = b"
| "render_path quote b ((name, s) # es) =
     render_path quote ((if b \<noteq> [] then b @ ''.'' else b) @ name @ render_subscript quote s) es"

definition protovalidateFieldPath :: "(string \<Rightarrow> string) \<Rightarrow> (string \<times> subscript) list \<Rightarrow> string" where
  "protovalidateFieldPath quote path = render_path quote [] path"

definition request_violation_of :: "(string \<Rightarrow> string) \<Rightarrow> request_violation \<Rightarrow> field_violation" where
  "request_violation_of quote v = \<lparr>fv_FieldPath = protovalidateFieldPath quote (rv_field v), fv_RuleID = rv_ruleId v, fv_Message = rv_message v\<rparr>"

definition order_code :: "order_detail \<Rightarrow> string" where
  "order_code d = enum_String orderErrorCode_name (od_code d)"

definition existing_order :: "(byte list \<Rightarrow> string) \<Rightarrow> order_detail \<Rightarrow> string" where
  "existing_order enc d = (case od_existingOrderId d of None \<Rightarrow> [] | Some i \<Rightarrow> FormatUint64ID enc i)"

text \<open>The first loop of \<open>MapConnectError\<close>: an unknown outcome stops it, a final resource code is kept until then.\<close>

fun outcome_detail :: "order_detail option \<Rightarrow> service_detail option list \<Rightarrow> order_detail option" where
  "outcome_detail outcome [] = outcome"
| "outcome_detail outcome (Some (OrderDetail order) # details) =
     (if has_suffix (order_code order) ''_OUTCOME_UNKNOWN'' then Some order
      else if outcome = None \<and> isFinalResourceCode (order_code order) then outcome_detail (Some order) details
      else outcome_detail outcome details)"
| "outcome_detail outcome (_ # details) = outcome_detail outcome details"

text \<open>What one detail that says something is mapped to; \<open>None\<close> goes on to the next.\<close>

definition auth_detail_error :: "connect_code \<Rightarrow> string \<Rightarrow> int \<Rightarrow> string \<Rightarrow> 'h api_error" where
  "auth_detail_error c msg code message =
     (let codeName = enum_String authErrorCode_name code; detailMsg = (if message = [] then msg else message) in
      if codeName = ''AUTH_SUBACCOUNT_OWNER_ROLE_LOCKED'' then OwnerLockedErr detailMsg 0
      else if codeName = ''AUTH_SESSION_KIND_NOT_ALLOWED'' then SessionErr detailMsg 0
      else if codeName = ''AUTH_TIMESTAMP_SKEW'' then SkewErr detailMsg (connectHTTPStatus c)
      else if codeName \<in> set apiKeyRefusalCodes then AuthErr detailMsg (connectHTTPStatus c) codeName
      else ApiErr detailMsg codeName [])"

definition order_detail_error ::
  "(byte list \<Rightarrow> string) \<Rightarrow> connect_code \<Rightarrow> string \<Rightarrow> 'h option \<Rightarrow> order_detail \<Rightarrow> 'h api_error" where
  "order_detail_error enc c msg headerRetry d =
     (let code = order_code d; unknown = has_suffix code ''_OUTCOME_UNKNOWN'';
          rl = map_option rateLimitDetailFromProto (od_rateLimit d) in
      if \<not> unknown \<and> (rl \<noteq> None \<or> isRetryableAdmissionCode code) then rateLimitError msg code rl headerRetry
      else if c = CodeUnavailable \<and> \<not> unknown \<and> code \<noteq> ''ERROR_CODE_ACCOUNT_ROUTING_INVALID''
      then ServerErr (code = ''ERROR_CODE_UNAVAILABLE'') msg code 503
      else if od_violations d \<noteq> [] \<and> \<not> unknown then ValidationErr msg code (od_violations d)
      else if isAuthLikeErrorCode code then AuthErr msg 0 code
      else ApiErr msg code (existing_order enc d))"

text \<open>Withdraw, transfer and ledger details; the first two have a rate limit code of their own.\<close>

definition service_code_error :: "connect_code \<Rightarrow> string \<Rightarrow> 'h option \<Rightarrow> string \<Rightarrow> bool \<Rightarrow> 'h api_error" where
  "service_code_error c msg headerRetry code limited =
     (if limited \<and> code = ''ERROR_CODE_RATE_LIMIT_EXCEEDED'' then rateLimitError msg code None headerRetry
      else if c = CodeUnavailable then ServerErr False msg code 503
      else if isAuthLikeErrorCode code then AuthErr msg 0 code
      else ApiErr msg code [])"

definition detail_error ::
  "(byte list \<Rightarrow> string) \<Rightarrow> (string \<Rightarrow> string) \<Rightarrow> connect_code \<Rightarrow> string \<Rightarrow> 'h option \<Rightarrow> service_detail
    \<Rightarrow> 'h api_error option" where
  "detail_error enc quote c msg headerRetry d = (case d of
       AuthDetail code message \<Rightarrow> Some (auth_detail_error c msg code message)
     | RateDetail m \<Rightarrow> Some (rateLimitError msg [] (Some (rateLimitDetailFromProto m)) headerRetry)
     | OrderDetail order \<Rightarrow> Some (order_detail_error enc c msg headerRetry order)
     | ValidateDetail vs \<Rightarrow>
         if vs = [] then None
         else Some (ValidationErr msg (connect_code_String c) (map (request_violation_of quote) vs))
     | WithdrawDetail code \<Rightarrow> Some (service_code_error c msg headerRetry (enum_String withdrawErrorCode_name code) True)
     | LedgerDetail code \<Rightarrow> Some (service_code_error c msg headerRetry (enum_String ledgerErrorCode_name code) False)
     | TransferDetail code \<Rightarrow> Some (service_code_error c msg headerRetry (enum_String transferErrorCode_name code) True)
     | OtherDetail \<Rightarrow> None)"

text \<open>The second loop: placeholders leave their violations, a code that cannot be named is kept for
  diagnosis when the server failed, and the first other detail decides.\<close>

fun detail_loop ::
  "(byte list \<Rightarrow> string) \<Rightarrow> (string \<Rightarrow> string) \<Rightarrow> connect_code \<Rightarrow> string \<Rightarrow> 'h option \<Rightarrow> field_violation list
    \<Rightarrow> string \<Rightarrow> service_detail option list \<Rightarrow> 'h api_error + (field_violation list \<times> string)" where
  "detail_loop enc quote c msg hr violations future [] = Inr (violations, future)"
| "detail_loop enc quote c msg hr violations future (None # ds) = detail_loop enc quote c msg hr violations future ds"
| "detail_loop enc quote c msg hr violations future (Some d # ds) =
     (if isPlaceholderDetail d
      then detail_loop enc quote c msg hr
        (violations @ (case d of OrderDetail order \<Rightarrow> od_violations order | _ \<Rightarrow> [])) future ds
      else if isServerFailureCode c \<and> hasFutureCode d
      then detail_loop enc quote c msg hr violations (if future = [] then futureCodeLabel d else future) ds
      else case detail_error enc quote c msg hr d of
          Some e \<Rightarrow> Inl e
        | None \<Rightarrow> detail_loop enc quote c msg hr violations future ds)"

section \<open>Mapping\<close>

definition message_code :: "string \<Rightarrow> string" where
  "message_code msg = (let code = trim_space msg in if IsPlaceholderCode code then [] else code)"

text \<open>What the Connect code alone says.\<close>

definition code_error :: "connect_code \<Rightarrow> string \<Rightarrow> 'h option \<Rightarrow> field_violation list \<Rightarrow> string \<Rightarrow> 'h api_error" where
  "code_error c msg headerRetry placeholderViolations futureCode =
     (if c = CodeUnauthenticated then AuthErr msg 401 ''unauthenticated''
      else if c = CodePermissionDenied then AuthErr msg 403 ''permission_denied''
      else if c \<in> {CodeUnavailable, CodeInternal, CodeUnknown, CodeDataLoss} then ServerErr False msg futureCode 0
      else if c = CodeResourceExhausted
      then (let code = orderErrorCodeFromName (message_code msg) in
            rateLimitError msg (if enum_known orderErrorCode_name code then code else []) None headerRetry)
      else if c \<in> {CodeCanceled, CodeDeadlineExceeded} then TransportErr msg
      else if c \<in> {CodeInvalidArgument, CodeFailedPrecondition, CodeOutOfRange}
      then ValidationErr msg (connect_code_String c) placeholderViolations
      else if c = CodeUnimplemented
      then (if to_lower (trim_space msg) \<in> set routeNotFoundMessages then RouteNotFoundErr else NotImplementedErr msg)
      else ApiErr msg (connect_code_String c) [])"

text \<open>What the message says when no detail decided.\<close>

definition message_error ::
  "string \<Rightarrow> connect_code \<Rightarrow> string \<Rightarrow> 'h option \<Rightarrow> field_violation list \<Rightarrow> string \<Rightarrow> 'h api_error" where
  "message_error userAgent c msg headerRetry placeholderViolations futureCode =
     (let namedCode = orderErrorCodeFromName (message_code msg) in
      if IsCloudflareBrowserBan msg then TransportErr (Cloudflare1010Message userAgent)
      else if has_suffix msg ''_OUTCOME_UNKNOWN'' then ApiErr msg (orderErrorCodeFromName msg) []
      else if c = CodeUnavailable \<and> namedCode = ''ERROR_CODE_ACCOUNT_ROUTING_INVALID'' then ApiErr msg namedCode []
      else if c = CodeUnavailable \<and> isSpecificAdmissionRefusal namedCode then ServerErr False msg namedCode 503
      else if c = CodeResourceExhausted \<and> isRetryableAdmissionCode namedCode then rateLimitError msg namedCode None headerRetry
      else if c = CodeResourceExhausted \<and> (enum_known orderErrorCode_name namedCode \<or> isServiceCodeMessage (message_code msg))
      then ApiErr msg namedCode []
      else code_error c msg headerRetry placeholderViolations futureCode)"

definition connect_error_of ::
  "(byte list \<Rightarrow> string) \<Rightarrow> (string \<Rightarrow> string) \<Rightarrow> string \<Rightarrow> 'h option \<Rightarrow> connect_error \<Rightarrow> 'h api_error" where
  "connect_error_of enc quote userAgent headerRetry e =
     (let c = ce_Code e in
      if ce_Message e = TimestampSkewCode
      then SkewErr ''API key timestamp is outside the allowed skew window'' (connectHTTPStatus c)
      else
        let msg = (if trim_space (ce_Message e) = [] then emptyErrorMessage else ce_Message e);
            outcome = outcome_detail None (ce_Details e) in
        if has_suffix (trim_space msg) ''_OUTCOME_UNKNOWN''
          \<and> (case outcome of None \<Rightarrow> True | Some d \<Rightarrow> \<not> has_suffix (order_code d) ''_OUTCOME_UNKNOWN'')
        then ApiErr msg (orderErrorCodeFromName (trim_space msg)) []
        else case outcome of
            Some d \<Rightarrow> ApiErr msg (order_code d) (existing_order enc d)
          | None \<Rightarrow>
              (case detail_loop enc quote c msg headerRetry [] [] (ce_Details e) of
                 Inl err \<Rightarrow> err
               | Inr (violations, future) \<Rightarrow> message_error userAgent c msg headerRetry violations future))"

text \<open>The SDK errors that are passed on, in the order they are looked for.\<close>

definition sdk_kinds :: "('h api_error \<Rightarrow> bool) list" where
  "sdk_kinds = [(\<lambda>e. case e of AuthErr _ _ _ \<Rightarrow> True | _ \<Rightarrow> False), (\<lambda>e. case e of RateLimitErr _ _ _ _ \<Rightarrow> True | _ \<Rightarrow> False),
     (\<lambda>e. case e of ServerErr _ _ _ _ \<Rightarrow> True | _ \<Rightarrow> False), (\<lambda>e. case e of SkewErr _ _ \<Rightarrow> True | _ \<Rightarrow> False),
     (\<lambda>e. case e of NotImplementedErr _ \<Rightarrow> True | _ \<Rightarrow> False), (\<lambda>e. case e of OwnerLockedErr _ _ \<Rightarrow> True | _ \<Rightarrow> False),
     (\<lambda>e. case e of SessionErr _ _ \<Rightarrow> True | _ \<Rightarrow> False), (\<lambda>e. case e of ValidationErr _ _ _ \<Rightarrow> True | _ \<Rightarrow> False),
     (\<lambda>e. case e of ApiErr _ _ _ \<Rightarrow> True | _ \<Rightarrow> False)]"

definition as_sdk :: "('h api_error \<Rightarrow> bool) \<Rightarrow> 'h err_link list \<Rightarrow> 'h api_error option" where
  "as_sdk kind links = find_map (\<lambda>l. case l of SdkLink e \<Rightarrow> if kind e then Some e else None | _ \<Rightarrow> None) links"

definition as_connect :: "'h err_link list \<Rightarrow> connect_error option" where
  "as_connect links = find_map (\<lambda>l. case l of ConnectLink e \<Rightarrow> Some e | _ \<Rightarrow> None) links"

definition MapConnectError ::
  "(byte list \<Rightarrow> string) \<Rightarrow> (string \<Rightarrow> string) \<Rightarrow> string \<Rightarrow> (connect_error \<Rightarrow> 'h option) \<Rightarrow> 'h go_error option
    \<Rightarrow> 'h api_error option" where
  "MapConnectError enc quote userAgent retryAfterSeconds err = (case err of
       None \<Rightarrow> None
     | Some e \<Rightarrow> Some
         (if list_ex (\<lambda>l. case l of ContextLink \<Rightarrow> True | _ \<Rightarrow> False) (ge_links e) then TransportErr (ge_text e)
          else case find_map (\<lambda>kind. as_sdk kind (ge_links e)) sdk_kinds of
              Some sdk \<Rightarrow> sdk
            | None \<Rightarrow> (case as_connect (ge_links e) of
                  None \<Rightarrow> TransportErr (ge_text e)
                | Some ce \<Rightarrow> connect_error_of enc quote userAgent (retryAfterSeconds ce) ce)))"

section \<open>Codes in messages\<close>

lemma trim_prefix_append [simp]: "trim_prefix (p @ s) p = s"
  by (simp add: trim_prefix_def)

lemma trim_prefix_cases: "s = trim_prefix s p \<or> s = p @ trim_prefix s p"
  by (auto simp: trim_prefix_def has_prefix_def) (metis append_take_drop_id)

lemma orderErrorCode_cases: "orderErrorCodeFromName code = code \<or> orderErrorCodeFromName code = ''ERROR_CODE_'' @ code"
  by (simp only: orderErrorCodeFromName_def split: if_split) simp

lemma orderErrorCode_suffix: "has_suffix code p \<Longrightarrow> has_suffix (orderErrorCodeFromName code) p"
  using orderErrorCode_cases [of code] has_suffix_append by metis

text \<open>Every name of a list that a test compares with is a code: so is a message the test accepts.\<close>

lemma named_is_code:
  assumes names: "list_all (\<lambda>n. isServiceCodeMessage n \<and> isServiceCodeMessage (''ERROR_CODE_'' @ n)) names"
    and named: "trim_prefix (orderErrorCodeFromName code) ''ERROR_CODE_'' \<in> set names"
  shows "isServiceCodeMessage code"
proof -
  let ?n = "trim_prefix (orderErrorCodeFromName code) ''ERROR_CODE_''"
  from names named have n: "isServiceCodeMessage ?n" "isServiceCodeMessage (''ERROR_CODE_'' @ ?n)"
    by (auto simp only: list_all_iff)
  show ?thesis
  proof (cases "orderErrorCodeFromName code = code")
    case True
    with n trim_prefix_cases [of code "''ERROR_CODE_''"] show ?thesis by metis
  next
    case False
    then have "orderErrorCodeFromName code = ''ERROR_CODE_'' @ code" using orderErrorCode_cases by blast
    then have "?n = code" by (simp only: trim_prefix_append)
    with n show ?thesis by simp
  qed
qed

lemma refusal_is_code: "isSpecificAdmissionRefusal (orderErrorCodeFromName code) \<Longrightarrow> isServiceCodeMessage code"
proof (rule named_is_code [where names = specificAdmissionRefusals])
  show "list_all (\<lambda>n. isServiceCodeMessage n \<and> isServiceCodeMessage (''ERROR_CODE_'' @ n)) specificAdmissionRefusals" by code_simp
qed (simp add: isSpecificAdmissionRefusal_def)

lemma routing_is_code: "orderErrorCodeFromName code = ''ERROR_CODE_ACCOUNT_ROUTING_INVALID'' \<Longrightarrow> isServiceCodeMessage code"
proof (rule named_is_code [where names = "[''ACCOUNT_ROUTING_INVALID'']"])
  show "list_all (\<lambda>n. isServiceCodeMessage n \<and> isServiceCodeMessage (''ERROR_CODE_'' @ n)) [''ACCOUNT_ROUTING_INVALID'']" by code_simp
  have "trim_prefix ''ERROR_CODE_ACCOUNT_ROUTING_INVALID'' ''ERROR_CODE_'' = ''ACCOUNT_ROUTING_INVALID''" by code_simp
  then show "orderErrorCodeFromName code = ''ERROR_CODE_ACCOUNT_ROUTING_INVALID''
      \<Longrightarrow> trim_prefix (orderErrorCodeFromName code) ''ERROR_CODE_'' \<in> set [''ACCOUNT_ROUTING_INVALID'']" by simp
qed

text \<open>The text of a number is no code of the service.\<close>

lemma dec_nat_ends: "is_digit (last (dec_nat m))" "is_digit (hd (dec_nat m))"
proof -
  have "list_all is_digit (dec_nat m)" "dec_nat m \<noteq> []" by simp_all
  then show "is_digit (last (dec_nat m))" "is_digit (hd (dec_nat m))" by (simp_all add: list_all_iff)
qed

lemma digit_not_upper: "is_digit c \<Longrightarrow> \<not> upper_letter c"
  by (simp add: is_digit_def upper_letter_def)

lemma itoa_ends: "itoa n \<noteq> []" "is_digit (last (itoa n))" "\<not> upper_letter (hd (itoa n))"
  using dec_nat_ends digit_not_upper by (auto simp: itoa_def upper_letter_def [of "CHR ''-''"])

lemma itoa_not_unknown: "\<not> has_suffix (itoa n) ''_OUTCOME_UNKNOWN''"
proof
  assume "has_suffix (itoa n) ''_OUTCOME_UNKNOWN''"
  then have "last (itoa n) = CHR ''N''" by (auto simp: has_suffix_iff)
  with itoa_ends(2) [of n] show False by (simp add: is_digit_def)
qed

lemma itoa_not_final: "\<not> isFinalResourceCode (itoa n)"
proof
  assume "isFinalResourceCode (itoa n)"
  moreover have "list_all (\<lambda>s. s \<noteq> [] \<and> upper_letter (hd s)) finalResourceCodes" by code_simp
  ultimately have t: "trim_prefix (itoa n) ''ERROR_CODE_'' \<noteq> []" "upper_letter (hd (trim_prefix (itoa n) ''ERROR_CODE_''))"
    by (auto simp: isFinalResourceCode_def list_all_iff)
  have "upper_letter (hd (itoa n))"
  proof (cases "itoa n = trim_prefix (itoa n) ''ERROR_CODE_''")
    case True
    with t show ?thesis by simp
  next
    case False
    with trim_prefix_cases obtain r where "itoa n = ''ERROR_CODE_'' @ r" by blast
    then show ?thesis by (simp add: upper_letter_def)
  qed
  with itoa_ends(3) show False by blast
qed

section \<open>What an answer is mapped to\<close>

text \<open>An error chain with no SDK error in it and this Connect error.\<close>

definition from_server :: "'h go_error \<Rightarrow> connect_error \<Rightarrow> bool" where
  "from_server err ce \<longleftrightarrow> list_all (\<lambda>l. case l of SdkLink _ \<Rightarrow> False | _ \<Rightarrow> True) (ge_links err) \<and> as_connect (ge_links err) = Some ce"

lemma no_sdk: "list_all (\<lambda>l. case l of SdkLink _ \<Rightarrow> False | _ \<Rightarrow> True) links \<Longrightarrow> as_sdk kind links = None"
  unfolding as_sdk_def by (induction links) (auto split: err_link.splits)

lemma MapConnectError_server:
  assumes "from_server err ce"
  shows "MapConnectError enc quote ua ra (Some err) = Some (if list_ex (\<lambda>l. case l of ContextLink \<Rightarrow> True | _ \<Rightarrow> False) (ge_links err)
     then TransportErr (ge_text err) else connect_error_of enc quote ua (ra ce) ce)"
proof -
  have "find_map (\<lambda>kind. as_sdk kind (ge_links err)) sdk_kinds = None"
    using assms by (simp add: from_server_def no_sdk sdk_kinds_def)
  with assms show ?thesis by (simp add: MapConnectError_def from_server_def)
qed

lemma unknown_simps [simp]:
  "MutationOutcomeUnknown (TransportErr m)" "MutationOutcomeUnknown RouteNotFoundErr"
  "MutationOutcomeUnknown (ApiErr m code x) \<longleftrightarrow> isOutcomeUnknownCode code"
  by (simp_all add: MutationOutcomeUnknown_def server_unknown_def apiErrorCode_def sdk_links_def)

definition detail_unknown :: "service_detail option \<Rightarrow> bool" where
  "detail_unknown d \<longleftrightarrow> (case d of Some (OrderDetail order) \<Rightarrow> has_suffix (order_code order) ''_OUTCOME_UNKNOWN'' | _ \<Rightarrow> False)"

lemma outcome_detail_found:
  "list_ex detail_unknown details \<Longrightarrow>
    \<exists>d. outcome_detail old details = Some d \<and> has_suffix (order_code d) ''_OUTCOME_UNKNOWN''"
  by (induction old details rule: outcome_detail.induct) (auto simp: detail_unknown_def)


definition sample_unknown :: connect_error where
  "sample_unknown = \<lparr>ce_Code = CodeResourceExhausted, ce_Message = ''busy'',
     ce_Details = [None, Some (OrderDetail \<lparr>od_code = 297, od_rateLimit = None, od_violations = [], od_existingOrderId = None\<rparr>)]\<rparr>"

definition sent :: "connect_error \<Rightarrow> unit go_error" where
  "sent ce = \<lparr>ge_text = ''unavailable'', ge_links = [OtherLink, ConnectLink ce]\<rparr>"

lemma sent_from_server: "from_server (sent ce) ce"
  by (simp add: from_server_def sent_def as_connect_def)


section \<open>Silent failures\<close>

text \<open>A detail that names no code of the contract, and an answer that names none anywhere.\<close>

definition says_nothing :: "service_detail option \<Rightarrow> bool" where
  "says_nothing d \<longleftrightarrow> (case d of None \<Rightarrow> True | Some x \<Rightarrow> isPlaceholderDetail x \<or> hasFutureCode x \<or> x = OtherDetail)"

lemma says_nothing_order:
  assumes "says_nothing (Some (OrderDetail d))"
  shows "\<not> has_suffix (order_code d) ''_OUTCOME_UNKNOWN'' \<and> \<not> isFinalResourceCode (order_code d)"
proof (cases "map_of orderErrorCode_name (od_code d)")
  case None
  then have "order_code d = itoa (od_code d)" by (simp add: order_code_def enum_String_def)
  with itoa_not_unknown itoa_not_final show ?thesis by simp
next
  case (Some name)
  then have "\<not> hasFutureCode (OrderDetail d)" by (simp add: hasFutureCode_def futureCodeLabel_def unnamed_label_def)
  with assms have "od_code d = 0" by (simp add: says_nothing_def isPlaceholderDetail_def)
  then have "order_code d = enum_String orderErrorCode_name 0" by (simp add: order_code_def)
  moreover have "\<not> has_suffix (enum_String orderErrorCode_name 0) ''_OUTCOME_UNKNOWN''
      \<and> \<not> isFinalResourceCode (enum_String orderErrorCode_name 0)" by code_simp
  ultimately show ?thesis by simp
qed

lemma says_nothing_outcome: "list_all says_nothing details \<Longrightarrow> outcome_detail None details = None"
proof (induction "None :: order_detail option" details rule: outcome_detail.induct)
  case (2 order details)
  with says_nothing_order show ?case by simp
qed (simp_all add: says_nothing_def)

lemma says_nothing_loop:
  "list_all says_nothing details \<Longrightarrow> isServerFailureCode c \<Longrightarrow>
    \<exists>vs f. detail_loop enc quote c msg hr v future details = Inr (vs, f)"
proof (induction enc quote c msg hr v future details rule: detail_loop.induct)
  case (3 enc quote c msg hr v future d ds)
  then show ?case by (cases "d = OtherDetail") (auto simp: says_nothing_def detail_error_def)
qed auto

text \<open>C26. Silence is never taken for a refusal: when the server failed and neither a detail nor the message
  names a code of the contract, the outcome of the mutation is unknown.\<close>

theorem silent_failure_unknown:
  assumes "from_server err ce" and "isServerFailureCode (ce_Code ce)" and "list_all says_nothing (ce_Details ce)"
    and "\<not> isServiceCodeMessage (message_code (ce_Message ce))"
  shows "\<exists>e. MapConnectError enc quote ua ra (Some err) = Some e \<and> MutationOutcomeUnknown e \<and> \<not> IsRetryable e"
proof -
  let ?c = "ce_Code ce"
  let ?msg = "if trim_space (ce_Message ce) = [] then emptyErrorMessage else ce_Message ce"
  have "message_code TimestampSkewCode = TimestampSkewCode" "isServiceCodeMessage TimestampSkewCode" by code_simp+
  with assms(4) have skew: "ce_Message ce \<noteq> TimestampSkewCode" by auto
  have none: "outcome_detail None (ce_Details ce) = None" using assms(3) by (rule says_nothing_outcome)
  have "\<not> isServiceCodeMessage (message_code emptyErrorMessage)" by code_simp
  with assms(4) have code: "\<not> isServiceCodeMessage (message_code ?msg)" by simp
  have failed: "MutationOutcomeUnknown (code_error ?c m hr vs f)" for m and hr :: "'a option" and vs f
    using assms(2) by (auto simp: isServerFailureCode_def code_error_def MutationOutcomeUnknown_def server_unknown_def)
  have message: "MutationOutcomeUnknown (message_error ua ?c ?msg hr vs f)" for hr :: "'a option" and vs f
  proof -
    have "\<not> isSpecificAdmissionRefusal (orderErrorCodeFromName (message_code ?msg))"
      "orderErrorCodeFromName (message_code ?msg) \<noteq> ''ERROR_CODE_ACCOUNT_ROUTING_INVALID''"
      using code refusal_is_code routing_is_code by blast+
    moreover have "?c \<noteq> CodeResourceExhausted" using assms(2) by (auto simp: isServerFailureCode_def)
    ultimately show ?thesis
      using orderErrorCode_suffix failed by (simp add: message_error_def Let_def isOutcomeUnknownCode_def del: if_split)
  qed
  obtain vs f where "detail_loop enc quote ?c ?msg (ra ce) [] [] (ce_Details ce) = Inr (vs, f)"
    using says_nothing_loop [OF assms(3,2)] by blast
  with skew none message have "MutationOutcomeUnknown (connect_error_of enc quote ua (ra ce) ce)"
    using orderErrorCode_suffix by (auto simp: connect_error_of_def Let_def isOutcomeUnknownCode_def)
  with MapConnectError_server [OF assms(1)] show ?thesis by (simp add: IsRetryable_def)
qed

definition sample_silent :: connect_error where
  "sample_silent = \<lparr>ce_Code = CodeUnavailable, ce_Message = ''bad gateway'', ce_Details = [None, Some (LedgerDetail 99), Some (AuthDetail 0 [])]\<rparr>"

theorem silent_failure_unknown_witness:
  "\<exists>e. MapConnectError (\<lambda>_. []) id [] (\<lambda>_. None) (Some (sent sample_silent)) = Some e \<and> MutationOutcomeUnknown e \<and> \<not> IsRetryable e"
proof (rule silent_failure_unknown [OF sent_from_server])
  show "isServerFailureCode (ce_Code sample_silent)" "\<not> isServiceCodeMessage (message_code (ce_Message sample_silent))" by code_simp+
  show "list_all says_nothing (ce_Details sample_silent)" by code_simp
qed

end
