(* ===== verification/GatewayErrors.thy ===== *)
theory GatewayErrors
  imports WireErrors
begin

text \<open>
  \<open>transport/skew.go\<close> with \<open>errors/problem.go\<close>: the round tripper that classifies HTTP error answers whose body is
  not a Connect error. JSON and base64 decoding, gzip, status texts and upper-casing are arguments. A
  failed body is the text that could be read and whether reading it failed. A mapped answer keeps the problem metadata
  beside the error.
\<close>

section \<open>Problems\<close>

record http_problem =
  hp_Type :: string
  hp_Status :: nat
  hp_Code :: string
  hp_Detail :: string

definition ProblemType :: "string \<Rightarrow> string" where
  "ProblemType code = ''https://polyester.dev/problems/'' @ map (\<lambda>c. if c = CHR ''_'' then CHR ''-'' else c) (to_lower code)"

text \<open>The fields of an answer's body, those of \<open>HTTPProblem\<close>, and the message that stands in for an absent detail.\<close>

record error_body =
  eb_Code :: string
  eb_Detail :: string
  eb_Title :: string
  eb_Message :: string
  eb_Violations :: "field_violation list"
  eb_Details :: "(string \<times> string) list"

definition emptyBody :: error_body where
  "emptyBody = \<lparr>eb_Code = [], eb_Detail = [], eb_Title = [], eb_Message = [], eb_Violations = [], eb_Details = []\<rparr>"

text \<open>What the standard library and the generated decoders answer: the decoded prefix of a gzip body and whether its
  reading failed; a body and whether it decoded, with the fields read until then; the code and detail of a problem; the
  message when the payload has no detail; a decoded service detail.\<close>

record gateway_env =
  ge_gunzip :: "string \<Rightarrow> (string \<times> bool) option"
  ge_json :: "string \<Rightarrow> error_body \<times> bool"
  ge_problem :: "string \<Rightarrow> (string \<times> string) option"
  ge_message :: "string \<Rightarrow> string option"
  ge_detail :: "string \<Rightarrow> string \<Rightarrow> service_detail option"
  ge_upper :: "string \<Rightarrow> string"
  ge_statusText :: "nat \<Rightarrow> string"

definition DecodeHTTPProblem :: "gateway_env \<Rightarrow> string \<Rightarrow> nat \<Rightarrow> http_problem option" where
  "DecodeHTTPProblem env body status = (case ge_problem env body of
       None \<Rightarrow> None
     | Some (code, detail) \<Rightarrow>
         if code = [] then None
         else Some \<lparr>hp_Type = ProblemType code, hp_Status = status, hp_Code = code,
           hp_Detail = (case ge_message env body of Some m \<Rightarrow> m | None \<Rightarrow> detail)\<rparr>)"

section \<open>Codes and statuses\<close>

definition maxErrorBodyBytes :: nat where
  "maxErrorBodyBytes = 64 * 1024"

text \<open>The regular expression \<open>^[A-Z][A-Z0-9_]*$\<close>.\<close>

definition restCodeForm :: "string \<Rightarrow> bool" where
  "restCodeForm s = (case s of [] \<Rightarrow> False
     | c # cs \<Rightarrow> upper_letter c \<and> list_all (\<lambda>r. upper_letter r \<or> is_digit r \<or> r = CHR ''_'') cs)"

definition retryableRESTAdmissionCodes :: "string list" where
  "retryableRESTAdmissionCodes = [''OVERLOADED'', ''SYSTEM_RATE_LIMITED'',
     ''RATE_LIMIT_EXCEEDED'', ''PRICE_LEVELS_EXHAUSTED'', ''CLIENT_ORDER_IDS_EXHAUSTED'', ''CLIENT_ORDER_ID_CAPACITY_REACHED'',
     ''MARKET_LADDER_LIMIT_EXCEEDED'', ''MARKET_TRIGGER_LIMIT_EXCEEDED'', ''MARKET_TWAP_LIMIT_EXCEEDED'',
     ''NEW_ACCOUNT_CAPACITY_REACHED'', ''REQUEST_RECEIPTS_EXHAUSTED'', ''RESERVATION_CAPACITY_REACHED'', ''TRIGGER_CAPACITY_REACHED'',
     ''TRIGGER_CONTROL_SHARE_EXHAUSTED'', ''TWAP_CAPACITY_REACHED'']"

definition isRetryableRESTAdmissionCode :: "string \<Rightarrow> bool" where
  "isRetryableRESTAdmissionCode code \<longleftrightarrow> trim_prefix code ''ERROR_CODE_'' \<in> set retryableRESTAdmissionCodes"

definition connectCodeForStatus :: "nat \<Rightarrow> connect_code" where
  "connectCodeForStatus status =
     (if status = 400 \<or> status = 422 \<or> status = 413 then CodeInvalidArgument
      else if status = 401 then CodeUnauthenticated
      else if status = 403 then CodePermissionDenied
      else if status = 404 then CodeNotFound
      else if status = 409 then CodeAborted
      else if status = 429 then CodeResourceExhausted
      else if status = 501 then CodeUnimplemented
      else CodeFailedPrecondition)"

definition isUnavailableStatus :: "nat \<Rightarrow> bool" where
  "isUnavailableStatus status \<longleftrightarrow> status = 429 \<or> status = 502 \<or> status = 503 \<or> status = 504"

definition leftToConnect :: "nat \<Rightarrow> bool \<Rightarrow> nat \<Rightarrow> string \<Rightarrow> bool" where
  "leftToConnect status isJSON bodyLen message \<longleftrightarrow>
     (if status = 401 \<or> status = 403 \<or> isUnavailableStatus status then True
      else if status = 404 then \<not> isJSON \<or> bodyLen = 0 \<or> IsRouteNotFoundMessage message
      else False)"

definition statusLine :: "gateway_env \<Rightarrow> nat \<Rightarrow> string" where
  "statusLine env status = trim_space (dec_nat status @ '' '' @ ge_statusText env status)"

primrec firstNonEmpty :: "string list \<Rightarrow> string" where
  "firstNonEmpty [] = []"
| "firstNonEmpty (v # vs) = (if v \<noteq> [] then v else firstNonEmpty vs)"

definition isJSONContentType :: "string \<Rightarrow> bool" where
  "isJSONContentType value \<longleftrightarrow> has_prefix (to_lower value) ''application/json'' \<or> has_prefix (to_lower value) ''application/problem+json''"

definition decodedErrorBody :: "gateway_env \<Rightarrow> string \<Rightarrow> string \<Rightarrow> string" where
  "decodedErrorBody env encoding body = (let e = to_lower (trim_space encoding) in
     if e = [] \<or> e = ''identity'' then body
     else if e = ''gzip''
     then (case ge_gunzip env body of None \<Rightarrow> []
         | Some (decoded, failed) \<Rightarrow> if failed \<and> length body < maxErrorBodyBytes then [] else decoded)
     else [])"

section \<open>Classifying a body\<close>

definition service_details :: "gateway_env \<Rightarrow> error_body \<Rightarrow> service_detail option list" where
  "service_details env d = map (\<lambda>(ty, value). ge_detail env ty value) (eb_Details d)"

definition hasServiceDetail :: "gateway_env \<Rightarrow> error_body \<Rightarrow> bool" where
  "hasServiceDetail env d \<longleftrightarrow> list_ex CarriesContractCode (service_details env d)"

definition futureCode :: "gateway_env \<Rightarrow> error_body \<Rightarrow> string" where
  "futureCode env d = firstNonEmpty (map FutureCodeLabel (service_details env d))"

definition named_order_code :: "string \<Rightarrow> string" where
  "named_order_code code = (if enum_known orderErrorCode_name (''ERROR_CODE_'' @ code) then ''ERROR_CODE_'' @ code else code)"

text \<open>The switch that maps a body; \<open>None\<close> leaves the answer to Connect.\<close>

definition mapped_answer ::
  "gateway_env \<Rightarrow> (byte list \<Rightarrow> string) \<Rightarrow> (string \<Rightarrow> string) \<Rightarrow> string \<Rightarrow> 'h option \<Rightarrow> nat \<Rightarrow> bool \<Rightarrow> string \<Rightarrow> error_body
    \<Rightarrow> 'h api_error option" where
  "mapped_answer env enc quote ua headerRetry status isJSON decoded d =
     (let code = eb_Code d;
          recognised = IsRecognisedRESTCode code;
          msg = (if eb_Detail d = [] then eb_Title d else eb_Detail d);
          named = (if msg = [] then code else msg) in
      if has_suffix code ''_OUTCOME_UNKNOWN'' then Some (ApiErr named (named_order_code code) [])
      else if isRetryableRESTAdmissionCode code
      then Some (case connect_error_of enc quote ua headerRetry \<lparr>ce_Code = CodeResourceExhausted, ce_Message = msg, ce_Details = []\<rparr> of
          RateLimitErr m _ retry detail \<Rightarrow> RateLimitErr m (''ERROR_CODE_'' @ trim_prefix code ''ERROR_CODE_'') retry detail
        | e \<Rightarrow> e)
      else if code = ''ORDER_SEQUENCE_EXHAUSTED'' \<or> code = ''ERROR_CODE_ORDER_SEQUENCE_EXHAUSTED''
      then Some (ApiErr named ''ERROR_CODE_ORDER_SEQUENCE_EXHAUSTED'' [])
      else if status = 504 then Some (ServerErr False (if msg = [] then ''Gateway Timeout'' else msg) code 504)
      else if status = 503 \<and> trim_prefix code ''ERROR_CODE_'' = ''ACCOUNT_ROUTING_INVALID''
      then Some (ApiErr msg ''ERROR_CODE_ACCOUNT_ROUTING_INVALID'' [])
      else if (status = 502 \<or> status = 503) \<and> code \<noteq> [] \<and> code = ge_upper env code
      then Some (ServerErr False named code status)
      else if code = TimestampSkewCode \<or> code = ''AUTH_TIMESTAMP_SKEW''
      then Some (SkewErr ''API key timestamp is outside the allowed skew window'' status)
      else if code = ''AUTH_SUBACCOUNT_OWNER_ROLE_LOCKED'' then Some (OwnerLockedErr msg status)
      else if code = ''AUTH_SESSION_KIND_NOT_ALLOWED'' then Some (SessionErr msg status)
      else if (status = 401 \<or> status = 403)
        \<and> (code = ''PERMISSION_DENIED'' \<or> AuthErrorCode (AuthErr [] 0 code :: 'h api_error) \<noteq> [])
      then Some (AuthErr msg status code)
      else if eb_Violations d \<noteq> [] \<and> recognised then Some (ValidationErr msg code (eb_Violations d))
      else if recognised \<and> status = 501 then Some (NotImplementedErr named)
      else if recognised \<and> status \<ge> 500 then Some (ServerErr False named code status)
      else if (recognised \<and> status \<noteq> 401 \<and> status \<noteq> 403) \<or> (status = 429 \<and> restCodeForm code)
      then Some (ApiErr named (named_order_code code) [])
      else if hasServiceDetail env d \<or> leftToConnect status isJSON (length decoded) (eb_Message d) then None
      else Some (ServerErr False (firstNonEmpty [msg, eb_Message d, code, statusLine env status])
        (firstNonEmpty [code, futureCode env d]) status))"

section \<open>The round trip\<close>

record http_response =
  hr_StatusCode :: nat
  hr_ContentType :: string
  hr_ContentEncoding :: string
  hr_body :: string
  hr_readFails :: bool

text \<open>What Connect is given: the base answer unchanged, a Connect error of its own, the typed error plain, or the
  typed error under a Connect code.\<close>

datatype 'h round_trip =
    PassError
  | PassResponse
  | ConnectAnswer connect_code string
  | PlainError "'h api_error" "http_problem option"
  | CodedError connect_code "'h api_error" "http_problem option"

definition keeps_problem :: "'h api_error \<Rightarrow> bool" where
  "keeps_problem e = (case e of ApiErr _ _ _ \<Rightarrow> True | AuthErr _ _ _ \<Rightarrow> True | SkewErr _ _ \<Rightarrow> True | SessionErr _ _ \<Rightarrow> True
     | OwnerLockedErr _ _ \<Rightarrow> True | ValidationErr _ _ _ \<Rightarrow> True | _ \<Rightarrow> False)"

definition roundTripError :: "'h api_error \<Rightarrow> http_problem option \<Rightarrow> nat \<Rightarrow> 'h round_trip" where
  "roundTripError mapped problem status = (case mapped of
       ServerErr _ _ _ serverStatus \<Rightarrow>
         if isUnavailableStatus serverStatus then PlainError mapped problem else CodedError CodeInternal mapped problem
     | _ \<Rightarrow> if MutationOutcomeUnknown mapped then PlainError mapped problem
            else CodedError (connectCodeForStatus status) mapped problem)"

definition connectOwnCodes :: "string list" where
  "connectOwnCodes = [''invalid_argument'', ''deadline_exceeded'', ''not_found'', ''already_exists'', ''permission_denied'',
     ''resource_exhausted'', ''failed_precondition'', ''aborted'', ''out_of_range'', ''unimplemented'', ''internal'',
     ''unavailable'', ''unauthenticated'']"

text \<open>The body's fields, with an unusable code cleared; \<open>None\<close> when a long body was cut off and Connect reads it whole.\<close>

definition inspected_body :: "gateway_env \<Rightarrow> http_response \<Rightarrow> error_body option" where
  "inspected_body env resp =
     (let body = take maxErrorBodyBytes (hr_body resp);
          decoded = decodedErrorBody env (hr_ContentEncoding resp) body in
      if isJSONContentType (hr_ContentType resp) \<or> hr_StatusCode resp = 504
      then (case ge_json env decoded of (d, ok) \<Rightarrow>
          if \<not> ok \<and> (length body = maxErrorBodyBytes \<or> length decoded = maxErrorBodyBytes) \<and> hr_StatusCode resp \<noteq> 504 then None
          else if \<not> ok \<or> IsPlaceholderCode (eb_Code d) then Some (d\<lparr>eb_Code := []\<rparr>) else Some d)
      else Some emptyBody)"

definition RoundTrip ::
  "gateway_env \<Rightarrow> (byte list \<Rightarrow> string) \<Rightarrow> (string \<Rightarrow> string) \<Rightarrow> string \<Rightarrow> 'h option \<Rightarrow> http_response option
    \<Rightarrow> 'h round_trip" where
  "RoundTrip env enc quote ua headerRetry base = (case base of
       None \<Rightarrow> PassError
     | Some resp \<Rightarrow>
         if hr_StatusCode resp < 400 \<or> hr_readFails resp then PassResponse
         else (case inspected_body env resp of
             None \<Rightarrow> PassResponse
           | Some d \<Rightarrow>
               let status = hr_StatusCode resp;
                   decoded = decodedErrorBody env (hr_ContentEncoding resp) (take maxErrorBodyBytes (hr_body resp)) in
               if eb_Code d \<in> {''unknown'', ''data_loss'', ''canceled''}
               then (if \<not> hasServiceDetail env d \<and> (status = 401 \<or> status = 403)
                     then ConnectAnswer (connectCodeForStatus status) (firstNonEmpty [eb_Message d, statusLine env status])
                     else PassResponse)
               else if eb_Code d \<in> set connectOwnCodes then PassResponse
               else (case mapped_answer env enc quote ua headerRetry status (isJSONContentType (hr_ContentType resp)) decoded d of
                   None \<Rightarrow> PassResponse
                 | Some mapped \<Rightarrow>
                     roundTripError mapped (if keeps_problem mapped then DecodeHTTPProblem env decoded status else None) status)))"

section \<open>Recognised codes\<close>

text \<open>The names the round tripper compares with are codes of the orders contract.\<close>

definition named_order_codes :: "(int \<times> string) list" where
  "named_order_codes =
    [(67, ''OVERLOADED''),
     (225, ''SYSTEM_RATE_LIMITED''),
     (69, ''RATE_LIMIT_EXCEEDED''),
     (208, ''PRICE_LEVELS_EXHAUSTED''),
     (209, ''CLIENT_ORDER_IDS_EXHAUSTED''),
     (256, ''CLIENT_ORDER_ID_CAPACITY_REACHED''),
     (295, ''MARKET_LADDER_LIMIT_EXCEEDED''),
     (293, ''MARKET_TRIGGER_LIMIT_EXCEEDED''),
     (294, ''MARKET_TWAP_LIMIT_EXCEEDED''),
     (235, ''NEW_ACCOUNT_CAPACITY_REACHED''),
     (231, ''REQUEST_RECEIPTS_EXHAUSTED''),
     (255, ''RESERVATION_CAPACITY_REACHED''),
     (254, ''TRIGGER_CAPACITY_REACHED''),
     (238, ''TRIGGER_CONTROL_SHARE_EXHAUSTED''),
     (93, ''TWAP_CAPACITY_REACHED''),
     (301, ''QUICKSWAP_ACCOUNT_OWNER_UNKNOWN''),
     (220, ''FEE_SCHEDULE_UNAVAILABLE''),
     (221, ''POLICY_UNAVAILABLE''),
     (224, ''RATE_LIMIT_POLICY_UNAVAILABLE''),
     (207, ''PAIR_BACKLOGGED''),
     (84, ''SETTLEMENT_BACKLOGGED''),
     (226, ''ORDER_MODIFY_IN_PROGRESS''),
     (227, ''ORDER_PLACEMENT_PENDING''),
     (239, ''TRIGGER_CONTROLS_BUSY''),
     (247, ''TRIGGER_CONTROL_IN_PROGRESS''),
     (245, ''ACCOUNT_ROUTING_INVALID''),
     (218, ''ORDER_SEQUENCE_EXHAUSTED'')]"

lemma order_table:
  "(67, ''ERROR_CODE_OVERLOADED'') \<in> set orderErrorCode_name"
  "(225, ''ERROR_CODE_SYSTEM_RATE_LIMITED'') \<in> set orderErrorCode_name"
  "(69, ''ERROR_CODE_RATE_LIMIT_EXCEEDED'') \<in> set orderErrorCode_name"
  "(208, ''ERROR_CODE_PRICE_LEVELS_EXHAUSTED'') \<in> set orderErrorCode_name"
  "(209, ''ERROR_CODE_CLIENT_ORDER_IDS_EXHAUSTED'') \<in> set orderErrorCode_name"
  "(256, ''ERROR_CODE_CLIENT_ORDER_ID_CAPACITY_REACHED'') \<in> set orderErrorCode_name"
  "(295, ''ERROR_CODE_MARKET_LADDER_LIMIT_EXCEEDED'') \<in> set orderErrorCode_name"
  "(293, ''ERROR_CODE_MARKET_TRIGGER_LIMIT_EXCEEDED'') \<in> set orderErrorCode_name"
  "(294, ''ERROR_CODE_MARKET_TWAP_LIMIT_EXCEEDED'') \<in> set orderErrorCode_name"
  "(235, ''ERROR_CODE_NEW_ACCOUNT_CAPACITY_REACHED'') \<in> set orderErrorCode_name"
  "(231, ''ERROR_CODE_REQUEST_RECEIPTS_EXHAUSTED'') \<in> set orderErrorCode_name"
  "(255, ''ERROR_CODE_RESERVATION_CAPACITY_REACHED'') \<in> set orderErrorCode_name"
  "(254, ''ERROR_CODE_TRIGGER_CAPACITY_REACHED'') \<in> set orderErrorCode_name"
  "(238, ''ERROR_CODE_TRIGGER_CONTROL_SHARE_EXHAUSTED'') \<in> set orderErrorCode_name"
  "(93, ''ERROR_CODE_TWAP_CAPACITY_REACHED'') \<in> set orderErrorCode_name"
  "(301, ''ERROR_CODE_QUICKSWAP_ACCOUNT_OWNER_UNKNOWN'') \<in> set orderErrorCode_name"
  "(220, ''ERROR_CODE_FEE_SCHEDULE_UNAVAILABLE'') \<in> set orderErrorCode_name"
  "(221, ''ERROR_CODE_POLICY_UNAVAILABLE'') \<in> set orderErrorCode_name"
  "(224, ''ERROR_CODE_RATE_LIMIT_POLICY_UNAVAILABLE'') \<in> set orderErrorCode_name"
  "(207, ''ERROR_CODE_PAIR_BACKLOGGED'') \<in> set orderErrorCode_name"
  "(84, ''ERROR_CODE_SETTLEMENT_BACKLOGGED'') \<in> set orderErrorCode_name"
  "(226, ''ERROR_CODE_ORDER_MODIFY_IN_PROGRESS'') \<in> set orderErrorCode_name"
  "(227, ''ERROR_CODE_ORDER_PLACEMENT_PENDING'') \<in> set orderErrorCode_name"
  "(239, ''ERROR_CODE_TRIGGER_CONTROLS_BUSY'') \<in> set orderErrorCode_name"
  "(247, ''ERROR_CODE_TRIGGER_CONTROL_IN_PROGRESS'') \<in> set orderErrorCode_name"
  "(245, ''ERROR_CODE_ACCOUNT_ROUTING_INVALID'') \<in> set orderErrorCode_name"
  "(218, ''ERROR_CODE_ORDER_SEQUENCE_EXHAUSTED'') \<in> set orderErrorCode_name"
  unfolding orderErrorCode_name_def by (rule list.set_intros(1) list.set_intros(2))+

lemma named_order_codes_known:
  "list_all (\<lambda>(k, n). (k, ''ERROR_CODE_'' @ n) \<in> set orderErrorCode_name) named_order_codes"
  by (simp add: named_order_codes_def order_table)

lemma named_order_codes_proper: "list_all (\<lambda>(k, n). n \<noteq> [] \<and> \<not> IsPlaceholderCode n) named_order_codes"
  by (simp add: named_order_codes_def IsPlaceholderCode_def)

lemma enum_known_entry: "(k, name) \<in> set names \<Longrightarrow> enum_known names name"
  unfolding enum_known_def by force

lemma named_recognised:
  assumes "n \<in> snd ` set named_order_codes"
  shows "IsRecognisedRESTCode n" and "IsRecognisedRESTCode (''ERROR_CODE_'' @ n)"
proof -
  from assms obtain k where k: "(k, n) \<in> set named_order_codes" by auto
  with named_order_codes_known have "enum_known orderErrorCode_name (''ERROR_CODE_'' @ n)"
    by (auto simp only: list_all_iff intro: enum_known_entry)
  moreover from k named_order_codes_proper have "n \<noteq> []" "\<not> IsPlaceholderCode n" by (auto simp only: list_all_iff)
  moreover from this have "\<not> IsPlaceholderCode (''ERROR_CODE_'' @ n)" by (simp add: IsPlaceholderCode_def)
  ultimately show "IsRecognisedRESTCode n" "IsRecognisedRESTCode (''ERROR_CODE_'' @ n)"
    unfolding IsRecognisedRESTCode_def by simp_all
qed

lemma prefixed_recognised:
  assumes "trim_prefix code ''ERROR_CODE_'' \<in> snd ` set named_order_codes"
  shows "IsRecognisedRESTCode code"
proof (cases "code = trim_prefix code ''ERROR_CODE_''")
  case True
  with named_recognised(1) [OF assms] show ?thesis by simp
next
  case False
  with trim_prefix_cases obtain r where "code = ''ERROR_CODE_'' @ r" by blast
  with assms named_recognised(2) show ?thesis by (simp only: trim_prefix_append)
qed

lemma compared_codes_named:
  "set retryableRESTAdmissionCodes \<subseteq> snd ` set named_order_codes" "set knownAdmissionRefusals \<subseteq> snd ` set named_order_codes"
  "''ACCOUNT_ROUTING_INVALID'' \<in> snd ` set named_order_codes" "''ORDER_SEQUENCE_EXHAUSTED'' \<in> snd ` set named_order_codes"
  unfolding named_order_codes_def retryableRESTAdmissionCodes_def knownAdmissionRefusals_def by simp_all

lemma auth_codes_recognised:
  "IsRecognisedRESTCode TimestampSkewCode" "IsRecognisedRESTCode ''AUTH_TIMESTAMP_SKEW''"
  "IsRecognisedRESTCode ''AUTH_SUBACCOUNT_OWNER_ROLE_LOCKED''" "IsRecognisedRESTCode ''AUTH_SESSION_KIND_NOT_ALLOWED''"
proof -
  have "(49, ''AUTH_TIMESTAMP_SKEW'') \<in> set authErrorCode_name"
    "(47, ''AUTH_SUBACCOUNT_OWNER_ROLE_LOCKED'') \<in> set authErrorCode_name"
    "(8, ''AUTH_SESSION_KIND_NOT_ALLOWED'') \<in> set authErrorCode_name"
    unfolding authErrorCode_name_def by (rule list.set_intros(1) list.set_intros(2))+
  note k = this [THEN enum_known_entry]
  then show "IsRecognisedRESTCode TimestampSkewCode" "IsRecognisedRESTCode ''AUTH_TIMESTAMP_SKEW''"
    "IsRecognisedRESTCode ''AUTH_SUBACCOUNT_OWNER_ROLE_LOCKED''" "IsRecognisedRESTCode ''AUTH_SESSION_KIND_NOT_ALLOWED''"
    by (simp_all add: IsRecognisedRESTCode_def IsPlaceholderCode_def TimestampSkewCode_def)
qed

section \<open>What an answer becomes\<close>

lemma mapped_names:
  "isRetryableRESTAdmissionCode code \<Longrightarrow> IsRecognisedRESTCode code"
  "isKnownAdmissionRefusal code \<Longrightarrow> IsRecognisedRESTCode code"
  "trim_prefix code ''ERROR_CODE_'' = ''ACCOUNT_ROUTING_INVALID'' \<Longrightarrow> IsRecognisedRESTCode code"
  "code = ''ORDER_SEQUENCE_EXHAUSTED'' \<or> code = ''ERROR_CODE_ORDER_SEQUENCE_EXHAUSTED'' \<Longrightarrow> IsRecognisedRESTCode code"
proof -
  show "isRetryableRESTAdmissionCode code \<Longrightarrow> IsRecognisedRESTCode code"
    using compared_codes_named(1) by (intro prefixed_recognised) (auto simp: isRetryableRESTAdmissionCode_def)
  show "isKnownAdmissionRefusal code \<Longrightarrow> IsRecognisedRESTCode code"
    using compared_codes_named(2) by (intro prefixed_recognised) (auto simp: isKnownAdmissionRefusal_def)
  show "trim_prefix code ''ERROR_CODE_'' = ''ACCOUNT_ROUTING_INVALID'' \<Longrightarrow> IsRecognisedRESTCode code"
    using compared_codes_named(3) by (intro prefixed_recognised) simp
  show "code = ''ORDER_SEQUENCE_EXHAUSTED'' \<or> code = ''ERROR_CODE_ORDER_SEQUENCE_EXHAUSTED'' \<Longrightarrow> IsRecognisedRESTCode code"
    using named_recognised [OF compared_codes_named(4)] by auto
qed

lemma suffix_recognised: "has_suffix code ''_OUTCOME_UNKNOWN'' \<Longrightarrow> IsRecognisedRESTCode code"
proof -
  assume s: "has_suffix code ''_OUTCOME_UNKNOWN''"
  then have "last code = CHR ''N''" "code \<noteq> []" by (auto simp: has_suffix_iff)
  then have "code \<noteq> [] \<and> \<not> IsPlaceholderCode code" by (auto simp: IsPlaceholderCode_def)
  with s show ?thesis by (simp add: IsRecognisedRESTCode_def)
qed

text \<open>The typed error of a mapped answer, however Connect is given it.\<close>

definition answer_error :: "'h round_trip \<Rightarrow> 'h api_error option" where
  "answer_error r = (case r of PlainError e _ \<Rightarrow> Some e | CodedError _ e _ \<Rightarrow> Some e | _ \<Rightarrow> None)"

lemma answer_error_roundTripError [simp]: "answer_error (roundTripError e p status) = Some e"
  by (simp add: answer_error_def roundTripError_def split: api_error.splits)

lemma RoundTrip_error:
  assumes "answer_error (RoundTrip env enc quote ua hr (Some resp)) = Some e"
  obtains d decoded where "inspected_body env resp = Some d" "400 \<le> hr_StatusCode resp"
    "mapped_answer env enc quote ua hr (hr_StatusCode resp) (isJSONContentType (hr_ContentType resp)) decoded d = Some e"
proof -
  from assms have "400 \<le> hr_StatusCode resp \<and> \<not> hr_readFails resp"
    by (auto simp: RoundTrip_def answer_error_def split: if_splits)
  with assms obtain d where "inspected_body env resp = Some d" and d: "answer_error (RoundTrip env enc quote ua hr (Some resp)) = Some e"
    by (auto simp: RoundTrip_def answer_error_def split: if_splits option.splits)
  moreover from calculation \<open>400 \<le> hr_StatusCode resp \<and> \<not> hr_readFails resp\<close>
  have "mapped_answer env enc quote ua hr (hr_StatusCode resp) (isJSONContentType (hr_ContentType resp))
      (decodedErrorBody env (hr_ContentEncoding resp) (take maxErrorBodyBytes (hr_body resp))) d = Some e"
    by (auto simp: RoundTrip_def Let_def split: if_splits option.splits) (simp_all add: answer_error_def)
  ultimately show thesis using that \<open>400 \<le> hr_StatusCode resp \<and> \<not> hr_readFails resp\<close> by blast
qed

text \<open>C28. An HTTP answer whose body says that the outcome of a mutation is unknown is reported so whatever its
  status is, and in the plain form that Connect calls unavailable.\<close>

theorem rest_outcome_unknown_kept:
  assumes "400 \<le> hr_StatusCode resp" and "\<not> hr_readFails resp" and "inspected_body env resp = Some d"
    and "has_suffix (eb_Code d) ''_OUTCOME_UNKNOWN''"
  shows "\<exists>e p. RoundTrip env enc quote ua hr (Some resp) = PlainError e p \<and> MutationOutcomeUnknown e \<and> \<not> IsRetryable e"
proof -
  from assms(4) have last: "last (eb_Code d) = CHR ''N''" by (auto simp: has_suffix_iff)
  then have own: "eb_Code d \<notin> {''unknown'', ''data_loss'', ''canceled''}" "eb_Code d \<notin> set connectOwnCodes"
    by (auto simp: connectOwnCodes_def)
  have "has_suffix (named_order_code (eb_Code d)) ''_OUTCOME_UNKNOWN''"
    using orderErrorCode_suffix [OF assms(4)] by (simp add: named_order_code_def orderErrorCodeFromName_def)
  with assms own show ?thesis
    by (simp add: RoundTrip_def Let_def mapped_answer_def roundTripError_def isOutcomeUnknownCode_def IsRetryable_def del: insert_iff)
qed



definition sample_gateway :: "string \<Rightarrow> gateway_env" where
  "sample_gateway code = \<lparr>ge_gunzip = (\<lambda>_. None), ge_json = (\<lambda>_. (emptyBody\<lparr>eb_Code := code\<rparr>, True)), ge_problem = (\<lambda>_. None),
     ge_message = (\<lambda>_. None), ge_detail = (\<lambda>_ _. None), ge_upper = id, ge_statusText = (\<lambda>_. ''Bad Gateway'')\<rparr>"

definition sample_answer :: "nat \<Rightarrow> http_response" where
  "sample_answer status = \<lparr>hr_StatusCode = status, hr_ContentType = ''application/json'', hr_ContentEncoding = [],
     hr_body = ''{}'', hr_readFails = False\<rparr>"

lemma sample_inspected:
  "\<not> IsPlaceholderCode code \<Longrightarrow> inspected_body (sample_gateway code) (sample_answer status) = Some (emptyBody\<lparr>eb_Code := code\<rparr>)"
proof -
  have "isJSONContentType ''application/json''" by code_simp
  then show "\<not> IsPlaceholderCode code \<Longrightarrow> inspected_body (sample_gateway code) (sample_answer status) = Some (emptyBody\<lparr>eb_Code := code\<rparr>)"
    by (simp add: inspected_body_def Let_def sample_gateway_def sample_answer_def)
qed

theorem rest_outcome_unknown_kept_witness:
  "\<exists>e p. RoundTrip (sample_gateway ''X_OUTCOME_UNKNOWN'') (\<lambda>_. []) id [] (None :: unit option) (Some (sample_answer 409)) = PlainError e p
    \<and> MutationOutcomeUnknown e \<and> \<not> IsRetryable e"
proof (rule rest_outcome_unknown_kept [OF _ _ sample_inspected])
  show "\<not> IsPlaceholderCode ''X_OUTCOME_UNKNOWN''" by code_simp
  show "has_suffix (eb_Code (emptyBody\<lparr>eb_Code := ''X_OUTCOME_UNKNOWN''\<rparr>)) ''_OUTCOME_UNKNOWN''" by code_simp
qed (simp_all add: sample_answer_def)


end
