(* ===== verification/Catalogs.thy ===== *)
theory Catalogs
  imports Complex_Main Scalars
begin

text \<open>
  \<open>catalogs/catalogs.go\<close>: the spot and zipper catalogs a client keeps, and their lookups. A decoded JSON
  value is a tree; a \<open>float64\<close> is the number it denotes. The catalogs copy what they are given, so that sharing
  with the caller plays no role here. Go's quoting, \<open>big.Rat.SetString\<close> and \<open>strconv.FormatFloat\<close> are
  arguments. The methods hold the manager's lock throughout: each is a function of the state.
\<close>

section \<open>Values\<close>

text \<open>An \<open>any\<close> of JSON shape; \<open>OpaqueV\<close> is a struct with unexported fields, by its type.\<close>

datatype any =
    NilV
  | BoolV bool
  | FloatV rat
  | IntV int
  | Int64V int
  | Uint64V u64
  | Uint32V u32
  | StringV string
  | ListV "any list"
  | ObjectV "(string \<times> any) list"
  | OpaqueV string

type_synonym object = "(string \<times> any) list"

text \<open>Indexing a map, and the type assertions whose failure leaves a zero value.\<close>

definition entry :: "object \<Rightarrow> string \<Rightarrow> any" where
  "entry row key = (case map_of row key of None \<Rightarrow> NilV | Some v \<Rightarrow> v)"

definition as_string :: "any \<Rightarrow> string" where
  "as_string v = (case v of StringV s \<Rightarrow> s | _ \<Rightarrow> [])"

definition as_list :: "any \<Rightarrow> any list" where
  "as_list v = (case v of ListV vs \<Rightarrow> vs | _ \<Rightarrow> [])"

definition as_object :: "any \<Rightarrow> object" where
  "as_object v = (case v of ObjectV fs \<Rightarrow> fs | _ \<Rightarrow> [])"

definition objects :: "any list \<Rightarrow> object list" where
  "objects vs = List.map_filter (\<lambda>v. case v of ObjectV fs \<Rightarrow> Some fs | _ \<Rightarrow> None) vs"

record catalog_env =
  ct_quote :: "string \<Rightarrow> string"
  ct_rat :: "string \<Rightarrow> rat option"
  ct_float :: "rat \<Rightarrow> string"

text \<open>Copying a tree: the first struct that cannot be copied is the error, at its path.\<close>

fun cloneCatalogReflect :: "string \<Rightarrow> any \<Rightarrow> any res"
  and clone_items :: "string \<Rightarrow> nat \<Rightarrow> any list \<Rightarrow> any list res"
  and clone_entries :: "string \<Rightarrow> (string \<times> any) list \<Rightarrow> (string \<times> any) list res" where
  "cloneCatalogReflect path (OpaqueV typ) =
     Inl (ValidationError (''catalog value at '' @ path @ '' uses struct type '' @ typ
       @ '' with unexported fields; raw catalog values must be JSON-shaped''))"
| "cloneCatalogReflect path (ListV vs) = bind_res (clone_items path 0 vs) (\<lambda>xs. Inr (ListV xs))"
| "cloneCatalogReflect path (ObjectV fs) = bind_res (clone_entries path fs) (\<lambda>xs. Inr (ObjectV xs))"
| "cloneCatalogReflect path v = Inr v"
| "clone_items path i [] = Inr []"
| "clone_items path i (v # vs) =
     bind_res (cloneCatalogReflect (path @ ''['' @ dec_nat i @ '']'') v) (\<lambda>x.
     bind_res (clone_items path (Suc i) vs) (\<lambda>xs. Inr (x # xs)))"
| "clone_entries path [] = Inr []"
| "clone_entries path ((key, v) # fs) =
     bind_res (cloneCatalogReflect (path @ ''.'' @ key) v) (\<lambda>x.
     bind_res (clone_entries path fs) (\<lambda>xs. Inr ((key, x) # xs)))"

definition cloneCatalogValue :: "any \<Rightarrow> any res" where
  "cloneCatalogValue v = cloneCatalogReflect ''$'' v"

lemma cloneCatalogReflect_same:
  "cloneCatalogReflect path v = Inr v' \<Longrightarrow> v' = v"
  "clone_items path i vs = Inr vs' \<Longrightarrow> vs' = vs"
  "clone_entries path fs = Inr fs' \<Longrightarrow> fs' = fs"
  by (induction path v and path i vs and path fs arbitrary: v' and vs' and fs'
      rule: cloneCatalogReflect_clone_items_clone_entries.induct) (auto simp: bind_res_Inr_iff)

section \<open>Exact integers\<close>

definition maxProtocolScale :: int where
  "maxProtocolScale = 36"

text \<open>An integral \<open>float64\<close> below \<open>2 ^ 64\<close> converts to \<open>uint64\<close> and back unchanged; \<open>2 ^ 64\<close> itself does not.\<close>

definition parseUintExact :: "any \<Rightarrow> string \<Rightarrow> u64 res" where
  "parseUintExact v field =
     (let refuse = Inl (ValidationError (field @ '' must be a non-negative integer''));
          signed = (\<lambda>t. if t < 0 then refuse else Inr (word_of_int t)) in
      case v of
        FloatV t \<Rightarrow>
          if t < 0 \<or> t \<noteq> of_int \<lfloor>t\<rfloor> then refuse
          else if t > 18446744073709551616 then Inl (ValidationError (field @ '' exceeds uint64 range''))
          else if t = 18446744073709551616 then Inl (ValidationError (field @ '' is not an exact integer''))
          else Inr (word_of_int \<lfloor>t\<rfloor>)
      | IntV t \<Rightarrow> signed t
      | Int64V t \<Rightarrow> signed t
      | Uint64V t \<Rightarrow> Inr t
      | Uint32V t \<Rightarrow> Inr (ucast t)
      | StringV t \<Rightarrow> (case parse_uint t of Some n \<Rightarrow> Inr n | None \<Rightarrow> refuse)
      | _ \<Rightarrow> refuse)"

definition parseU32Exact :: "any \<Rightarrow> string \<Rightarrow> u32 res" where
  "parseU32Exact v field = bind_res (parseUintExact v field) (\<lambda>n.
     if uint n > 4294967295 then Inl (ValidationError (field @ '' '' @ itoa (uint n) @ '' exceeds uint32 range''))
     else Inr (ucast n))"

definition parseIntExact :: "any \<Rightarrow> string \<Rightarrow> int res" where
  "parseIntExact v field = bind_res (parseUintExact v field) (\<lambda>u.
     if uint u > int64Max then Inl (ValidationError (field @ '' exceeds int range'')) else Inr (uint u))"

definition intish :: "any \<Rightarrow> u32 option" where
  "intish v = (case parseU32Exact v ''id'' of Inl _ \<Rightarrow> None | Inr u \<Rightarrow> Some u)"

definition intValue :: "any \<Rightarrow> int" where
  "intValue v = (case parseIntExact v ''scale'' of Inl _ \<Rightarrow> 0 | Inr n \<Rightarrow> n)"

text \<open>The first key that is present: its value, if it is not nil.\<close>

definition intField :: "object \<Rightarrow> string list \<Rightarrow> int option" where
  "intField row keys = find_map (\<lambda>key. if entry row key = NilV then None else Some (intValue (entry row key))) keys"

definition stringField :: "object \<Rightarrow> string list \<Rightarrow> string" where
  "stringField row keys =
     (case find_map (\<lambda>key. case entry row key of StringV s \<Rightarrow> Some s | _ \<Rightarrow> None) keys of Some s \<Rightarrow> s | None \<Rightarrow> [])"

definition requiredU32Field :: "object \<Rightarrow> string list \<Rightarrow> (u32 option) res" where
  "requiredU32Field row keys = (case find_map (\<lambda>key. map_option (\<lambda>v. parseU32Exact v key) (map_of row key)) keys of
       None \<Rightarrow> Inr None | Some r \<Rightarrow> bind_res r (\<lambda>u. Inr (Some u)))"

definition validateOptionalScaleField :: "object \<Rightarrow> string list \<Rightarrow> unit res" where
  "validateOptionalScaleField row keys = (case find_map (\<lambda>key. map_option (\<lambda>v. (key, v)) (map_of row key)) keys of
       None \<Rightarrow> Inr ()
     | Some (key, v) \<Rightarrow> bind_res (parseIntExact v key) (\<lambda>scale.
         if scale < 0 then Inl (ValidationError ''scale must be non-negative'')
         else if scale > maxProtocolScale
         then Inl (ValidationError (''scale '' @ itoa scale @ '' exceeds maximum protocol scale '' @ itoa maxProtocolScale))
         else Inr ()))"

definition validateRequiredScaleField :: "object \<Rightarrow> string list \<Rightarrow> unit res" where
  "validateRequiredScaleField row keys =
     (if list_ex (\<lambda>key. map_of row key \<noteq> None) keys then validateOptionalScaleField row keys
      else Inl (ValidationError ''quantity scale is required''))"

section \<open>The spot catalog\<close>

definition symbol_id_keys :: "string list" where
  "symbol_id_keys = [''symbol_id'', ''symbolId'']"

definition base_scale_keys :: "string list" where
  "base_scale_keys = [''base_quantity_scale'', ''baseQuantityScale'', ''qtyScale'']"

definition quote_scale_keys :: "string list" where
  "quote_scale_keys = [''quote_quantity_scale'', ''quoteQuantityScale'']"

text \<open>A wrapped error's prefix: a row by key and index.\<close>

definition row_name :: "string \<Rightarrow> nat \<Rightarrow> string" where
  "row_name key i = key @ ''['' @ dec_nat i @ '']''"

definition wrap :: "string \<Rightarrow> 'a res \<Rightarrow> 'a res" where
  "wrap m r = (case r of Inl e \<Rightarrow> Inl (WrappedError (m @ '': '') e) | Inr x \<Rightarrow> Inr x)"

text \<open>A required id: present, an exact \<open>uint32\<close>, not zero.\<close>

definition nonzero_id :: "string \<Rightarrow> object \<Rightarrow> string list \<Rightarrow> u32 res" where
  "nonzero_id name row keys = bind_res (requiredU32Field row keys) (\<lambda>found.
     case found of Some sid \<Rightarrow> if sid = 0 then Inl (ValidationError (name @ '' must be non-zero'')) else Inr sid
     | None \<Rightarrow> Inl (ValidationError (name @ '' must be non-zero'')))"

text \<open>One list of pairs; the symbols and ids seen so far go from row to row and on to the next list.\<close>

fun check_pairs :: "(string \<Rightarrow> string) \<Rightarrow> string \<Rightarrow> nat \<Rightarrow> any list \<Rightarrow> (string \<times> u32) list \<Rightarrow> ((string \<times> u32) list) res" where
  "check_pairs quote key i [] seen = Inr seen"
| "check_pairs quote key i (item # items) seen = (case item of
       ObjectV pair \<Rightarrow>
         let symbol = as_string (entry pair ''symbol''); here = ''spot '' @ row_name key i in
         if symbol = [] then Inl (ValidationError (here @ '' symbol is required''))
         else
           bind_res (wrap here (nonzero_id ''symbol_id'' pair symbol_id_keys)) (\<lambda>sid.
           bind_res (wrap here (validateRequiredScaleField pair base_scale_keys)) (\<lambda>_.
           bind_res (wrap here (validateOptionalScaleField pair quote_scale_keys)) (\<lambda>_.
           if symbol \<in> set (map fst seen)
           then Inl (ValidationError (''spot catalog contains duplicate symbol '' @ quote symbol))
           else if sid \<in> set (map snd seen)
           then Inl (ValidationError (''spot catalog contains duplicate symbol_id '' @ itoa (uint sid)))
           else check_pairs quote key (Suc i) items (seen @ [(symbol, sid)]))))
     | _ \<Rightarrow> Inl (ValidationError (''spot '' @ row_name key i @ '' must be an object'')))"

definition validateSpotConfig :: "(string \<Rightarrow> string) \<Rightarrow> object option \<Rightarrow> unit res" where
  "validateSpotConfig quote config = (case config of
       None \<Rightarrow> Inl (ValidationError ''spot catalog is required'')
     | Some c \<Rightarrow>
         bind_res (check_pairs quote ''pairs'' 0 (as_list (entry c ''pairs'')) []) (\<lambda>seen.
         bind_res (check_pairs quote ''symbols'' 0 (as_list (entry c ''symbols'')) seen) (\<lambda>seen.
         if seen = [] then Inl (ValidationError ''spot catalog empty or missing pairs'') else Inr ())))"
section \<open>The zipper catalog\<close>

record token_config =
  tk_Address :: string
  tk_Decimals :: int

record chain_config =
  zc_ChainID :: u32
  zc_Code :: string
  zc_Name :: string
  zc_NativeChainID :: string
  zc_NativeCurrencySymbol :: string
  zc_ExplorerURL :: string
  zc_Icon :: string
  zc_RequiredConfirmations :: int
  zc_ConfirmationTimeSeconds :: int
  zc_IsCaseSensitive :: bool
  zc_MinAddressLength :: int
  zc_MaxAddressLength :: int

text \<open>What a variant of an asset on a chain and its enriched form share.\<close>

record asset_terms =
  zt_ZippedAssetID :: u32
  zt_IsNativeAsset :: bool
  zt_NetworkFee :: string
  zt_NetworkFeeTsSec :: int
  zt_DepositMinAmount :: string
  zt_WithdrawMinAmount :: string
  zt_Supply :: string
  zt_SourceToken :: token_config
  zt_ZToken :: token_config

record asset_variant =
  zv_ChainID :: u32
  zv_terms :: asset_terms

record enriched_chain =
  ec_chain :: chain_config
  ec_terms :: asset_terms

record asset_head =
  za_Asset :: string
  za_LedgerID :: u32
  za_Name :: string
  za_Icon :: string
  za_QuantityScale :: int
  za_QuantityDisplayDecimals :: int
  za_UAssetID :: string

record asset_config = asset_head +
  za_Variants :: "asset_variant list"

record enriched_asset = asset_head +
  za_Chains :: "enriched_chain list"

record contract_config =
  zk_Name :: string
  zk_Address :: string
  zk_Type :: string
  zk_Description :: string
  zk_Version :: int

record deposit_withdraw_config =
  dw_Chains :: "chain_config list"
  dw_Assets :: "asset_config list"
  dw_Contracts :: "contract_config list"
  dw_TsMs :: int

record zipper_catalog =
  zz_Chains :: "chain_config list"
  zz_Assets :: "enriched_asset list"
  zz_Contracts :: "contract_config list"
  zz_TsMs :: int

text \<open>The chains by id, a later one replacing an earlier one of the same id.\<close>

definition chains_by_id :: "chain_config list \<Rightarrow> (u32 \<times> chain_config) list" where
  "chains_by_id cs = rev (map (\<lambda>c. (zc_ChainID c, c)) cs)"

definition enrichAssetChains :: "asset_config \<Rightarrow> (u32 \<times> chain_config) list \<Rightarrow> enriched_chain list" where
  "enrichAssetChains asset chainsByID =
     List.map_filter (\<lambda>variant. case map_of chainsByID (zv_ChainID variant) of
         None \<Rightarrow> None
       | Some chain \<Rightarrow> Some \<lparr>ec_chain = chain, ec_terms = zv_terms variant\<rparr>) (za_Variants asset)"

definition BuildZipperCatalogData :: "deposit_withdraw_config option \<Rightarrow> zipper_catalog option" where
  "BuildZipperCatalogData config = map_option (\<lambda>c.
     \<lparr>zz_Chains = dw_Chains c,
      zz_Assets = map (\<lambda>a. \<lparr>za_Asset = za_Asset a, za_LedgerID = za_LedgerID a, za_Name = za_Name a, za_Icon = za_Icon a,
         za_QuantityScale = za_QuantityScale a, za_QuantityDisplayDecimals = za_QuantityDisplayDecimals a,
         za_UAssetID = za_UAssetID a, za_Chains = enrichAssetChains a (chains_by_id (dw_Chains c))\<rparr>) (dw_Assets c),
      zz_Contracts = dw_Contracts c, zz_TsMs = dw_TsMs c\<rparr>) config"

record supply_update =
  su_ZippedAssetID :: u32
  su_Supply :: string

definition supply_by_id :: "supply_update list \<Rightarrow> (u32 \<times> string) list" where
  "supply_by_id updates = rev (map (\<lambda>u. (su_ZippedAssetID u, su_Supply u)) updates)"

definition patch_chain :: "(u32 \<times> string) list \<Rightarrow> enriched_chain \<Rightarrow> enriched_chain" where
  "patch_chain byID chain = (case map_of byID (zt_ZippedAssetID (ec_terms chain)) of
       Some supply \<Rightarrow>
         if supply \<noteq> zt_Supply (ec_terms chain) then chain\<lparr>ec_terms := (ec_terms chain)\<lparr>zt_Supply := supply\<rparr>\<rparr> else chain
     | None \<Rightarrow> chain)"

text \<open>\<open>None\<close> is the catalog given, unchanged: the code returns the same pointer.\<close>

definition PatchZipperCatalogSupply :: "zipper_catalog \<Rightarrow> supply_update list \<Rightarrow> zipper_catalog option" where
  "PatchZipperCatalogSupply catalog updates =
     (let byID = supply_by_id updates;
          assets = map (\<lambda>a. a\<lparr>za_Chains := map (patch_chain byID) (za_Chains a)\<rparr>) (zz_Assets catalog) in
      if updates = [] \<or> assets = zz_Assets catalog then None else Some (catalog\<lparr>zz_Assets := assets\<rparr>))"

text \<open>The checks of a raw and of a typed catalog; names, ledger ids and zipped ids seen so far are kept.\<close>

record zipper_seen =
  sn_names :: "string list"
  sn_ledgers :: "u32 list"
  sn_zipped :: "u32 list"

definition raw_asset_name :: "object \<Rightarrow> string" where
  "raw_asset_name item = (if as_string (entry item ''asset'') = [] then as_string (entry item ''code'') else as_string (entry item ''asset''))"

fun check_raw_variants :: "string \<Rightarrow> nat \<Rightarrow> any list \<Rightarrow> u32 list \<Rightarrow> (u32 list) res" where
  "check_raw_variants at_asset j [] zipped = Inr zipped"
| "check_raw_variants at_asset j (rawVariant # rest) zipped = (case rawVariant of
       ObjectV variant \<Rightarrow>
         bind_res (wrap (at_asset @ '' variants['' @ dec_nat j @ '']'')
             (nonzero_id ''zipped_asset_id'' variant [''zipped_asset_id'', ''zippedAssetId''])) (\<lambda>zippedID.
         if zippedID \<in> set zipped
         then Inl (ValidationError (''zipper catalog contains duplicate zipped_asset_id '' @ itoa (uint zippedID)))
         else check_raw_variants at_asset (Suc j) rest (zipped @ [zippedID]))
     | _ \<Rightarrow> Inl (ValidationError (at_asset @ '' variants['' @ dec_nat j @ ''] must be an object'')))"

fun check_raw_assets :: "(string \<Rightarrow> string) \<Rightarrow> nat \<Rightarrow> any list \<Rightarrow> zipper_seen \<Rightarrow> zipper_seen res" where
  "check_raw_assets quote i [] seen = Inr seen"
| "check_raw_assets quote i (row # rows) seen =
     (let here = ''zipper '' @ row_name ''assets'' i in
      case row of
        ObjectV item \<Rightarrow>
          let asset = raw_asset_name item in
          if asset = [] then Inl (ValidationError (here @ '' asset is required''))
          else
            bind_res (wrap here (nonzero_id ''ledger_id'' item [''ledger_id'', ''ledgerId''])) (\<lambda>ledgerID.
            bind_res (wrap here (validateRequiredScaleField item [''quantity_scale'', ''quantityScale''])) (\<lambda>_.
            if asset \<in> set (sn_names seen)
            then Inl (ValidationError (''zipper catalog contains duplicate asset '' @ quote asset))
            else if ledgerID \<in> set (sn_ledgers seen)
            then Inl (ValidationError (''zipper catalog contains duplicate ledger_id '' @ itoa (uint ledgerID)))
            else
              bind_res (check_raw_variants here 0 (as_list (entry item ''variants'')) (sn_zipped seen)) (\<lambda>zipped.
              check_raw_assets quote (Suc i) rows
                \<lparr>sn_names = sn_names seen @ [asset], sn_ledgers = sn_ledgers seen @ [ledgerID], sn_zipped = zipped\<rparr>)))
      | _ \<Rightarrow> Inl (ValidationError (here @ '' must be an object'')))"

definition validateZipperRaw :: "(string \<Rightarrow> string) \<Rightarrow> object option \<Rightarrow> unit res" where
  "validateZipperRaw quote config = (case config of
       None \<Rightarrow> Inl (ValidationError ''zipper catalog is required'')
     | Some c \<Rightarrow> bind_res (check_raw_assets quote 0 (as_list (entry c ''assets'')) \<lparr>sn_names = [], sn_ledgers = [], sn_zipped = []\<rparr>)
         (\<lambda>_. Inr ()))"

fun check_variants :: "string \<Rightarrow> nat \<Rightarrow> asset_variant list \<Rightarrow> u32 list \<Rightarrow> (u32 list) res" where
  "check_variants at_asset j [] zipped = Inr zipped"
| "check_variants at_asset j (variant # rest) zipped =
     (let zippedID = zt_ZippedAssetID (zv_terms variant) in
      if zippedID = 0
      then Inl (ValidationError (at_asset @ '' variants['' @ dec_nat j @ ''] requires non-zero zipped_asset_id''))
      else if zippedID \<in> set zipped
      then Inl (ValidationError (''zipper catalog contains duplicate zipped_asset_id '' @ itoa (uint zippedID)))
      else check_variants at_asset (Suc j) rest (zipped @ [zippedID]))"

fun check_assets :: "(string \<Rightarrow> string) \<Rightarrow> nat \<Rightarrow> asset_config list \<Rightarrow> zipper_seen \<Rightarrow> zipper_seen res" where
  "check_assets quote i [] seen = Inr seen"
| "check_assets quote i (asset # assets) seen =
     (let here = ''zipper '' @ row_name ''assets'' i in
      if za_Asset asset = [] \<or> za_LedgerID asset = 0
      then Inl (ValidationError (here @ '' requires asset and non-zero ledger_id''))
      else if za_QuantityScale asset < 0 \<or> za_QuantityScale asset > maxProtocolScale
      then Inl (ValidationError (here @ '' quantity_scale '' @ itoa (za_QuantityScale asset)
        @ '' exceeds maximum protocol scale '' @ itoa maxProtocolScale))
      else if za_Asset asset \<in> set (sn_names seen)
      then Inl (ValidationError (''zipper catalog contains duplicate asset '' @ quote (za_Asset asset)))
      else if za_LedgerID asset \<in> set (sn_ledgers seen)
      then Inl (ValidationError (''zipper catalog contains duplicate ledger_id '' @ itoa (uint (za_LedgerID asset))))
      else
        bind_res (check_variants here 0 (za_Variants asset) (sn_zipped seen)) (\<lambda>zipped.
        check_assets quote (Suc i) assets
          \<lparr>sn_names = sn_names seen @ [za_Asset asset], sn_ledgers = sn_ledgers seen @ [za_LedgerID asset], sn_zipped = zipped\<rparr>))"

definition validateDepositWithdrawConfig :: "(string \<Rightarrow> string) \<Rightarrow> deposit_withdraw_config option \<Rightarrow> unit res" where
  "validateDepositWithdrawConfig quote config = (case config of
       None \<Rightarrow> Inr ()
     | Some c \<Rightarrow> bind_res (check_assets quote 0 (dw_Assets c) \<lparr>sn_names = [], sn_ledgers = [], sn_zipped = []\<rparr>) (\<lambda>_. Inr ()))"

section \<open>The manager\<close>

record manager =
  mg_SpotConfig :: object
  mg_Zipper :: "zipper_catalog option"
  mg_DepositWithdrawConfig :: "deposit_withdraw_config option"
  mg_legacyZipperRaw :: "object option"

definition NewManager :: manager where
  "NewManager = \<lparr>mg_SpotConfig = [], mg_Zipper = None, mg_DepositWithdrawConfig = None, mg_legacyZipperRaw = None\<rparr>"

text \<open>The catalog given is stored when it was copied and passed its checks, and nothing changes otherwise.\<close>

definition cloned_object :: "object option \<Rightarrow> (object option) res" where
  "cloned_object config = (case config of None \<Rightarrow> Inr None
     | Some c \<Rightarrow> bind_res (clone_entries ''$'' c) (\<lambda>c'. Inr (Some c')))"

definition HydrateSpotConfig :: "catalog_env \<Rightarrow> object option \<Rightarrow> manager \<Rightarrow> manager \<times> sdk_error option" where
  "HydrateSpotConfig env config m =
     (case bind_res (cloned_object config) (\<lambda>c. bind_res (validateSpotConfig (ct_quote env) c) (\<lambda>_. Inr c)) of
        Inl e \<Rightarrow> (m, Some e)
      | Inr c \<Rightarrow> (m\<lparr>mg_SpotConfig := (case c of None \<Rightarrow> [] | Some fs \<Rightarrow> fs)\<rparr>, None))"

definition HydrateDepositWithdrawConfig :: "catalog_env \<Rightarrow> deposit_withdraw_config option \<Rightarrow> manager \<Rightarrow> manager \<times> sdk_error option" where
  "HydrateDepositWithdrawConfig env config m =
     (case validateDepositWithdrawConfig (ct_quote env) config of
        Inl e \<Rightarrow> (m, Some e)
      | Inr _ \<Rightarrow> (m\<lparr>mg_DepositWithdrawConfig := config, mg_Zipper := BuildZipperCatalogData config, mg_legacyZipperRaw := None\<rparr>, None))"

datatype zipper_input = TypedConfig "deposit_withdraw_config option" | RawConfig "object option" | OtherConfig

definition HydrateZipperConfig :: "catalog_env \<Rightarrow> zipper_input \<Rightarrow> manager \<Rightarrow> manager \<times> sdk_error option" where
  "HydrateZipperConfig env config m = (case config of
       TypedConfig c \<Rightarrow> HydrateDepositWithdrawConfig env c m
     | RawConfig c \<Rightarrow>
         (case bind_res (cloned_object c) (\<lambda>c'. bind_res (validateZipperRaw (ct_quote env) c') (\<lambda>_. Inr c')) of
            Inl e \<Rightarrow> (m, Some e)
          | Inr c' \<Rightarrow> (m\<lparr>mg_DepositWithdrawConfig := None, mg_Zipper := None, mg_legacyZipperRaw := c'\<rparr>, None))
     | OtherConfig \<Rightarrow> (m, Some (ValidationError ''unsupported zipper config type'')))"

definition PatchZipperSupply :: "supply_update list \<Rightarrow> manager \<Rightarrow> manager \<times> bool" where
  "PatchZipperSupply updates m = (case mg_Zipper m of
       None \<Rightarrow> (m, False)
     | Some z \<Rightarrow>
         if updates = [] then (m, False)
         else case PatchZipperCatalogSupply z updates of
             None \<Rightarrow> (m, False)
           | Some patched \<Rightarrow> (m\<lparr>mg_Zipper := Some patched\<rparr>, True))"

text \<open>Go's division of integers truncates towards zero.\<close>

definition ZipperConfig :: "manager \<Rightarrow> (chain_config list \<times> asset_config list \<times> contract_config list \<times> int) option" where
  "ZipperConfig m = map_option (\<lambda>cfg. (dw_Chains cfg, dw_Assets cfg, dw_Contracts cfg,
     (if dw_TsMs cfg < 0 then - ((- dw_TsMs cfg) div 1000) else dw_TsMs cfg div 1000))) (mg_DepositWithdrawConfig m)"

section \<open>Lookups in the spot catalog\<close>

definition pairsLocked :: "manager \<Rightarrow> object list" where
  "pairsLocked m = objects (as_list (entry (mg_SpotConfig m) ''pairs'')) @ objects (as_list (entry (mg_SpotConfig m) ''symbols''))"

definition assetsLocked :: "manager \<Rightarrow> object list" where
  "assetsLocked m = objects (as_list (entry (mg_SpotConfig m) ''assets''))"

definition pair_symbol :: "object \<Rightarrow> string" where
  "pair_symbol pair = as_string (entry pair ''symbol'')"

definition pair_id :: "object \<Rightarrow> u32 option" where
  "pair_id pair = (case intish (entry pair ''symbol_id'') of Some v \<Rightarrow> Some v | None \<Rightarrow> intish (entry pair ''symbolId''))"

definition SymbolIDForSymbol :: "manager \<Rightarrow> string \<Rightarrow> u32 option" where
  "SymbolIDForSymbol m symbol = find_map (\<lambda>pair. if pair_symbol pair = symbol then pair_id pair else None) (pairsLocked m)"

definition SymbolForSymbolID :: "manager \<Rightarrow> u32 \<Rightarrow> string option" where
  "SymbolForSymbolID m symbolID =
     (if symbolID = 0 then None
      else find_map (\<lambda>pair. if pair_id pair = Some symbolID \<and> pair_symbol pair \<noteq> [] then Some (pair_symbol pair) else None)
        (pairsLocked m))"

definition pairForSymbolLocked :: "manager \<Rightarrow> string \<Rightarrow> object option" where
  "pairForSymbolLocked m symbol = List.find (\<lambda>pair. pair_symbol pair = symbol) (pairsLocked m)"

definition pairForSymbolIDLocked :: "manager \<Rightarrow> u32 \<Rightarrow> object option" where
  "pairForSymbolIDLocked m symbolID = List.find (\<lambda>pair. pair_id pair = Some symbolID) (pairsLocked m)"

definition BaseQuantityScaleForSymbol :: "manager \<Rightarrow> string \<Rightarrow> int option" where
  "BaseQuantityScaleForSymbol m symbol = (case pairForSymbolLocked m symbol of
       None \<Rightarrow> None | Some pair \<Rightarrow> intField pair base_scale_keys)"

definition QuoteQuantityScaleForSymbol :: "manager \<Rightarrow> string \<Rightarrow> int option" where
  "QuoteQuantityScaleForSymbol m symbol = (case pairForSymbolLocked m symbol of
       None \<Rightarrow> None | Some pair \<Rightarrow> intField pair quote_scale_keys)"

text \<open>By id: the first pair of that id, then the first pair of its symbol.\<close>

definition BaseQuantityScaleForSymbolID :: "manager \<Rightarrow> u32 \<Rightarrow> int option" where
  "BaseQuantityScaleForSymbolID m symbolID = (case pairForSymbolIDLocked m symbolID of
       None \<Rightarrow> None
     | Some pair \<Rightarrow> if pair_symbol pair = [] then None else BaseQuantityScaleForSymbol m (pair_symbol pair))"

definition QuoteQuantityScaleForSymbolID :: "manager \<Rightarrow> u32 \<Rightarrow> int option" where
  "QuoteQuantityScaleForSymbolID m symbolID = (case pairForSymbolIDLocked m symbolID of
       None \<Rightarrow> None
     | Some pair \<Rightarrow> if pair_symbol pair = [] then None else QuoteQuantityScaleForSymbol m (pair_symbol pair))"

definition MarketDataVolumeScaleForSymbolID :: "manager \<Rightarrow> u32 \<Rightarrow> int option" where
  "MarketDataVolumeScaleForSymbolID m symbolID = (case pairForSymbolIDLocked m symbolID of
       None \<Rightarrow> None
     | Some pair \<Rightarrow>
         let base = stringField pair [''base_asset'', ''baseAsset''] in
         if base = [] then None
         else case List.find (\<lambda>asset. stringField asset [''asset''] = base) (assetsLocked m) of
             None \<Rightarrow> None
           | Some asset \<Rightarrow> intField asset [''market_data_volume_scale'', ''marketDataVolumeScale''])"

definition ReferencePriceScaleForSymbolID :: "manager \<Rightarrow> u32 \<Rightarrow> int option" where
  "ReferencePriceScaleForSymbolID m symbolID = (case pairForSymbolIDLocked m symbolID of
       None \<Rightarrow> None | Some pair \<Rightarrow> intField pair [''reference_price_scale'', ''referencePriceScale''])"

definition OrderbookPriceBucketsForSymbol :: "catalog_env \<Rightarrow> manager \<Rightarrow> string \<Rightarrow> string list" where
  "OrderbookPriceBucketsForSymbol env m symbol = (case pairForSymbolLocked m symbol of
       None \<Rightarrow> []
     | Some pair \<Rightarrow>
         let marketdata = (case entry pair ''marketdata'' of ObjectV fs \<Rightarrow> fs | _ \<Rightarrow> as_object (entry pair ''marketData''));
             buckets = (case entry marketdata ''orderbook_price_buckets'' of ListV vs \<Rightarrow> vs
                | _ \<Rightarrow> as_list (entry marketdata ''orderbookPriceBuckets'')) in
         List.map_filter (\<lambda>v. case v of FloatV t \<Rightarrow> Some (ct_float env t) | IntV t \<Rightarrow> Some (itoa t)
           | StringV t \<Rightarrow> Some t | _ \<Rightarrow> None) buckets)"

definition MaxOpenOrdersTotal :: "manager \<Rightarrow> u32" where
  "MaxOpenOrdersTotal m = (case requiredU32Field (mg_SpotConfig m) [''max_open_orders_total'', ''maxOpenOrdersTotal''] of
       Inr (Some n) \<Rightarrow> n | _ \<Rightarrow> 0)"

section \<open>Trading constraints\<close>

definition scaledDecimalInt64 :: "catalog_env \<Rightarrow> string \<Rightarrow> int \<Rightarrow> int option" where
  "scaledDecimalInt64 env raw scale =
     (if scale < 0 \<or> scale > maxProtocolScale then None
      else case ct_rat env raw of
          None \<Rightarrow> None
        | Some value \<Rightarrow>
            if value < 0 then None
            else
              let scaled = value * 10 ^ nat scale in
              if of_int \<lfloor>scaled\<rfloor> = scaled \<and> is_int64 \<lfloor>scaled\<rfloor> then Some \<lfloor>scaled\<rfloor> else None)"

definition optionalScaledDecimal :: "catalog_env \<Rightarrow> string \<Rightarrow> int \<Rightarrow> bool \<Rightarrow> int option" where
  "optionalScaledDecimal env raw scale zeroIsUnset =
     (if raw = [] then Some 0
      else case scaledDecimalInt64 env raw scale of
          None \<Rightarrow> None
        | Some value \<Rightarrow> if value < 0 \<or> (value = 0 \<and> \<not> zeroIsUnset) then None else Some value)"

text \<open>The pattern \<open>^\d+(\.\d+)?$\<close>, or nothing.\<close>

definition unsignedDecimal :: "string \<Rightarrow> bool" where
  "unsignedDecimal raw \<longleftrightarrow> raw = [] \<or>
     (case cut CHR ''.'' raw of (whole, places, found) \<Rightarrow> all_digits whole \<and> (found \<longrightarrow> all_digits places))"

record pair_constraints =
  pc_Symbol :: string
  pc_SymbolID :: u32
  pc_BaseQuantityScale :: int
  pc_QuoteQuantityScale :: int
  pc_TickSize :: string
  pc_TickSizeTicks :: int
  pc_StepSize :: string
  pc_StepSizeScaled :: int
  pc_MinQtyBase :: string
  pc_MinQtyScaled :: int
  pc_MinNotionalQuote :: string
  pc_MinNotionalComputable :: bool
  pc_MaxLimitQtyBase :: string
  pc_MaxLimitQtyScaled :: int
  pc_MaxMarketQtyBase :: string
  pc_MaxMarketQtyScaled :: int
  pc_MaxOrderNotionalQuote :: string
  pc_MaxMarketNotionalQuote :: string
  pc_MaxOpenOrdersPerPair :: u32
  pc_MaxQuoteSlippage :: string
  pc_MaxQuoteSlippageTicks :: int

definition maxQuoteSlippage :: string where
  "maxQuoteSlippage = ''9223372036.854775807''"

text \<open>A minimum notional: its text, dropped when zero, and whether a quote scale makes it computable.\<close>

definition min_notional :: "catalog_env \<Rightarrow> string \<Rightarrow> bool \<Rightarrow> (string \<times> bool) option" where
  "min_notional env raw quoteOK =
     (if raw = [] then Some ([], False)
      else case ct_rat env raw of
          None \<Rightarrow> None
        | Some value \<Rightarrow> if value < 0 then None else if value = 0 then Some ([], False) else Some (raw, quoteOK))"

definition pairConstraints :: "catalog_env \<Rightarrow> object option \<Rightarrow> pair_constraints option" where
  "pairConstraints env row = (case row of None \<Rightarrow> None | Some pair \<Rightarrow>
     let quoteScale = intField pair quote_scale_keys;
         tick = stringField pair [''tick_size'', ''tickSize''];
         step = stringField pair [''step_size'', ''stepSize''];
         minQty = stringField pair [''min_qty_base'', ''minQtyBase''];
         minNotional = stringField pair [''min_notional_quote'', ''minNotionalQuote''];
         maxLimitQty = stringField pair [''max_limit_qty_base'', ''maxLimitQtyBase''];
         maxMarketQty = stringField pair [''max_market_qty_base'', ''maxMarketQtyBase''];
         maxNotional = stringField pair [''max_order_notional_quote'', ''maxOrderNotionalQuote''];
         maxMarketNotional = stringField pair [''max_market_notional_quote'', ''maxMarketNotionalQuote'']
     in if pair_symbol pair = [] then None else
     Option.bind (pair_id pair) (\<lambda>symbolID.
     Option.bind (intField pair base_scale_keys) (\<lambda>baseScale.
     Option.bind (optionalScaledDecimal env tick PriceTickScale False) (\<lambda>tickTicks.
     Option.bind (optionalScaledDecimal env step baseScale False) (\<lambda>stepScaled.
     Option.bind (optionalScaledDecimal env minQty baseScale True) (\<lambda>minQtyScaled.
     Option.bind (optionalScaledDecimal env maxLimitQty baseScale True) (\<lambda>maxLimitQtyScaled.
     if \<not> unsignedDecimal maxLimitQty then None else
     Option.bind (optionalScaledDecimal env maxMarketQty baseScale True) (\<lambda>maxMarketQtyScaled.
     if \<not> unsignedDecimal maxMarketQty \<or> \<not> unsignedDecimal maxNotional \<or> \<not> unsignedDecimal maxMarketNotional then None else
     case requiredU32Field pair [''max_open_orders_per_pair'', ''maxOpenOrdersPerPair''] of
       Inl _ \<Rightarrow> None
     | Inr maxOpenOrders \<Rightarrow>
     Option.bind (min_notional env minNotional (quoteScale \<noteq> None)) (\<lambda>(minNotional, computable).
     Some \<lparr>pc_Symbol = pair_symbol pair, pc_SymbolID = symbolID, pc_BaseQuantityScale = baseScale,
       pc_QuoteQuantityScale = (case quoteScale of None \<Rightarrow> 0 | Some q \<Rightarrow> q),
       pc_TickSize = tick, pc_TickSizeTicks = tickTicks, pc_StepSize = step, pc_StepSizeScaled = stepScaled,
       pc_MinQtyBase = minQty, pc_MinQtyScaled = minQtyScaled, pc_MinNotionalQuote = minNotional,
       pc_MinNotionalComputable = computable, pc_MaxLimitQtyBase = maxLimitQty, pc_MaxLimitQtyScaled = maxLimitQtyScaled,
       pc_MaxMarketQtyBase = maxMarketQty, pc_MaxMarketQtyScaled = maxMarketQtyScaled, pc_MaxOrderNotionalQuote = maxNotional,
       pc_MaxMarketNotionalQuote = maxMarketNotional,
       pc_MaxOpenOrdersPerPair = (case maxOpenOrders of None \<Rightarrow> 0 | Some n \<Rightarrow> n),
       pc_MaxQuoteSlippage = maxQuoteSlippage, pc_MaxQuoteSlippageTicks = int64Max\<rparr>)))))))))"

definition PairConstraintsForSymbol :: "catalog_env \<Rightarrow> manager \<Rightarrow> string \<Rightarrow> pair_constraints option" where
  "PairConstraintsForSymbol env m symbol = pairConstraints env (pairForSymbolLocked m symbol)"

definition PairConstraintsForSymbolID :: "catalog_env \<Rightarrow> manager \<Rightarrow> u32 \<Rightarrow> pair_constraints option" where
  "PairConstraintsForSymbolID env m symbolID = pairConstraints env (pairForSymbolIDLocked m symbolID)"

section \<open>Lookups in the zipper catalog\<close>

text \<open>The rows a raw catalog has; of a typed one, whose rows are not of JSON shape, none.\<close>

definition legacy_assets :: "manager \<Rightarrow> object list" where
  "legacy_assets m = (case mg_legacyZipperRaw m of None \<Rightarrow> []
     | Some raw \<Rightarrow> map as_object (as_list (entry raw ''assets'')))"

definition LedgerIDForAsset :: "manager \<Rightarrow> string \<Rightarrow> u32 option" where
  "LedgerIDForAsset m symbol =
     (case find_map (\<lambda>a. if za_Asset a = symbol \<and> za_LedgerID a \<noteq> 0 then Some (za_LedgerID a) else None)
         (case mg_Zipper m of None \<Rightarrow> [] | Some z \<Rightarrow> zz_Assets z) of
        Some v \<Rightarrow> Some v
      | None \<Rightarrow> (case List.find (\<lambda>item. raw_asset_name item = symbol) (legacy_assets m) of
            None \<Rightarrow> None | Some item \<Rightarrow> intish (entry item ''ledgerId'')))"

definition QuantityScaleForAsset :: "manager \<Rightarrow> string \<Rightarrow> int option" where
  "QuantityScaleForAsset m symbol =
     (case find_map (\<lambda>a. if za_Asset a = symbol then Some (za_QuantityScale a) else None)
         (case mg_Zipper m of None \<Rightarrow> [] | Some z \<Rightarrow> zz_Assets z) of
        Some v \<Rightarrow> Some v
      | None \<Rightarrow> find_map (\<lambda>item. if raw_asset_name item = symbol
          then intField item [''quantityScale'', ''quantity_scale''] else None) (legacy_assets m))"

definition QuantityScaleForZippedAssetID :: "manager \<Rightarrow> u32 \<Rightarrow> int option" where
  "QuantityScaleForZippedAssetID m zippedAssetID =
     find_map (\<lambda>a. if list_ex (\<lambda>c. zt_ZippedAssetID (ec_terms c) = zippedAssetID) (za_Chains a) then Some (za_QuantityScale a) else None)
       (case mg_Zipper m of None \<Rightarrow> [] | Some z \<Rightarrow> zz_Assets z)"

section \<open>Validated spot rows\<close>

lemma parseUintExact_field: "parseUintExact v f = Inr u \<Longrightarrow> parseUintExact v g = Inr u"
  by (auto simp: parseUintExact_def Let_def split: any.splits if_splits option.splits)

lemma parseU32Exact_intish:
  assumes "parseU32Exact v f = Inr u"
  shows "intish v = Some u"
proof -
  from assms obtain n where "parseUintExact v f = Inr n" and u: "\<not> uint n > 4294967295" "u = ucast n"
    by (auto simp: parseU32Exact_def bind_res_Inr_iff split: if_splits)
  then have "parseUintExact v ''id'' = Inr n" by (blast intro: parseUintExact_field)
  with u show ?thesis by (simp add: intish_def parseU32Exact_def)
qed

lemma parseIntExact_intValue:
  assumes "parseIntExact v f = Inr n"
  shows "intValue v = n"
proof -
  from assms obtain u where "parseUintExact v f = Inr u" and n: "\<not> uint u > int64Max" "n = uint u"
    by (auto simp: parseIntExact_def bind_res_Inr_iff split: if_splits)
  then have "parseUintExact v ''scale'' = Inr u" by (blast intro: parseUintExact_field)
  with n show ?thesis by (simp add: intValue_def parseIntExact_def)
qed

lemma parse_nil [simp]: "parseUintExact NilV f \<noteq> Inr u" "intish NilV = None"
  by (simp_all add: parseUintExact_def parseU32Exact_def intish_def)

lemma entry_None: "map_of row key = None \<Longrightarrow> entry row key = NilV"
  by (simp add: entry_def)

lemma entry_Some: "map_of row key = Some v \<Longrightarrow> entry row key = v"
  by (simp add: entry_def)

lemma nonzero_id_pair: "nonzero_id name row symbol_id_keys = Inr i \<Longrightarrow> pair_id row = Some i \<and> i \<noteq> 0"
  by (auto simp: nonzero_id_def requiredU32Field_def symbol_id_keys_def pair_id_def bind_res_Inr_iff entry_def
      split: option.splits if_splits dest!: parseU32Exact_intish)

lemma intField_first:
  assumes "find_map (\<lambda>key. map_option (\<lambda>v. (key, v)) (map_of row key)) keys = Some (key, v)" and "v \<noteq> NilV"
  shows "intField row keys = Some (intValue v)"
  using assms unfolding intField_def by (induction keys) (auto simp: entry_def split: option.splits)

lemma intField_absent:
  "find_map (\<lambda>key. map_option (\<lambda>v. (key, v)) (map_of row key)) keys = None \<Longrightarrow> intField row keys = None"
  by (simp add: find_map_None intField_def entry_def)

definition scale_ok :: "int \<Rightarrow> bool" where
  "scale_ok k \<longleftrightarrow> 0 \<le> k \<and> k \<le> maxProtocolScale"

lemma optional_scale_ok:
  assumes "validateOptionalScaleField row keys = Inr u"
  shows "case intField row keys of None \<Rightarrow> True | Some k \<Rightarrow> scale_ok k"
    and "list_ex (\<lambda>key. map_of row key \<noteq> None) keys \<Longrightarrow> intField row keys \<noteq> None"
proof -
  let ?f = "find_map (\<lambda>key. map_option (\<lambda>v. (key, v)) (map_of row key)) keys"
  have "(case intField row keys of None \<Rightarrow> True | Some k \<Rightarrow> scale_ok k)
      \<and> (list_ex (\<lambda>key. map_of row key \<noteq> None) keys \<longrightarrow> intField row keys \<noteq> None)"
  proof (cases ?f)
    case None
    then show ?thesis using intField_absent [OF None] by (auto simp: find_map_None list_ex_iff)
  next
    case (Some kv)
    obtain key v where kv: "kv = (key, v)" by force
    from assms Some kv obtain n where n: "parseIntExact v key = Inr n" and "scale_ok n"
      by (auto simp: validateOptionalScaleField_def bind_res_Inr_iff scale_ok_def split: if_splits)
    moreover from n have "v \<noteq> NilV" by (auto simp: parseIntExact_def bind_res_Inr_iff)
    ultimately show ?thesis using intField_first Some kv parseIntExact_intValue by fastforce
  qed
  then show "case intField row keys of None \<Rightarrow> True | Some k \<Rightarrow> scale_ok k"
    and "list_ex (\<lambda>key. map_of row key \<noteq> None) keys \<Longrightarrow> intField row keys \<noteq> None" by blast+
qed

lemma required_scale_ok: "validateRequiredScaleField row keys = Inr u \<Longrightarrow> \<exists>k. intField row keys = Some k \<and> scale_ok k"
  using optional_scale_ok by (fastforce simp: validateRequiredScaleField_def split: if_splits option.splits)

text \<open>A row of the spot catalog that passed, and the rows of a list that did.\<close>

definition pair_ok :: "object \<Rightarrow> bool" where
  "pair_ok pair \<longleftrightarrow> pair_symbol pair \<noteq> [] \<and> (\<exists>i. pair_id pair = Some i \<and> i \<noteq> 0)
     \<and> (\<exists>k. intField pair base_scale_keys = Some k \<and> scale_ok k)
     \<and> (case intField pair quote_scale_keys of None \<Rightarrow> True | Some k \<Rightarrow> scale_ok k)"

definition pair_key :: "object \<Rightarrow> string \<times> u32" where
  "pair_key pair = (pair_symbol pair, the (pair_id pair))"

definition keys_distinct :: "(string \<times> u32) list \<Rightarrow> bool" where
  "keys_distinct ks \<longleftrightarrow> distinct (map fst ks) \<and> distinct (map snd ks)"

lemma wrap_Inr [simp]: "wrap m r = Inr x \<longleftrightarrow> r = Inr x"
  by (simp add: wrap_def split: sum.splits)

lemma check_pairs_ok:
  "check_pairs quote key i items seen = Inr seen' \<Longrightarrow> keys_distinct seen \<Longrightarrow>
    seen' = seen @ map pair_key (objects items) \<and> keys_distinct seen' \<and> list_all pair_ok (objects items)"
proof (induction quote key i items seen rule: check_pairs.induct)
  case (2 quote key i item items seen)
  from 2(2) obtain pair where item: "item = ObjectV pair" by (auto split: any.splits)
  let ?row = "''spot '' @ row_name key i"
  from 2(2) item obtain sid where s: "pair_symbol pair \<noteq> []" and i: "nonzero_id ''symbol_id'' pair symbol_id_keys = Inr sid"
    and b: "validateRequiredScaleField pair base_scale_keys = Inr ()" and q: "validateOptionalScaleField pair quote_scale_keys = Inr ()"
    and new: "pair_symbol pair \<notin> set (map fst seen)" "sid \<notin> set (map snd seen)"
    and rest: "check_pairs quote key (Suc i) items (seen @ [(pair_symbol pair, sid)]) = Inr seen'"
    by (auto simp: Let_def pair_symbol_def bind_res_Inr_iff simp del: set_map split: if_splits)
  have key: "pair_key pair = (pair_symbol pair, sid)" using nonzero_id_pair [OF i] by (simp add: pair_key_def)
  have "pair_ok pair"
    using s nonzero_id_pair [OF i] required_scale_ok [OF b] optional_scale_ok(1) [OF q] by (simp add: pair_ok_def)
  moreover have "keys_distinct (seen @ [(pair_symbol pair, sid)])" using 2(3) new by (simp add: keys_distinct_def)
  moreover from calculation(2) have "seen' = (seen @ [(pair_symbol pair, sid)]) @ map pair_key (objects items) \<and> keys_distinct seen'
      \<and> list_all pair_ok (objects items)"
    using 2(1) [of pair "pair_symbol pair" ?row sid "()" "()"] item s i b q new rest by (auto simp: pair_symbol_def)
  ultimately show ?case using key item by (auto simp: objects_def map_filter_simps)
qed (simp_all add: objects_def map_filter_simps)

text \<open>A list of rows that passed: looking up by symbol, by id and the rows themselves agree.\<close>

definition spot_rows_ok :: "object list \<Rightarrow> bool" where
  "spot_rows_ok ps \<longleftrightarrow> list_all pair_ok ps \<and> keys_distinct (map pair_key ps)"

lemma validated_rows:
  assumes "validateSpotConfig quote (Some c) = Inr u"
  shows "spot_rows_ok (objects (as_list (entry c ''pairs'')) @ objects (as_list (entry c ''symbols'')))"
proof -
  from assms obtain seen seen' where c: "check_pairs quote ''pairs'' 0 (as_list (entry c ''pairs'')) [] = Inr seen"
    "check_pairs quote ''symbols'' 0 (as_list (entry c ''symbols'')) seen = Inr seen'"
    by (auto simp: validateSpotConfig_def bind_res_Inr_iff)
  have "keys_distinct []" by (simp add: keys_distinct_def)
  from check_pairs_ok [OF c(1) this] check_pairs_ok [OF c(2)] show ?thesis
    by (auto simp: spot_rows_ok_def)
qed

lemma keys_distinct_Cons:
  "keys_distinct (k # ks) \<longleftrightarrow> fst k \<notin> set (map fst ks) \<and> snd k \<notin> set (map snd ks) \<and> keys_distinct ks"
  by (auto simp: keys_distinct_def)

lemma find_rows:
  assumes "spot_rows_ok ps" and "p \<in> set ps"
  shows "List.find (\<lambda>q. pair_symbol q = pair_symbol p) ps = Some p" "List.find (\<lambda>q. pair_id q = pair_id p) ps = Some p"
  using assms
proof (induction ps)
  case (Cons q ps)
  { case 1
    with Cons.IH(1) show ?case by (auto simp: spot_rows_ok_def keys_distinct_Cons pair_key_def image_iff)
  next
    case 2
    with Cons.IH(2) show ?case by (force simp: spot_rows_ok_def keys_distinct_Cons pair_key_def image_iff pair_ok_def list_all_iff)
  }
qed simp_all

lemma find_map_find:
  assumes "\<forall>x\<in>set xs. P x \<longrightarrow> f x \<noteq> None"
  shows "find_map (\<lambda>x. if P x then f x else None) xs = Option.bind (List.find P xs) f"
  using assms by (induction xs) (auto split: option.splits)

lemma lookup_rows:
  assumes "spot_rows_ok (pairsLocked m)"
  shows "SymbolIDForSymbol m s = Option.bind (pairForSymbolLocked m s) pair_id"
    and "SymbolForSymbolID m i = map_option pair_symbol (pairForSymbolIDLocked m i)"
proof -
  have ok: "pair_ok p" if "p \<in> set (pairsLocked m)" for p using assms that by (simp add: spot_rows_ok_def list_all_iff)
  then show "SymbolIDForSymbol m s = Option.bind (pairForSymbolLocked m s) pair_id"
    unfolding SymbolIDForSymbol_def pairForSymbolLocked_def by (intro find_map_find) (auto simp: pair_ok_def)
  have named: "(pair_id p = Some i \<and> pair_symbol p \<noteq> []) = (pair_id p = Some i)" if "p \<in> set (pairsLocked m)" for p
    using ok [OF that] by (auto simp: pair_ok_def)
  have *: "find_map (\<lambda>pair. if pair_id pair = Some i \<and> pair_symbol pair \<noteq> [] then Some (pair_symbol pair) else None) xs
      = map_option pair_symbol (List.find (\<lambda>pair. pair_id pair = Some i) xs)"
    if "set xs \<subseteq> set (pairsLocked m)" for xs
    using that by (induction xs) (auto simp: named)
  show "SymbolForSymbolID m i = map_option pair_symbol (pairForSymbolIDLocked m i)"
  proof (cases "i = 0")
    case True
    then have "pair_id p \<noteq> Some i" if "p \<in> set (pairsLocked m)" for p using ok [OF that] by (auto simp: pair_ok_def)
    then have "pairForSymbolIDLocked m i = None" by (auto simp: pairForSymbolIDLocked_def find_None_iff)
    with True show ?thesis by (simp add: SymbolForSymbolID_def)
  next
    case False
    with * [of "pairsLocked m"] show ?thesis by (simp add: SymbolForSymbolID_def pairForSymbolIDLocked_def)
  qed
qed

lemma found_row:
  "pairForSymbolLocked m s = Some p \<Longrightarrow> p \<in> set (pairsLocked m) \<and> pair_symbol p = s"
  "pairForSymbolIDLocked m i = Some p \<Longrightarrow> p \<in> set (pairsLocked m) \<and> pair_id p = Some i"
  unfolding pairForSymbolLocked_def pairForSymbolIDLocked_def by (auto simp: find_Some_iff)

lemma row_found:
  assumes "spot_rows_ok (pairsLocked m)" and "p \<in> set (pairsLocked m)"
  shows "pairForSymbolLocked m (pair_symbol p) = Some p" "pair_id p = Some i \<Longrightarrow> pairForSymbolIDLocked m i = Some p"
  using find_rows [OF assms] by (simp_all add: pairForSymbolLocked_def pairForSymbolIDLocked_def)

lemma lookups_agree:
  assumes "spot_rows_ok (pairsLocked m)"
  shows "SymbolIDForSymbol m s = Some i \<longleftrightarrow> SymbolForSymbolID m i = Some s"
proof
  assume "SymbolIDForSymbol m s = Some i"
  then obtain p where "pairForSymbolLocked m s = Some p" "pair_id p = Some i"
    by (auto simp: lookup_rows(1) [OF assms] bind_eq_Some_conv)
  with found_row(1) row_found(2) [OF assms] show "SymbolForSymbolID m i = Some s"
    by (fastforce simp: lookup_rows(2) [OF assms])
next
  assume "SymbolForSymbolID m i = Some s"
  then obtain p where "pairForSymbolIDLocked m i = Some p" "pair_symbol p = s"
    by (auto simp: lookup_rows(2) [OF assms])
  with found_row(2) row_found(1) [OF assms] show "SymbolIDForSymbol m s = Some i"
    by (fastforce simp: lookup_rows(1) [OF assms])
qed

section \<open>Validated assets\<close>

definition zipped_ids :: "enriched_asset \<Rightarrow> u32 list" where
  "zipped_ids a = map (\<lambda>c. zt_ZippedAssetID (ec_terms c)) (za_Chains a)"

definition variant_ids :: "asset_config \<Rightarrow> u32 list" where
  "variant_ids a = map (\<lambda>v. zt_ZippedAssetID (zv_terms v)) (za_Variants a)"

text \<open>What lookups read of an asset, and when a list of them is unambiguous.\<close>

type_synonym asset_key = "string \<times> u32 \<times> int \<times> u32 list"

definition asset_keys_ok :: "asset_key list \<Rightarrow> bool" where
  "asset_keys_ok ks \<longleftrightarrow> (\<forall>(name, ledger, k, ids) \<in> set ks. name \<noteq> [] \<and> ledger \<noteq> 0 \<and> scale_ok k \<and> 0 \<notin> set ids)
     \<and> distinct (map fst ks) \<and> distinct (map (\<lambda>(name, ledger, k, ids). ledger) ks)
     \<and> distinct (concat (map (\<lambda>(name, ledger, k, ids). ids) ks))"

definition config_key :: "asset_config \<Rightarrow> asset_key" where
  "config_key a = (za_Asset a, za_LedgerID a, za_QuantityScale a, variant_ids a)"

definition asset_key :: "enriched_asset \<Rightarrow> asset_key" where
  "asset_key a = (za_Asset a, za_LedgerID a, za_QuantityScale a, zipped_ids a)"

lemma check_variants_ok:
  "check_variants at_asset j vs zipped = Inr zipped' \<Longrightarrow> distinct zipped \<Longrightarrow>
    zipped' = zipped @ map (\<lambda>v. zt_ZippedAssetID (zv_terms v)) vs \<and> distinct zipped' \<and> (\<forall>v\<in>set vs. zt_ZippedAssetID (zv_terms v) \<noteq> 0)"
proof (induction at_asset j vs zipped rule: check_variants.induct)
  case (2 at_asset j variant rest zipped)
  let ?zid = "zt_ZippedAssetID (zv_terms variant)"
  from 2(2) have new: "?zid \<noteq> 0" "?zid \<notin> set zipped" and go: "check_variants at_asset (Suc j) rest (zipped @ [?zid]) = Inr zipped'"
    by (auto simp: Let_def split: if_splits)
  have "distinct (zipped @ [?zid])" using new 2(3) by simp
  note IH = 2(1) [OF refl new go this]
  then have "zipped' = zipped @ map (\<lambda>v. zt_ZippedAssetID (zv_terms v)) (variant # rest)" by simp
  moreover from IH have "distinct zipped'" by blast
  moreover from IH new(1) have "\<forall>v\<in>set (variant # rest). zt_ZippedAssetID (zv_terms v) \<noteq> 0" by simp
  ultimately show ?case by blast
qed simp_all

definition seen_distinct :: "zipper_seen \<Rightarrow> bool" where
  "seen_distinct s \<longleftrightarrow> distinct (sn_names s) \<and> distinct (sn_ledgers s) \<and> distinct (sn_zipped s)"

lemma check_assets_ok:
  "check_assets quote i assets seen = Inr seen' \<Longrightarrow> seen_distinct seen \<Longrightarrow>
    sn_names seen' = sn_names seen @ map za_Asset assets \<and> sn_ledgers seen' = sn_ledgers seen @ map za_LedgerID assets
    \<and> sn_zipped seen' = sn_zipped seen @ concat (map variant_ids assets) \<and> seen_distinct seen'
    \<and> (\<forall>a\<in>set assets. za_Asset a \<noteq> [] \<and> za_LedgerID a \<noteq> 0 \<and> scale_ok (za_QuantityScale a) \<and> 0 \<notin> set (variant_ids a))"
proof (induction quote i assets seen rule: check_assets.induct)
  case (2 quote i asset assets seen)
  let ?row = "''zipper '' @ row_name ''assets'' i"
  from 2(2) obtain zipped where a: "za_Asset asset \<noteq> []" "za_LedgerID asset \<noteq> 0" "scale_ok (za_QuantityScale asset)"
    "za_Asset asset \<notin> set (sn_names seen)" "za_LedgerID asset \<notin> set (sn_ledgers seen)"
    and v: "check_variants ?row 0 (za_Variants asset) (sn_zipped seen) = Inr zipped"
    and rest: "check_assets quote (Suc i) assets
      \<lparr>sn_names = sn_names seen @ [za_Asset asset], sn_ledgers = sn_ledgers seen @ [za_LedgerID asset], sn_zipped = zipped\<rparr> = Inr seen'"
    by (auto simp: Let_def scale_ok_def bind_res_Inr_iff split: if_splits)
  have "distinct (sn_zipped seen)" using 2(3) by (simp add: seen_distinct_def)
  from check_variants_ok [OF v this]
  have z: "zipped = sn_zipped seen @ variant_ids asset" "distinct zipped" "0 \<notin> set (variant_ids asset)"
    unfolding variant_ids_def by (blast, blast, fastforce)
  with a 2(3) have "seen_distinct
      \<lparr>sn_names = sn_names seen @ [za_Asset asset], sn_ledgers = sn_ledgers seen @ [za_LedgerID asset], sn_zipped = zipped\<rparr>"
    by (simp add: seen_distinct_def)
  from 2(1) [OF refl _ _ _ _ v rest this] a z show ?case by (auto simp: scale_ok_def)
qed simp_all

lemma validated_assets:
  assumes "validateDepositWithdrawConfig quote (Some c) = Inr u"
  shows "asset_keys_ok (map config_key (dw_Assets c))"
proof -
  from assms obtain seen where
    "check_assets quote 0 (dw_Assets c) \<lparr>sn_names = [], sn_ledgers = [], sn_zipped = []\<rparr> = Inr seen"
    by (auto simp: validateDepositWithdrawConfig_def bind_res_Inr_iff)
  from check_assets_ok [OF this] show ?thesis
    by (auto simp: asset_keys_ok_def config_key_def seen_distinct_def comp_def)
qed

text \<open>Enriching keeps the names, ledger ids and scales, and a part of the zipped ids; a patch keeps them all.\<close>

lemma enriched_ids:
  "map (\<lambda>c. zt_ZippedAssetID (ec_terms c)) (enrichAssetChains a byID)
     = map (\<lambda>v. zt_ZippedAssetID (zv_terms v)) (filter (\<lambda>v. map_of byID (zv_ChainID v) \<noteq> None) (za_Variants a))"
  unfolding enrichAssetChains_def by (induction "za_Variants a" arbitrary: a rule: list.induct)
    (auto simp: map_filter_def comp_def split: option.splits)

lemma distinct_concat_filter:
  "distinct (concat (map (\<lambda>a. map f (vs a)) as)) \<Longrightarrow> distinct (concat (map (\<lambda>a. map f (filter P (vs a))) as))"
proof (induction as)
  case (Cons a as)
  have part: "set (map f (filter P (vs x))) \<subseteq> set (map f (vs x))" for x by auto
  then have "set (concat (map (\<lambda>a. map f (filter P (vs a))) as)) \<subseteq> set (concat (map (\<lambda>a. map f (vs a)) as))" by fastforce
  with part [of a] Cons show ?case unfolding list.map concat.simps distinct_append by (blast intro: distinct_map_filter)
qed simp

lemma asset_keys_part:
  "asset_keys_ok (map (\<lambda>a. (name a, ledger a, k a, map f (vs a))) as) \<Longrightarrow>
    asset_keys_ok (map (\<lambda>a. (name a, ledger a, k a, map f (filter P (vs a)))) as)"
  using distinct_concat_filter [of f vs as P] by (auto simp: asset_keys_ok_def comp_def)

lemma built_keys:
  assumes "asset_keys_ok (map config_key (dw_Assets c))" and "BuildZipperCatalogData (Some c) = Some z"
  shows "asset_keys_ok (map asset_key (zz_Assets z))"
proof -
  let ?zid = "\<lambda>v. zt_ZippedAssetID (zv_terms v)" and ?known = "\<lambda>v. map_of (chains_by_id (dw_Chains c)) (zv_ChainID v) \<noteq> None"
  have "map asset_key (zz_Assets z)
      = map (\<lambda>a. (za_Asset a, za_LedgerID a, za_QuantityScale a, map ?zid (filter ?known (za_Variants a)))) (dw_Assets c)"
    using assms(2) by (auto simp: BuildZipperCatalogData_def asset_key_def zipped_ids_def enriched_ids)
  with asset_keys_part [of za_Asset za_LedgerID za_QuantityScale ?zid za_Variants "dw_Assets c" ?known] assms(1) show ?thesis
    by (simp add: config_key_def [abs_def] variant_ids_def)
qed

lemma patch_chain_id [simp]: "zt_ZippedAssetID (ec_terms (patch_chain byID c)) = zt_ZippedAssetID (ec_terms c)"
  by (simp add: patch_chain_def split: option.splits)

lemma patched_keys:
  "PatchZipperCatalogSupply z updates = Some z' \<Longrightarrow> map asset_key (zz_Assets z') = map asset_key (zz_Assets z)"
  by (auto simp: PatchZipperCatalogSupply_def Let_def asset_key_def zipped_ids_def comp_def split: if_splits)

section \<open>Reachable catalogs\<close>

inductive catalog_step :: "catalog_env \<Rightarrow> manager \<Rightarrow> manager \<Rightarrow> bool" for env :: catalog_env where
  "catalog_step env m (fst (HydrateSpotConfig env config m))"
| "catalog_step env m (fst (HydrateDepositWithdrawConfig env typed m))"
| "catalog_step env m (fst (HydrateZipperConfig env zipper m))"
| "catalog_step env m (fst (PatchZipperSupply updates m))"

abbreviation catalogs_reachable :: "catalog_env \<Rightarrow> manager \<Rightarrow> bool" where
  "catalogs_reachable env \<equiv> reachable (\<lambda>m. m = NewManager) (catalog_step env)"

definition catalogs_ok :: "manager \<Rightarrow> bool" where
  "catalogs_ok m \<longleftrightarrow> spot_rows_ok (pairsLocked m)
     \<and> (case mg_Zipper m of None \<Rightarrow> True | Some z \<Rightarrow> asset_keys_ok (map asset_key (zz_Assets z)) \<and> mg_legacyZipperRaw m = None)"

lemma no_spot_config: "validateSpotConfig quote None \<noteq> Inr u"
  by (simp add: validateSpotConfig_def)

lemma catalogs_ok_spot: "catalogs_ok m \<Longrightarrow> catalogs_ok (fst (HydrateSpotConfig env config m))"
  using validated_rows
  by (fastforce simp: HydrateSpotConfig_def catalogs_ok_def bind_res_Inr_iff pairsLocked_def no_spot_config
      split: sum.splits option.splits)

lemma catalogs_ok_typed: "catalogs_ok m \<Longrightarrow> catalogs_ok (fst (HydrateDepositWithdrawConfig env config m))"
proof (cases config)
  case (Some c)
  assume "catalogs_ok m"
  with Some show ?thesis using validated_assets [of "ct_quote env" c] built_keys [of c]
    by (auto simp: HydrateDepositWithdrawConfig_def catalogs_ok_def pairsLocked_def split: sum.splits option.splits)
qed (simp add: HydrateDepositWithdrawConfig_def catalogs_ok_def pairsLocked_def validateDepositWithdrawConfig_def BuildZipperCatalogData_def)

lemma catalogs_ok_raw: "catalogs_ok m \<Longrightarrow> catalogs_ok (fst (HydrateZipperConfig env (RawConfig c) m))"
  by (auto simp: HydrateZipperConfig_def catalogs_ok_def pairsLocked_def split: sum.splits option.splits)

lemma catalogs_ok_patch: "catalogs_ok m \<Longrightarrow> catalogs_ok (fst (PatchZipperSupply updates m))"
  by (auto simp: PatchZipperSupply_def catalogs_ok_def pairsLocked_def patched_keys split: option.splits)

interpretation catalogs: invariant_system "\<lambda>m. m = NewManager" "catalog_step env" catalogs_ok for env
proof
  show "catalogs_ok t" if "catalogs_ok s" and "catalog_step env s t" for s t
    using that(2,1)
  proof (induction rule: catalog_step.induct)
    case (3 m zipper)
    then show ?case using catalogs_ok_raw catalogs_ok_typed by (cases zipper) (simp_all add: HydrateZipperConfig_def)
  qed (simp_all add: catalogs_ok_spot catalogs_ok_typed catalogs_ok_patch)
qed (simp add: catalogs_ok_def NewManager_def pairsLocked_def entry_def as_list_def objects_def map_filter_simps spot_rows_ok_def keys_distinct_def)

section \<open>What lookups answer\<close>

lemma spot_rows: "catalogs_reachable env m \<Longrightarrow> spot_rows_ok (pairsLocked m)"
  using catalogs.inv_reachable catalogs_ok_def by blast

lemma listed_row:
  assumes "spot_rows_ok (pairsLocked m)" and "SymbolIDForSymbol m s = Some i"
  obtains p where "pairForSymbolLocked m s = Some p" "pairForSymbolIDLocked m i = Some p" "pair_ok p" "pair_symbol p = s"
    "pair_id p = Some i"
proof -
  from assms obtain p where p: "pairForSymbolLocked m s = Some p" "pair_id p = Some i"
    by (auto simp: lookup_rows(1) [OF assms(1)] bind_eq_Some_conv)
  moreover from found_row(1) [OF p(1)] assms(1) have "pair_ok p" "pair_symbol p = s" "p \<in> set (pairsLocked m)"
    by (auto simp: spot_rows_ok_def list_all_iff)
  moreover from row_found(2) [OF assms(1) this(3) p(2)] have "pairForSymbolIDLocked m i = Some p" .
  ultimately show thesis using that by blast
qed

text \<open>C12. In every catalog a client can come to hold, symbols and symbol ids name each other: a symbol has the id
  of which it is the symbol, and no other symbol has that id.\<close>

theorem spot_lookups_inverse:
  assumes "catalogs_reachable env m"
  shows "SymbolIDForSymbol m s = Some i \<longleftrightarrow> SymbolForSymbolID m i = Some s"
  using lookups_agree [OF spot_rows [OF assms]] .

text \<open>A symbol that resolves has a base quantity scale, the same by symbol and by id, within the protocol's
  bounds; a quote scale, when there is one, is too.\<close>

theorem spot_scales_bounded:
  assumes "catalogs_reachable env m" and "SymbolIDForSymbol m s = Some i"
  shows "\<exists>k. BaseQuantityScaleForSymbol m s = Some k \<and> BaseQuantityScaleForSymbolID m i = Some k \<and> 0 \<le> k \<and> k \<le> 36
     \<and> QuoteQuantityScaleForSymbolID m i = QuoteQuantityScaleForSymbol m s
     \<and> (case QuoteQuantityScaleForSymbol m s of None \<Rightarrow> True | Some q \<Rightarrow> 0 \<le> q \<and> q \<le> 36)"
proof -
  from listed_row [OF spot_rows [OF assms(1)] assms(2)] obtain p where "pairForSymbolLocked m s = Some p"
    "pairForSymbolIDLocked m i = Some p" "pair_ok p" "pair_symbol p = s" by metis
  then show ?thesis
    by (auto simp: BaseQuantityScaleForSymbol_def BaseQuantityScaleForSymbolID_def QuoteQuantityScaleForSymbol_def
        QuoteQuantityScaleForSymbolID_def pair_ok_def scale_ok_def maxProtocolScale_def split: option.splits)
qed

definition sample_catalog_env :: catalog_env where
  "sample_catalog_env = \<lparr>ct_quote = quoted, ct_rat = (\<lambda>s. map_option of_int (big_set_string s)), ct_float = (\<lambda>_. [])\<rparr>"

definition sample_pair :: object where
  "sample_pair = [(''symbol'', StringV ''BTC-USDC''), (''symbolId'', StringV ''7''), (''baseQuantityScale'', IntV 8),
     (''tick_size'', StringV ''1''), (''max_limit_qty_base'', StringV ''25''), (''min_notional_quote'', StringV ''0'')]"

definition sample_spot :: object where
  "sample_spot = [(''pairs'', ListV [ObjectV sample_pair])]"

definition sample_manager :: manager where
  "sample_manager = fst (HydrateSpotConfig sample_catalog_env (Some sample_spot) NewManager)"

lemma sample_manager_reachable: "catalogs_reachable sample_catalog_env sample_manager"
  unfolding sample_manager_def by (blast intro: reachable.intros catalog_step.intros)

lemma sample_manager_lookup: "SymbolIDForSymbol sample_manager ''BTC-USDC'' = Some 7"
  by code_simp

theorem spot_lookups_inverse_witness: "SymbolForSymbolID sample_manager 7 = Some ''BTC-USDC''"
  using spot_lookups_inverse [OF sample_manager_reachable] sample_manager_lookup by blast

theorem spot_scales_bounded_witness:
  "\<exists>k. BaseQuantityScaleForSymbol sample_manager ''BTC-USDC'' = Some k \<and> BaseQuantityScaleForSymbolID sample_manager 7 = Some k \<and> 0 \<le> k \<and> k \<le> 36"
  using spot_scales_bounded [OF sample_manager_reachable sample_manager_lookup] by blast

text \<open>Constraints: each decimal that is given denotes its scaled value exactly.\<close>

definition denotes_at :: "catalog_env \<Rightarrow> string \<Rightarrow> int \<Rightarrow> int \<Rightarrow> bool" where
  "denotes_at env text k n \<longleftrightarrow> is_int64 n \<and> 0 \<le> n \<and> (if text = [] then n = 0 else \<exists>r. ct_rat env text = Some r \<and> r * 10 ^ nat k = of_int n)"

lemma optionalScaledDecimal_exact:
  "optionalScaledDecimal env text k z = Some n \<Longrightarrow> denotes_at env text k n \<and> (text \<noteq> [] \<and> \<not> z \<longrightarrow> 0 < n)"
  by (auto simp: optionalScaledDecimal_def scaledDecimalInt64_def denotes_at_def Let_def int64_defs split: if_splits option.splits)

text \<open>C13. Constraints are given only when every rule of the pair could be read, and then exactly: each text denotes
  its scaled value at the pair's scale with no rounding, a tick or step given is positive, and the
  constraints are those of the symbol asked for, whether by name or by id.\<close>

theorem pair_constraints_exact:
  assumes "catalogs_reachable env m" and "PairConstraintsForSymbol env m s = Some c"
  shows "pc_Symbol c = s \<and> SymbolIDForSymbol m s = Some (pc_SymbolID c) \<and> PairConstraintsForSymbolID env m (pc_SymbolID c) = Some c
    \<and> BaseQuantityScaleForSymbol m s = Some (pc_BaseQuantityScale c)
    \<and> denotes_at env (pc_TickSize c) 9 (pc_TickSizeTicks c) \<and> (pc_TickSize c \<noteq> [] \<longrightarrow> 0 < pc_TickSizeTicks c)
    \<and> denotes_at env (pc_StepSize c) (pc_BaseQuantityScale c) (pc_StepSizeScaled c) \<and> (pc_StepSize c \<noteq> [] \<longrightarrow> 0 < pc_StepSizeScaled c)
    \<and> denotes_at env (pc_MinQtyBase c) (pc_BaseQuantityScale c) (pc_MinQtyScaled c)
    \<and> denotes_at env (pc_MaxLimitQtyBase c) (pc_BaseQuantityScale c) (pc_MaxLimitQtyScaled c)
    \<and> denotes_at env (pc_MaxMarketQtyBase c) (pc_BaseQuantityScale c) (pc_MaxMarketQtyScaled c)"
proof -
  note rows = spot_rows [OF assms(1)]
  from assms(2) obtain p where p: "pairForSymbolLocked m s = Some p" "pairConstraints env (Some p) = Some c"
    by (auto simp: PairConstraintsForSymbol_def) (auto simp: pairConstraints_def split: option.splits)
  note by_id = row_found(2) [OF rows conjunct1 [OF found_row(1) [OF p(1)]]]
  have c: "pair_id p = Some (pc_SymbolID c)" "pc_Symbol c = pair_symbol p" "intField p base_scale_keys = Some (pc_BaseQuantityScale c)"
    "optionalScaledDecimal env (pc_TickSize c) PriceTickScale False = Some (pc_TickSizeTicks c)"
    "optionalScaledDecimal env (pc_StepSize c) (pc_BaseQuantityScale c) False = Some (pc_StepSizeScaled c)"
    "optionalScaledDecimal env (pc_MinQtyBase c) (pc_BaseQuantityScale c) True = Some (pc_MinQtyScaled c)"
    "optionalScaledDecimal env (pc_MaxLimitQtyBase c) (pc_BaseQuantityScale c) True = Some (pc_MaxLimitQtyScaled c)"
    "optionalScaledDecimal env (pc_MaxMarketQtyBase c) (pc_BaseQuantityScale c) True = Some (pc_MaxMarketQtyScaled c)"
    using p(2) by (auto simp: pairConstraints_def Let_def bind_eq_Some_conv split: if_splits sum.splits)
  from c(4) have "optionalScaledDecimal env (pc_TickSize c) 9 False = Some (pc_TickSizeTicks c)" by (simp add: PriceTickScale_def)
  with c(5-8) have "denotes_at env (pc_TickSize c) 9 (pc_TickSizeTicks c) \<and> (pc_TickSize c \<noteq> [] \<longrightarrow> 0 < pc_TickSizeTicks c)
    \<and> denotes_at env (pc_StepSize c) (pc_BaseQuantityScale c) (pc_StepSizeScaled c) \<and> (pc_StepSize c \<noteq> [] \<longrightarrow> 0 < pc_StepSizeScaled c)
    \<and> denotes_at env (pc_MinQtyBase c) (pc_BaseQuantityScale c) (pc_MinQtyScaled c)
    \<and> denotes_at env (pc_MaxLimitQtyBase c) (pc_BaseQuantityScale c) (pc_MaxLimitQtyScaled c)
    \<and> denotes_at env (pc_MaxMarketQtyBase c) (pc_BaseQuantityScale c) (pc_MaxMarketQtyScaled c)"
    by (auto dest: optionalScaledDecimal_exact)
  moreover have "pair_symbol p = s" using found_row(1) [OF p(1)] by blast
  ultimately show ?thesis using p c(1-3) by_id
    by (simp add: lookup_rows(1) [OF rows] PairConstraintsForSymbolID_def BaseQuantityScaleForSymbol_def)
qed

lemma sample_constraints: "PairConstraintsForSymbol sample_catalog_env sample_manager ''BTC-USDC'' \<noteq> None"
  by code_simp

theorem pair_constraints_exact_witness:
  "\<exists>c. PairConstraintsForSymbol sample_catalog_env sample_manager ''BTC-USDC'' = Some c \<and> pc_SymbolID c = 7
     \<and> denotes_at sample_catalog_env (pc_TickSize c) 9 (pc_TickSizeTicks c)"
proof -
  obtain c where c: "PairConstraintsForSymbol sample_catalog_env sample_manager ''BTC-USDC'' = Some c"
    using sample_constraints by blast
  from pair_constraints_exact [OF sample_manager_reachable c] c sample_manager_lookup show ?thesis by simp
qed

section \<open>The zipper catalog\<close>

text \<open>The abstract effect of updates: the last one for an id decides, and everything else stays.\<close>

definition supply_after :: "supply_update list \<Rightarrow> enriched_chain \<Rightarrow> string" where
  "supply_after updates c = (case filter (\<lambda>u. su_ZippedAssetID u = zt_ZippedAssetID (ec_terms c)) updates of
       [] \<Rightarrow> zt_Supply (ec_terms c) | us \<Rightarrow> su_Supply (last us))"

lemma map_of_rev_last:
  "map_of (rev (map (\<lambda>u. (f u, g u)) us)) k = (case filter (\<lambda>u. f u = k) us of [] \<Rightarrow> None | vs \<Rightarrow> Some (g (last vs)))"
  by (induction us rule: rev_induct) (auto split: list.splits)

lemma patch_chain_supply:
  "patch_chain (supply_by_id updates) c = c\<lparr>ec_terms := (ec_terms c)\<lparr>zt_Supply := supply_after updates c\<rparr>\<rparr>"
  by (auto simp: patch_chain_def supply_by_id_def map_of_rev_last supply_after_def split: list.splits)

text \<open>A supply patch sets every chain's supply to that of the last update for its zipped asset id and changes
  nothing else; it reports a change exactly when there is one.\<close>

theorem supply_patch_exact:
  assumes "mg_Zipper m = Some z"
  shows "PatchZipperSupply updates m =
    (let z' = z\<lparr>zz_Assets := map (\<lambda>a. a\<lparr>za_Chains :=
           map (\<lambda>c. c\<lparr>ec_terms := (ec_terms c)\<lparr>zt_Supply := supply_after updates c\<rparr>\<rparr>) (za_Chains a)\<rparr>) (zz_Assets z)\<rparr>
     in (m\<lparr>mg_Zipper := Some z'\<rparr>, z' \<noteq> z))"
proof -
  have same: "supply_after [] c = zt_Supply (ec_terms c)" for c by (simp add: supply_after_def)
  have keep: "z\<lparr>zz_Assets := as\<rparr> = z \<longleftrightarrow> as = zz_Assets z" for as
    by (cases z) auto
  have patch: "patch_chain (supply_by_id updates) = (\<lambda>c. c\<lparr>ec_terms := (ec_terms c)\<lparr>zt_Supply := supply_after updates c\<rparr>\<rparr>)"
    by (rule ext) (rule patch_chain_supply)
  have "m\<lparr>mg_Zipper := Some z\<rparr> = m" using assms by (cases m) simp
  with keep show ?thesis using assms
    by (auto simp: PatchZipperSupply_def PatchZipperCatalogSupply_def Let_def patch same)
qed

definition sample_terms :: asset_terms where
  "sample_terms = \<lparr>zt_ZippedAssetID = 3, zt_IsNativeAsset = False, zt_NetworkFee = ''1'', zt_NetworkFeeTsSec = 0, zt_DepositMinAmount = [],
     zt_WithdrawMinAmount = [], zt_Supply = ''10'', zt_SourceToken = \<lparr>tk_Address = [], tk_Decimals = 6\<rparr>,
     zt_ZToken = \<lparr>tk_Address = [], tk_Decimals = 6\<rparr>\<rparr>"

definition sample_chain :: chain_config where
  "sample_chain = \<lparr>zc_ChainID = 1, zc_Code = ''ETH'', zc_Name = [], zc_NativeChainID = [], zc_NativeCurrencySymbol = [], zc_ExplorerURL = [],
     zc_Icon = [], zc_RequiredConfirmations = 12, zc_ConfirmationTimeSeconds = 0, zc_IsCaseSensitive = False,
     zc_MinAddressLength = 0, zc_MaxAddressLength = 0\<rparr>"

definition sample_deposits :: deposit_withdraw_config where
  "sample_deposits = \<lparr>dw_Chains = [sample_chain],
     dw_Assets = [\<lparr>za_Asset = ''USDC'', za_LedgerID = 2, za_Name = [], za_Icon = [], za_QuantityScale = 6, za_QuantityDisplayDecimals = 2,
       za_UAssetID = [], za_Variants = [\<lparr>zv_ChainID = 1, zv_terms = sample_terms\<rparr>, \<lparr>zv_ChainID = 9, zv_terms = sample_terms\<lparr>zt_ZippedAssetID := 4\<rparr>\<rparr>]\<rparr>],
     dw_Contracts = [], dw_TsMs = 1500\<rparr>"

definition sample_zipper :: manager where
  "sample_zipper = fst (HydrateDepositWithdrawConfig sample_catalog_env (Some sample_deposits) sample_manager)"

lemma sample_zipper_reachable: "catalogs_reachable sample_catalog_env sample_zipper"
  unfolding sample_zipper_def by (blast intro: reach_step catalog_step.intros sample_manager_reachable)

lemma sample_zipper_typed: "mg_Zipper sample_zipper \<noteq> None"
  by code_simp

lemma map_fixed: "map f xs = xs \<Longrightarrow> x \<in> set xs \<Longrightarrow> f x = x"
  by (induction xs) auto

definition sample_updates :: "supply_update list" where
  "sample_updates = [\<lparr>su_ZippedAssetID = 3, su_Supply = ''11''\<rparr>, \<lparr>su_ZippedAssetID = 3, su_Supply = ''12''\<rparr>]"

lemma sample_after:
  "case mg_Zipper sample_zipper of None \<Rightarrow> False
   | Some z \<Rightarrow> list_ex (\<lambda>a. map (\<lambda>c. supply_after sample_updates c) (za_Chains a) \<noteq> map (\<lambda>c. zt_Supply (ec_terms c)) (za_Chains a)) (zz_Assets z)"
  by code_simp

theorem supply_patch_exact_witness: "snd (PatchZipperSupply sample_updates sample_zipper)"
proof -
  obtain z where z: "mg_Zipper sample_zipper = Some z" using sample_zipper_typed by blast
  let ?patch = "\<lambda>a. a\<lparr>za_Chains := map (\<lambda>c. c\<lparr>ec_terms := (ec_terms c)\<lparr>zt_Supply := supply_after sample_updates c\<rparr>\<rparr>) (za_Chains a)\<rparr>"
  from sample_after z obtain a where "a \<in> set (zz_Assets z)"
    "map (\<lambda>c. supply_after sample_updates c) (za_Chains a) \<noteq> map (\<lambda>c. zt_Supply (ec_terms c)) (za_Chains a)"
    by (auto simp: list_ex_iff)
  moreover have "map (\<lambda>c. zt_Supply (ec_terms c)) (za_Chains (?patch a)) = map (\<lambda>c. supply_after sample_updates c) (za_Chains a)"
    by simp
  ultimately have "?patch a \<noteq> a" "a \<in> set (zz_Assets z)" by metis+
  then have "map ?patch (zz_Assets z) \<noteq> zz_Assets z" using map_fixed by fast
  then have "zz_Assets (z\<lparr>zz_Assets := map ?patch (zz_Assets z)\<rparr>) \<noteq> zz_Assets z" by simp
  then have "z\<lparr>zz_Assets := map ?patch (zz_Assets z)\<rparr> \<noteq> z" by metis
  then show ?thesis using supply_patch_exact [OF z] by (simp add: Let_def)
qed

section \<open>Fields the checks do not cover\<close>

text \<open>A volume scale that is no number is read as the scale 0.\<close>

definition odd_spot :: object where
  "odd_spot = [(''pairs'', ListV [ObjectV (sample_pair @ [(''base_asset'', StringV ''BTC'')])]),
     (''assets'', ListV [ObjectV [(''asset'', StringV ''BTC''), (''market_data_volume_scale'', StringV ''eight'')]])]"

theorem malformed_volume_scale_zero:
  "MarketDataVolumeScaleForSymbolID (fst (HydrateSpotConfig sample_catalog_env (Some odd_spot) NewManager)) 7 = Some 0"
  by code_simp

text \<open>A raw zipper catalog that spells its ids \<open>ledger_id\<close> passes, and no ledger id is found in it.\<close>

definition snake_zipper :: object where
  "snake_zipper = [(''assets'', ListV [ObjectV [(''asset'', StringV ''USDC''), (''ledger_id'', IntV 2), (''quantity_scale'', IntV 6)]])]"

theorem snake_ledger_lost:
  "let (m, err) = HydrateZipperConfig sample_catalog_env (RawConfig (Some snake_zipper)) NewManager in
     err = None \<and> QuantityScaleForAsset m ''USDC'' = Some 6 \<and> LedgerIDForAsset m ''USDC'' = None"
  by code_simp

end
