(* ===== verification/OrderWaits.thy ===== *)
theory OrderWaits
  imports WireErrors OrderKeys
begin

text \<open>
  The methods of \<open>services/orders.go\<close> that poll: \<open>WaitBatchReplace\<close> and \<open>WaitForOrderTradesComplete\<close>, with
  \<open>getOrderExecutionPages\<close>. The answers of the reads, the clock and the ends of contexts are
  arguments, numbered by the turn of the loop; instants and durations are nanoseconds.
\<close>

section \<open>Waiting for a batch replacement\<close>

record batch_item =
  bi_ItemIndex :: u32
  bi_Phase :: string
  bi_OldOrderID :: string
  bi_ReplacementOrderID :: string
  bi_OrderStatus :: string
  bi_Code :: string
  bi_ErrorCode :: string
  bi_UpdatedTsNs :: u64
  bi_ActionTaken :: string

record batch_status =
  bt_BatchRequestID :: string
  bt_AdmissionStatus :: string
  bt_Items :: "batch_item list"
  bt_AcceptedCount :: int
  bt_RejectedCount :: int
  bt_AcceptedTsNs :: u64
  bt_UpdatedTsNs :: u64

definition IsBatchReplaceSettled :: "batch_status \<Rightarrow> bool" where
  "IsBatchReplaceSettled status \<longleftrightarrow> bt_Items status \<noteq> []
     \<and> list_all (\<lambda>item. bi_Phase item = ''working'' \<or> bi_Phase item = ''rejected'' \<or> bi_Phase item = ''terminal'') (bt_Items status)"

definition batchReplaceStatusWindow :: int where
  "batchReplaceStatusWindow = 60 * 1000000000"

definition batch_poll_first :: int where
  "batch_poll_first = 50 * 1000000"

definition batch_poll_max :: int where
  "batch_poll_max = 500 * 1000000"

definition batchStatusNotFound :: "'h api_error \<Rightarrow> bool" where
  "batchStatusNotFound e \<longleftrightarrow>
     find_map (\<lambda>l. case l of ApiErr _ code _ \<Rightarrow> Some code | _ \<Rightarrow> None) (sdk_links e) \<in> {Some ''not_found'', Some ''ERROR_CODE_NOT_FOUND''}"

definition readUnavailable :: "'h api_error \<Rightarrow> bool" where
  "readUnavailable e \<longleftrightarrow> (case e of ServerErr _ _ _ _ \<Rightarrow> True | TransportErr _ \<Rightarrow> True | _ \<Rightarrow> False)
     \<or> find_map (\<lambda>l. case l of ApiErr _ code _ \<Rightarrow> Some code | _ \<Rightarrow> None) (sdk_links e) = Some ''ERROR_CODE_UNAVAILABLE''"

text \<open>One turn: what the read answered, whether the caller's context or the read's own had ended by then, the
  clock after it, and whether the caller's context ended during the wait.\<close>

record 'h wait_turn =
  wt_answer :: "'h api_error + batch_status"
  wt_ctxEnded :: bool
  wt_readExpired :: bool
  wt_now :: int
  wt_waitEnded :: bool

datatype 'h wait_end = WaitSettled | WaitContext | WaitExpired | WaitFailed "'h api_error"

definition accepted_deadline :: "int \<Rightarrow> batch_status \<Rightarrow> int" where
  "accepted_deadline deadline status =
     (if bt_AcceptedTsNs status \<noteq> 0 then wrap64 (uint (bt_AcceptedTsNs status)) + batchReplaceStatusWindow else deadline)"

text \<open>What a turn's read does: it ends the wait, or leaves the last status and the deadline.\<close>

definition read_status ::
  "int \<Rightarrow> batch_status option \<Rightarrow> 'h wait_turn \<Rightarrow> ('h wait_end \<times> batch_status option) + (int \<times> batch_status option)" where
  "read_status deadline seen t =
     (if wt_ctxEnded t then Inl (WaitContext, seen)
      else case wt_answer t of
          Inl e \<Rightarrow>
            if wt_readExpired t then Inl (WaitExpired, seen)
            else if readUnavailable e \<or> batchStatusNotFound e then Inr (deadline, seen)
            else Inl (WaitFailed e, seen)
        | Inr status \<Rightarrow>
            if IsBatchReplaceSettled status then Inl (WaitSettled, Some status)
            else Inr (accepted_deadline deadline status, Some status))"

partial_function (option) wait_loop ::
  "(nat \<Rightarrow> 'h wait_turn) \<Rightarrow> nat \<Rightarrow> int \<Rightarrow> int \<Rightarrow> batch_status option \<Rightarrow> ('h wait_end \<times> batch_status option \<times> nat) option" where
  "wait_loop turns i deadline delay seen =
     (case read_status deadline seen (turns i) of
        Inl (r, st) \<Rightarrow> Some (r, st, Suc i)
      | Inr (deadline1, last1) \<Rightarrow>
          if wt_now (turns i) + delay > deadline1 then Some (WaitExpired, last1, Suc i)
          else if wt_waitEnded (turns i) then Some (WaitContext, last1, Suc i)
          else wait_loop turns (Suc i) deadline1 (min (2 * delay) batch_poll_max) last1)"

definition WaitBatchReplace :: "int \<Rightarrow> (nat \<Rightarrow> 'h wait_turn) \<Rightarrow> ('h wait_end \<times> batch_status option \<times> nat) option" where
  "WaitBatchReplace started turns = wait_loop turns 0 (started + batchReplaceStatusWindow) batch_poll_first None"

text \<open>The clock runs on by at least the shortest wait from turn to turn, and no status claims an
  acceptance after the limit that the deadlines are measured from.\<close>

definition clock_runs :: "(nat \<Rightarrow> 'h wait_turn) \<Rightarrow> bool" where
  "clock_runs turns \<longleftrightarrow> (\<forall>i. wt_now (turns i) + batch_poll_first \<le> wt_now (turns (Suc i)))"

definition accepted_by :: "int \<Rightarrow> (nat \<Rightarrow> 'h wait_turn) \<Rightarrow> bool" where
  "accepted_by limit turns \<longleftrightarrow> (\<forall>i status. wt_answer (turns i) = Inr status \<longrightarrow> wrap64 (uint (bt_AcceptedTsNs status)) \<le> limit)"

text \<open>What a result says of the last turn.\<close>

definition wait_ok :: "(nat \<Rightarrow> 'h wait_turn) \<Rightarrow> 'h wait_end \<Rightarrow> batch_status option \<Rightarrow> nat \<Rightarrow> bool" where
  "wait_ok turns r st n \<longleftrightarrow> (case r of
       WaitSettled \<Rightarrow> \<exists>status. st = Some status \<and> wt_answer (turns (n - 1)) = Inr status \<and> IsBatchReplaceSettled status
     | WaitContext \<Rightarrow> wt_ctxEnded (turns (n - 1)) \<or> wt_waitEnded (turns (n - 1))
     | WaitExpired \<Rightarrow> True
     | WaitFailed e \<Rightarrow> wt_answer (turns (n - 1)) = Inl e \<and> \<not> readUnavailable e \<and> \<not> batchStatusNotFound e)
     \<and> (r \<noteq> WaitSettled \<longrightarrow> (case st of None \<Rightarrow> True | Some status \<Rightarrow> \<not> IsBatchReplaceSettled status))"

lemma read_status_end:
  "read_status deadline seen t = Inl (r, st) \<Longrightarrow> (case seen of None \<Rightarrow> True | Some status \<Rightarrow> \<not> IsBatchReplaceSettled status) \<Longrightarrow>
    (case r of WaitSettled \<Rightarrow> \<exists>status. st = Some status \<and> wt_answer t = Inr status \<and> IsBatchReplaceSettled status
     | WaitContext \<Rightarrow> wt_ctxEnded t | WaitExpired \<Rightarrow> True
     | WaitFailed e \<Rightarrow> wt_answer t = Inl e \<and> \<not> readUnavailable e \<and> \<not> batchStatusNotFound e)
    \<and> (r \<noteq> WaitSettled \<longrightarrow> (case st of None \<Rightarrow> True | Some status \<Rightarrow> \<not> IsBatchReplaceSettled status))"
  by (auto simp: read_status_def split: sum.splits if_splits)

lemma read_status_go:
  "read_status deadline seen t = Inr (d, st) \<Longrightarrow> (case seen of None \<Rightarrow> True | Some status \<Rightarrow> \<not> IsBatchReplaceSettled status) \<Longrightarrow>
    (case st of None \<Rightarrow> True | Some status \<Rightarrow> \<not> IsBatchReplaceSettled status)
    \<and> (d = deadline \<or> (\<exists>status. wt_answer t = Inr status \<and> d = wrap64 (uint (bt_AcceptedTsNs status)) + batchReplaceStatusWindow))"
  by (auto simp: read_status_def accepted_deadline_def split: sum.splits if_splits)

lemma wait_loop_returns:
  assumes "clock_runs turns" and "accepted_by limit turns"
    and "deadline \<le> limit + batchReplaceStatusWindow" and "batch_poll_first \<le> delay"
    and "case seen of None \<Rightarrow> True | Some status \<Rightarrow> \<not> IsBatchReplaceSettled status"
  shows "\<exists>r st n. wait_loop turns i deadline delay seen = Some (r, st, n) \<and> i < n \<and> wait_ok turns r st n
    \<and> (\<forall>j. i \<le> j \<and> j < n - 1 \<longrightarrow> wt_now (turns j) < limit + batchReplaceStatusWindow)"
  using assms(3-5)
proof (induction "nat (limit + batchReplaceStatusWindow - wt_now (turns i))" arbitrary: i deadline delay seen rule: less_induct)
  case less
  show ?case
  proof (cases "read_status deadline seen (turns i)")
    case (Inl p)
    then obtain r st where p: "read_status deadline seen (turns i) = Inl (r, st)" by (cases p) auto
    then have "wait_loop turns i deadline delay seen = Some (r, st, Suc i)" by (simp add: wait_loop.simps)
    moreover from read_status_end [OF p less.prems(3)] have "wait_ok turns r st (Suc i)"
      by (auto simp: wait_ok_def split: wait_end.splits)
    ultimately show ?thesis by fastforce
  next
    case (Inr p)
    then obtain d st where p: "read_status deadline seen (turns i) = Inr (d, st)" by (cases p) auto
    from read_status_go [OF p less.prems(3)] assms(2) less.prems(1)
    have st: "case st of None \<Rightarrow> True | Some status \<Rightarrow> \<not> IsBatchReplaceSettled status" and d: "d \<le> limit + batchReplaceStatusWindow"
      by (auto simp: accepted_by_def)
    have eq: "wait_loop turns i deadline delay seen =
       (if wt_now (turns i) + delay > d then Some (WaitExpired, st, Suc i)
        else if wt_waitEnded (turns i) then Some (WaitContext, st, Suc i)
        else wait_loop turns (Suc i) d (min (2 * delay) batch_poll_max) st)"
      using p by (subst wait_loop.simps) simp
    show ?thesis
    proof (cases "wt_now (turns i) + delay > d \<or> wt_waitEnded (turns i)")
      case True
      with eq st show ?thesis by (auto simp: wait_ok_def intro!: exI [of _ "Suc i"])
    next
      case False
      have pos: "0 < batch_poll_first" "batch_poll_first \<le> batch_poll_max" by (simp_all add: batch_poll_first_def batch_poll_max_def)
      have run: "wt_now (turns i) + batch_poll_first \<le> wt_now (turns (Suc i))" using assms(1) by (simp add: clock_runs_def)
      have before: "wt_now (turns i) < limit + batchReplaceStatusWindow" using False d pos less.prems(2) by linarith
      with run pos have "nat (limit + batchReplaceStatusWindow - wt_now (turns (Suc i))) < nat (limit + batchReplaceStatusWindow - wt_now (turns i))"
        by linarith
      moreover have "batch_poll_first \<le> min (2 * delay) batch_poll_max" using pos less.prems(2) by simp
      ultimately obtain r st' n where n: "wait_loop turns (Suc i) d (min (2 * delay) batch_poll_max) st = Some (r, st', n)" "Suc i < n"
        "wait_ok turns r st' n" "\<forall>j. Suc i \<le> j \<and> j < n - 1 \<longrightarrow> wt_now (turns j) < limit + batchReplaceStatusWindow"
        using less.hyps [OF _ d _ st] by blast
      moreover have "wait_ok turns r st' n" using n(3) by (simp add: wait_ok_def)
      moreover have "wt_now (turns j) < limit + batchReplaceStatusWindow" if "i \<le> j" "j < n - 1" for j
        using n(4) before that by (cases "j = i") auto
      ultimately show ?thesis using eq False by fastforce
    qed
  qed
qed


definition always_admitted :: "nat \<Rightarrow> unit wait_turn" where
  "always_admitted i = \<lparr>wt_answer = Inr \<lparr>bt_BatchRequestID = ''b'', bt_AdmissionStatus = ''accepted'',
       bt_Items = [\<lparr>bi_ItemIndex = 0, bi_Phase = ''admitted'', bi_OldOrderID = ''o'', bi_ReplacementOrderID = [], bi_OrderStatus = [],
         bi_Code = [], bi_ErrorCode = [], bi_UpdatedTsNs = 0, bi_ActionTaken = []\<rparr>],
       bt_AcceptedCount = 1, bt_RejectedCount = 0, bt_AcceptedTsNs = 0, bt_UpdatedTsNs = 0\<rparr>,
     wt_ctxEnded = False, wt_readExpired = False, wt_now = int i * 600000000, wt_waitEnded = False\<rparr>"


section \<open>The pages of an order's executions\<close>

text \<open>An answer of \<open>Get\<close>, with the order's id and cumulative quantity and each trade's quantity.\<close>

record ('t, 'f) order_page =
  op_Order :: "(string \<times> int) option"
  op_Trades :: "('t \<times> int) list"
  op_Transfers :: "'f list"
  op_NextPageToken :: string

text \<open>The loop reads until a page names no next one; the id in an answer becomes the key of the next reads.\<close>

partial_function (option) execution_pages ::
  "(order_key \<Rightarrow> string option \<Rightarrow> 'e + ('t, 'f) order_page) \<Rightarrow> order_key \<Rightarrow> string option \<Rightarrow> (string \<times> int) option
    \<Rightarrow> ('t \<times> int) list \<Rightarrow> 'f list \<Rightarrow> ('e + ('t, 'f) order_page) option" where
  "execution_pages get key pageToken order trades transfers =
     (case get key pageToken of
        Inl e \<Rightarrow> Some (Inl e)
      | Inr page \<Rightarrow>
          let key1 = (case op_Order page of Some (i, _) \<Rightarrow> if i \<noteq> [] then OrderKeyByID i else key | None \<Rightarrow> key);
              order1 = (if op_Order page \<noteq> None then op_Order page else order);
              trades1 = trades @ op_Trades page;
              transfers1 = transfers @ op_Transfers page in
          if op_NextPageToken page = []
          then Some (Inr \<lparr>op_Order = order1, op_Trades = trades1, op_Transfers = transfers1, op_NextPageToken = []\<rparr>)
          else execution_pages get key1 (Some (op_NextPageToken page)) order1 trades1 transfers1)"

definition getOrderExecutionPages ::
  "(order_key \<Rightarrow> string option \<Rightarrow> 'e + ('t, 'f) order_page) \<Rightarrow> order_key \<Rightarrow> ('e + ('t, 'f) order_page) option" where
  "getOrderExecutionPages get key = execution_pages get key None None [] []"

text \<open>A server that holds a list of pages, each naming the next by its token, whatever key it is asked with.\<close>

fun serves_pages :: "(order_key \<Rightarrow> string option \<Rightarrow> 'e + ('t, 'f) order_page) \<Rightarrow> string option \<Rightarrow> ('t, 'f) order_page list \<Rightarrow> bool" where
  "serves_pages get token [] \<longleftrightarrow> False"
| "serves_pages get token [p] \<longleftrightarrow> (\<forall>k. get k token = Inr p) \<and> op_NextPageToken p = []"
| "serves_pages get token (p # q # ps) \<longleftrightarrow> (\<forall>k. get k token = Inr p) \<and> op_NextPageToken p \<noteq> []
     \<and> serves_pages get (Some (op_NextPageToken p)) (q # ps)"

lemma execution_pages_served:
  "serves_pages get token ps \<Longrightarrow> \<exists>result. execution_pages get key token order trades transfers = Some (Inr result)
    \<and> op_Trades result = trades @ concat (map op_Trades ps) \<and> op_Transfers result = transfers @ concat (map op_Transfers ps)
    \<and> op_Order result = fold (\<lambda>p o'. if op_Order p \<noteq> None then op_Order p else o') ps order"
proof (induction get token ps arbitrary: key order trades transfers rule: serves_pages.induct)
  case (3 get token p q ps)
  let ?key = "case op_Order p of Some (i, _) \<Rightarrow> if i \<noteq> [] then OrderKeyByID i else key | None \<Rightarrow> key"
    and ?order = "if op_Order p \<noteq> None then op_Order p else order"
  from 3(2) have "execution_pages get key token order trades transfers
      = execution_pages get ?key (Some (op_NextPageToken p)) ?order (trades @ op_Trades p) (transfers @ op_Transfers p)"
    by (subst execution_pages.simps) (simp add: Let_def)
  with 3(1) [of ?key ?order "trades @ op_Trades p" "transfers @ op_Transfers p"] 3(2) show ?case by auto
qed (simp_all add: execution_pages.simps Let_def)

text \<open>The executions of an order are read to the end: from a server that holds them in pages, every trade and
  transfer of every page is returned, in order and once.\<close>

theorem execution_pages_complete:
  assumes "serves_pages get None ps"
  shows "\<exists>result. getOrderExecutionPages get key = Some (Inr result) \<and> op_Trades result = concat (map op_Trades ps)
    \<and> op_Transfers result = concat (map op_Transfers ps)"
  using execution_pages_served [OF assms, of key None "[]" "[]"] by (auto simp: getOrderExecutionPages_def)

definition sample_pages :: "(nat, unit) order_page list" where
  "sample_pages = [\<lparr>op_Order = Some (''o1'', 5), op_Trades = [(1, 2)], op_Transfers = [], op_NextPageToken = ''t''\<rparr>,
     \<lparr>op_Order = None, op_Trades = [(2, 3)], op_Transfers = [()], op_NextPageToken = []\<rparr>]"

definition sample_get :: "order_key \<Rightarrow> string option \<Rightarrow> unit + (nat, unit) order_page" where
  "sample_get k token = Inr (sample_pages ! (if token = None then 0 else 1))"

theorem execution_pages_complete_witness:
  "\<exists>result. getOrderExecutionPages sample_get (OrderKeyByClientID ''c'') = Some (Inr result) \<and> map fst (op_Trades result) = [1, 2]"
proof -
  have "serves_pages sample_get None sample_pages" by (simp add: sample_pages_def sample_get_def)
  from execution_pages_complete [OF this, of "OrderKeyByClientID ''c''"] show ?thesis by (force simp: sample_pages_def)
qed

text \<open>Nothing bounds the loop: from a server that always names a next page it does not return.\<close>

lemma execution_pages_some:
  assumes "execution_pages get key token order trades transfers = Some r"
  shows "\<not> (\<forall>k t. \<exists>page. get k t = Inr page \<and> op_NextPageToken page \<noteq> [])"
  using assms
proof (induction get key token order trades transfers r
    rule: execution_pages.raw_induct [rotated, consumes 1, case_names step])
  case (step f get key token order trades transfers r)
  show ?case
  proof
    assume always: "\<forall>k t. \<exists>page. get k t = Inr page \<and> op_NextPageToken page \<noteq> []"
    then obtain page where "get key token = Inr page" "op_NextPageToken page \<noteq> []" by blast
    with step(2) have "\<exists>k t or tr tf. f get k t or tr tf = Some r" by (simp add: Let_def) (intro exI)
    with step(1) always show False by blast
  qed
qed

lemma execution_pages_endless:
  assumes "\<And>k t. \<exists>page. get k t = Inr page \<and> op_NextPageToken page \<noteq> []"
  shows "execution_pages get key token order trades transfers = None"
  using assms execution_pages_some [of get key token order trades transfers]
  by (cases "execution_pages get key token order trades transfers") auto

section \<open>Waiting for the trades of an order\<close>

fun sumTradeQty :: "('t \<times> int) list \<Rightarrow> int" where
  "sumTradeQty trades = fold (\<lambda>(_, qty) n. wrap64 (n + qty)) trades 0"

definition orderTradesComplete :: "('t, 'f) order_page \<Rightarrow> bool" where
  "orderTradesComplete detail \<longleftrightarrow> (case op_Order detail of None \<Rightarrow> False | Some (_, cumQty) \<Rightarrow> sumTradeQty (op_Trades detail) = cumQty)"

record ('e, 't, 'f) trades_turn =
  tt_ctxEnded :: bool
  tt_answer :: "'e + ('t, 'f) order_page"
  tt_now :: int
  tt_waitEnded :: bool

datatype 'e trades_end = TradesComplete | TradesContext | TradesFailed 'e | TradesTimeout

partial_function (option) trades_loop ::
  "(nat \<Rightarrow> ('e, 't, 'f) trades_turn) \<Rightarrow> nat \<Rightarrow> int \<Rightarrow> ('t, 'f) order_page option \<Rightarrow> ('e trades_end \<times> ('t, 'f) order_page option) option" where
  "trades_loop turns i deadline seen =
     (let t = turns i in
      if tt_ctxEnded t then Some (TradesContext, seen)
      else case tt_answer t of
          Inl e \<Rightarrow> Some (TradesFailed e, seen)
        | Inr detail \<Rightarrow>
            if op_Order detail \<noteq> None \<and> orderTradesComplete detail then Some (TradesComplete, Some detail)
            else if tt_now t > deadline then Some (TradesTimeout, Some detail)
            else if tt_waitEnded t then Some (TradesContext, Some detail)
            else trades_loop turns (Suc i) deadline (Some detail))"

definition WaitForOrderTradesComplete ::
  "int \<Rightarrow> int \<Rightarrow> (nat \<Rightarrow> ('e, 't, 'f) trades_turn) \<Rightarrow> ('e trades_end \<times> ('t, 'f) order_page option) option" where
  "WaitForOrderTradesComplete started timeout turns =
     trades_loop turns 0 (started + (if timeout \<le> 0 then 15 * 1000000000 else timeout)) None"

definition trades_poll :: int where
  "trades_poll = 100 * 1000000"

lemma trades_loop_returns:
  assumes "\<forall>i. tt_now (turns i) + trades_poll \<le> tt_now (turns (Suc i))"
  shows "\<exists>r seen'. trades_loop turns i deadline seen = Some (r, seen') \<and> (r = TradesComplete \<longrightarrow> (\<exists>detail. seen' = Some detail \<and> orderTradesComplete detail))"
proof (induction "nat (deadline + 1 - tt_now (turns i))" arbitrary: i seen rule: less_induct)
  case less
  have next_turn: "tt_now (turns i) < tt_now (turns (Suc i))"
    using assms [rule_format, of i] by (simp add: trades_poll_def)
  show ?case
  proof (cases "tt_now (turns i) > deadline")
    case True
    then show ?thesis by (subst trades_loop.simps) (auto simp: Let_def split: sum.splits)
  next
    case False
    with next_turn have "nat (deadline + 1 - tt_now (turns (Suc i))) < nat (deadline + 1 - tt_now (turns i))" by linarith
    from less [OF this] show ?thesis by (subst trades_loop.simps) (auto simp: Let_def split: sum.splits)
  qed
qed

text \<open>Waiting for an order's trades returns, at the latest after the first read past its deadline, and reports
  completion only when the quantities of the trades read add up to the order's filled quantity.\<close>

theorem wait_trades_returns:
  assumes "\<forall>i. tt_now (turns i) + trades_poll \<le> tt_now (turns (Suc i))"
  shows "\<exists>r seen. WaitForOrderTradesComplete started timeout turns = Some (r, seen)
    \<and> (r = TradesComplete \<longrightarrow> (\<exists>detail. seen = Some detail \<and> orderTradesComplete detail))"
  using trades_loop_returns [OF assms] by (simp add: WaitForOrderTradesComplete_def)

definition lagging_turns :: "nat \<Rightarrow> (unit, nat, unit) trades_turn" where
  "lagging_turns i = \<lparr>tt_ctxEnded = False, tt_answer = Inr \<lparr>op_Order = Some (''o1'', 5),
       op_Trades = (if i < 2 then [] else [(1, 2), (2, 3)]), op_Transfers = [], op_NextPageToken = []\<rparr>,
     tt_now = int i * 200000000, tt_waitEnded = False\<rparr>"

theorem wait_trades_returns_witness:
  "\<exists>r seen. WaitForOrderTradesComplete 0 0 lagging_turns = Some (r, seen) \<and> (r = TradesComplete \<longrightarrow> seen \<noteq> None)"
proof -
  have "\<forall>i. tt_now (lagging_turns i) + trades_poll \<le> tt_now (lagging_turns (Suc i))" by (simp add: lagging_turns_def trades_poll_def)
  from wait_trades_returns [OF this] show ?thesis by blast
qed

end
