(* ===== verification/ServiceScope.thy ===== *)
theory ServiceScope
  imports Catalogs OrderEncode
begin

text \<open>
  What every trading service does before it encodes a request: \<open>services/scope.go\<close> (which sub-account a call
  is for), \<open>services/symbols.go\<close> (which market), \<open>services/pagination.go\<close>. A Go \<open>any\<close> that names an account is
  the few shapes the code tells apart.
\<close>

section \<open>Accounts\<close>

datatype account_scope = NoAccount | AccountText string | AccountDict "(string \<times> string) list" | AccountOther

definition ResolveSubAccountID :: "string option \<Rightarrow> string option \<Rightarrow> string option" where
  "ResolveSubAccountID value defaultVal =
     (if value = Some [] then None else if value \<noteq> None then value else if defaultVal = Some [] then None else defaultVal)"

definition dict_text :: "(string \<times> string) list \<Rightarrow> string \<Rightarrow> string" where
  "dict_text d key = (case map_of d key of None \<Rightarrow> [] | Some v \<Rightarrow> v)"

definition ScopedSubAccountID :: "account_scope \<Rightarrow> string option \<Rightarrow> string option \<Rightarrow> (string option) res" where
  "ScopedSubAccountID account subAccountID defaultVal =
     (if subAccountID \<noteq> None \<and> account \<noteq> NoAccount then Inl (ValidationError ''Pass account or sub_account_id, not both'')
      else if subAccountID \<noteq> None then Inr (ResolveSubAccountID subAccountID defaultVal)
      else case account of
          NoAccount \<Rightarrow> Inr (ResolveSubAccountID None defaultVal)
        | AccountText v \<Rightarrow>
            if v = ''active'' \<or> v = ''main'' then Inr (ResolveSubAccountID None defaultVal)
            else Inr (ResolveSubAccountID (Some v) defaultVal)
        | AccountDict v \<Rightarrow>
            let scoped = (if dict_text v ''subaccountId'' = [] then dict_text v ''sub_account_id'' else dict_text v ''subaccountId'') in
            if scoped = [] then Inl (ValidationError ''account dict requires subaccountId or sub_account_id'') else Inr (Some scoped)
        | AccountOther \<Rightarrow> Inl (ValidationError (''account must be '' @ squoted ''main'' @ '', '' @ squoted ''active''
            @ '', a subaccount id, or a dict'')))"

definition ApplyOptionalSubaccountID ::
  "(byte list \<Rightarrow> string) \<Rightarrow> (string \<Rightarrow> byte list option) \<Rightarrow> string option \<Rightarrow> account_scope \<Rightarrow> string option \<Rightarrow> (u64 option) res" where
  "ApplyOptionalSubaccountID enc dec defaultVal account subAccountID =
     bind_res (ScopedSubAccountID account subAccountID defaultVal) (\<lambda>sub. ParseOptionalSubaccountID enc dec sub)"

definition ResolveAccountID :: "string \<Rightarrow> string \<Rightarrow> string res" where
  "ResolveAccountID value defaultVal =
     (if value \<noteq> [] then Inr value else if defaultVal \<noteq> [] then Inr defaultVal
      else Inl (ValidationError ''account_id is required; set POLYESTER_ACCOUNT_ID or pass account_id explicitly''))"

section \<open>Markets\<close>

definition ResolveSymbolID :: "manager option \<Rightarrow> string option \<Rightarrow> u32 option \<Rightarrow> string \<Rightarrow> u32 res" where
  "ResolveSymbolID cats symbol symbolID label = (case symbolID of
       Some i \<Rightarrow> Inr i
     | None \<Rightarrow> (case symbol of
           None \<Rightarrow> Inl (ValidationError (label @ '' requires symbol or symbol_id''))
         | Some s \<Rightarrow> (case Option.bind cats (\<lambda>m. SymbolIDForSymbol m s) of
               Some i \<Rightarrow> Inr i
             | None \<Rightarrow> Inl (ValidationError (''Unknown symbol '' @ squoted s @ ''; call get_spot_config first or pass symbol_id'')))))"

definition ResolveOptionalSymbolID :: "manager option \<Rightarrow> string option \<Rightarrow> u32 option \<Rightarrow> string \<Rightarrow> u32 res" where
  "ResolveOptionalSymbolID cats symbol symbolID label = (case symbolID of
       Some i \<Rightarrow> Inr i
     | None \<Rightarrow> (case symbol of
           None \<Rightarrow> Inr 0
         | Some s \<Rightarrow> if trim_space s = [] then Inr 0 else ResolveSymbolID cats (Some (trim_space s)) None label))"

fun resolve_each :: "manager option \<Rightarrow> string \<Rightarrow> string list \<Rightarrow> (u32 list) res" where
  "resolve_each cats label [] = Inr []"
| "resolve_each cats label (s # ss) =
     bind_res (ResolveSymbolID cats (Some s) None label) (\<lambda>i. bind_res (resolve_each cats label ss) (\<lambda>is. Inr (i # is)))"

text \<open>The first occurrence of each id, in order.\<close>

fun first_seen :: "u32 list \<Rightarrow> u32 list \<Rightarrow> u32 list" where
  "first_seen seen [] = []"
| "first_seen seen (i # is) = (if i \<in> set seen then first_seen seen is else i # first_seen (i # seen) is)"

definition ResolveCancelAllSymbolIDs ::
  "manager option \<Rightarrow> string option \<Rightarrow> string list \<Rightarrow> u32 list \<Rightarrow> string \<Rightarrow> (u32 list) res" where
  "ResolveCancelAllSymbolIDs cats symbol symbols symbolIDs label =
     (let normalizedSymbol = (case symbol of None \<Rightarrow> [] | Some s \<Rightarrow> trim_space s);
          normalizedSymbols = filter (\<lambda>s. s \<noteq> []) (map trim_space symbols);
          selected = (if normalizedSymbol \<noteq> [] then 1 else 0) + (if normalizedSymbols \<noteq> [] then 1 else 0)
            + (if symbolIDs \<noteq> [] then 1 else 0 :: nat) in
      if selected > 1 then Inl (ValidationError (label @ '' accepts only one of symbol, symbols, or symbol_ids''))
      else
        bind_res
          (if symbolIDs \<noteq> []
           then if 0 \<in> set symbolIDs then Inl (ValidationError (label @ '' symbol_ids must be positive'')) else Inr symbolIDs
           else if normalizedSymbol \<noteq> [] then bind_res (ResolveSymbolID cats (Some normalizedSymbol) None (label @ '' symbol'')) (\<lambda>i. Inr [i])
           else resolve_each cats (label @ '' symbols'') normalizedSymbols) (\<lambda>resolved.
        let unique = first_seen [] resolved in
        if length unique > 100 then Inl (ValidationError (label @ '' accepts at most 100 symbol_ids'')) else Inr unique))"

section \<open>Scales\<close>

definition QuantityScaleForSymbol :: "manager option \<Rightarrow> string option \<Rightarrow> int res" where
  "QuantityScaleForSymbol cats symbol = (case (cats, symbol) of
       (Some m, Some s) \<Rightarrow>
         if s = [] then Inl (ValidationError ''quantity scale requires catalogs and symbol'')
         else (case BaseQuantityScaleForSymbol m s of
             Some scale \<Rightarrow> Inr scale
           | None \<Rightarrow> Inl (ValidationError (''quantity scale for '' @ s
               @ '' is unavailable; call WaitForCatalogs before placing orders, or pass a scaled Quantity'')))
     | _ \<Rightarrow> Inl (ValidationError ''quantity scale requires catalogs and symbol''))"

definition QuoteQuantityScaleForSymbol' :: "manager option \<Rightarrow> string option \<Rightarrow> int res" where
  "QuoteQuantityScaleForSymbol' cats symbol = (case (cats, symbol) of
       (Some m, Some s) \<Rightarrow>
         if s = [] then Inl (ValidationError ''quote quantity scale requires catalogs and symbol'')
         else (case QuoteQuantityScaleForSymbol m s of
             Some scale \<Rightarrow> Inr scale
           | None \<Rightarrow> Inl (ValidationError (''quote quantity scale for '' @ s
               @ '' is unavailable; call WaitForCatalogs before placing quote-budget orders'')))
     | _ \<Rightarrow> Inl (ValidationError ''quote quantity scale requires catalogs and symbol''))"

section \<open>Page sizes\<close>

definition PaginationLimit :: "int \<Rightarrow> string \<Rightarrow> u32 res" where
  "PaginationLimit limit label =
     (if limit < 0 then Inl (ValidationError (label @ '' must be non-negative''))
      else if limit > 4294967295 then Inl (ValidationError (label @ '' '' @ itoa limit @ '' exceeds uint32 range''))
      else Inr (word_of_int limit))"

definition PaginationLimitOrDefault :: "int \<Rightarrow> u32 \<Rightarrow> string \<Rightarrow> u32 res" where
  "PaginationLimitOrDefault limit fallback label = (if limit = 0 then Inr fallback else PaginationLimit limit label)"

definition ExplicitPaginationLimit :: "int option \<Rightarrow> string \<Rightarrow> (u32 option) res" where
  "ExplicitPaginationLimit limit label = (case limit of
       None \<Rightarrow> Inr None
     | Some n \<Rightarrow>
         if n \<le> 0 then Inl (ValidationError (label @ '' must be positive when explicitly supplied''))
         else bind_res (PaginationLimit n label) (\<lambda>value. Inr (Some value)))"

end
