(* ===== verification/OrdersService.thy ===== *)
theory OrdersService
  imports ServiceScope OrderBatches WireErrors
begin

text \<open>
  \<open>services/orders.go\<close>: each method up to the call, from what the caller passes and what the client holds to the
  request that is sent; and the two methods that poll. Answers of the server, already decoded or mapped
  to errors, are arguments, as is what waiting for the catalogs returned (\<open>ensureCatalogs\<close>).
\<close>

section \<open>The service\<close>

record orders_service =
  sv_catalogs :: "manager option"
  sv_default :: "string option"
  sv_catalogError :: "sdk_error option"

record codec_env =
  cd_enc :: "byte list \<Rightarrow> string"
  cd_dec :: "string \<Rightarrow> byte list option"
  cd_time :: "string \<Rightarrow> int option"
  cd_now :: "nat \<Rightarrow> int"
  cd_random :: "byte list"

definition ensureCatalogs :: "orders_service \<Rightarrow> unit res" where
  "ensureCatalogs s = (case sv_catalogError s of Some e \<Rightarrow> Inl e | None \<Rightarrow> Inr ())"

definition scoped :: "orders_service \<Rightarrow> account_scope \<Rightarrow> string option \<Rightarrow> (string option) res" where
  "scoped s account subAccountID = ScopedSubAccountID account subAccountID (sv_default s)"

definition scoped_id :: "codec_env \<Rightarrow> orders_service \<Rightarrow> account_scope \<Rightarrow> string option \<Rightarrow> (u64 option) res" where
  "scoped_id env s account subAccountID = ApplyOptionalSubaccountID (cd_enc env) (cd_dec env) (sv_default s) account subAccountID"

section \<open>The market and scales of an order\<close>

text \<open>The symbol and id of an order are made to name one market of the catalog, or the order is refused.\<close>

definition resolveOrderSymbolID ::
  "manager option \<Rightarrow> create_order_request \<Rightarrow> string option \<Rightarrow> string \<Rightarrow> create_order_request res" where
  "resolveOrderSymbolID c req fallback label =
     (let symbol = (if cr_symbol req = None \<and> cr_symbolID req = None then fallback else cr_symbol req) in
      bind_res (ResolveSymbolID c symbol (cr_symbolID req) label) (\<lambda>i.
      if i = 0 then Inl (ValidationError (label @ '' requires a resolved non-zero symbol_id''))
      else case c of
          None \<Rightarrow> Inl (ValidationError (label @ '' quantity scale is unavailable; hydrate catalogs''))
        | Some m \<Rightarrow> (case SymbolForSymbolID m i of
              None \<Rightarrow> Inl (ValidationError (label @ '' quantity scale is unavailable for symbol_id; hydrate catalogs''))
            | Some canonical \<Rightarrow>
                if cr_symbol req \<noteq> None \<and> cr_symbol req \<noteq> Some canonical
                then Inl (ValidationError (label @ '' symbol mismatch: supplied symbol does not match symbol_id''))
                else Inr (req\<lparr>cr_symbolID := Some i, cr_symbol := Some canonical\<rparr>))))"

definition quantityScaleForOrderWrite :: "manager option \<Rightarrow> string option \<Rightarrow> u32 option \<Rightarrow> int res" where
  "quantityScaleForOrderWrite c symbol symbolID = (case symbolID of
       None \<Rightarrow> QuantityScaleForSymbol c symbol
     | Some i \<Rightarrow> (case c of
           None \<Rightarrow> Inl (ValidationError ''quantity scale requires catalogs and symbol'')
         | Some m \<Rightarrow> (case BaseQuantityScaleForSymbolID m i of
               Some scale \<Rightarrow> Inr scale
             | None \<Rightarrow> Inl (ValidationError ''quantity scale for symbol_id is unavailable; call WaitForCatalogs before placing orders''))))"

definition quoteQuantityScaleForOrderWrite :: "manager option \<Rightarrow> string option \<Rightarrow> u32 option \<Rightarrow> bool \<Rightarrow> int res" where
  "quoteQuantityScaleForOrderWrite c symbol symbolID needed =
     (if \<not> needed then Inr 0
      else case symbolID of
          None \<Rightarrow> QuoteQuantityScaleForSymbol' c symbol
        | Some i \<Rightarrow> (case c of
              None \<Rightarrow> Inl (ValidationError ''quote quantity scale requires catalogs and symbol'')
            | Some m \<Rightarrow> (case QuoteQuantityScaleForSymbolID m i of
                  Some scale \<Rightarrow> Inr scale
                | None \<Rightarrow> Inl (ValidationError
                    ''quote quantity scale for symbol_id is unavailable; call WaitForCatalogs before placing quote-budget orders''))))"

text \<open>What \<open>Create\<close>, \<open>Preview\<close> and each item of \<open>BatchCreate\<close> do: the order with its market, and both scales.\<close>

definition resolve_order ::
  "manager option \<Rightarrow> create_order_request \<Rightarrow> string option \<Rightarrow> string \<Rightarrow> bool \<Rightarrow> (create_order_request \<times> order_scales) res" where
  "resolve_order c req fallback label needQuote =
     bind_res (resolveOrderSymbolID c req fallback label) (\<lambda>r.
     bind_res (quantityScaleForOrderWrite c (cr_symbol r) (cr_symbolID r)) (\<lambda>base.
     bind_res (quoteQuantityScaleForOrderWrite c (cr_symbol r) (cr_symbolID r) needQuote) (\<lambda>quote.
     Inr (r, \<lparr>os_Base = base, os_Quote = quote\<rparr>))))"

section \<open>Requests\<close>

definition create_request ::
  "codec_env \<Rightarrow> orders_service \<Rightarrow> create_order_request \<Rightarrow> account_scope \<Rightarrow> create_order_message res" where
  "create_request env s req account =
     bind_res (ensureCatalogs s) (\<lambda>_.
     bind_res (scoped s account (cr_subAccountID req)) (\<lambda>sub.
     bind_res (resolve_order (sv_catalogs s) (req\<lparr>cr_subAccountID := sub\<rparr>) None ''orders.create'' (qty_IsSet (cr_maxQuoteDebit req))) (\<lambda>(r, scales).
     CreateOrderToProto (cd_enc env) (cd_dec env) (cd_time env) (cd_now env 0) r (os_Base scales) (os_Quote scales))))"

definition preview_request ::
  "codec_env \<Rightarrow> orders_service \<Rightarrow> create_order_request \<Rightarrow> account_scope \<Rightarrow> create_order_message res" where
  "preview_request env s req account =
     bind_res (ensureCatalogs s) (\<lambda>_.
     bind_res (scoped s account (cr_subAccountID req)) (\<lambda>sub.
     bind_res (resolve_order (sv_catalogs s) (req\<lparr>cr_subAccountID := sub\<rparr>) None ''orders.preview'' True) (\<lambda>(r, scales).
     PreviewOrderToProto (cd_enc env) (cd_dec env) (cd_time env) (cd_now env 0) r (os_Base scales) (os_Quote scales))))"

fun resolve_items ::
  "manager option \<Rightarrow> string option \<Rightarrow> create_order_request list \<Rightarrow> ((create_order_request \<times> order_scales) list) res" where
  "resolve_items c symbol [] = Inr []"
| "resolve_items c symbol (item # items) =
     bind_res (resolve_order c item symbol ''orders.batch_create'' (qty_IsSet (cr_maxQuoteDebit item))) (\<lambda>r.
     bind_res (resolve_items c symbol items) (\<lambda>rs. Inr (r # rs)))"

definition batch_create_request ::
  "codec_env \<Rightarrow> orders_service \<Rightarrow> account_scope \<Rightarrow> create_order_request list \<Rightarrow> string option \<Rightarrow> string option
    \<Rightarrow> string option \<Rightarrow> bool \<Rightarrow> batch_create_message res" where
  "batch_create_request env s account items subAccountID symbol requestID allowPartial =
     bind_res (ensureCatalogs s) (\<lambda>_.
     bind_res (scoped s account subAccountID) (\<lambda>sub.
     bind_res (resolve_items (sv_catalogs s) symbol items) (\<lambda>rs.
     BatchCreateOrdersToProto (cd_enc env) (cd_dec env) (cd_time env) (cd_now env) (cd_random env)
       (map fst rs) sub requestID allowPartial 0 0 (map snd rs))))"

record modify_params =
  mp_Symbol :: string
  mp_Key :: order_key
  mp_SubAccountID :: "string option"
  mp_RequestID :: "string option"
  mp_NewPrice :: "price_input option"
  mp_NewQty :: "qty_input option"
  mp_NewAttachedRisk :: "attached_risk_input option"
  mp_Behavior :: "string option"
  mp_NewClientOrderID :: "string option"

definition modify_request :: "codec_env \<Rightarrow> orders_service \<Rightarrow> account_scope \<Rightarrow> modify_params \<Rightarrow> modify_order_message res" where
  "modify_request env s account params =
     bind_res (ensureCatalogs s) (\<lambda>_.
     bind_res (scoped s account (mp_SubAccountID params)) (\<lambda>sub.
     bind_res (ResolveSymbolID (sv_catalogs s) (Some (mp_Symbol params)) None ''orders.modify'') (\<lambda>resolvedSymbolID.
     bind_res (QuantityScaleForSymbol (sv_catalogs s) (Some (mp_Symbol params))) (\<lambda>scale.
     ModifyOrderToProto (cd_enc env) (cd_dec env) (cd_random env) (mp_Symbol params) resolvedSymbolID (mp_Key params) sub
       (mp_RequestID params) (mp_NewPrice params) (mp_NewQty params) (mp_NewAttachedRisk params) (mp_Behavior params)
       (mp_NewClientOrderID params) scale))))"

definition batch_replace_request ::
  "codec_env \<Rightarrow> orders_service \<Rightarrow> account_scope \<Rightarrow> batch_replace_item list \<Rightarrow> string \<Rightarrow> string option \<Rightarrow> string option
    \<Rightarrow> batch_replace_message res" where
  "batch_replace_request env s account items symbol subAccountID requestID =
     bind_res (ensureCatalogs s) (\<lambda>_.
     bind_res (scoped s account subAccountID) (\<lambda>sub.
     bind_res (ResolveSymbolID (sv_catalogs s) (Some symbol) None ''batch_replace'') (\<lambda>symbolID.
     bind_res (QuantityScaleForSymbol (sv_catalogs s) (Some symbol)) (\<lambda>scale.
     BatchReplaceOrdersToProto (cd_enc env) (cd_dec env) (cd_random env) items symbolID sub requestID scale [symbol]))))"

definition batch_cancel_request ::
  "codec_env \<Rightarrow> orders_service \<Rightarrow> account_scope \<Rightarrow> batch_cancel_item list \<Rightarrow> string option \<Rightarrow> string option
    \<Rightarrow> batch_cancel_message res" where
  "batch_cancel_request env s account items subAccountID requestID =
     bind_res (scoped s account subAccountID) (\<lambda>sub.
     BatchCancelOrdersToProto (cd_enc env) (cd_dec env) (cd_random env) items sub requestID)"

record cancel_message =
  cn_key :: wire_key
  cn_symbolId :: u32
  cn_subaccountId :: "u64 option"

definition cancel_request ::
  "codec_env \<Rightarrow> orders_service \<Rightarrow> account_scope \<Rightarrow> order_key \<Rightarrow> string option \<Rightarrow> u32 option \<Rightarrow> string option \<Rightarrow> cancel_message res" where
  "cancel_request env s account key symbol symbolID subAccountID =
     (if symbol \<noteq> None \<and> symbolID \<noteq> None then Inl (ValidationError ''cancel accepts symbol or symbol_id, not both'')
      else if symbolID = Some 0 then Inl (ValidationError ''symbol_id must be non-zero when explicitly supplied'')
      else
        bind_res (ApplyOrderKeyToCancel (cd_enc env) (cd_dec env) key) (\<lambda>wire.
        bind_res (case symbolID of Some i \<Rightarrow> Inr i
            | None \<Rightarrow> if symbol \<noteq> None then ResolveSymbolID (sv_catalogs s) symbol None ''cancel'' else Inr 0) (\<lambda>market.
        bind_res (scoped_id env s account subAccountID) (\<lambda>sub.
        Inr \<lparr>cn_key = wire, cn_symbolId = market, cn_subaccountId = sub\<rparr>))))"

record cancel_all_params =
  ap_SubAccountID :: "string option"
  ap_Symbol :: "string option"
  ap_Symbols :: "string list"
  ap_SymbolIDs :: "u32 list"
  ap_Side :: "string option"
  ap_DryRun :: bool
  ap_RequestID :: "string option"

definition cancel_all_request :: "codec_env \<Rightarrow> orders_service \<Rightarrow> account_scope \<Rightarrow> cancel_all_params \<Rightarrow> cancel_all_message res" where
  "cancel_all_request env s account params =
     bind_res (scoped s account (ap_SubAccountID params)) (\<lambda>sub.
     bind_res (ResolveCancelAllSymbolIDs (sv_catalogs s) (ap_Symbol params) (ap_Symbols params) (ap_SymbolIDs params) ''orders.cancel_all'') (\<lambda>symbolIDs.
     CancelAllOrdersToProto (cd_enc env) (cd_dec env) (cd_random env) sub symbolIDs (ap_Side params) (ap_DryRun params) (ap_RequestID params)))"

definition cancel_after_request ::
  "codec_env \<Rightarrow> orders_service \<Rightarrow> account_scope \<Rightarrow> int \<Rightarrow> string option \<Rightarrow> string option \<Rightarrow> string option \<Rightarrow> string option
    \<Rightarrow> cancel_after_message res" where
  "cancel_after_request env s account timeoutSec subAccountID symbol side requestID =
     bind_res (scoped s account subAccountID) (\<lambda>sub.
     bind_res (ResolveOptionalSymbolID (sv_catalogs s) symbol None ''orders.cancel_all_after'') (\<lambda>resolvedSymbolID.
     CancelAllAfterToProto (cd_enc env) (cd_dec env) (cd_random env) sub timeoutSec
       (if resolvedSymbolID \<noteq> 0 then Some resolvedSymbolID else None) side requestID))"

section \<open>Reads\<close>

record open_orders_message =
  oo_subaccountId :: "u64 option"
  oo_pageToken :: string
  oo_limit :: "u32 option"
  oo_triggerId :: "u64 option"
  oo_includeAttachedRisk :: bool
  oo_includeAttachedRiskState :: bool

text \<open>An optional trigger filter; the empty text means none.\<close>

definition trigger_filter :: "codec_env \<Rightarrow> string option \<Rightarrow> (u64 option) res" where
  "trigger_filter env triggerID = (case triggerID of
       None \<Rightarrow> Inr None
     | Some t \<Rightarrow> if t = [] then Inr None else bind_res (IDToInt (cd_enc env) (cd_dec env) t ''trigger_id'') (\<lambda>i. Inr (Some i)))"

definition optional_text :: "string option \<Rightarrow> string" where
  "optional_text t = (case t of None \<Rightarrow> [] | Some x \<Rightarrow> x)"

definition list_open_request ::
  "codec_env \<Rightarrow> orders_service \<Rightarrow> account_scope \<Rightarrow> string option \<Rightarrow> string option \<Rightarrow> int option \<Rightarrow> bool \<Rightarrow> bool \<Rightarrow> string option
    \<Rightarrow> open_orders_message res" where
  "list_open_request env s account subAccountID pageToken limit risk riskState triggerID =
     bind_res (scoped_id env s account subAccountID) (\<lambda>sub.
     bind_res (ExplicitPaginationLimit limit ''limit'') (\<lambda>parsedLimit.
     bind_res (trigger_filter env triggerID) (\<lambda>trigger.
     Inr \<lparr>oo_subaccountId = sub, oo_pageToken = optional_text pageToken, oo_limit = parsedLimit, oo_triggerId = trigger,
       oo_includeAttachedRisk = risk, oo_includeAttachedRiskState = riskState\<rparr>)))"

record order_history_message = open_orders_message +
  oh_symbolId :: "u32 list"

definition list_history_request ::
  "codec_env \<Rightarrow> orders_service \<Rightarrow> account_scope \<Rightarrow> string option \<Rightarrow> string option \<Rightarrow> u32 option \<Rightarrow> string option \<Rightarrow> int \<Rightarrow> bool \<Rightarrow> bool
    \<Rightarrow> string option \<Rightarrow> order_history_message res" where
  "list_history_request env s account subAccountID symbol symbolID pageToken limit risk riskState triggerID =
     bind_res (PaginationLimit limit ''limit'') (\<lambda>parsedLimit.
     bind_res (scoped_id env s account subAccountID) (\<lambda>sub.
     bind_res (case symbolID of Some i \<Rightarrow> Inr [i]
         | None \<Rightarrow> if symbol \<noteq> None then bind_res (ResolveSymbolID (sv_catalogs s) symbol None ''list_history'') (\<lambda>i. Inr [i])
             else Inr []) (\<lambda>markets.
     bind_res (trigger_filter env triggerID) (\<lambda>trigger.
     Inr \<lparr>oo_subaccountId = sub, oo_pageToken = optional_text pageToken, oo_limit = Some parsedLimit, oo_triggerId = trigger,
       oo_includeAttachedRisk = risk, oo_includeAttachedRiskState = riskState, oh_symbolId = markets\<rparr>))))"

record get_order_options =
  go_IncludeExecutionHistory :: "bool option"
  go_Limit :: "u32 option"
  go_PageToken :: "string option"

record get_order_message =
  gm_key :: wire_key
  gm_subaccountId :: "u64 option"
  gm_includeExecutionHistory :: "bool option"
  gm_limit :: "u32 option"
  gm_pageToken :: string
  gm_includeAttachedRisk :: bool
  gm_includeAttachedRiskState :: bool

definition get_request ::
  "codec_env \<Rightarrow> orders_service \<Rightarrow> account_scope \<Rightarrow> order_key \<Rightarrow> string option \<Rightarrow> bool \<Rightarrow> bool \<Rightarrow> get_order_options list
    \<Rightarrow> get_order_message res" where
  "get_request env s account key subAccountID risk riskState opts =
     (if length opts > 1 then Inl (ValidationError ''orders.Get accepts at most one GetOrderOptions value'')
      else
        let options = (case opts of [] \<Rightarrow> \<lparr>go_IncludeExecutionHistory = None, go_Limit = None, go_PageToken = None\<rparr> | o' # _ \<Rightarrow> o') in
        if go_IncludeExecutionHistory options = Some False
          \<and> (go_Limit options \<noteq> None \<or> optional_text (go_PageToken options) \<noteq> [])
        then Inl (ValidationError ''orders.Get limit and page_token require include_execution_history'')
        else
          bind_res (scoped_id env s account subAccountID) (\<lambda>sub.
          bind_res (ApplyOrderKeyToGet (cd_enc env) (cd_dec env) key) (\<lambda>wire.
          Inr \<lparr>gm_key = wire, gm_subaccountId = sub, gm_includeExecutionHistory = go_IncludeExecutionHistory options,
            gm_limit = go_Limit options, gm_pageToken = optional_text (go_PageToken options),
            gm_includeAttachedRisk = risk, gm_includeAttachedRiskState = riskState\<rparr>)))"

record batch_status_message =
  bs_batchRequestId :: u64
  bs_subaccountId :: "u64 option"

definition batch_status_request ::
  "codec_env \<Rightarrow> orders_service \<Rightarrow> account_scope \<Rightarrow> string \<Rightarrow> string option \<Rightarrow> batch_status_message res" where
  "batch_status_request env s account batchRequestID subAccountID =
     bind_res (IDToInt (cd_enc env) (cd_dec env) batchRequestID ''batch_request_id'') (\<lambda>i.
     bind_res (scoped_id env s account subAccountID) (\<lambda>sub.
     Inr \<lparr>bs_batchRequestId = i, bs_subaccountId = sub\<rparr>))"
section \<open>What is sent\<close>

text \<open>A resolved order is the order given with one market of the catalog, and the scales are that market's.\<close>

lemma resolve_order_Inr:
  assumes "resolve_order (Some m) req fallback label needQuote = Inr (r, scales)" and "catalogs_reachable env m"
  obtains i market where "i \<noteq> 0" "SymbolForSymbolID m i = Some market" "SymbolIDForSymbol m market = Some i"
    "r = req\<lparr>cr_symbolID := Some i, cr_symbol := Some market\<rparr>"
    "cr_symbol req \<noteq> None \<Longrightarrow> cr_symbol req = Some market" "cr_symbolID req \<noteq> None \<Longrightarrow> cr_symbolID req = Some i"
    "cr_symbol req = None \<Longrightarrow> cr_symbolID req = None \<Longrightarrow> fallback = Some market"
    "BaseQuantityScaleForSymbol m market = Some (os_Base scales)"
    "needQuote \<Longrightarrow> QuoteQuantityScaleForSymbol m market = Some (os_Quote scales)"
proof -
  from assms(1) have market: "resolveOrderSymbolID (Some m) req fallback label = Inr r"
    and base: "quantityScaleForOrderWrite (Some m) (cr_symbol r) (cr_symbolID r) = Inr (os_Base scales)"
    and quote: "quoteQuantityScaleForOrderWrite (Some m) (cr_symbol r) (cr_symbolID r) needQuote = Inr (os_Quote scales)"
    by (auto simp: resolve_order_def bind_res_Inr_iff)
  let ?symbol = "if cr_symbol req = None \<and> cr_symbolID req = None then fallback else cr_symbol req"
  from market obtain i market where i: "ResolveSymbolID (Some m) ?symbol (cr_symbolID req) label = Inr i" "i \<noteq> 0"
    and s: "SymbolForSymbolID m i = Some market" and same: "cr_symbol req \<noteq> None \<longrightarrow> cr_symbol req = Some market"
    and r: "r = req\<lparr>cr_symbolID := Some i, cr_symbol := Some market\<rparr>"
    unfolding resolveOrderSymbolID_def Let_def
    by (elim bind_res_InrE refuse_InrE) (auto split: option.splits if_splits)
  note market_id = lookups_agree [OF spot_rows [OF assms(2)], THEN iffD2, OF s]
  from i(1) have given: "cr_symbolID req \<noteq> None \<Longrightarrow> cr_symbolID req = Some i"
    by (auto simp: ResolveSymbolID_def split: option.splits)
  have fallback: "fallback = Some market" if "cr_symbol req = None" "cr_symbolID req = None"
  proof -
    from that i(1) obtain t where t: "fallback = Some t" "SymbolIDForSymbol m t = Some i"
      by (auto simp: ResolveSymbolID_def split: option.splits)
    with lookups_agree [OF spot_rows [OF assms(2)], THEN iffD1, OF t(2)] s show ?thesis by simp
  qed
  from listed_row [OF spot_rows [OF assms(2)] market_id] obtain p where p: "pairForSymbolLocked m market = Some p"
    "pairForSymbolIDLocked m i = Some p" "pair_ok p" "pair_symbol p = market" by metis
  with base r have base_scale: "BaseQuantityScaleForSymbol m market = Some (os_Base scales)"
    by (auto simp: quantityScaleForOrderWrite_def BaseQuantityScaleForSymbolID_def split: option.splits if_splits)
  from quote r p have quote_scale: "QuoteQuantityScaleForSymbol m market = Some (os_Quote scales)" if needQuote
    using that by (auto simp: quoteQuantityScaleForOrderWrite_def QuoteQuantityScaleForSymbolID_def split: option.splits if_splits)
  from same have "cr_symbol req \<noteq> None \<Longrightarrow> cr_symbol req = Some market" by blast
  then show thesis by (rule that [OF i(2) s market_id r _ given fallback base_scale quote_scale])
qed

text \<open>What an order's intent says of the order that was asked for, in its market.\<close>

definition intent_asked :: "(string \<Rightarrow> int option) \<Rightarrow> manager \<Rightarrow> create_order_request \<Rightarrow> order_intent \<Rightarrow> bool" where
  "intent_asked parse_time m req i \<longleftrightarrow>
     (\<exists>market base quote. SymbolForSymbolID m (oi_symbolId i) = Some market \<and> SymbolIDForSymbol m market = Some (oi_symbolId i)
        \<and> (cr_symbol req = None \<or> cr_symbol req = Some market) \<and> (cr_symbolID req = None \<or> cr_symbolID req = Some (oi_symbolId i))
        \<and> BaseQuantityScaleForSymbol m market = Some base
        \<and> (qty_IsSet (cr_maxQuoteDebit req) \<longrightarrow> QuoteQuantityScaleForSymbol m market = Some quote)
        \<and> sizing_denotes req base quote (oi_sizing i))
     \<and> to_lower (cr_side req) = OrderSideName (oi_side i) \<and> to_lower (cr_orderType req) = exec_type (oi_execution i)
     \<and> price_sent (cr_price req) (exec_price (oi_execution i)) \<and> exec_postOnly (oi_execution i) = cr_postOnly req
     \<and> exec_expiry_ok parse_time req (oi_execution i)
     \<and> (exec_type (oi_execution i) = ''limit''
         \<longrightarrow> exec_tif (oi_execution i) = (case cr_tif req of None \<Rightarrow> ''gtc'' | Some t \<Rightarrow> to_lower t))"

lemma asked_market [simp]:
  "sizing_denotes (req\<lparr>cr_symbolID := sid, cr_symbol := market\<rparr>) base quote z = sizing_denotes req base quote z"
  "exec_expiry_ok parse_time (req\<lparr>cr_symbolID := sid, cr_symbol := market\<rparr>) x = exec_expiry_ok parse_time req x"
  "sizing_denotes (req\<lparr>cr_subAccountID := sub\<rparr>) base quote z = sizing_denotes req base quote z"
  "exec_expiry_ok parse_time (req\<lparr>cr_subAccountID := sub\<rparr>) x = exec_expiry_ok parse_time req x"
  by (cases z; cases x; simp add: sizing_denotes_def exec_expiry_ok_def expiry_text_def)+

lemma resolved_intent_asked:
  assumes "resolve_order (Some m) req fallback label needQuote = Inr (r, scales)" and "catalogs_reachable env m"
    and "OrderIntentToProto parse_time now r (os_Base scales) (os_Quote scales) = Inr i"
    and "qty_IsSet (cr_maxQuoteDebit req) \<Longrightarrow> needQuote"
    and "qi_hasScaled (cr_qty req) \<or> BaseQuantityScaleForSymbolID m (oi_symbolId i) \<noteq> Some 18"
  shows "intent_asked parse_time m req i"
proof (rule resolve_order_Inr [OF assms(1,2)])
  fix sid market
  assume r: "r = req\<lparr>cr_symbolID := Some sid, cr_symbol := Some market\<rparr>"
    and s: "SymbolForSymbolID m sid = Some market" "SymbolIDForSymbol m market = Some sid"
    and base: "BaseQuantityScaleForSymbol m market = Some (os_Base scales)"
    and quote: "needQuote \<Longrightarrow> QuoteQuantityScaleForSymbol m market = Some (os_Quote scales)"
    and given: "cr_symbol req \<noteq> None \<Longrightarrow> cr_symbol req = Some market" "cr_symbolID req \<noteq> None \<Longrightarrow> cr_symbolID req = Some sid"
  have sid: "oi_symbolId i = sid" using assms(3) by (rule OrderIntentToProto_Inr) (simp add: r)
  from listed_row [OF spot_rows [OF assms(2)] s(2)] obtain p where "pairForSymbolIDLocked m sid = Some p" "pair_ok p"
    "pair_symbol p = market" by metis
  then have "BaseQuantityScaleForSymbolID m sid = Some (os_Base scales)"
    using base by (simp add: BaseQuantityScaleForSymbolID_def pair_ok_def)
  with assms(5) sid have "qi_hasScaled (cr_qty r) \<or> os_Base scales \<noteq> 18" by (simp add: r)
  note asked = order_as_asked [OF assms(3) this]
  have "cr_symbol req = None \<or> cr_symbol req = Some market" "cr_symbolID req = None \<or> cr_symbolID req = Some sid"
    "qty_IsSet (cr_maxQuoteDebit req) \<longrightarrow> QuoteQuantityScaleForSymbol m market = Some (os_Quote scales)"
    using given quote assms(4) by blast+
  with asked show ?thesis
    using s base unfolding intent_asked_def sid
    by (intro conjI exI [of _ market] exI [of _ "os_Base scales"] exI [of _ "os_Quote scales"]) (simp_all add: r)
qed


definition sample_orders_service :: orders_service where
  "sample_orders_service = \<lparr>sv_catalogs = Some sample_manager, sv_default = None, sv_catalogError = None\<rparr>"

definition sample_codecs :: codec_env where
  "sample_codecs = \<lparr>cd_enc = (\<lambda>_. []), cd_dec = (\<lambda>_. None), cd_time = (\<lambda>_. Some 60000000000), cd_now = (\<lambda>_. 0), cd_random = []\<rparr>"

definition sample_bid :: create_order_request where
  "sample_bid = sample_request\<lparr>cr_symbol := None, cr_qty := QtyFromDecimal ''0.00000015''\<rparr>"

definition sample_placed :: create_order_message where
  "sample_placed = \<lparr>cm_subaccountId = None, cm_order = sample_intent\<lparr>oi_sizing := BaseQtyScaled 15\<rparr>\<rparr>"

lemma sample_market:
  "SymbolForSymbolID sample_manager 7 = Some ''BTC-USDC''" "BaseQuantityScaleForSymbolID sample_manager 7 = Some 8"
  by code_simp+

lemma sample_resolved:
  "resolve_order (Some sample_manager) sample_bid None label False
     = Inr (sample_bid\<lparr>cr_symbol := Some ''BTC-USDC''\<rparr>, \<lparr>os_Base = 8, os_Quote = 0\<rparr>)"
proof -
  have f: "cr_symbol sample_bid = None" "cr_symbolID sample_bid = Some 7" by (simp_all add: sample_bid_def sample_request_fields)
  then have "resolveOrderSymbolID (Some sample_manager) sample_bid None label
      = Inr (sample_bid\<lparr>cr_symbolID := Some 7, cr_symbol := Some ''BTC-USDC''\<rparr>)"
    using sample_market(1) by (simp add: resolveOrderSymbolID_def ResolveSymbolID_def)
  moreover have "sample_bid\<lparr>cr_symbolID := Some 7, cr_symbol := Some ''BTC-USDC''\<rparr> = sample_bid\<lparr>cr_symbol := Some ''BTC-USDC''\<rparr>"
    by (simp add: sample_bid_def sample_request_def)
  ultimately show ?thesis using sample_market(2) f
    by (simp add: resolve_order_def quantityScaleForOrderWrite_def quoteQuantityScaleForOrderWrite_def)
qed

lemma sample_bid_fields:
  "order_sizing_of (sample_bid\<lparr>cr_symbol := Some ''BTC-USDC''\<rparr>) BUY 8 0 ''BTC-USDC'' = Inr (BaseQtyScaled 15)"
  "order_price_of (sample_bid\<lparr>cr_symbol := Some ''BTC-USDC''\<rparr>) ''BTC-USDC'' = Inr (Some 20)"
  "order_fee_asset_of (sample_bid\<lparr>cr_symbol := Some ''BTC-USDC''\<rparr>) BUY = Inr BASE"
  "order_tif_of (sample_bid\<lparr>cr_symbol := Some ''BTC-USDC''\<rparr>) = Inr ''gtd''"
  by code_simp+

lemma sample_intent_placed:
  "OrderIntentToProto (\<lambda>_. Some 60000000000) 0 (sample_bid\<lparr>cr_symbol := Some ''BTC-USDC''\<rparr>) 8 0 = Inr (cm_order sample_placed)"
  using sample_bid_fields sample_intent_fields
  by (simp add: OrderIntentToProto_def sample_bid_def sample_placed_def sample_request_fields sample_intent_def orderSideToProto_def
      stp_mode_of_def limit_execution_of_def RiskPolicyToProto_def validateTrailingLimitForSide_def GetTrailingStop_def)

lemma sample_bid_sent: "create_request sample_codecs sample_orders_service sample_bid NoAccount = Inr sample_placed"
proof -
  have same: "sample_bid\<lparr>cr_subAccountID := None\<rparr> = sample_bid" by (simp add: sample_bid_def sample_request_def)
  moreover have "cr_subAccountID sample_bid = None"
    "qty_IsSet (cr_maxQuoteDebit sample_bid) = False"
    by (simp_all add: sample_bid_def sample_request_def qty_IsSet_def no_qty_def)
  ultimately show ?thesis using sample_intent_placed
    by (simp add: create_request_def sample_orders_service_def sample_codecs_def ensureCatalogs_def scoped_def ScopedSubAccountID_def
        ResolveSubAccountID_def same sample_resolved CreateOrderToProto_def optional_subaccount_def sample_placed_def)
qed


section \<open>What is canceled\<close>

text \<open>The markets that a cancel-all names by symbol: those that are not blank, trimmed.\<close>

definition named_markets :: "string option \<Rightarrow> string list \<Rightarrow> string list" where
  "named_markets symbol symbols = filter (\<lambda>s. s \<noteq> []) (map trim_space ((case symbol of None \<Rightarrow> [] | Some s \<Rightarrow> [s]) @ symbols))"

lemma resolve_symbol_Inr:
  "ResolveSymbolID cats (Some s) None label = Inr i \<longleftrightarrow> Option.bind cats (\<lambda>m. SymbolIDForSymbol m s) = Some i"
  by (auto simp: ResolveSymbolID_def split: option.splits)

lemma resolve_each_Inr:
  "resolve_each cats label ss = Inr is \<longleftrightarrow> map (\<lambda>s. Option.bind cats (\<lambda>m. SymbolIDForSymbol m s)) ss = map Some is"
proof (induction ss arbitrary: "is")
  case (Cons s ss)
  then show ?case by (cases "is") (auto simp: bind_res_Inr_iff resolve_symbol_Inr simp del: bind_eq_Some_conv)
qed auto

lemma first_seen_set: "set (first_seen seen is) = set is - set seen \<and> distinct (first_seen seen is)"
  by (induction seen "is" rule: first_seen.induct) auto

lemma cancel_all_ids:
  assumes "ResolveCancelAllSymbolIDs cats symbol symbols symbolIDs label = Inr r"
  shows "set r = set symbolIDs \<union> {i. \<exists>s \<in> set (named_markets symbol symbols). Option.bind cats (\<lambda>m. SymbolIDForSymbol m s) = Some i}"
    and "\<forall>s \<in> set (named_markets symbol symbols). Option.bind cats (\<lambda>m. SymbolIDForSymbol m s) \<noteq> None"
proof -
  let ?one = "case symbol of None \<Rightarrow> [] | Some s \<Rightarrow> trim_space s" and ?many = "filter (\<lambda>s. s \<noteq> []) (map trim_space symbols)"
  have named: "named_markets symbol symbols = (if ?one = [] then [] else [?one]) @ ?many"
    by (auto simp: named_markets_def split: option.splits)
  from assms obtain resolved where r: "r = first_seen [] resolved"
    and res: "(if symbolIDs \<noteq> []
           then if 0 \<in> set symbolIDs then Inl (ValidationError (label @ '' symbol_ids must be positive'')) else Inr symbolIDs
           else if ?one \<noteq> [] then bind_res (ResolveSymbolID cats (Some ?one) None (label @ '' symbol'')) (\<lambda>i. Inr [i])
           else resolve_each cats (label @ '' symbols'') ?many) = Inr resolved"
    and one: "(if ?one \<noteq> [] then 1 else 0) + (if ?many \<noteq> [] then 1 else 0) + (if symbolIDs \<noteq> [] then 1 else 0 :: nat) \<le> 1"
    unfolding ResolveCancelAllSymbolIDs_def Let_def
    by (elim refuse_InrE bind_res_InrE) (auto split: if_splits)
  have set_r: "set r = set resolved" using first_seen_set [of "[]" resolved] r by simp
  consider "symbolIDs \<noteq> []" "named_markets symbol symbols = []" | "symbolIDs = []" "?one \<noteq> []" "named_markets symbol symbols = [?one]"
    | "symbolIDs = []" "?one = []" "named_markets symbol symbols = ?many"
    using one named by (auto split: if_splits)
  then have "set resolved = set symbolIDs \<union> {i. \<exists>s \<in> set (named_markets symbol symbols). Option.bind cats (\<lambda>m. SymbolIDForSymbol m s) = Some i}
      \<and> (\<forall>s \<in> set (named_markets symbol symbols). Option.bind cats (\<lambda>m. SymbolIDForSymbol m s) \<noteq> None)"
  proof cases
    case 1
    with res show ?thesis by (auto split: if_splits)
  next
    case 2
    with res show ?thesis by (auto simp: bind_res_Inr_iff resolve_symbol_Inr simp del: bind_eq_Some_conv)
  next
    case 3
    with res have "map (\<lambda>s. Option.bind cats (\<lambda>m. SymbolIDForSymbol m s)) (named_markets symbol symbols) = map Some resolved"
      by (simp add: resolve_each_Inr)
    then have "(\<lambda>s. Option.bind cats (\<lambda>m. SymbolIDForSymbol m s)) ` set (named_markets symbol symbols) = Some ` set resolved"
      by (metis set_map)
    with 3(1) show ?thesis by (force simp del: bind_eq_Some_conv)
  qed
  with set_r show "set r = set symbolIDs \<union> {i. \<exists>s \<in> set (named_markets symbol symbols). Option.bind cats (\<lambda>m. SymbolIDForSymbol m s) = Some i}"
    and "\<forall>s \<in> set (named_markets symbol symbols). Option.bind cats (\<lambda>m. SymbolIDForSymbol m s) \<noteq> None" by auto
qed
text \<open>C39. A cancel-all cancels in exactly the markets that the call names, each once: an id given is sent, a symbol
  given is sent as its catalog id, none is dropped and none is zero; it reaches every market only when the call
  names none, and a symbol that is not in the catalog is refused rather than left out.\<close>

theorem cancel_all_scope_exact:
  assumes "cancel_all_request env s account params = Inr msg"
  shows "set (ca_symbolIds msg) = set (ap_SymbolIDs params) \<union>
      {i. \<exists>name \<in> set (named_markets (ap_Symbol params) (ap_Symbols params)). Option.bind (sv_catalogs s) (\<lambda>m. SymbolIDForSymbol m name) = Some i}
    \<and> distinct (ca_symbolIds msg) \<and> 0 \<notin> set (ca_symbolIds msg) \<and> length (ca_symbolIds msg) \<le> 100
    \<and> (ca_symbolIds msg = [] \<longleftrightarrow> ap_SymbolIDs params = [] \<and> named_markets (ap_Symbol params) (ap_Symbols params) = [])
    \<and> ca_dryRun msg = ap_DryRun params
    \<and> (case ap_Side params of None \<Rightarrow> ca_side msg = SIDE_UNSPECIFIED
        | Some side \<Rightarrow> ca_side msg \<noteq> SIDE_UNSPECIFIED \<and> to_lower side = OrderSideName (ca_side msg))"
proof -
  let ?names = "named_markets (ap_Symbol params) (ap_Symbols params)"
  from assms obtain sub ids where
    ids: "ResolveCancelAllSymbolIDs (sv_catalogs s) (ap_Symbol params) (ap_Symbols params) (ap_SymbolIDs params) ''orders.cancel_all'' = Inr ids"
    and sent: "CancelAllOrdersToProto (cd_enc env) (cd_dec env) (cd_random env) sub ids (ap_Side params) (ap_DryRun params) (ap_RequestID params) = Inr msg"
    by (auto simp: cancel_all_request_def bind_res_Inr_iff)
  note given = cancel_all_ids [OF ids]
  have none: "ids = [] \<longleftrightarrow> ap_SymbolIDs params = [] \<and> ?names = []"
  proof
    assume "ids = []"
    with given show "ap_SymbolIDs params = [] \<and> ?names = []" by (cases ?names) (auto simp del: bind_eq_Some_conv)
  next
    assume "ap_SymbolIDs params = [] \<and> ?names = []"
    with given(1) show "ids = []" by simp
  qed
  show ?thesis unfolding given(1) [symmetric] none [symmetric] using cancel_all_symbols [OF sent] by blast
qed

definition sample_cancel :: cancel_all_params where
  "sample_cancel = \<lparr>ap_SubAccountID = None, ap_Symbol = None, ap_Symbols = ['' BTC-USDC '', ''BTC-USDC'', '' ''], ap_SymbolIDs = [],
     ap_Side = Some ''Sell'', ap_DryRun = False, ap_RequestID = Some ''r''\<rparr>"

theorem cancel_all_scope_exact_witness:
  "\<exists>msg. cancel_all_request sample_codecs sample_orders_service NoAccount sample_cancel = Inr msg \<and> ca_symbolIds msg \<noteq> [] \<and> distinct (ca_symbolIds msg)"
proof -
  let ?m = "\<lparr>ca_requestId = ''r'', ca_dryRun = False, ca_symbolIds = [7], ca_subaccountId = None, ca_side = SELL\<rparr>"
  have "CancelAllOrdersToProto (\<lambda>_. []) (\<lambda>_. None) [] None [7] (Some ''Sell'') False (Some ''r'') = Inr ?m" by code_simp
  moreover have "filter (\<lambda>s. s \<noteq> []) (map trim_space ['' BTC-USDC '', ''BTC-USDC'', '' '']) = [''BTC-USDC'', ''BTC-USDC'']" by code_simp
  ultimately have s: "cancel_all_request sample_codecs sample_orders_service NoAccount sample_cancel = Inr ?m"
    using sample_manager_lookup
    by (simp add: cancel_all_request_def scoped_def ScopedSubAccountID_def ResolveSubAccountID_def sample_cancel_def sample_orders_service_def
        sample_codecs_def ResolveCancelAllSymbolIDs_def Let_def resolve_symbol_Inr [THEN iffD2])
  from cancel_all_scope_exact [OF s] s show ?thesis by auto
qed

section \<open>Batches and modifications\<close>

lemma resolve_items_nth:
  "resolve_items c symbol items = Inr rs \<Longrightarrow> length rs = length items
    \<and> (\<forall>k < length items. resolve_order c (items ! k) symbol ''orders.batch_create'' (qty_IsSet (cr_maxQuoteDebit (items ! k))) = Inr (rs ! k))"
proof (induction c symbol items arbitrary: rs rule: resolve_items.induct)
  case (2 c symbol item items)
  from 2(2) obtain r rest where "resolve_order c item symbol ''orders.batch_create'' (qty_IsSet (cr_maxQuoteDebit item)) = Inr r"
    "resolve_items c symbol items = Inr rest" "rs = r # rest" by (auto simp: bind_res_Inr_iff)
  with 2(1) show ?case by (auto simp: nth_Cons split: nat.splits)
qed simp

lemma resolved_market:
  assumes "resolve_order (Some m) req fallback label needQuote = Inr (r, scales)" and "catalogs_reachable env m"
    and "OrderIntentToProto parse_time now r base quote = Inr i" and "cr_symbol req = None" and "cr_symbolID req = None"
  shows "SymbolForSymbolID m (oi_symbolId i) = fallback"
  by (rule resolve_order_Inr [OF assms(1,2)]) (use assms(3-5) in \<open>auto elim!: OrderIntentToProto_Inr\<close>)


definition sample_batch_placed :: batch_create_message where
  "sample_batch_placed = \<lparr>bc_requestId = ''r'', bc_subaccountId = None, bc_items = [cm_order sample_placed]\<rparr>"

lemma sample_batch_placed_sent:
  "batch_create_request sample_codecs sample_orders_service NoAccount [sample_bid] None None (Some ''r'') False = Inr sample_batch_placed"
proof -
  have "qty_IsSet (cr_maxQuoteDebit sample_bid) = False"
    by (simp add: sample_bid_def sample_request_def qty_IsSet_def no_qty_def)
  then have rs: "resolve_items (Some sample_manager) None [sample_bid] = Inr [(sample_bid\<lparr>cr_symbol := Some ''BTC-USDC''\<rparr>, \<lparr>os_Base = 8, os_Quote = 0\<rparr>)]"
    by (simp add: sample_resolved)
  have r: "coalesceRequestID (Some ''r'') ''batch-create'' [] = Inr ''r''" by code_simp
  have "cr_subAccountID (sample_bid\<lparr>cr_symbol := Some ''BTC-USDC''\<rparr>) = None" by (simp add: sample_bid_def sample_request_def)
  then have "create_items (\<lambda>_. Some 60000000000) (\<lambda>_. 0) 0 0 [\<lparr>os_Base = 8, os_Quote = 0\<rparr>] 0 [] [sample_bid\<lparr>cr_symbol := Some ''BTC-USDC''\<rparr>]
      = Inr [cm_order sample_placed]"
    by (simp add: sample_intent_placed)
  with r rs show ?thesis
    by (simp add: batch_create_request_def sample_orders_service_def sample_codecs_def ensureCatalogs_def scoped_def ScopedSubAccountID_def
        ResolveSubAccountID_def BatchCreateOrdersToProto_def validateBatchSize_def MaxBatchOrderItems_def ParseOptionalSubaccountID_def
        sample_batch_placed_def del: resolve_items.simps create_items.simps)
qed



definition sample_change :: modify_params where
  "sample_change = \<lparr>mp_Symbol = ''BTC-USDC'', mp_Key = OrderKeyByClientID ''c'', mp_SubAccountID = None, mp_RequestID = Some ''r'',
     mp_NewPrice = Some (PriceFromTicks \<lparr>pt_ticks = 20, pt_symbol = []\<rparr>), mp_NewQty = None, mp_NewAttachedRisk = None,
     mp_Behavior = Some ''amend_only'', mp_NewClientOrderID = None\<rparr>"

lemma sample_scale: "BaseQuantityScaleForSymbol sample_manager ''BTC-USDC'' = Some 8"
  by code_simp

lemma sample_change_sent: "modify_request sample_codecs sample_orders_service NoAccount sample_change = Inr sample_modify"
proof -
  have "new_price_of (Some (PriceFromTicks \<lparr>pt_ticks = 20, pt_symbol = []\<rparr>)) ''BTC-USDC'' = Inr (Some 20)" by code_simp
  then have "ModifyOrderToProto (\<lambda>_. []) (\<lambda>_. None) [] ''BTC-USDC'' 7 (OrderKeyByClientID ''c'') None (Some ''r'')
     (Some (PriceFromTicks \<lparr>pt_ticks = 20, pt_symbol = []\<rparr>)) None None (Some ''amend_only'') None 8 = Inr sample_modify"
    using sample_modify_fields
    by (simp add: ModifyOrderToProto_def sample_modify_def new_qty_of_def set_qty_def RiskPolicyToProto_def
        modifyBehaviorToProto_def optional_subaccount_def optionalClientID_def)
  with sample_manager_lookup sample_scale show ?thesis
    by (simp add: modify_request_def sample_change_def sample_orders_service_def sample_codecs_def ensureCatalogs_def scoped_def
        ScopedSubAccountID_def ResolveSubAccountID_def ResolveSymbolID_def QuantityScaleForSymbol_def)
qed


end
