(* ===== verification/TriggersService.thy ===== *)
theory TriggersService
  imports OrdersService TriggerEncode
begin

text \<open>
  \<open>services/triggers.go\<close>: each method up to the call, as in \<open>OrdersService\<close>; the label tables of
  \<open>codecs/decode/triggers.go\<close> that its filters use; and \<open>services/stop_all_trading.go\<close>, which lists and cancels
  triggers and then cancels orders, against a server that is an argument and has a state of its own.
\<close>

section \<open>Filters\<close>

datatype trigger_status = STATUS_CREATED | STATUS_ARMED | STATUS_RUNNING | STATUS_COMPLETED | STATUS_CANCELED | STATUS_FAILED
  | STATUS_PAUSED

datatype trigger_event_type = EVENT_UNSPECIFIED | EVENT_FIRED | EVENT_CANCELED | EVENT_UPDATED | EVENT_FAILED | EVENT_ACTIVATED
  | EVENT_ARMED | EVENT_FIRE_REFUSED

definition triggerStatusFromLabel :: "(string \<times> trigger_status) list" where
  "triggerStatusFromLabel = [(''created'', STATUS_CREATED), (''armed'', STATUS_ARMED), (''running'', STATUS_RUNNING),
     (''completed'', STATUS_COMPLETED), (''cancelled'', STATUS_CANCELED), (''canceled'', STATUS_CANCELED), (''failed'', STATUS_FAILED),
     (''paused'', STATUS_PAUSED)]"

definition triggerEventTypeFromLabel :: "(string \<times> trigger_event_type) list" where
  "triggerEventTypeFromLabel = [(''fired'', EVENT_FIRED), (''canceled'', EVENT_CANCELED), (''cancelled'', EVENT_CANCELED),
     (''updated'', EVENT_UPDATED), (''failed'', EVENT_FAILED), (''activated'', EVENT_ACTIVATED), (''armed'', EVENT_ARMED),
     (''fire_refused'', EVENT_FIRE_REFUSED)]"

text \<open>The argument \<open>quote\<close> is Go's quoting of a text (\<open>%q\<close>).\<close>

definition TriggerStatusFromLabel :: "(string \<Rightarrow> string) \<Rightarrow> string \<Rightarrow> trigger_status res" where
  "TriggerStatusFromLabel quote label = (case map_of triggerStatusFromLabel (to_lower (trim_space label)) of
       Some status \<Rightarrow> Inr status
     | None \<Rightarrow> Inl (PlainError (''invalid trigger status '' @ quote label
         @ ''; expected one of: created, armed, running, completed, cancelled, failed, paused'')))"

definition TriggerEventTypeFromLabel :: "(string \<Rightarrow> string) \<Rightarrow> string \<Rightarrow> trigger_event_type res" where
  "TriggerEventTypeFromLabel quote label = (case map_of triggerEventTypeFromLabel (to_lower (trim_space label)) of
       Some eventType \<Rightarrow> Inr eventType
     | None \<Rightarrow> Inl (PlainError (''invalid trigger event type '' @ quote label
         @ ''; expected one of: fired, canceled, updated, failed, activated, armed, fire_refused'')))"

fun statuses_of :: "(string \<Rightarrow> string) \<Rightarrow> string list \<Rightarrow> (trigger_status list) res" where
  "statuses_of quote [] = Inr []"
| "statuses_of quote (label # labels) =
     bind_res (TriggerStatusFromLabel quote label) (\<lambda>st. bind_res (statuses_of quote labels) (\<lambda>sts. Inr (st # sts)))"

section \<open>Requests\<close>

record list_triggers_message =
  lt_limit :: u32
  lt_pageToken :: string
  lt_subaccountId :: "u64 option"
  lt_symbolId :: u32
  lt_status :: "trigger_status list"

text \<open>The sub-account of a call, as these methods read it: the one in scope, parsed when there is one.\<close>

definition scoped_account :: "codec_env \<Rightarrow> orders_service \<Rightarrow> account_scope \<Rightarrow> string option \<Rightarrow> (u64 option) res" where
  "scoped_account env s account subAccountID =
     bind_res (scoped s account subAccountID) (\<lambda>sub. ParseOptionalSubaccountID (cd_enc env) (cd_dec env) sub)"

definition list_triggers_request ::
  "codec_env \<Rightarrow> (string \<Rightarrow> string) \<Rightarrow> orders_service \<Rightarrow> account_scope \<Rightarrow> string option \<Rightarrow> string option \<Rightarrow> string list \<Rightarrow> int \<Rightarrow> string option
    \<Rightarrow> list_triggers_message res" where
  "list_triggers_request env quote s account subAccountID symbol status limit pageToken =
     bind_res (PaginationLimit limit ''limit'') (\<lambda>parsedLimit.
     bind_res (scoped_account env s account subAccountID) (\<lambda>sub.
     bind_res (ResolveOptionalSymbolID (sv_catalogs s) symbol None ''triggers.list'') (\<lambda>resolvedSymbolID.
     bind_res (statuses_of quote status) (\<lambda>sts.
     Inr \<lparr>lt_limit = parsedLimit, lt_pageToken = optional_text pageToken, lt_subaccountId = sub, lt_symbolId = resolvedSymbolID,
       lt_status = sts\<rparr>))))"

text \<open>\<open>Get\<close>, \<open>Cancel\<close> and \<open>Pause\<close> name a trigger and an account; \<open>Resume\<close> also a market.\<close>

record trigger_message =
  tq_triggerId :: u64
  tq_subaccountId :: "u64 option"

definition trigger_request ::
  "codec_env \<Rightarrow> orders_service \<Rightarrow> account_scope \<Rightarrow> string \<Rightarrow> string option \<Rightarrow> trigger_message res" where
  "trigger_request env s account triggerID subAccountID =
     bind_res (IDToInt (cd_enc env) (cd_dec env) triggerID ''trigger_id'') (\<lambda>i.
     bind_res (scoped_account env s account subAccountID) (\<lambda>sub.
     Inr \<lparr>tq_triggerId = i, tq_subaccountId = sub\<rparr>))"

record resume_trigger_message = trigger_message +
  tq_symbolId :: u32

definition resume_request ::
  "codec_env \<Rightarrow> orders_service \<Rightarrow> account_scope \<Rightarrow> string \<Rightarrow> string option \<Rightarrow> string option \<Rightarrow> u32 option \<Rightarrow> resume_trigger_message res" where
  "resume_request env s account triggerID subAccountID symbol symbolID =
     bind_res (IDToInt (cd_enc env) (cd_dec env) triggerID ''trigger_id'') (\<lambda>i.
     bind_res (ResolveOptionalSymbolID (sv_catalogs s) symbol symbolID ''triggers.resume'') (\<lambda>resolvedSymbolID.
     bind_res (scoped_account env s account subAccountID) (\<lambda>sub.
     Inr \<lparr>tq_triggerId = i, tq_subaccountId = sub, tq_symbolId = resolvedSymbolID\<rparr>)))"

text \<open>The parameters of \<open>Create\<close> are an input of the encoder; its symbol id, account and scale are set here.\<close>

definition create_trigger_request ::
  "codec_env \<Rightarrow> orders_service \<Rightarrow> account_scope \<Rightarrow> create_trigger_input \<Rightarrow> create_trigger_message res" where
  "create_trigger_request env s account p =
     bind_res (ensureCatalogs s) (\<lambda>_.
     bind_res (scoped s account (tg_subAccountID p)) (\<lambda>sub.
     bind_res (QuantityScaleForSymbol (sv_catalogs s) (Some (tg_symbol p))) (\<lambda>scale.
     bind_res (ResolveSymbolID (sv_catalogs s) (Some (tg_symbol p)) None ''triggers.create'') (\<lambda>symbolID.
     CreateTriggerToProto (cd_enc env) (cd_dec env) (cd_random env)
       (p\<lparr>tg_symbolID := symbolID, tg_subAccountID := sub, tg_quantityScale := scale\<rparr>)))))"

definition modify_trigger_request ::
  "codec_env \<Rightarrow> orders_service \<Rightarrow> account_scope \<Rightarrow> string \<Rightarrow> string option \<Rightarrow> string option \<Rightarrow> u32 option \<Rightarrow> modify_trigger_options
    \<Rightarrow> modify_trigger_message res" where
  "modify_trigger_request env s account triggerID subAccountID symbol symbolID opts =
     bind_res (scoped s account subAccountID) (\<lambda>sub.
     bind_res (ResolveOptionalSymbolID (sv_catalogs s) symbol symbolID ''triggers.modify'') (\<lambda>resolvedSymbolID.
     ModifyTriggerToProto (cd_enc env) (cd_dec env) triggerID resolvedSymbolID sub opts))"

record trigger_events_message =
  te_triggerId :: u64
  te_limit :: u32
  te_subaccountId :: "u64 option"
  te_eventType :: trigger_event_type
  te_pageToken :: string

definition trigger_events_request ::
  "codec_env \<Rightarrow> (string \<Rightarrow> string) \<Rightarrow> orders_service \<Rightarrow> account_scope \<Rightarrow> string \<Rightarrow> string option \<Rightarrow> int \<Rightarrow> string option \<Rightarrow> string option
    \<Rightarrow> trigger_events_message res" where
  "trigger_events_request env quote s account triggerID subAccountID limit eventType pageToken =
     bind_res (IDToInt (cd_enc env) (cd_dec env) triggerID ''trigger_id'') (\<lambda>i.
     bind_res (PaginationLimit limit ''limit'') (\<lambda>parsedLimit.
     bind_res (scoped_account env s account subAccountID) (\<lambda>sub.
     bind_res (if optional_text eventType \<noteq> [] then TriggerEventTypeFromLabel quote (optional_text eventType) else Inr EVENT_UNSPECIFIED) (\<lambda>ty.
     Inr \<lparr>te_triggerId = i, te_limit = parsedLimit, te_subaccountId = sub, te_eventType = ty, te_pageToken = optional_text pageToken\<rparr>))))"

section \<open>Stopping all trading\<close>

definition stopAllTriggerPageLimit :: int where
  "stopAllTriggerPageLimit = 1000"

definition stopAllLiveTriggerStatuses :: "string list" where
  "stopAllLiveTriggerStatuses = [''created'', ''armed'', ''running'', ''paused'']"

text \<open>The calls it makes, on a server with a state: a list answers an error or the trigger ids of a page and the
  next page's token; a cancel answers and says whether the caller's context has ended by then.\<close>

record ('s, 'e, 'c, 'a) stop_server =
  sr_list :: "'s \<Rightarrow> string option \<Rightarrow> ('e + string list \<times> string) \<times> 's"
  sr_cancel :: "'s \<Rightarrow> string \<Rightarrow> ('e + 'c) \<times> bool \<times> 's"
  sr_cancelAll :: "'s \<Rightarrow> ('e + 'a) \<times> 's"

record ('e, 'c, 'a) stop_result =
  sp_CanceledTriggers :: "'c list"
  sp_FailedTriggers :: "(string \<times> 'e) list"
  sp_CancelAll :: "'a option"

datatype 'e stop_error = StopListing 'e | StopRepeatedToken | StopContext | StopCancelAll 'e | StopFailures "(string \<times> 'e) list"

fun add_unseen :: "string list \<Rightarrow> string list \<Rightarrow> string list" where
  "add_unseen triggerIDs [] = triggerIDs"
| "add_unseen triggerIDs (i # is) = add_unseen (if i \<in> set triggerIDs then triggerIDs else triggerIDs @ [i]) is"

partial_function (option) list_triggers ::
  "('s, 'e, 'c, 'a) stop_server \<Rightarrow> 's \<Rightarrow> string option \<Rightarrow> string list \<Rightarrow> string list \<Rightarrow> (('e stop_error + string list) \<times> 's) option" where
  "list_triggers srv s pageToken triggerIDs sentTokens =
     (case sr_list srv s pageToken of
        (Inl e, s1) \<Rightarrow> Some (Inl (StopListing e), s1)
      | (Inr (page, token), s1) \<Rightarrow>
          let ids = add_unseen triggerIDs page in
          if token = [] then Some (Inr ids, s1)
          else if token \<in> set sentTokens then Some (Inl StopRepeatedToken, s1)
          else list_triggers srv s1 (Some token) ids (token # sentTokens))"

fun cancel_each ::
  "('s, 'e, 'c, 'a) stop_server \<Rightarrow> 's \<Rightarrow> string list \<Rightarrow> ('e, 'c, 'a) stop_result \<Rightarrow> bool \<times> ('e, 'c, 'a) stop_result \<times> 's" where
  "cancel_each srv s [] result = (False, result, s)"
| "cancel_each srv s (i # is) result =
     (case sr_cancel srv s i of
        (Inl e, ctxEnded, s1) \<Rightarrow>
          if ctxEnded then (True, result, s1)
          else cancel_each srv s1 is (result\<lparr>sp_FailedTriggers := sp_FailedTriggers result @ [(i, e)]\<rparr>)
      | (Inr canceled, _, s1) \<Rightarrow>
          cancel_each srv s1 is (result\<lparr>sp_CanceledTriggers := sp_CanceledTriggers result @ [canceled]\<rparr>))"

definition StopAllTrading ::
  "('s, 'e, 'c, 'a) stop_server \<Rightarrow> 's \<Rightarrow> (('e, 'c, 'a) stop_result \<times> 'e stop_error option \<times> 's) option" where
  "StopAllTrading srv s =
     (let nothing = \<lparr>sp_CanceledTriggers = [], sp_FailedTriggers = [], sp_CancelAll = None\<rparr> in
      case list_triggers srv s None [] [] of
        None \<Rightarrow> None
      | Some (Inl e, s1) \<Rightarrow> Some (nothing, Some e, s1)
      | Some (Inr triggerIDs, s1) \<Rightarrow>
          (case cancel_each srv s1 triggerIDs nothing of
             (True, result, s2) \<Rightarrow> Some (result, Some StopContext, s2)
           | (False, result, s2) \<Rightarrow>
               (case sr_cancelAll srv s2 of
                  (Inl e, s3) \<Rightarrow> Some (result, Some (StopCancelAll e), s3)
                | (Inr a, s3) \<Rightarrow> Some (result\<lparr>sp_CancelAll := Some a\<rparr>,
                    (if sp_FailedTriggers result = [] then None else Some (StopFailures (sp_FailedTriggers result))), s3))))"
section \<open>What stopping does\<close>

text \<open>The same server, keeping a record of the calls made to it in order; a list call with the ids it answered.\<close>

datatype stop_call = ListCall "string list" | CancelCall string | CancelAllCall

definition logged :: "('s, 'e, 'c, 'a) stop_server \<Rightarrow> ('s \<times> stop_call list, 'e, 'c, 'a) stop_server" where
  "logged srv = \<lparr>sr_list = (\<lambda>(s, calls) token. case sr_list srv s token of (r, s1) \<Rightarrow>
         (r, s1, calls @ [ListCall (case r of Inl _ \<Rightarrow> [] | Inr (page, _) \<Rightarrow> page)])),
     sr_cancel = (\<lambda>(s, calls) i. case sr_cancel srv s i of (r, ended, s1) \<Rightarrow> (r, ended, s1, calls @ [CancelCall i])),
     sr_cancelAll = (\<lambda>(s, calls). case sr_cancelAll srv s of (r, s1) \<Rightarrow> (r, s1, calls @ [CancelAllCall]))\<rparr>"

lemma add_unseen_set: "set (add_unseen ids page) = set ids \<union> set page \<and> (distinct ids \<longrightarrow> distinct (add_unseen ids page))"
  by (induction ids page rule: add_unseen.induct) auto

text \<open>A server whose answers name only the page tokens of a finite set.\<close>

definition pages_within :: "string set \<Rightarrow> ('s, 'e, 'c, 'a) stop_server \<Rightarrow> bool" where
  "pages_within T srv \<longleftrightarrow> (\<forall>s token page new s1. sr_list srv s token = (Inr (page, new), s1) \<longrightarrow> new = [] \<or> new \<in> T)"

lemma list_triggers_returns:
  assumes "pages_within T srv" and "finite T"
  shows "list_triggers srv s token ids used \<noteq> None"
proof (induction "card (T - set used)" arbitrary: s token ids used rule: less_induct)
  case less
  show ?case
  proof (cases "sr_list srv s token")
    case (Pair r s1)
    show ?thesis
    proof (cases r)
      case (Inr p)
      then obtain page new where p: "sr_list srv s token = (Inr (page, new), s1)" using Pair by (cases p) auto
      show ?thesis
      proof (cases "new = [] \<or> new \<in> set used")
        case False
        with p assms(1) have "new \<in> T - set used" unfolding pages_within_def by blast
        then have "card (T - set (new # used)) < card (T - set used)" using assms(2) by (intro psubset_card_mono) auto
        from less [OF this] show ?thesis using p False by (subst list_triggers.simps) (simp add: Let_def)
      qed (use p in \<open>subst list_triggers.simps, auto simp: Let_def\<close>)
    qed (use Pair in \<open>subst list_triggers.simps, simp\<close>)
  qed
qed

text \<open>What listing called, and which ids it found.\<close>

lemma list_triggers_log:
  assumes "list_triggers (logged srv) (s, calls) token ids used = Some (r, s', calls')"
  shows "\<exists>pages. calls' = calls @ map ListCall pages
    \<and> (case r of Inl e \<Rightarrow> (\<exists>e'. e = StopListing e') \<or> e = StopRepeatedToken
       | Inr out \<Rightarrow> set out = set ids \<union> \<Union> (set ` set pages) \<and> (distinct ids \<longrightarrow> distinct out))"
  using assms
proof (induction "logged srv" "(s, calls)" token ids used "(r, s', calls')" arbitrary: s calls
    rule: list_triggers.raw_induct [rotated, consumes 1, case_names step])
  case (step f token ids used s calls)
  obtain a s1 where a: "sr_list srv s token = (a, s1)" by (cases "sr_list srv s token")
  show ?case
  proof (cases a)
    case (Inl e)
    with step(2) a show ?thesis by (auto simp: logged_def intro!: exI [of _ "[[]]"])
  next
    case (Inr p)
    then obtain page new where p: "sr_list srv s token = (Inr (page, new), s1)" using a by (cases p) auto
    show ?thesis
    proof (cases "new = [] \<or> new \<in> set used")
      case True
      with step(2) p add_unseen_set [of ids page] show ?thesis
        by (auto simp: logged_def Let_def intro!: exI [of _ "[page]"] split: if_splits)
    next
      case False
      with step(2) p have "f (logged srv) (s1, calls @ [ListCall page]) (Some new) (add_unseen ids page) (new # used) = Some (r, s', calls')"
        by (simp add: logged_def Let_def)
      from step(1) [OF this] obtain pages where
        "calls' = (calls @ [ListCall page]) @ map ListCall pages"
        "case r of Inl e \<Rightarrow> (\<exists>e'. e = StopListing e') \<or> e = StopRepeatedToken
          | Inr out \<Rightarrow> set out = set (add_unseen ids page) \<union> \<Union> (set ` set pages) \<and> (distinct (add_unseen ids page) \<longrightarrow> distinct out)"
        by auto
      with add_unseen_set [of ids page] show ?thesis
        by (intro exI [of _ "page # pages"]) (auto split: sum.splits)
    qed
  qed
qed
lemma logged_simps:
  "sr_cancel (logged srv) (s, calls) i = (case sr_cancel srv s i of (r, ended, s1) \<Rightarrow> (r, ended, s1, calls @ [CancelCall i]))"
  "sr_cancelAll (logged srv) (s, calls) = (case sr_cancelAll srv s of (r, s1) \<Rightarrow> (r, s1, calls @ [CancelAllCall]))"
  by (simp_all add: logged_def)

text \<open>What canceling called, and how it counts what came of it.\<close>

lemma cancel_each_log:
  "cancel_each (logged srv) (s, calls) ids result = (ended, result', s', calls') \<Longrightarrow>
    \<exists>n. calls' = calls @ map CancelCall (take n ids) \<and> sp_CancelAll result' = sp_CancelAll result
    \<and> (\<not> ended \<longrightarrow> take n ids = ids
        \<and> length (sp_CanceledTriggers result') + length (sp_FailedTriggers result')
            = length (sp_CanceledTriggers result) + length (sp_FailedTriggers result) + length ids
        \<and> set (map fst (sp_FailedTriggers result')) \<subseteq> set (map fst (sp_FailedTriggers result)) \<union> set ids)"
proof (induction ids arbitrary: s calls result)
  case (Cons i ids)
  obtain r ctx s1 where c: "sr_cancel srv s i = (r, ctx, s1)" by (cases "sr_cancel srv s i") auto
  show ?case
  proof (cases "isl r \<and> ctx")
    case True
    with Cons(2) c show ?thesis by (intro exI [of _ 1]) (auto simp: logged_simps split: sum.splits)
  next
    case False
    define result1 where "result1 = (case r of Inl e \<Rightarrow> result\<lparr>sp_FailedTriggers := sp_FailedTriggers result @ [(i, e)]\<rparr>
      | Inr x \<Rightarrow> result\<lparr>sp_CanceledTriggers := sp_CanceledTriggers result @ [x]\<rparr>)"
    have rest: "cancel_each (logged srv) (s1, calls @ [CancelCall i]) ids result1 = (ended, result', s', calls')"
      using Cons(2) c False by (cases r) (auto simp: logged_simps result1_def)
    have one: "length (sp_CanceledTriggers result1) + length (sp_FailedTriggers result1)
          = Suc (length (sp_CanceledTriggers result) + length (sp_FailedTriggers result))"
        "set (map fst (sp_FailedTriggers result1)) \<subseteq> insert i (set (map fst (sp_FailedTriggers result)))"
        "sp_CancelAll result1 = sp_CancelAll result"
      by (cases r; auto simp: result1_def)+
    from Cons.IH [OF rest] obtain n where "calls' = (calls @ [CancelCall i]) @ map CancelCall (take n ids)"
      "sp_CancelAll result' = sp_CancelAll result1"
      "\<not> ended \<longrightarrow> take n ids = ids
        \<and> length (sp_CanceledTriggers result') + length (sp_FailedTriggers result')
            = length (sp_CanceledTriggers result1) + length (sp_FailedTriggers result1) + length ids
        \<and> set (map fst (sp_FailedTriggers result')) \<subseteq> set (map fst (sp_FailedTriggers result1)) \<union> set ids" by blast
    note n = this
    have "set (map fst (sp_FailedTriggers result')) \<subseteq> set (map fst (sp_FailedTriggers result)) \<union> set (i # ids)" if "\<not> ended"
      using n(3) one(2) that unfolding list.set by blast
    with n one show ?thesis by (intro exI [of _ "Suc n"]) simp
  qed
qed simp


text \<open>C31. Stopping all trading returns, whatever the server answers, as long as it has finitely many page tokens to
  answer with: a token it was already sent ends the listing.\<close>

theorem stop_all_returns:
  assumes "pages_within T srv" and "finite T"
  shows "\<exists>result err s'. StopAllTrading srv s = Some (result, err, s')"
proof -
  from list_triggers_returns [OF assms, of s None "[]" "[]"] obtain r s1 where "list_triggers srv s None [] [] = Some (r, s1)"
    by auto
  then show ?thesis by (auto simp: StopAllTrading_def Let_def split: sum.splits prod.splits bool.splits)
qed

text \<open>Two pages that name each other, and a trigger that cannot be canceled.\<close>

definition looping_server :: "(unit, unit, unit, unit) stop_server" where
  "looping_server = \<lparr>sr_list = (\<lambda>s token. (Inr ([''t''], if token = Some ''b'' then ''a'' else ''b''), s)),
     sr_cancel = (\<lambda>s i. (Inr (), False, s)), sr_cancelAll = (\<lambda>s. (Inr (), s))\<rparr>"

theorem stop_all_returns_witness: "\<exists>result err s'. StopAllTrading looping_server () = Some (result, err, s')"
proof -
  have "pages_within {''a'', ''b''} looping_server" by (simp add: pages_within_def looping_server_def)
  from stop_all_returns [OF this] show ?thesis by simp
qed

definition two_pages :: "(unit, unit, string, unit) stop_server" where
  "two_pages = \<lparr>sr_list = (\<lambda>s token. (Inr (if token = None then ([''1'', ''2''], ''p2'') else ([''3'', ''1''], [])), s)),
     sr_cancel = (\<lambda>s i. (if i = ''2'' then Inl () else Inr i, False, s)), sr_cancelAll = (\<lambda>s. (Inr (), s))\<rparr>"

lemma two_pages_run:
  "StopAllTrading (logged two_pages) ((), []) = Some (\<lparr>sp_CanceledTriggers = [''1'', ''3''], sp_FailedTriggers = [(''2'', ())],
     sp_CancelAll = Some ()\<rparr>, Some (StopFailures [(''2'', ())]), (),
     [ListCall [''1'', ''2''], ListCall [''3'', ''1''], CancelCall ''1'', CancelCall ''2'', CancelCall ''3'', CancelAllCall])"
  by (simp add: StopAllTrading_def list_triggers.simps logged_def two_pages_def)


text \<open>The list call of a stop: the largest page, and the statuses of triggers that can still place an order.\<close>

lemma stop_all_statuses:
  "statuses_of quote stopAllLiveTriggerStatuses = Inr [STATUS_CREATED, STATUS_ARMED, STATUS_RUNNING, STATUS_PAUSED]"
  "PaginationLimit stopAllTriggerPageLimit ''limit'' = Inr 1000"
proof -
  have "map (\<lambda>l. map_of triggerStatusFromLabel (to_lower (trim_space l))) stopAllLiveTriggerStatuses
      = map Some [STATUS_CREATED, STATUS_ARMED, STATUS_RUNNING, STATUS_PAUSED]" by code_simp
  then show "statuses_of quote stopAllLiveTriggerStatuses = Inr [STATUS_CREATED, STATUS_ARMED, STATUS_RUNNING, STATUS_PAUSED]"
    by (simp add: stopAllLiveTriggerStatuses_def TriggerStatusFromLabel_def)
  show "PaginationLimit stopAllTriggerPageLimit ''limit'' = Inr 1000" by (simp add: PaginationLimit_def stopAllTriggerPageLimit_def)
qed

end
