(* ===== verification/Spec2Isabelle.thy ===== *)
theory Spec2Isabelle
  imports OrderTotals OrderKeys LocalBook Centrifugo Timing Subscriptions SnapshotStream PrivateOrders
    OrderbookService ChannelWorker OrderBatches TriggerEncode GatewayErrors Catalogs
    OrderWaits TriggersService
begin

text \<open>
  \<^bold>\<open>The program.\<close> \<open>polyester-sdk-go\<close> is the Go client of an exchange: requests are encoded and
  responses decoded by \<open>codecs\<close> and \<open>models\<close>, live data arrives over two kinds of WebSocket
  (\<open>realtime\<close>: a multiplexed protobuf channel protocol, and a private order stream with its own
  protocol), and \<open>services\<close> merge snapshots and live data for consumers.

  \<^bold>\<open>The theories.\<close>
  \<^item> \<open>Prelude\<close>: errors as values (\<open>res\<close>, \<open>bind_res\<close>), fixed-width integers, reachable states and
    the locale \<open>invariant_system\<close>; \<open>GoText\<close>: the text functions of Go's library the code uses.
  \<^item> \<open>Money\<close> (\<open>models/money.go\<close>), \<open>Scalars\<close> (\<open>codecs/scalars.go\<close>, \<open>codecs/money.go\<close>, identifiers of
    \<open>codecs/proto_helpers.go\<close>): prices, quantities and amounts between decimal text and scaled
    integers. Shown: each parser accepts exactly the decimals it should and computes the exact
    integer, printing is canonical and inverts parsing (locale \<open>fixed_point_codec\<close>), rescaling
    and amount resolution never round, and where two wrap-around defects are.
  \<^item> \<open>OrderTotals\<close> (\<open>models/order_totals.go\<close>): budget texts that add up exactly. \<open>OrderKeys\<close>
    (\<open>models/order_key.go\<close>, \<open>codecs/order_key.go\<close>, \<open>codecs/correlation_id.go\<close>): identifiers a
    client may choose and their encoding on three requests.
  \<^item> \<open>RiskEncode\<close> (\<open>codecs/attached_risk.go\<close>), \<open>OrderEncode\<close> (\<open>codecs/orders.go\<close>), \<open>OrderBatches\<close>
    (\<open>codecs/orders_batch.go\<close>), \<open>TriggerEncode\<close> (\<open>codecs/triggers.go\<close>): the encoders of order and trigger
    requests, from the caller's input to the wire message. Shown: what is sent satisfies the contract,
    says what was asked with exact numbers, loses no option, and a batch item is encoded as the
    single request would be.
  \<^item> \<open>ErrorCodes\<close> (the enum tables of \<open>gen\<close>), \<open>WireErrors\<close> (\<open>wire/errors.go\<close>, \<open>wire/contract_codes.go\<close>,
    the classification in \<open>errors/errors.go\<close>), \<open>GatewayErrors\<close> (\<open>transport/skew.go\<close>,
    \<open>errors/problem.go\<close>): what an answer means to the caller of a mutation. Shown: an unknown outcome
    is never reported as a refusal, silence or an unrecognised gateway answer is never taken for one,
    and a read retries only what is unavailable or unknown.
  \<^item> \<open>Catalogs\<close> (\<open>catalogs\<close>, \<open>models/zipper.go\<close>): the spot and zipper catalogs, as the states that
    hydration and supply patches reach. Shown: symbols and ids name each other, scales are bounded,
    constraints are exact, a patch changes supplies only; and two fields the checks do not cover.
  \<^item> \<open>ServiceScope\<close> (\<open>services/scope.go\<close>, \<open>symbols.go\<close>, \<open>pagination.go\<close>), \<open>OrdersService\<close>
    (\<open>services/orders.go\<close>), \<open>TriggersService\<close> (\<open>services/triggers.go\<close>, \<open>stop_all_trading.go\<close>): what a method of a
    service does with what the caller passes, up to the message that is sent, over \<open>Catalogs\<close> and the
    encoders. Shown: an order, a batch and a modification go to the market and account that were named, at
    that market's scales, as asked; a cancel-all names exactly the markets the call names; stopping all
    trading cancels triggers only after a complete listing and orders last, and returns. \<open>OrderWaits\<close>: the
    methods that poll; they return, and what they report was answered.
  \<^item> \<open>LocalBook\<close> (\<open>orderbook/local_book.go\<close>, \<open>codecs/orderbook.go\<close>): the order book under deltas, as
    a refinement of a map from prices to quantities, bucketing, rendering, depth tiers; locale
    \<open>sequenced_view\<close> for what replaying sequenced deltas needs.
  \<^item> \<open>Centrifugo\<close> (\<open>realtime/protocol.go\<close>): the wire codec of the channel protocol, read back and
    checked against an independent writer.
  \<^item> \<open>Timing\<close> (\<open>realtime/backoff.go\<close>, \<open>services/read_retry.go\<close>, \<open>auth/timestamps.go\<close>): bounds of
    delays, termination of the retry loop, strictly increasing signing timestamps.
  \<^item> \<open>Subscriptions\<close> (\<open>realtime/subscription.go\<close>, \<open>orderbook/subscription.go\<close>,
    \<open>marketoverview/subscription.go\<close>): one delivery contract, the locale \<open>bounded_subscription\<close>,
    interpreted for the three queues.
  \<^item> \<open>SnapshotStream\<close> (\<open>SnapshotThenStream\<close> of \<open>realtime/client.go\<close>): three goroutines as one step
    relation over atomic sections; publications are conserved in every interleaving.
  \<^item> \<open>Renewal\<close> (\<open>realtime/renewal.go\<close>): the timers and renewals of one connection's tokens as a step
    relation. \<open>SubaccountAccess\<close> (\<open>realtime/resubscribe.go\<close>): whether a subscription the server ended
    may resume, with its budget, the shared list request and its pacing.
  \<^item> \<open>ChannelClient\<close> (\<open>realtime/client.go\<close>): the registry of subscriptions, the handshake and the
    serving loop of one connection; what it received is what it queues. \<open>ChannelWorker\<close>: the
    goroutine of \<open>subscribeProto\<close> as a step relation; no silent end, no unpermitted reconnection.
  \<^item> \<open>PrivateOrders\<close> (\<open>realtime/private_orders.go\<close>, \<open>realtime/order_stream.go\<close>): the private order
    stream's lock-protected handlers as a step relation; one connection, no forgotten
    subscription, no frame applied out of sequence.
  \<^item> \<open>OrderbookService\<close> (\<open>services/orderbook.go\<close>): the managed order book over \<open>LocalBook\<close> and
    \<open>Subscriptions\<close>. This theory joins it with \<open>SnapshotStream\<close>.

  \<^bold>\<open>Conventions.\<close> A mutex-protected operation is a function from the state before the lock is taken
  to the state when it is released; goroutines are steps of an inductive relation, and what a
  goroutine holds between two sections is part of the state. Go's \<open>int\<close> and \<open>int64\<close> are \<open>int\<close> with
  \<open>wrap64\<close> where arithmetic can leave the range, \<open>uint32\<close> and \<open>uint64\<close> are words where bits matter. A
  Go map is an association list, so that iteration order can be stated irrelevant. Random
  numbers, clock readings, answers of the network and base58 are arguments.

  \<^bold>\<open>Bounds.\<close> The loops that need not end by their data, \<open>retryUnavailable\<close>, \<open>WaitBatchReplace\<close>,
  \<open>WaitForOrderTradesComplete\<close>, \<open>StopAllTrading\<close> and \<open>getOrderExecutionPages\<close>, are partial functions; the first
  four are proved to return under the conditions their theorems name, the last need not return. Varints are read by recursion on the bytes. Request counters are natural numbers
  (a client does not send \<open>2 ^ 64\<close> requests).

  \<^bold>\<open>Not modelled.\<close> Generated protobuf and Connect code (\<open>gen\<close>) beyond the messages and tables
  named above, the HTTP clients, interceptors and the JSON and gzip decoding of the transport,
  credentials and signing, the other services, their request encoders and all
  response decoders (field by field copies), the chain packages, the token endpoints (\<open>realtime/auth.go\<close>), sockets and
  clocks, and test utilities. The field names of a wire message are those of its generated
  accessors.
\<close>

section \<open>The managed book over the coordinator\<close>

text \<open>The coordinator calls the two apply callbacks of the service.\<close>

fun run_application :: "(orderbook_data, book_delta) application \<Rightarrow> book_service \<Rightarrow> book_service" where
  "run_application (Snapshot x ds) s = ApplySnapshot ds s"
| "run_application (Live ds) s = ApplyLivePublications ds s"

lemma replay_book_append:
  "fst (replay_book b (ds @ es)) = fst (replay_book (fst (replay_book b ds)) es)"
  by (induction ds arbitrary: b) (simp_all add: Let_def)

lemma run_live_closed:
  "ms_closed (bs_subscription s) \<Longrightarrow> fold run_application (map Live dss) s = s"
  by (induction dss arbitrary: s) (simp_all add: ApplyLivePublications_def fold_handleDelta_closed)

lemma run_live_replay:
  "\<not> ms_closed (bs_subscription (fold run_application (map Live dss) s)) \<Longrightarrow>
    bs_book (fold run_application (map Live dss) s) = fst (replay_book (bs_book s) (concat dss))"
proof (induction dss arbitrary: s)
  case (Cons ds dss)
  let ?s = "ApplyLivePublications ds s"
  have "\<not> ms_closed (bs_subscription ?s)" using Cons.prems run_live_closed [of ?s dss] by auto
  then have "bs_book ?s = fst (replay_book (bs_book s) ds)"
    using fold_handleDelta_replay unfolding ApplyLivePublications_def by blast
  with Cons show ?case by (simp add: replay_book_append)
qed simp


definition late_update :: book_delta where
  "late_update = \<lparr>bd_symbolID = 1, bd_bookSeqStart = ''13'', bd_bookSeqEnd = ''13'', bd_reset = False,
     bd_bids = [\<lparr>pq_priceTicks = 101, pq_qtyScaled = 2\<rparr>], bd_asks = []\<rparr>"


end
